(* ===== verification/Prelude.thy ===== *)
theory Prelude
  imports Main "HOL-Library.Word" "HOL-Library.AList" "HOL-Library.List_Lexorder"
    "HOL-Library.Char_ord" "HOL-Library.Multiset" "HOL-Library.Sublist"
begin

text \<open>
  Shared vocabulary of the development: Go's \<open>error\<close> values, early-return chains of
  validation checks, Go maps as association lists, fixed-width integers, and the generic
  lemmas on lists that several components use.

  A Go \<open>error\<close> is an option of \<open>go_error\<close>: \<open>None\<close> is \<open>nil\<close>.  \<open>Err t\<close> is an error made by
  \<open>errors.New\<close> or by \<open>fmt.Errorf\<close> without \<open>%w\<close>, identified by its constant text (formatted
  arguments are diagnostics and are left out), and \<open>Wrap t e\<close> is \<open>fmt.Errorf\<close> with \<open>%w\<close>.
\<close>

section \<open>Errors\<close>

datatype go_error = Err string | Wrap string go_error

type_synonym err = "go_error option"
type_synonym 'a res = "go_error + 'a"

text \<open>\<open>errors.Is\<close>: the error or one of the errors it wraps is the target.\<close>

fun errors_is :: "go_error \<Rightarrow> go_error \<Rightarrow> bool" where
  "errors_is (Err t) target \<longleftrightarrow> Err t = target"
| "errors_is (Wrap t e) target \<longleftrightarrow> Wrap t e = target \<or> errors_is e target"

definition fail_if :: "bool \<Rightarrow> 'e \<Rightarrow> 'e option" where
  "fail_if b e = (if b then Some e else None)"

definition wrap_err :: "string \<Rightarrow> err \<Rightarrow> err" where
  "wrap_err t r = map_option (Wrap t) r"

text \<open>A chain of \<open>if err := ...; err != nil { return err }\<close>: the first error wins.\<close>

fun first_err :: "'e option list \<Rightarrow> 'e option" where
  "first_err [] = None"
| "first_err (None # rs) = first_err rs"
| "first_err (Some e # rs) = Some e"

lemma fail_if_None [simp]: "fail_if b e = None \<longleftrightarrow> \<not> b"
  by (simp add: fail_if_def)

lemma fail_if_Some [simp]: "fail_if b e = Some e' \<longleftrightarrow> b \<and> e' = e"
  by (auto simp: fail_if_def)

lemma fail_if_simps [simp]: "fail_if True e = Some e" "fail_if False e = None"
  by (simp_all add: fail_if_def)

lemma wrap_err_None [simp]: "wrap_err t r = None \<longleftrightarrow> r = None"
  by (simp add: wrap_err_def)

lemma wrap_err_simps [simp]: "wrap_err t None = None" "wrap_err t (Some e) = Some (Wrap t e)"
  by (simp_all add: wrap_err_def)

lemma first_err_Cons: "first_err (r # rs) = (case r of None \<Rightarrow> first_err rs | Some e \<Rightarrow> Some e)"
  by (cases r) simp_all

lemma first_err_None [simp]: "first_err rs = None \<longleftrightarrow> (\<forall>r\<in>set rs. r = None)"
  by (induction rs) (auto simp: first_err_Cons split: option.splits)

lemma first_err_append: "first_err (xs @ ys) = (case first_err xs of None \<Rightarrow> first_err ys | Some e \<Rightarrow> Some e)"
  by (induction xs) (auto simp: first_err_Cons simp del: first_err_None split: option.splits)

lemma first_err_SomeD: "first_err rs = Some e \<Longrightarrow> Some e \<in> set rs"
  by (induction rs) (auto simp: first_err_Cons split: option.splits)

text \<open>Sequencing of a fallible computation (\<open>x, err := f(); if err != nil { return err }\<close>).\<close>

definition bind_res :: "'e + 'a \<Rightarrow> ('a \<Rightarrow> 'e + 'b) \<Rightarrow> 'e + 'b" where
  "bind_res r f = (case r of Inl e \<Rightarrow> Inl e | Inr a \<Rightarrow> f a)"

definition guard_res :: "'e option \<Rightarrow> 'e + 'a \<Rightarrow> 'e + 'a" where
  "guard_res r k = (case r of None \<Rightarrow> k | Some e \<Rightarrow> Inl e)"

lemma bind_res_simps [simp]: "bind_res (Inl e) f = Inl e" "bind_res (Inr a) f = f a"
  by (simp_all add: bind_res_def)

lemma bind_res_Inr: "bind_res r f = Inr b \<longleftrightarrow> (\<exists>a. r = Inr a \<and> f a = Inr b)"
  by (cases r) simp_all

lemma guard_res_simps [simp]: "guard_res None k = k" "guard_res (Some e) k = Inl e"
  by (simp_all add: guard_res_def)

lemma guard_res_Inr [simp]: "guard_res r k = Inr a \<longleftrightarrow> r = None \<and> k = Inr a"
  by (cases r) simp_all

section \<open>Go maps as association lists\<close>

text \<open>
  \<open>aget\<close>, \<open>aput\<close>, \<open>adel\<close> are \<open>m[k]\<close>, \<open>m[k] = v\<close> and \<open>delete(m, k)\<close>.  Key distinctness is an
  invariant; the enumeration order of a Go map is unspecified and no definition below lets a
  result depend on it.
\<close>

type_synonym ('k, 'v) gomap = "('k \<times> 'v) list"

definition aget :: "('k, 'v) gomap \<Rightarrow> 'k \<Rightarrow> 'v option" where
  "aget m k = map_of m k"

definition ahas :: "('k, 'v) gomap \<Rightarrow> 'k \<Rightarrow> bool" where
  "ahas m k \<longleftrightarrow> aget m k \<noteq> None"

definition aput :: "'k \<Rightarrow> 'v \<Rightarrow> ('k, 'v) gomap \<Rightarrow> ('k, 'v) gomap" where
  "aput k v m = AList.update k v m"

definition adel :: "'k \<Rightarrow> ('k, 'v) gomap \<Rightarrow> ('k, 'v) gomap" where
  "adel k m = AList.delete k m"

definition akeys :: "('k, 'v) gomap \<Rightarrow> 'k list" where
  "akeys m = map fst m"

definition map_ok :: "('k, 'v) gomap \<Rightarrow> bool" where
  "map_ok m \<longleftrightarrow> distinct (akeys m)"

lemma aget_Nil [simp]: "aget [] k = None"
  by (simp add: aget_def)

lemma aget_aput [simp]: "aget (aput k v m) k' = (if k' = k then Some v else aget m k')"
  by (simp add: aget_def aput_def update_conv)

lemma aget_adel [simp]: "aget (adel k m) k' = (if k' = k then None else aget m k')"
  by (simp add: aget_def adel_def delete_conv)

lemma ahas_simps [simp]: "ahas [] k = False" "ahas (aput k v m) k' \<longleftrightarrow> k' = k \<or> ahas m k'"
  "ahas (adel k m) k' \<longleftrightarrow> k' \<noteq> k \<and> ahas m k'"
  by (auto simp: ahas_def)

lemma map_ok_Nil [simp, intro]: "map_ok []"
  by (simp add: map_ok_def akeys_def)

lemma map_ok_aput [simp, intro]: "map_ok m \<Longrightarrow> map_ok (aput k v m)"
  by (simp add: map_ok_def akeys_def aput_def distinct_update)

lemma map_ok_adel [simp, intro]: "map_ok m \<Longrightarrow> map_ok (adel k m)"
  by (simp add: map_ok_def akeys_def adel_def distinct_delete)

lemma set_akeys: "set (akeys m) = {k. ahas m k}"
  by (auto simp: akeys_def ahas_def aget_def map_of_eq_None_iff)

lemma aget_SomeD: "aget m k = Some v \<Longrightarrow> (k, v) \<in> set m"
  by (simp add: aget_def map_of_SomeD)

lemma aget_iff: "map_ok m \<Longrightarrow> aget m k = Some v \<longleftrightarrow> (k, v) \<in> set m"
  by (simp add: aget_def map_ok_def akeys_def map_of_eq_Some_iff)

lemma aput_fresh: "\<not> ahas m k \<Longrightarrow> aput k v m = m @ [(k, v)]"
  by (induction m) (auto simp: aput_def ahas_def aget_def split: if_splits)

lemma length_aput: "length (aput k v m) = (if ahas m k then length m else Suc (length m))"
  by (induction m) (auto simp: aput_def ahas_def aget_def split: if_splits)

lemma aput_not_Nil [simp]: "aput k v m \<noteq> []"
  by (cases m) (auto simp: aput_def)

section \<open>Lists\<close>

lemma filter_subseq: "subseq (filter P xs) xs"
  by (rule subseq_filter_left)

lemma subseq_remove_slice: "subseq (take a xs @ drop b xs) xs" if "a \<le> b"
proof -
  have "drop b xs = drop (b - a) (drop a xs)" using that by simp
  then have "subseq (take a xs @ drop b xs) (take a xs @ drop a xs)"
    by (metis list_emb_append_mono suffix_drop suffix_imp_subseq subseq_order.order_refl)
  then show ?thesis by simp
qed

lemma subseq_set: "subseq xs ys \<Longrightarrow> set xs \<subseteq> set ys"
  by (auto simp: subseq_conv_nths dest: in_set_nthsD)

lemma subseq_distinct: "subseq xs ys \<Longrightarrow> distinct ys \<Longrightarrow> distinct xs"
  by (auto simp: subseq_conv_nths intro: distinct_nthsI)

lemma distinct_snoc [simp]: "distinct (xs @ [x]) \<longleftrightarrow> distinct xs \<and> x \<notin> set xs"
  by auto

section \<open>Fixed-width integers\<close>

type_synonym u64 = "64 word"
type_synonym u32 = "32 word"
type_synonym byte = "8 word"

text \<open>Go's \<open>int64\<close> and \<open>int\<close> (64-bit targets) are \<open>64 word\<close> read by \<open>sint\<close>: arithmetic wraps.\<close>

type_synonym i64 = "64 word"

definition i64_range :: "int \<Rightarrow> bool" where
  "i64_range x \<longleftrightarrow> - (2 ^ 63) \<le> x \<and> x < 2 ^ 63"

lemma sint_i64_range [simp, intro]: "i64_range (sint (x :: i64))"
  using sint_range_size [of x] by (simp add: i64_range_def word_size)

lemma sint_add_i64: "i64_range (sint x + sint y) \<Longrightarrow> sint (x + y :: i64) = sint x + sint y"
  by (simp add: sint_word_ariths i64_range_def signed_take_bit_int_eq_self)

lemma sint_sub_i64: "i64_range (sint x - sint y) \<Longrightarrow> sint (x - y :: i64) = sint x - sint y"
  by (simp add: sint_word_ariths i64_range_def signed_take_bit_int_eq_self)

end
