(* ===== verification/GoStd.thy ===== *)
theory GoStd
  imports Prelude
begin

text \<open>
  The fragments of Go's standard library that the modelled code calls: UTF-8 decoding and the
  rune classes of package \<open>unicode\<close>, \<open>strings.TrimSpace\<close>, \<open>strings.HasPrefix\<close>,
  \<open>strings.EqualFold\<close> against an ASCII text, anchored regular expressions of the shape
  "one character class, then a bounded run of another", \<open>encoding/hex\<close>, \<open>strconv\<close> for decimal
  numbers, \<open>utf8.Valid\<close>, \<open>path.Clean\<close>, sorted string sets and \<open>time.Time\<close>.  A Go string is a \<open>string\<close>: both are sequences of bytes.
\<close>

section \<open>Bytes and UTF-8\<close>

definition code :: "char \<Rightarrow> nat" where
  "code c = of_char c"

definition rune_error :: nat where
  "rune_error = 0xFFFD"

definition cont :: "nat \<Rightarrow> bool" where
  "cont b \<longleftrightarrow> 0x80 \<le> b \<and> b \<le> 0xBF"

text \<open>The admissible second byte after a leading byte of a multi-byte sequence.\<close>

definition second_ok :: "nat \<Rightarrow> nat \<Rightarrow> bool" where
  "second_ok b0 b1 \<longleftrightarrow>
     (if b0 = 0xE0 then 0xA0 \<le> b1 \<and> b1 \<le> 0xBF
      else if b0 = 0xED then 0x80 \<le> b1 \<and> b1 \<le> 0x9F
      else if b0 = 0xF0 then 0x90 \<le> b1 \<and> b1 \<le> 0xBF
      else if b0 = 0xF4 then 0x80 \<le> b1 \<and> b1 \<le> 0x8F
      else cont b1)"

text \<open>\<open>utf8.DecodeRune\<close>: the rune and its width; invalid input yields \<open>(RuneError, 1)\<close>.\<close>

definition decode_rune :: "nat list \<Rightarrow> nat \<times> nat" where
  "decode_rune bs =
     (case bs of
        [] \<Rightarrow> (rune_error, 0)
      | b0 # r0 \<Rightarrow>
          if b0 < 0x80 then (b0, 1)
          else if b0 < 0xC2 \<or> 0xF4 < b0 then (rune_error, 1)
          else (case r0 of
             [] \<Rightarrow> (rune_error, 1)
           | b1 # r1 \<Rightarrow>
               if \<not> second_ok b0 b1 then (rune_error, 1)
               else if b0 < 0xE0 then ((b0 - 0xC0) * 0x40 + (b1 - 0x80), 2)
               else (case r1 of
                  [] \<Rightarrow> (rune_error, 1)
                | b2 # r2 \<Rightarrow>
                    if \<not> cont b2 then (rune_error, 1)
                    else if b0 < 0xF0
                         then ((b0 - 0xE0) * 0x1000 + (b1 - 0x80) * 0x40 + (b2 - 0x80), 3)
                    else (case r2 of
                       [] \<Rightarrow> (rune_error, 1)
                     | b3 # _ \<Rightarrow>
                         if \<not> cont b3 then (rune_error, 1)
                         else ((b0 - 0xF0) * 0x40000 + (b1 - 0x80) * 0x1000
                                 + (b2 - 0x80) * 0x40 + (b3 - 0x80), 4)))))"

text \<open>The runes a \<open>for ... range\<close> loop over a string visits.\<close>

fun runes_of :: "nat list \<Rightarrow> nat list" where
  "runes_of [] = []"
| "runes_of (b # bs) =
     (let (r, n) = decode_rune (b # bs) in r # runes_of (drop (n - 1) bs))"

definition runes :: "string \<Rightarrow> nat list" where
  "runes s = runes_of (map code s)"

definition is_control :: "nat \<Rightarrow> bool" where
  "is_control r \<longleftrightarrow> r < 0x20 \<or> (0x7F \<le> r \<and> r \<le> 0x9F)"

definition is_space :: "nat \<Rightarrow> bool" where
  "is_space r \<longleftrightarrow> (9 \<le> r \<and> r \<le> 13) \<or> r = 0x20 \<or> r = 0x85 \<or> r = 0xA0 \<or> r = 0x1680
     \<or> (0x2000 \<le> r \<and> r \<le> 0x200A) \<or> r = 0x2028 \<or> r = 0x2029 \<or> r = 0x202F
     \<or> r = 0x205F \<or> r = 0x3000"

text \<open>\<open>utf8.DecodeLastRune\<close> looks back at most four bytes for the start of a sequence.\<close>

definition decode_last_rune :: "nat list \<Rightarrow> nat \<times> nat" where
  "decode_last_rune bs =
     (let n = length bs in
      if n = 0 then (rune_error, 0)
      else if last bs < 0x80 then (last bs, 1)
      else (case find (\<lambda>k. k \<le> n \<and> \<not> cont (bs ! (n - k))) [2, 3, 4] of
              None \<Rightarrow> (rune_error, 1)
            | Some k \<Rightarrow>
                (let (r, size) = decode_rune (drop (n - k) bs)
                 in if size = k then (r, size) else (rune_error, 1))))"

fun trim_left :: "nat list \<Rightarrow> nat list" where
  "trim_left [] = []"
| "trim_left (b # bs) =
     (let (r, n) = decode_rune (b # bs)
      in if is_space r then trim_left (drop (n - 1) bs) else b # bs)"

fun trim_right_fuel :: "nat \<Rightarrow> nat list \<Rightarrow> nat list" where
  "trim_right_fuel 0 bs = bs"
| "trim_right_fuel (Suc fuel) bs =
     (if bs = [] then []
      else (let (r, n) = decode_last_rune bs
            in if is_space r then trim_right_fuel fuel (take (length bs - n) bs) else bs))"

text \<open>\<open>strings.TrimSpace\<close>; every step removes a byte, so the length is enough fuel.\<close>

definition trim_bytes :: "nat list \<Rightarrow> nat list" where
  "trim_bytes bs = (let ls = trim_left bs in trim_right_fuel (length ls) ls)"

definition trimmed :: "string \<Rightarrow> bool" where
  "trimmed s \<longleftrightarrow> trim_bytes (map code s) = map code s"

definition blank :: "string \<Rightarrow> bool" where
  "blank s \<longleftrightarrow> trim_bytes (map code s) = []"

lemma trim_right_fuel_length: "length (trim_right_fuel fuel bs) \<le> length bs"
proof (induction fuel arbitrary: bs)
  case (Suc fuel)
  show ?case
    using Suc.IH [of "take (length bs - snd (decode_last_rune bs)) bs"]
    by (auto simp: case_prod_beta Let_def intro: le_trans)
qed simp

lemma decode_last_rune_pos: "bs \<noteq> [] \<Longrightarrow> 1 \<le> snd (decode_last_rune bs)"
  by (auto simp: decode_last_rune_def Let_def case_prod_beta split: option.splits)

text \<open>The fuel is enough: the loop of \<open>trimRightFunc\<close> has stopped at a non-space rune.\<close>

lemma trim_right_fuel_done:
  "length bs \<le> fuel \<Longrightarrow> trim_right_fuel fuel bs \<noteq> [] \<Longrightarrow>
     \<not> is_space (fst (decode_last_rune (trim_right_fuel fuel bs)))"
proof (induction fuel arbitrary: bs)
  case (Suc fuel)
  let ?r = "fst (decode_last_rune bs)" and ?t = "take (length bs - snd (decode_last_rune bs)) bs"
  show ?case
  proof (cases "bs = [] \<or> \<not> is_space ?r")
    case True
    with Suc.prems show ?thesis by (auto simp: case_prod_beta Let_def)
  next
    case False
    then have "length ?t \<le> fuel" using Suc.prems(1) decode_last_rune_pos [of bs] by auto
    with Suc.IH [of ?t] Suc.prems(2) False show ?thesis
      by (simp add: case_prod_beta Let_def)
  qed
qed simp

definition has_prefix :: "string \<Rightarrow> string \<Rightarrow> bool" where
  "has_prefix s p \<longleftrightarrow> take (length p) s = p"

lemma has_prefix_iff: "has_prefix s p \<longleftrightarrow> (\<exists>t. s = p @ t)"
  by (auto simp: has_prefix_def) (metis append_take_drop_id)

text \<open>\<open>strings.EqualFold\<close> with an ASCII right-hand side (simple case folding, with the two
  non-ASCII code points that fold to ASCII letters).\<close>

definition simple_fold :: "nat \<Rightarrow> nat" where
  "simple_fold r = (if 65 \<le> r \<and> r \<le> 90 then r + 32 else if r = 0x17F then 115
                    else if r = 0x212A then 107 else r)"

definition equal_fold :: "string \<Rightarrow> string \<Rightarrow> bool" where
  "equal_fold s t \<longleftrightarrow> map simple_fold (runes s) = map simple_fold (runes t)"

section \<open>Character classes and anchored patterns\<close>

definition is_lower :: "char \<Rightarrow> bool" where "is_lower c \<longleftrightarrow> 97 \<le> code c \<and> code c \<le> 122"
definition is_upper :: "char \<Rightarrow> bool" where "is_upper c \<longleftrightarrow> 65 \<le> code c \<and> code c \<le> 90"
definition is_digit :: "char \<Rightarrow> bool" where "is_digit c \<longleftrightarrow> 48 \<le> code c \<and> code c \<le> 57"
definition is_hex :: "char \<Rightarrow> bool" where
  "is_hex c \<longleftrightarrow> is_digit c \<or> (97 \<le> code c \<and> code c \<le> 102)"

lemmas char_class_defs = is_lower_def is_upper_def is_digit_def is_hex_def code_def

text \<open>The pattern \<open>^[h][t]{lo,hi}$\<close> over ASCII classes; Go's \<open>$\<close> is the end of the text.\<close>

definition class_match :: "(char \<Rightarrow> bool) \<Rightarrow> (char \<Rightarrow> bool) \<Rightarrow> nat \<Rightarrow> nat \<Rightarrow> string \<Rightarrow> bool" where
  "class_match h t lo hi s \<longleftrightarrow>
     (case s of [] \<Rightarrow> False
      | c # cs \<Rightarrow> h c \<and> list_all t cs \<and> lo \<le> length cs \<and> length cs \<le> hi)"

lemma class_match_nonempty: "class_match h t lo hi s \<Longrightarrow> s \<noteq> []"
  by (auto simp: class_match_def)

text \<open>A pattern with a fixed length: one class per position.\<close>

definition seq_match :: "(char \<Rightarrow> bool) list \<Rightarrow> string \<Rightarrow> bool" where
  "seq_match ps s \<longleftrightarrow> list_all2 (\<lambda>p c. p c) ps s"

lemma seq_match_length: "seq_match ps s \<Longrightarrow> length s = length ps"
  by (simp add: seq_match_def list_all2_lengthD)

lemma seq_match_Nil [simp]: "seq_match [] s \<longleftrightarrow> s = []"
  by (simp add: seq_match_def)

lemma seq_match_Cons [simp]: "seq_match (p # ps) (c # s) \<longleftrightarrow> p c \<and> seq_match ps s"
  by (simp add: seq_match_def)

lemma seq_match_append:
  "seq_match ps s \<Longrightarrow> seq_match qs t \<Longrightarrow> seq_match (ps @ qs) (s @ t)"
  by (simp add: seq_match_def list_all2_appendI)

lemma seq_match_replicate: "seq_match (replicate n p) s \<longleftrightarrow> length s = n \<and> list_all p s"
  by (auto simp: seq_match_def list_all2_conv_all_nth list_all_length)

lemma seq_match_all:
  "seq_match ps s \<Longrightarrow> (\<And>p c. p \<in> set ps \<Longrightarrow> p c \<Longrightarrow> Q c) \<Longrightarrow> c \<in> set s \<Longrightarrow> Q c"
  by (metis (mono_tags, lifting) in_set_conv_nth list_all2_conv_all_nth seq_match_def)

section \<open>Hexadecimal\<close>

definition hex_digit :: "nat \<Rightarrow> char" where
  "hex_digit n = (if n < 10 then char_of (48 + n) else char_of (87 + n))"

definition hex_byte :: "byte \<Rightarrow> string" where
  "hex_byte b = [hex_digit (unat b div 16), hex_digit (unat b mod 16)]"

definition hex_encode :: "byte list \<Rightarrow> string" where
  "hex_encode bs = concat (map hex_byte bs)"

lemma code_hex_digit: "n < 16 \<Longrightarrow> code (hex_digit n) = (if n < 10 then 48 + n else 87 + n)"
  by (simp add: hex_digit_def code_def)

lemma is_hex_hex_digit [simp]: "n < 16 \<Longrightarrow> is_hex (hex_digit n)"
  by (auto simp: is_hex_def is_digit_def code_hex_digit)

lemma unat_byte_div16 [simp]: "unat (b :: byte) div 16 < 16"
proof -
  have "unat b < 256" using unsigned_less [of b] by simp
  then show ?thesis by simp
qed

lemma list_all_hex_encode [simp]: "list_all is_hex (hex_encode bs)"
  by (induction bs) (auto simp: hex_encode_def hex_byte_def)

lemma length_hex_encode [simp]: "length (hex_encode bs) = 2 * length bs"
  by (induction bs) (auto simp: hex_encode_def hex_byte_def)

lemma hex_encode_Nil [simp]: "hex_encode [] = []"
  by (simp add: hex_encode_def)

lemma hex_encode_Cons: "hex_encode (b # bs) = hex_byte b @ hex_encode bs"
  by (simp add: hex_encode_def)

lemma hex_encode_append: "hex_encode (as @ bs) = hex_encode as @ hex_encode bs"
  by (simp add: hex_encode_def)

section \<open>Decimal numbers\<close>

text \<open>\<open>strconv.Itoa\<close> on a nonnegative number.\<close>

fun itoa :: "nat \<Rightarrow> string" where
  "itoa n = (if n < 10 then [char_of (48 + n)] else itoa (n div 10) @ [char_of (48 + n mod 10)])"

declare itoa.simps [simp del]

definition atoi :: "string \<Rightarrow> nat" where
  "atoi s = foldl (\<lambda>a c. 10 * a + (of_char c - 48)) 0 s"

lemma atoi_itoa: "atoi (itoa n) = n"
proof (induction n rule: itoa.induct)
  case (1 n)
  have d: "of_char (char_of (48 + m) :: char) = 48 + m" if "m < 10" for m :: nat
    using that by (simp add: of_char_of)
  show ?case
  proof (cases "n < 10")
    case True
    then show ?thesis by (simp add: itoa.simps atoi_def d)
  next
    case False
    with 1 have "atoi (itoa n) = 10 * (n div 10) + n mod 10"
      by (subst itoa.simps) (simp add: atoi_def d)
    then show ?thesis by simp
  qed
qed

text \<open>\<open>strconv.Itoa\<close> on any number, and the verb \<open>%06d\<close> on a nonnegative one.\<close>

definition itoa_int :: "int \<Rightarrow> string" where
  "itoa_int i = (if i < 0 then CHR ''-'' # itoa (nat (- i)) else itoa (nat i))"

definition pad6 :: "nat \<Rightarrow> string" where
  "pad6 n = replicate (6 - length (itoa n)) (CHR ''0'') @ itoa n"

lemma itoa_inject [simp]: "itoa m = itoa n \<longleftrightarrow> m = n"
  by (metis atoi_itoa)

lemma itoa_digits: "c \<in> set (itoa n) \<Longrightarrow> \<exists>d<10. c = char_of (48 + d :: nat)"
proof (induction n rule: itoa.induct)
  case (1 n)
  show ?case
  proof (cases "n < 10")
    case True
    with "1.prems" show ?thesis by (auto simp: itoa.simps [of n])
  next
    case False
    with "1.prems" have "c = char_of (48 + n mod 10) \<or> c \<in> set (itoa (n div 10))" by (auto simp: itoa.simps [of n])
    moreover have "n mod 10 < 10" by simp
    ultimately show ?thesis using "1.IH" [OF False] by blast
  qed
qed

lemma itoa_no_minus: "itoa n \<noteq> CHR ''-'' # s"
proof
  assume "itoa n = CHR ''-'' # s"
  then obtain d :: nat where d: "d < 10" "CHR ''-'' = char_of (48 + d)" using itoa_digits [of "CHR ''-''" n] by auto
  then have "of_char (CHR ''-'') = (of_char (char_of (48 + d) :: char) :: nat)" by simp
  with d(1) show False by (simp add: of_char_of)
qed

lemma itoa_int_inject [simp]: "itoa_int i = itoa_int j \<longleftrightarrow> i = j"
  using itoa_no_minus [of "nat i" "itoa (nat (- j))"] itoa_no_minus [of "nat j" "itoa (nat (- i))"]
  by (auto simp: itoa_int_def dest: sym)

lemma atoi_pad6 [simp]: "atoi (pad6 n) = n"
proof -
  have "atoi (replicate k (CHR ''0'') @ s) = atoi s" for k s by (induction k) (simp_all add: atoi_def)
  then show ?thesis by (simp add: pad6_def atoi_itoa)
qed

lemma pad6_inject [simp]: "pad6 m = pad6 n \<longleftrightarrow> m = n"
  by (metis atoi_pad6)

text \<open>\<open>strconv.ParseInt(s, 10, 64)\<close>: an optional sign and decimal digits, in the range of \<open>int64\<close>.\<close>

definition digits_value :: "string \<Rightarrow> int" where
  "digits_value ds = foldl (\<lambda>acc c. acc * 10 + (int (code c) - 48)) 0 ds"

definition ParseInt64 :: "string \<Rightarrow> int option" where
  "ParseInt64 s =
     (let (neg, ds) = (case s of c # cs \<Rightarrow> if c = CHR ''-'' then (True, cs) else if c = CHR ''+'' then (False, cs)
                          else (False, s) | [] \<Rightarrow> (False, []))
      in if ds = [] \<or> \<not> list_all is_digit ds then None
         else (let v = (if neg then - digits_value ds else digits_value ds)
               in if i64_range v then Some v else None))"

lemma ParseInt64_range: "ParseInt64 s = Some x \<Longrightarrow> i64_range x"
  by (simp add: ParseInt64_def Let_def split: prod.splits if_splits)

section \<open>Trimmed texts, valid texts and paths\<close>

text \<open>\<open>strings.TrimSpace\<close>.\<close>

definition trim_space :: "string \<Rightarrow> string" where
  "trim_space s = map char_of (trim_bytes (map code s))"

text \<open>\<open>utf8.Valid\<close>: no rune of the text is an encoding error, which \<open>DecodeRune\<close> reports with width one.\<close>

function utf8_valid_bytes :: "nat list \<Rightarrow> bool" where
  "utf8_valid_bytes bs =
     (if bs = [] then True
      else (let (r, n) = decode_rune bs in if r = rune_error \<and> n = 1 then False else utf8_valid_bytes (drop (max n 1) bs)))"
  by pat_completeness auto
termination by (relation "measure length") auto

declare utf8_valid_bytes.simps [simp del]

definition utf8_Valid :: "string \<Rightarrow> bool" where
  "utf8_Valid s = utf8_valid_bytes (map code s)"

lemma utf8_Valid_ascii: "\<forall>c\<in>set s. code c < 128 \<Longrightarrow> utf8_Valid s"
proof (induction s)
  case Nil
  then show ?case unfolding utf8_Valid_def by (subst utf8_valid_bytes.simps) simp
next
  case (Cons c s)
  then show ?case unfolding utf8_Valid_def by (subst utf8_valid_bytes.simps) (simp add: decode_rune_def rune_error_def)
qed

text \<open>A text whose first and last characters are visible ASCII characters is not trimmed.\<close>

lemma trim_visible:
  assumes "s \<noteq> []" "32 < code (hd s)" "code (hd s) < 128" "32 < code (last s)" "code (last s) < 128"
  shows "trim_bytes (map code s) = map code s" "trim_space s = s" "\<not> blank s"
proof -
  have sp: "\<not> is_space r" if "32 < r" "r < 128" for r using that by (simp add: is_space_def)
  have l: "trim_left (map code s) = map code s" using assms(1,2,3) sp by (cases s) (simp_all add: decode_rune_def)
  have "decode_last_rune (map code s) = (code (last s), 1)" using assms(1,5) by (simp add: decode_last_rune_def last_map)
  then have "trim_right_fuel (length s) (map code s) = map code s" using assms(1) sp [OF assms(4,5)] by (cases s) simp_all
  then show t: "trim_bytes (map code s) = map code s" by (simp add: trim_bytes_def l)
  show "trim_space s = s" by (simp add: trim_space_def t code_def o_def)
  show "\<not> blank s" using assms(1) by (simp add: blank_def t)
qed

text \<open>\<open>path.Clean\<close>: empty and dot elements are dropped, and a double dot removes the element before it.\<close>

fun slash_split :: "string \<Rightarrow> string list" where
  "slash_split [] = [[]]"
| "slash_split (c # cs) =
     (if c = CHR ''/'' then [] # slash_split cs
      else (case slash_split cs of [] \<Rightarrow> [[c]] | e # es \<Rightarrow> (c # e) # es))"

fun slash_join :: "string list \<Rightarrow> string" where
  "slash_join [] = []"
| "slash_join [e] = e"
| "slash_join (e # es) = e @ CHR ''/'' # slash_join es"

definition clean_step :: "bool \<Rightarrow> string \<Rightarrow> string list \<Rightarrow> string list" where
  "clean_step rooted e out =
     (if e = [] \<or> e = ''.'' then out
      else if e = ''..'' then
        (if out \<noteq> [] \<and> last out \<noteq> ''..'' then butlast out else if rooted then out else out @ [''..''])
      else out @ [e])"

definition path_Clean :: "string \<Rightarrow> string" where
  "path_Clean p =
     (let rooted = has_prefix p ''/''; out = slash_join (fold (clean_step rooted) (slash_split p) [])
      in if rooted then CHR ''/'' # out else if out = [] then ''.'' else out)"

section \<open>Sorting strings\<close>

text \<open>\<open>sort.Strings\<close> orders byte-wise, which is the list order over characters by code.\<close>

definition sort_strings :: "string list \<Rightarrow> string list" where
  "sort_strings xs = sort xs"

section \<open>Time\<close>

text \<open>
  A \<open>time.Time\<close> is the number of nanoseconds since its zero value, so \<open>IsZero\<close> is equality with
  0, \<open>Before\<close> is the order, and \<open>UTC\<close> (which changes only the display location) is the
  identity.  A \<open>time.Duration\<close> is an \<open>int64\<close> count of nanoseconds; \<open>Sub\<close> saturates there.
\<close>

type_synonym time = int
type_synonym duration = int

abbreviation is_zero :: "time \<Rightarrow> bool" where
  "is_zero t \<equiv> t = 0"

definition time_sub :: "time \<Rightarrow> time \<Rightarrow> duration" where
  "time_sub a b = max (- (2 ^ 63)) (min (2 ^ 63 - 1) (a - b))"

definition hour :: duration where
  "hour = 3600 * 1000000000"

lemma time_sub_mono: "a \<le> a' \<Longrightarrow> time_sub a b \<le> time_sub a' b"
  by (auto simp: time_sub_def)

lemma time_sub_ge: "w < 2 ^ 63 \<Longrightarrow> - (2 ^ 63) < w \<Longrightarrow> w \<le> time_sub a b \<longleftrightarrow> w \<le> a - b"
  by (auto simp: time_sub_def)

end
