(* ===== verification/Machines.thy ===== *)
theory Machines
  imports Prelude
begin

text \<open>
  The contract that the stateful components of the program share.  An operation of such a component
  takes the state and a request and returns the new state together with Go's \<open>error\<close>
  (\<open>None\<close> for \<open>nil\<close>).  The locales state what the components promise their callers: an invariant
  that every operation keeps, operations that leave the state alone when they fail, lifecycles
  that only move forward, and journals that only grow.  The theory of each component interprets
  the locales on its own definitions.
\<close>

primrec run :: "('s \<Rightarrow> 'e \<Rightarrow> 's \<times> 'x option) \<Rightarrow> 's \<Rightarrow> 'e list \<Rightarrow> 's" where
  "run step s [] = s"
| "run step s (e # es) = run step (fst (step s e)) es"

text \<open>A run in which every request succeeds; \<open>None\<close> when one is refused.\<close>

primrec run_all :: "('s \<Rightarrow> 'e \<Rightarrow> 's \<times> 'x option) \<Rightarrow> 's \<Rightarrow> 'e list \<Rightarrow> 's option" where
  "run_all step s [] = Some s"
| "run_all step s (e # es) =
     (case step s e of (s', None) \<Rightarrow> run_all step s' es | (_, Some _) \<Rightarrow> None)"

text \<open>The requests of a sequence that succeed.\<close>

primrec accepted :: "('s \<Rightarrow> 'e \<Rightarrow> 's \<times> 'x option) \<Rightarrow> 's \<Rightarrow> 'e list \<Rightarrow> 'e list" where
  "accepted step s [] = []"
| "accepted step s (e # es) =
     (if snd (step s e) = None then e # accepted step (fst (step s e)) es
      else accepted step (fst (step s e)) es)"

lemma run_append [simp]: "run step s (xs @ ys) = run step (run step s xs) ys"
  by (induction xs arbitrary: s) simp_all

lemma run_all_append:
  "run_all step s (xs @ ys) = Option.bind (run_all step s xs) (\<lambda>s'. run_all step s' ys)"
  by (induction xs arbitrary: s) (auto split: prod.splits option.splits)

lemma run_all_snoc:
  "run_all step s (xs @ [e]) = Some t \<longleftrightarrow> (\<exists>s'. run_all step s xs = Some s' \<and> step s' e = (t, None))"
  by (cases "run_all step s xs") (auto simp: run_all_append split: prod.splits option.splits)

lemma run_all_midE:
  assumes "run_all step s (pre @ e # post) = Some t"
  obtains s0 s1 where "run_all step s pre = Some s0" "step s0 e = (s1, None)"
    "run_all step s1 post = Some t"
  using assms by (cases "run_all step s pre") (auto simp: run_all_append split: prod.splits option.splits)

lemma run_all_run: "run_all step s es = Some t \<Longrightarrow> run step s es = t"
  by (induction es arbitrary: s) (auto split: prod.splits option.splits)

locale invariant_machine =
  fixes step :: "'s \<Rightarrow> 'e \<Rightarrow> 's \<times> 'x option"
    and invar :: "'s \<Rightarrow> bool"
  assumes invar_step: "invar s \<Longrightarrow> invar (fst (step s e))"
begin

lemma run_invar: "invar s \<Longrightarrow> invar (run step s es)"
  by (induction es arbitrary: s) (simp_all add: invar_step)

lemma run_all_invar: "invar s \<Longrightarrow> run_all step s es = Some t \<Longrightarrow> invar t"
  using run_invar run_all_run by metis

end

locale guarded_machine = invariant_machine +
  assumes step_atomic: "snd (step s e) \<noteq> None \<Longrightarrow> fst (step s e) = s"
begin

text \<open>Refused requests have no effect: they can be dropped from a history.\<close>

lemma run_accepted: "run step s (accepted step s es) = run step s es"
  by (induction es arbitrary: s) (auto simp: step_atomic)

lemma accepted_run_all: "run_all step s (accepted step s es) = Some (run step s es)"
proof (induction es arbitrary: s)
  case (Cons e es)
  show ?case
  proof (cases "snd (step s e)")
    case None
    then show ?thesis using Cons by (cases "step s e") simp
  next
    case (Some x)
    then have "fst (step s e) = s" by (simp add: step_atomic)
    with Some Cons show ?thesis by simp
  qed
qed simp

end

locale lifecycle_machine = invariant_machine +
  fixes rank :: "'a \<Rightarrow> nat"
  assumes rank_step: "invar s \<Longrightarrow> rank s \<le> rank (fst (step s e))"
begin

lemma run_rank: "invar s \<Longrightarrow> rank s \<le> rank (run step s es)"
proof (induction es arbitrary: s)
  case (Cons e es)
  from Cons.IH [OF invar_step [OF Cons.prems]] rank_step [OF Cons.prems]
  show ?case by (metis order.trans run.simps(2))
qed simp

text \<open>A stage that has been left is never entered again.\<close>

lemma run_rank_never_back:
  "invar s \<Longrightarrow> n < rank s \<Longrightarrow> rank (run step s es) \<noteq> n"
  using run_rank [of s es] by auto

end

locale journal_machine = invariant_machine +
  fixes log :: "'a \<Rightarrow> 'l list"
  assumes log_step: "invar s \<Longrightarrow> prefix (log s) (log (fst (step s e)))"
begin

lemma run_log: "invar s \<Longrightarrow> prefix (log s) (log (run step s es))"
proof (induction es arbitrary: s)
  case (Cons e es)
  from Cons.IH [OF invar_step [OF Cons.prems]] log_step [OF Cons.prems]
  show ?case by (metis prefix_order.trans run.simps(2))
qed simp

text \<open>A recorded entry keeps its position and its value.\<close>

lemma run_log_nth:
  assumes "invar s" "i < length (log s)"
  shows "i < length (log (run step s es)) \<and> log (run step s es) ! i = log s ! i"
proof -
  from run_log [OF assms(1)] obtain zs where "log (run step s es) = log s @ zs"
    by (auto simp: prefix_def)
  with assms(2) show ?thesis by (simp add: nth_append)
qed

end

text \<open>
  The interface on which a client of a budget relies: what a successful reservation holds is
  released by one commit of an admissible amount, whatever else the commit reports.
\<close>

locale reservation_ledger =
  fixes reserve :: "'l \<Rightarrow> 'u \<Rightarrow> 't \<Rightarrow> 'l \<times> ('x + 'h)"
    and commit :: "'l \<Rightarrow> 'h \<Rightarrow> 'u \<Rightarrow> 't \<Rightarrow> 'l \<times> 'x option"
    and held :: "'l \<Rightarrow> 'u"
    and admissible :: "'u \<Rightarrow> bool"
    and linv :: "'l \<Rightarrow> bool"
  assumes reserve_refused: "linv l \<Longrightarrow> reserve l u t = (l', Inl e) \<Longrightarrow> linv l' \<and> held l' = held l"
    and reserve_admissible: "reserve l u t = (l', Inr h) \<Longrightarrow> admissible u"
    and reserve_commit: "linv l \<Longrightarrow> reserve l u t = (l1, Inr h) \<Longrightarrow> admissible v \<Longrightarrow>
      linv (fst (commit l1 h v t')) \<and> held (fst (commit l1 h v t')) = held l"
begin

text \<open>A transaction that reserves and, when that succeeds, commits holds nothing afterwards.\<close>

definition transaction :: "'l \<Rightarrow> 'u \<Rightarrow> 't \<Rightarrow> 'u \<Rightarrow> 't \<Rightarrow> 'l" where
  "transaction l u t v t' = (case reserve l u t of (l1, Inl _) \<Rightarrow> l1 | (l1, Inr h) \<Rightarrow> fst (commit l1 h v t'))"

lemma transaction_settles:
  "linv l \<Longrightarrow> admissible v \<Longrightarrow> linv (transaction l u t v t') \<and> held (transaction l u t v t') = held l"
  using reserve_refused reserve_commit by (auto simp: transaction_def split: prod.splits sum.splits)

end

text \<open>A keyed store that never replaces or drops an entry.\<close>

locale write_once_store =
  fixes step :: "'s \<Rightarrow> 'e \<Rightarrow> 's \<times> 'x option"
    and look :: "'s \<Rightarrow> 'k \<Rightarrow> 'v option"
  assumes look_step: "look s k = Some v \<Longrightarrow> look (fst (step s e)) k = Some v"
begin

lemma look_run: "look s k = Some v \<Longrightarrow> look (run step s es) k = Some v"
  by (induction es arbitrary: s) (simp_all add: look_step)

end

end
