(* ===== verification/ResponseMachine.thy ===== *)
theory ResponseMachine
  imports GoStd Machines
begin

text \<open>
  Package \<open>statemachine\<close> (\<open>internal/statemachine/response.go\<close>): the validator of a typed
  Responses stream.  \<open>response_machine\<close> is \<open>Machine\<close>, \<open>item_state\<close> is \<open>itemState\<close>, and one
  definition per method follows the source's checks in order.  An operation returns the machine
  it leaves behind and the fault: \<open>Violation code\<close> for a \<open>*Violation\<close> (identified by its stable
  code; the \<open>Expected\<close>/\<open>Observed\<close> texts are diagnostics), \<open>Panic\<close> for a nil dereference.
  The empty event type of the source (no terminal event yet) is \<open>None\<close>.
\<close>

section \<open>Data\<close>

datatype event_type = ResponseCreated | ResponseInProgress | OutputItemAdded | ArgumentsDelta
  | ArgumentsDone | OutputItemDone | ToolResult | ResponseCompleted | ResponseFailed
  | ResponseIncomplete | OtherEvent string

record event =
  ev_Sequence :: u64
  ev_Type :: event_type
  ev_ItemID :: string
  ev_ItemKind :: string
  ev_OutputIndex :: int
  ev_CallID :: string
  ev_Delta :: string
  ev_Arguments :: string

datatype fault = Violation string | Panic

record item_state =
  it_kind :: string
  it_callID :: string
  it_arguments :: string
  it_argumentsDone :: bool
  it_done :: bool

record response_machine =
  rm_nextSequence :: u64
  rm_created :: bool
  rm_inProgress :: bool
  rm_terminal :: "event_type option"
  rm_items :: "(string, item_state) gomap"
  rm_indexes :: "(int, string) gomap"
  rm_calls :: "(string, string) gomap"
  rm_toolResults :: "(string, unit) gomap"

type_synonym rm_result = "response_machine \<times> fault option"

abbreviation violation :: "response_machine \<Rightarrow> string \<Rightarrow> rm_result" where
  "violation m c \<equiv> (m, Some (Violation c))"

section \<open>Operations\<close>

definition response_New :: response_machine where
  "response_New = \<lparr>rm_nextSequence = 1, rm_created = False, rm_inProgress = False,
     rm_terminal = None, rm_items = [], rm_indexes = [], rm_calls = [], rm_toolResults = []\<rparr>"

definition rm_create :: "response_machine \<Rightarrow> rm_result" where
  "rm_create m =
     (if rm_created m then violation m ''duplicate_response_created''
      else (m\<lparr>rm_created := True\<rparr>, None))"

definition rm_requireActive :: "response_machine \<Rightarrow> fault option" where
  "rm_requireActive m =
     (if \<not> rm_created m then Some (Violation ''event_before_response_created'') else None)"

definition rm_markInProgress :: "response_machine \<Rightarrow> rm_result" where
  "rm_markInProgress m =
     (case rm_requireActive m of Some f \<Rightarrow> (m, Some f) | None \<Rightarrow>
      if rm_inProgress m then violation m ''duplicate_in_progress''
      else if length (rm_items m) \<noteq> 0 then violation m ''in_progress_after_output''
      else (m\<lparr>rm_inProgress := True\<rparr>, None))"

definition rm_addItem :: "response_machine \<Rightarrow> event \<Rightarrow> rm_result" where
  "rm_addItem m e =
     (case rm_requireActive m of Some f \<Rightarrow> (m, Some f) | None \<Rightarrow>
      if ev_ItemID e = '''' \<or> ev_ItemKind e = '''' \<or> ev_OutputIndex e < 0
        then violation m ''invalid_output_item''
      else if ahas (rm_items m) (ev_ItemID e) then violation m ''duplicate_item_id''
      else if ahas (rm_indexes m) (ev_OutputIndex e) then violation m ''duplicate_output_index''
      else
        (let added = (\<lambda>m'. (m'\<lparr>rm_items := aput (ev_ItemID e)
                         \<lparr>it_kind = ev_ItemKind e, it_callID = ev_CallID e, it_arguments = '''',
                          it_argumentsDone = False, it_done = False\<rparr> (rm_items m'),
                       rm_indexes := aput (ev_OutputIndex e) (ev_ItemID e) (rm_indexes m')\<rparr>, None))
         in if ev_ItemKind e = ''function_call'' then
              (if ev_CallID e = '''' then violation m ''missing_call_id''
               else if ahas (rm_calls m) (ev_CallID e) then violation m ''duplicate_call_id''
               else added (m\<lparr>rm_calls := aput (ev_CallID e) (ev_ItemID e) (rm_calls m)\<rparr>))
            else if ev_CallID e \<noteq> '''' then violation m ''call_id_for_non_function_item''
            else added m))"

definition rm_openFunctionCall :: "response_machine \<Rightarrow> event \<Rightarrow> fault + item_state" where
  "rm_openFunctionCall m e =
     (case rm_requireActive m of Some f \<Rightarrow> Inl f | None \<Rightarrow>
      (case aget (rm_items m) (ev_ItemID e) of
         None \<Rightarrow> Inl (Violation ''unknown_item_reference'')
       | Some it \<Rightarrow>
           if it_done it then Inl (Violation ''event_for_closed_item'')
           else if it_kind it \<noteq> ''function_call'' then Inl (Violation ''arguments_for_non_function_item'')
           else if ev_CallID e \<noteq> '''' \<and> ev_CallID e \<noteq> it_callID it then Inl (Violation ''call_id_changed'')
           else Inr it))"

definition rm_addArguments :: "response_machine \<Rightarrow> event \<Rightarrow> rm_result" where
  "rm_addArguments m e =
     (case rm_openFunctionCall m e of Inl f \<Rightarrow> (m, Some f) | Inr it \<Rightarrow>
      if it_argumentsDone it then violation m ''arguments_delta_after_done''
      else (m\<lparr>rm_items := aput (ev_ItemID e)
                 (it\<lparr>it_arguments := it_arguments it @ ev_Delta e\<rparr>) (rm_items m)\<rparr>, None))"

definition rm_finishArguments :: "response_machine \<Rightarrow> event \<Rightarrow> rm_result" where
  "rm_finishArguments m e =
     (case rm_openFunctionCall m e of Inl f \<Rightarrow> (m, Some f) | Inr it \<Rightarrow>
      if it_argumentsDone it then violation m ''duplicate_arguments_done''
      else if ev_Arguments e \<noteq> it_arguments it then violation m ''arguments_reconstruction_mismatch''
      else (m\<lparr>rm_items := aput (ev_ItemID e) (it\<lparr>it_argumentsDone := True\<rparr>) (rm_items m)\<rparr>, None))"

definition rm_finishItem :: "response_machine \<Rightarrow> event \<Rightarrow> rm_result" where
  "rm_finishItem m e =
     (case rm_requireActive m of Some f \<Rightarrow> (m, Some f) | None \<Rightarrow>
      (case aget (rm_items m) (ev_ItemID e) of
         None \<Rightarrow> violation m ''unknown_item_reference''
       | Some it \<Rightarrow>
           if it_done it then violation m ''duplicate_output_item_done''
           else if it_kind it = ''function_call'' \<and> \<not> it_argumentsDone it
             then violation m ''function_item_done_before_arguments''
           else if ev_CallID e \<noteq> '''' \<and> ev_CallID e \<noteq> it_callID it
             then violation m ''call_id_changed''
           else (m\<lparr>rm_items := aput (ev_ItemID e) (it\<lparr>it_done := True\<rparr>) (rm_items m)\<rparr>, None)))"

definition rm_acceptToolResult :: "response_machine \<Rightarrow> event \<Rightarrow> rm_result" where
  "rm_acceptToolResult m e =
     (case rm_requireActive m of Some f \<Rightarrow> (m, Some f) | None \<Rightarrow>
      (case aget (rm_calls m) (ev_CallID e) of
         None \<Rightarrow> violation m ''tool_result_unknown_call''
       | Some itemID \<Rightarrow>
           (case aget (rm_items m) itemID of
              None \<Rightarrow> (m, Some Panic)
            | Some it \<Rightarrow>
                if \<not> it_done it then violation m ''tool_result_before_call_done''
                else if ahas (rm_toolResults m) (ev_CallID e) then violation m ''duplicate_tool_result''
                else (m\<lparr>rm_toolResults := aput (ev_CallID e) () (rm_toolResults m)\<rparr>, None))))"

definition rm_finishResponse :: "response_machine \<Rightarrow> event_type \<Rightarrow> rm_result" where
  "rm_finishResponse m terminal =
     (case rm_requireActive m of Some f \<Rightarrow> (m, Some f) | None \<Rightarrow>
      if terminal = ResponseCompleted \<and> \<not> list_all (\<lambda>(_, it). it_done it) (rm_items m)
        then violation m ''completed_with_open_item''
      else (m\<lparr>rm_terminal := Some terminal\<rparr>, None))"

definition rm_dispatch :: "response_machine \<Rightarrow> event \<Rightarrow> rm_result" where
  "rm_dispatch m e =
     (case ev_Type e of
        ResponseCreated \<Rightarrow> rm_create m
      | ResponseInProgress \<Rightarrow> rm_markInProgress m
      | OutputItemAdded \<Rightarrow> rm_addItem m e
      | ArgumentsDelta \<Rightarrow> rm_addArguments m e
      | ArgumentsDone \<Rightarrow> rm_finishArguments m e
      | OutputItemDone \<Rightarrow> rm_finishItem m e
      | ToolResult \<Rightarrow> rm_acceptToolResult m e
      | ResponseCompleted \<Rightarrow> rm_finishResponse m ResponseCompleted
      | ResponseFailed \<Rightarrow> rm_finishResponse m ResponseFailed
      | ResponseIncomplete \<Rightarrow> rm_finishResponse m ResponseIncomplete
      | OtherEvent _ \<Rightarrow> violation m ''unknown_semantic_event'')"

definition response_Apply :: "response_machine \<Rightarrow> event \<Rightarrow> rm_result" where
  "response_Apply m e =
     (if ev_Sequence e \<noteq> rm_nextSequence m then violation m ''non_monotonic_sequence''
      else if rm_terminal m \<noteq> None then violation m ''event_after_terminal''
      else (case rm_dispatch m e of
              (m', Some f) \<Rightarrow> (m', Some f)
            | (m', None) \<Rightarrow> (m'\<lparr>rm_nextSequence := rm_nextSequence m' + 1\<rparr>, None)))"

definition response_Finish :: "response_machine \<Rightarrow> fault option" where
  "response_Finish m =
     (if rm_terminal m = None then Some (Violation ''missing_terminal_event'') else None)"

definition ReconstructedArguments :: "response_machine \<Rightarrow> string \<Rightarrow> string option" where
  "ReconstructedArguments m itemID = map_option it_arguments (aget (rm_items m) itemID)"

named_theorems rm_op_defs
lemmas [rm_op_defs] = rm_create_def rm_markInProgress_def rm_addItem_def rm_addArguments_def
  rm_finishArguments_def rm_finishItem_def rm_acceptToolResult_def rm_finishResponse_def
  rm_openFunctionCall_def rm_requireActive_def rm_dispatch_def

section \<open>The lifecycle as a step relation\<close>

text \<open>
  The protocol that the machine enforces, one rule per accepted kind of event, free of the order
  in which the code makes its checks.  \<open>response_Apply_iff_step\<close> shows that the code accepts an
  event exactly when a rule allows it, and then moves as the rule says.
\<close>

definition rm_ready :: "response_machine \<Rightarrow> event \<Rightarrow> event_type \<Rightarrow> bool" where
  "rm_ready m e t \<longleftrightarrow>
     ev_Type e = t \<and> ev_Sequence e = rm_nextSequence m \<and> rm_terminal m = None"

definition rm_tick :: "response_machine \<Rightarrow> response_machine" where
  "rm_tick m = m\<lparr>rm_nextSequence := rm_nextSequence m + 1\<rparr>"

definition fresh_item :: "event \<Rightarrow> item_state" where
  "fresh_item e = \<lparr>it_kind = ev_ItemKind e, it_callID = ev_CallID e, it_arguments = [],
     it_argumentsDone = False, it_done = False\<rparr>"

definition same_call :: "event \<Rightarrow> item_state \<Rightarrow> bool" where
  "same_call e it \<longleftrightarrow> ev_CallID e = [] \<or> ev_CallID e = it_callID it"

definition terminal_types :: "event_type set" where
  "terminal_types = {ResponseCompleted, ResponseFailed, ResponseIncomplete}"

inductive resp_step :: "response_machine \<Rightarrow> event \<Rightarrow> response_machine \<Rightarrow> bool" where
  created: "rm_ready m e ResponseCreated \<Longrightarrow> \<not> rm_created m \<Longrightarrow>
     resp_step m e (rm_tick (m\<lparr>rm_created := True\<rparr>))"
| in_progress: "rm_ready m e ResponseInProgress \<Longrightarrow> rm_created m \<Longrightarrow> \<not> rm_inProgress m \<Longrightarrow>
     rm_items m = [] \<Longrightarrow> resp_step m e (rm_tick (m\<lparr>rm_inProgress := True\<rparr>))"
| add_call: "rm_ready m e OutputItemAdded \<Longrightarrow> rm_created m \<Longrightarrow> ev_ItemID e \<noteq> [] \<Longrightarrow>
     ev_ItemKind e = ''function_call'' \<Longrightarrow> 0 \<le> ev_OutputIndex e \<Longrightarrow>
     \<not> ahas (rm_items m) (ev_ItemID e) \<Longrightarrow> \<not> ahas (rm_indexes m) (ev_OutputIndex e) \<Longrightarrow>
     ev_CallID e \<noteq> [] \<Longrightarrow> \<not> ahas (rm_calls m) (ev_CallID e) \<Longrightarrow>
     resp_step m e (rm_tick (m\<lparr>rm_calls := aput (ev_CallID e) (ev_ItemID e) (rm_calls m),
       rm_items := aput (ev_ItemID e) (fresh_item e) (rm_items m),
       rm_indexes := aput (ev_OutputIndex e) (ev_ItemID e) (rm_indexes m)\<rparr>))"
| add_other: "rm_ready m e OutputItemAdded \<Longrightarrow> rm_created m \<Longrightarrow> ev_ItemID e \<noteq> [] \<Longrightarrow>
     ev_ItemKind e \<noteq> [] \<Longrightarrow> ev_ItemKind e \<noteq> ''function_call'' \<Longrightarrow> 0 \<le> ev_OutputIndex e \<Longrightarrow>
     \<not> ahas (rm_items m) (ev_ItemID e) \<Longrightarrow> \<not> ahas (rm_indexes m) (ev_OutputIndex e) \<Longrightarrow>
     ev_CallID e = [] \<Longrightarrow>
     resp_step m e (rm_tick (m\<lparr>rm_items := aput (ev_ItemID e) (fresh_item e) (rm_items m),
       rm_indexes := aput (ev_OutputIndex e) (ev_ItemID e) (rm_indexes m)\<rparr>))"
| delta: "rm_ready m e ArgumentsDelta \<Longrightarrow> rm_created m \<Longrightarrow>
     aget (rm_items m) (ev_ItemID e) = Some it \<Longrightarrow> \<not> it_done it \<Longrightarrow> it_kind it = ''function_call'' \<Longrightarrow>
     same_call e it \<Longrightarrow> \<not> it_argumentsDone it \<Longrightarrow>
     resp_step m e (rm_tick (m\<lparr>rm_items := aput (ev_ItemID e)
       (it\<lparr>it_arguments := it_arguments it @ ev_Delta e\<rparr>) (rm_items m)\<rparr>))"
| args_done: "rm_ready m e ArgumentsDone \<Longrightarrow> rm_created m \<Longrightarrow>
     aget (rm_items m) (ev_ItemID e) = Some it \<Longrightarrow> \<not> it_done it \<Longrightarrow> it_kind it = ''function_call'' \<Longrightarrow>
     same_call e it \<Longrightarrow> \<not> it_argumentsDone it \<Longrightarrow> ev_Arguments e = it_arguments it \<Longrightarrow>
     resp_step m e (rm_tick (m\<lparr>rm_items := aput (ev_ItemID e)
       (it\<lparr>it_argumentsDone := True\<rparr>) (rm_items m)\<rparr>))"
| item_done: "rm_ready m e OutputItemDone \<Longrightarrow> rm_created m \<Longrightarrow>
     aget (rm_items m) (ev_ItemID e) = Some it \<Longrightarrow> \<not> it_done it \<Longrightarrow>
     (it_kind it = ''function_call'' \<Longrightarrow> it_argumentsDone it) \<Longrightarrow> same_call e it \<Longrightarrow>
     resp_step m e (rm_tick (m\<lparr>rm_items := aput (ev_ItemID e) (it\<lparr>it_done := True\<rparr>) (rm_items m)\<rparr>))"
| tool_result: "rm_ready m e ToolResult \<Longrightarrow> rm_created m \<Longrightarrow>
     aget (rm_calls m) (ev_CallID e) = Some i \<Longrightarrow> aget (rm_items m) i = Some it \<Longrightarrow> it_done it \<Longrightarrow>
     \<not> ahas (rm_toolResults m) (ev_CallID e) \<Longrightarrow>
     resp_step m e (rm_tick (m\<lparr>rm_toolResults := aput (ev_CallID e) () (rm_toolResults m)\<rparr>))"
| terminal: "rm_ready m e t \<Longrightarrow> t \<in> terminal_types \<Longrightarrow> rm_created m \<Longrightarrow>
     (t = ResponseCompleted \<Longrightarrow> \<forall>(i, it) \<in> set (rm_items m). it_done it) \<Longrightarrow>
     resp_step m e (rm_tick (m\<lparr>rm_terminal := Some t\<rparr>))"

lemma rm_dispatch_step:
  assumes "rm_dispatch m e = (m', None)" and "ev_Sequence e = rm_nextSequence m" "rm_terminal m = None"
  shows "resp_step m e (rm_tick m')"
proof (cases "ev_Type e")
  case ResponseCreated
  with assms show ?thesis
    by (auto simp: rm_op_defs rm_ready_def split: if_splits intro: resp_step.created)
next
  case ResponseInProgress
  with assms show ?thesis
    by (auto simp: rm_op_defs rm_ready_def split: if_splits intro: resp_step.in_progress)
next
  case OutputItemAdded
  with assms show ?thesis
    by (auto simp: rm_op_defs rm_ready_def Let_def fresh_item_def [symmetric] split: if_splits
        intro: resp_step.add_call resp_step.add_other)
next
  case ArgumentsDelta
  with assms show ?thesis
    by (auto simp: rm_op_defs rm_ready_def same_call_def split: if_splits option.splits sum.splits
        intro!: resp_step.delta)
next
  case ArgumentsDone
  with assms show ?thesis
    by (auto simp: rm_op_defs rm_ready_def same_call_def split: if_splits option.splits sum.splits
        intro!: resp_step.args_done)
next
  case OutputItemDone
  with assms show ?thesis
    by (auto simp: rm_op_defs rm_ready_def same_call_def split: if_splits option.splits
        intro!: resp_step.item_done)
next
  case ToolResult
  with assms show ?thesis
    by (auto simp: rm_op_defs rm_ready_def split: if_splits option.splits
        intro!: resp_step.tool_result)
qed (use assms in \<open>auto simp: rm_op_defs rm_ready_def terminal_types_def list_all_iff
       split: if_splits option.splits intro!: resp_step.terminal\<close>)

lemma step_rm_dispatch: "resp_step m e m'' \<Longrightarrow> response_Apply m e = (m'', None)"
  by (induction rule: resp_step.induct)
     (auto simp: response_Apply_def rm_op_defs rm_ready_def rm_tick_def fresh_item_def same_call_def
        terminal_types_def list_all_iff Let_def)

lemma response_Apply_iff_step: "response_Apply m e = (m', None) \<longleftrightarrow> resp_step m e m'"
  using rm_dispatch_step [of m e] step_rm_dispatch [of m e m']
  by (auto simp: response_Apply_def rm_tick_def split: if_splits prod.splits option.splits)

section \<open>Invariant\<close>

definition items_inv :: "response_machine \<Rightarrow> bool" where
  "items_inv m \<longleftrightarrow>
     map_ok (rm_items m) \<and>
     (\<forall>i it. aget (rm_items m) i = Some it \<longrightarrow>
        (if it_kind it = ''function_call''
         then aget (rm_calls m) (it_callID it) = Some i \<and> (it_done it \<longrightarrow> it_argumentsDone it)
         else it_callID it = [] \<and> \<not> it_argumentsDone it))"

definition calls_inv :: "response_machine \<Rightarrow> bool" where
  "calls_inv m \<longleftrightarrow>
     (\<forall>c i. aget (rm_calls m) c = Some i \<longrightarrow>
        (\<exists>it. aget (rm_items m) i = Some it \<and> it_kind it = ''function_call'' \<and> it_callID it = c)) \<and>
     (\<forall>c. ahas (rm_toolResults m) c \<longrightarrow>
        (\<exists>i it. aget (rm_calls m) c = Some i \<and> aget (rm_items m) i = Some it \<and> it_done it))"

definition indexes_inv :: "response_machine \<Rightarrow> bool" where
  "indexes_inv m \<longleftrightarrow>
     (\<forall>n i. aget (rm_indexes m) n = Some i \<longrightarrow> 0 \<le> n \<and> ahas (rm_items m) i) \<and>
     (\<forall>i. ahas (rm_items m) i \<longrightarrow> (\<exists>n. aget (rm_indexes m) n = Some i)) \<and>
     (\<forall>n n' i. aget (rm_indexes m) n = Some i \<longrightarrow> aget (rm_indexes m) n' = Some i \<longrightarrow> n = n')"

definition phase_inv :: "response_machine \<Rightarrow> bool" where
  "phase_inv m \<longleftrightarrow>
     (\<not> rm_created m \<longrightarrow> rm_items m = [] \<and> \<not> rm_inProgress m \<and> rm_terminal m = None) \<and>
     (\<forall>t. rm_terminal m = Some t \<longrightarrow> t \<in> terminal_types) \<and>
     (rm_terminal m = Some ResponseCompleted \<longrightarrow> (\<forall>(i, it) \<in> set (rm_items m). it_done it))"

definition response_inv :: "response_machine \<Rightarrow> bool" where
  "response_inv m \<longleftrightarrow> items_inv m \<and> calls_inv m \<and> indexes_inv m \<and> phase_inv m"

lemma response_inv_New: "response_inv response_New"
  by (simp add: response_inv_def items_inv_def calls_inv_def indexes_inv_def phase_inv_def
      response_New_def)

lemma rm_tick_fields [simp]: "rm_items (rm_tick m) = rm_items m" "rm_calls (rm_tick m) = rm_calls m"
  "rm_indexes (rm_tick m) = rm_indexes m" "rm_toolResults (rm_tick m) = rm_toolResults m"
  "rm_created (rm_tick m) = rm_created m" "rm_inProgress (rm_tick m) = rm_inProgress m"
  "rm_terminal (rm_tick m) = rm_terminal m" "rm_nextSequence (rm_tick m) = rm_nextSequence m + 1"
  by (simp_all add: rm_tick_def)

lemma fresh_item_fields [simp]: "it_kind (fresh_item e) = ev_ItemKind e"
  "it_callID (fresh_item e) = ev_CallID e" "it_arguments (fresh_item e) = []"
  "\<not> it_argumentsDone (fresh_item e)" "\<not> it_done (fresh_item e)"
  by (simp_all add: fresh_item_def)

lemma items_inv_step: "resp_step m e m' \<Longrightarrow> calls_inv m \<Longrightarrow> items_inv m \<Longrightarrow> items_inv m'"
proof (induction rule: resp_step.induct)
  case (add_call m e)
  then show ?case by (fastforce simp: items_inv_def ahas_def)
qed (auto simp: items_inv_def ahas_def split: if_splits)

text \<open>Items keep their kind and their call, and a closed item stays closed.\<close>

definition items_extend :: "response_machine \<Rightarrow> response_machine \<Rightarrow> bool" where
  "items_extend m m' \<longleftrightarrow>
     (\<forall>i it. aget (rm_items m) i = Some it \<longrightarrow> (\<exists>it'. aget (rm_items m') i = Some it' \<and>
        it_kind it' = it_kind it \<and> it_callID it' = it_callID it \<and> (it_done it \<longrightarrow> it_done it')))"

lemma items_extendE:
  assumes "items_extend m m'" "aget (rm_items m) i = Some it"
  obtains it' where "aget (rm_items m') i = Some it'" "it_kind it' = it_kind it"
    "it_callID it' = it_callID it" "it_done it \<Longrightarrow> it_done it'"
  using assms unfolding items_extend_def by blast

lemma items_extend_step: "resp_step m e m' \<Longrightarrow> items_extend m m'"
  by (induction rule: resp_step.induct) (auto simp: items_extend_def ahas_def)

lemma calls_inv_call:
  assumes "calls_inv m" "aget (rm_calls m) c = Some i"
  obtains it where "aget (rm_items m) i = Some it" "it_kind it = ''function_call''" "it_callID it = c"
  using assms unfolding calls_inv_def by blast

lemma calls_inv_result:
  assumes "calls_inv m" "ahas (rm_toolResults m) c"
  obtains i it where "aget (rm_calls m) c = Some i" "aget (rm_items m) i = Some it" "it_done it"
  using assms unfolding calls_inv_def by blast

lemma calls_inv_grow:
  assumes inv: "calls_inv m" and ext: "items_extend m m'"
    and calls: "\<And>c i. aget (rm_calls m') c = Some i \<Longrightarrow> aget (rm_calls m) c = Some i \<or>
        (\<exists>it. aget (rm_items m') i = Some it \<and> it_kind it = ''function_call'' \<and> it_callID it = c)"
    and keep: "\<And>c i. aget (rm_calls m) c = Some i \<Longrightarrow> aget (rm_calls m') c = Some i"
    and results: "\<And>c. ahas (rm_toolResults m') c \<Longrightarrow> ahas (rm_toolResults m) c \<or>
        (\<exists>i it. aget (rm_calls m) c = Some i \<and> aget (rm_items m) i = Some it \<and> it_done it)"
  shows "calls_inv m'"
  unfolding calls_inv_def
proof (intro conjI allI impI)
  fix c i assume "aget (rm_calls m') c = Some i"
  then consider "aget (rm_calls m) c = Some i" |
    "\<exists>it. aget (rm_items m') i = Some it \<and> it_kind it = ''function_call'' \<and> it_callID it = c"
    using calls by blast
  then show "\<exists>it. aget (rm_items m') i = Some it \<and> it_kind it = ''function_call'' \<and> it_callID it = c"
    by cases (auto elim!: calls_inv_call [OF inv] items_extendE [OF ext])
next
  fix c assume "ahas (rm_toolResults m') c"
  then obtain i it where "aget (rm_calls m) c = Some i" "aget (rm_items m) i = Some it" "it_done it"
    using results calls_inv_result [OF inv] by blast
  then show "\<exists>i it. aget (rm_calls m') c = Some i \<and> aget (rm_items m') i = Some it \<and> it_done it"
    using keep by (blast elim: items_extendE [OF ext])
qed

lemma calls_inv_step:
  assumes step: "resp_step m e m'" and inv: "calls_inv m"
  shows "calls_inv m'"
  using inv items_extend_step [OF step]
proof (rule calls_inv_grow)
  fix c i assume "aget (rm_calls m') c = Some i"
  with step show "aget (rm_calls m) c = Some i \<or>
      (\<exists>it. aget (rm_items m') i = Some it \<and> it_kind it = ''function_call'' \<and> it_callID it = c)"
    by cases (auto split: if_splits)
next
  fix c i assume "aget (rm_calls m) c = Some i"
  with step show "aget (rm_calls m') c = Some i"
    by cases (auto simp: ahas_def)
next
  fix c assume "ahas (rm_toolResults m') c"
  with step show "ahas (rm_toolResults m) c \<or>
      (\<exists>i it. aget (rm_calls m) c = Some i \<and> aget (rm_items m) i = Some it \<and> it_done it)"
    by cases auto
qed

lemma indexes_inv_update:
  "indexes_inv m \<Longrightarrow> ahas (rm_items m) i \<Longrightarrow> indexes_inv (rm_tick (m\<lparr>rm_items := aput i it (rm_items m)\<rparr>))"
  by (auto simp: indexes_inv_def)

lemma indexes_inv_add:
  assumes inv: "indexes_inv m" and new: "\<not> ahas (rm_items m) i" "\<not> ahas (rm_indexes m) n" "0 \<le> n"
    and m': "rm_items m' = aput i it (rm_items m)" "rm_indexes m' = aput n i (rm_indexes m)"
  shows "indexes_inv m'"
proof -
  have old: "i' \<noteq> i \<and> n' \<noteq> n" if "aget (rm_indexes m) n' = Some i'" for n' i'
  proof -
    have "ahas (rm_items m) i'" using inv that unfolding indexes_inv_def by blast
    with new that show ?thesis by (auto simp: ahas_def)
  qed
  have "ahas (rm_items m) i' \<Longrightarrow> \<exists>n'. n' \<noteq> n \<and> aget (rm_indexes m) n' = Some i'" for i'
    using inv old unfolding indexes_inv_def by blast
  then have "ahas (rm_items m) i' \<Longrightarrow> \<exists>n'. aget (rm_indexes m') n' = Some i'" for i'
    unfolding m' by (metis aget_aput)
  moreover have "aget (rm_indexes m') n = Some i" by (simp add: m')
  ultimately show ?thesis
    using inv new(3) old unfolding indexes_inv_def m' by (auto split: if_splits)
qed

lemma indexes_inv_step: "resp_step m e m' \<Longrightarrow> indexes_inv m \<Longrightarrow> indexes_inv m'"
proof (induction rule: resp_step.induct)
  case (add_call m e)
  show ?case
    by (rule indexes_inv_add [where m = m and i = "ev_ItemID e" and n = "ev_OutputIndex e"
          and it = "fresh_item e"]) (use add_call in simp_all)
next
  case (add_other m e)
  show ?case
    by (rule indexes_inv_add [where m = m and i = "ev_ItemID e" and n = "ev_OutputIndex e"
          and it = "fresh_item e"]) (use add_other in simp_all)
next
  case (delta m e it)
  then show ?case by (auto simp: ahas_def intro: indexes_inv_update)
next
  case (args_done m e it)
  then show ?case by (auto simp: ahas_def intro: indexes_inv_update)
next
  case (item_done m e it)
  then show ?case by (auto simp: ahas_def intro: indexes_inv_update)
qed (simp_all add: indexes_inv_def)

lemma phase_inv_step: "resp_step m e m' \<Longrightarrow> phase_inv m \<Longrightarrow> phase_inv m'"
  by (induction rule: resp_step.induct) (auto simp: phase_inv_def rm_ready_def)

lemma response_inv_step: "resp_step m e m' \<Longrightarrow> response_inv m \<Longrightarrow> response_inv m'"
  using items_inv_step [of m e m'] calls_inv_step [of m e m'] indexes_inv_step [of m e m']
    phase_inv_step [of m e m']
  unfolding response_inv_def by blast

lemma rm_dispatch_atomic: "rm_dispatch m e = (m', Some f) \<Longrightarrow> m' = m"
  by (cases "ev_Type e") (auto simp: rm_op_defs Let_def split: if_splits option.splits sum.splits)

lemma response_Apply_atomic: "snd (response_Apply m e) \<noteq> None \<Longrightarrow> fst (response_Apply m e) = m"
  by (auto simp: response_Apply_def split: if_splits prod.splits option.splits dest: rm_dispatch_atomic)

lemma response_Apply_cases:
  "(fst (response_Apply m e) = m \<and> snd (response_Apply m e) \<noteq> None)
   \<or> (snd (response_Apply m e) = None \<and> resp_step m e (fst (response_Apply m e)))"
  using response_Apply_atomic [of m e] response_Apply_iff_step [of m e "fst (response_Apply m e)"]
  by (cases "response_Apply m e") auto

definition rm_rank :: "response_machine \<Rightarrow> nat" where
  "rm_rank m = (if rm_terminal m \<noteq> None then 2 else if rm_created m then 1 else 0)"

lemma rm_rank_step: "resp_step m e m' \<Longrightarrow> rm_rank m \<le> rm_rank m'"
  by (induction rule: resp_step.induct) (auto simp: rm_rank_def rm_ready_def)

interpretation response: guarded_machine response_Apply response_inv
proof
  fix m e
  show "response_inv m \<Longrightarrow> response_inv (fst (response_Apply m e))"
    using response_Apply_cases [of m e] response_inv_step by auto
  show "snd (response_Apply m e) \<noteq> None \<Longrightarrow> fst (response_Apply m e) = m"
    by (rule response_Apply_atomic)
qed

interpretation response: lifecycle_machine response_Apply response_inv rm_rank
proof
  fix m e
  show "rm_rank m \<le> rm_rank (fst (response_Apply m e))"
    using response_Apply_cases [of m e] rm_rank_step by auto
qed

section \<open>What an accepted stream looks like\<close>

abbreviation accepts :: "event list \<Rightarrow> response_machine \<Rightarrow> bool" where
  "accepts es m \<equiv> run_all response_Apply response_New es = Some m"

lemma accepts_induct [consumes 1, case_names Nil snoc]:
  assumes "accepts es m"
    and "P [] response_New"
    and "\<And>es e m m'. accepts es m \<Longrightarrow> resp_step m e m' \<Longrightarrow> P es m \<Longrightarrow> P (es @ [e]) m'"
  shows "P es m"
  using assms(1)
proof (induction es arbitrary: m rule: rev_induct)
  case Nil
  with assms(2) show ?case by simp
next
  case (snoc e es)
  then obtain m0 where "accepts es m0" "response_Apply m0 e = (m, None)"
    by (auto simp: run_all_snoc)
  with snoc.IH assms(3) show ?case by (simp add: response_Apply_iff_step)
qed

definition deltas :: "string \<Rightarrow> event list \<Rightarrow> string" where
  "deltas i es = concat (map ev_Delta (filter (\<lambda>e. ev_Type e = ArgumentsDelta \<and> ev_ItemID e = i) es))"

definition added :: "string \<Rightarrow> event list \<Rightarrow> bool" where
  "added i es \<longleftrightarrow> (\<exists>e\<in>set es. ev_Type e = OutputItemAdded \<and> ev_ItemID e = i)"

lemma deltas_snoc [simp]: "deltas i (es @ [e]) =
    deltas i es @ (if ev_Type e = ArgumentsDelta \<and> ev_ItemID e = i then ev_Delta e else [])"
  by (simp add: deltas_def)

lemma added_snoc [simp]: "added i (es @ [e]) \<longleftrightarrow>
    added i es \<or> (ev_Type e = OutputItemAdded \<and> ev_ItemID e = i)"
  by (auto simp: added_def)

lemma accepts_items:
  "accepts es m \<Longrightarrow> (case aget (rm_items m) i of None \<Rightarrow> \<not> added i es \<and> deltas i es = []
     | Some it \<Rightarrow> added i es \<and> it_arguments it = deltas i es)"
proof (induction rule: accepts_induct)
  case (snoc es e m m')
  from snoc.hyps(2) snoc.IH show ?case
    by cases (auto simp: rm_ready_def ahas_def terminal_types_def split: option.splits)
qed (simp add: response_New_def added_def deltas_def)

lemma accepts_phase:
  "accepts es m \<Longrightarrow> (rm_created m \<longleftrightarrow> es \<noteq> []) \<and> rm_nextSequence m = word_of_nat (Suc (length es)) \<and>
     (rm_terminal m \<noteq> None \<longleftrightarrow> es \<noteq> [] \<and> ev_Type (last es) \<in> terminal_types) \<and>
     (\<forall>k < length es. ev_Sequence (es ! k) = word_of_nat (Suc k) \<and>
        (ev_Type (es ! k) = ResponseCreated \<longleftrightarrow> k = 0) \<and>
        (ev_Type (es ! k) \<in> terminal_types \<longrightarrow> Suc k = length es))"
proof (induction rule: accepts_induct)
  case (snoc es e m m')
  have "rm_nextSequence m' = rm_nextSequence m + 1" "ev_Sequence e = rm_nextSequence m"
    "rm_created m'" "rm_terminal m = None" "(ev_Type e = ResponseCreated) = (\<not> rm_created m)"
    "(rm_terminal m' \<noteq> None) = (ev_Type e \<in> terminal_types)"
    using snoc.hyps(2) by (cases; auto simp: rm_ready_def terminal_types_def)+
  moreover from this(4) snoc.IH have "ev_Type (es ! k) \<notin> terminal_types" if "k < length es" for k
    using that last_conv_nth [of es] by (metis diff_Suc_1 length_0_conv not_less_zero)
  ultimately show ?case using snoc.IH by (auto simp: nth_append less_Suc_eq)
qed (simp_all add: response_New_def)

lemma accepts_results:
  "accepts es m \<Longrightarrow> ahas (rm_toolResults m) c \<longleftrightarrow>
     (\<exists>t\<in>set es. ev_Type t = ToolResult \<and> ev_CallID t = c)"
proof (induction rule: accepts_induct)
  case (snoc es e m m')
  from snoc.hyps(2) snoc.IH show ?case
    by cases (auto simp: rm_ready_def terminal_types_def)
qed (simp add: response_New_def)

definition closed :: "string \<Rightarrow> event list \<Rightarrow> bool" where
  "closed i es \<longleftrightarrow> (\<exists>d\<in>set es. ev_Type d = OutputItemDone \<and> ev_ItemID d = i)"

definition announced :: "event list \<Rightarrow> string \<Rightarrow> string \<Rightarrow> string \<Rightarrow> bool" where
  "announced es i kind c \<longleftrightarrow> (\<exists>a\<in>set es. ev_Type a = OutputItemAdded \<and> ev_ItemID a = i
     \<and> ev_ItemKind a = kind \<and> ev_CallID a = c)"

lemma closed_snoc [simp]: "closed i (es @ [e]) \<longleftrightarrow>
    closed i es \<or> (ev_Type e = OutputItemDone \<and> ev_ItemID e = i)"
  by (auto simp: closed_def)

lemma announced_snoc [simp]: "announced (es @ [e]) i k c \<longleftrightarrow> announced es i k c \<or>
    (ev_Type e = OutputItemAdded \<and> ev_ItemID e = i \<and> ev_ItemKind e = k \<and> ev_CallID e = c)"
  by (auto simp: announced_def)

text \<open>Where the machine's items come from: the event that announced them, the one that closed them.\<close>

lemma accepts_announced:
  "accepts es m \<Longrightarrow> (case aget (rm_items m) i of None \<Rightarrow> \<not> closed i es
     | Some it \<Rightarrow> announced es i (it_kind it) (it_callID it) \<and> (it_done it \<longleftrightarrow> closed i es))"
proof (induction rule: accepts_induct)
  case (snoc es e m m')
  from snoc.hyps(2) snoc.IH show ?case
    by cases (auto simp: rm_ready_def ahas_def terminal_types_def split: option.splits)
qed (simp add: response_New_def closed_def)

text \<open>In a state of the invariant no event dereferences a missing item.\<close>

lemma response_no_panic: "response_inv m \<Longrightarrow> snd (response_Apply m e) \<noteq> Some Panic"
proof -
  assume "response_inv m"
  then have "\<forall>c i. aget (rm_calls m) c = Some i \<longrightarrow> aget (rm_items m) i \<noteq> None"
    by (auto simp: response_inv_def elim: calls_inv_call)
  then have "snd (rm_dispatch m e) \<noteq> Some Panic"
    by (cases "ev_Type e") (fastforce simp: rm_op_defs Let_def split: if_splits option.splits sum.splits)+
  then show ?thesis by (auto simp: response_Apply_def split: if_splits prod.splits option.splits)
qed

section \<open>Properties\<close>


text \<open>
  C7. The code accepts an event exactly when the lifecycle's step relation allows it, and then
  moves as the relation says; an event that it refuses leaves the machine unchanged.
\<close>

theorem response_Apply_refines:
  "(response_Apply m e = (m', None)) = resp_step m e m' \<and>
   (snd (response_Apply m e) \<noteq> None \<longrightarrow> fst (response_Apply m e) = m)"
  using response_Apply_iff_step response_Apply_atomic by blast

definition ev0 :: event where
  "ev0 = \<lparr>ev_Sequence = 1, ev_Type = ResponseCreated, ev_ItemID = [], ev_ItemKind = [],
     ev_OutputIndex = 0, ev_CallID = [], ev_Delta = [], ev_Arguments = []\<rparr>"

theorem response_Apply_refines_witness:
  "snd (response_Apply response_New (ev0\<lparr>ev_Sequence := 2\<rparr>)) \<noteq> None \<and>
   fst (response_Apply response_New (ev0\<lparr>ev_Sequence := 2\<rparr>)) = response_New \<and>
   resp_step response_New ev0 (fst (response_Apply response_New ev0))"
proof -
  have refused: "snd (response_Apply response_New (ev0\<lparr>ev_Sequence := 2\<rparr>)) \<noteq> None"
    by (simp add: response_Apply_def response_New_def ev0_def)
  have "response_Apply response_New ev0 = (fst (response_Apply response_New ev0), None)"
    by (simp add: response_Apply_def response_New_def ev0_def rm_op_defs)
  then show ?thesis
    using refused response_Apply_refines [of response_New "ev0\<lparr>ev_Sequence := 2\<rparr>"]
      response_Apply_refines [of response_New ev0 "fst (response_Apply response_New ev0)"] by blast
qed

text \<open>
  In a stream the machine accepted, the events are numbered 1, 2, 3 and so on,
  \<open>response.created\<close> is the first event and no other, a terminal event can only be the last
  one, and \<open>Finish\<close> reports no missing terminal event exactly when the last event is one.
\<close>

theorem response_accepted_shape:
  assumes "run_all response_Apply response_New es = Some m"
  shows "(\<forall>k < length es. ev_Sequence (es ! k) = word_of_nat (Suc k)
           \<and> (ev_Type (es ! k) = ResponseCreated) = (k = 0)
           \<and> (ev_Type (es ! k) \<in> terminal_types \<longrightarrow> Suc k = length es)) \<and>
    (response_Finish m = None) = (es \<noteq> [] \<and> ev_Type (last es) \<in> terminal_types)"
  using accepts_phase [OF assms] by (auto simp: response_Finish_def)

theorem response_accepted_shape_witness:
  "\<exists>m. run_all response_Apply response_New [ev0, ev0\<lparr>ev_Sequence := 2, ev_Type := ResponseFailed\<rparr>] = Some m
     \<and> response_Finish m = None"
proof -
  let ?es = "[ev0, ev0\<lparr>ev_Sequence := 2, ev_Type := ResponseFailed\<rparr>]"
  obtain m where m: "run_all response_Apply response_New ?es = Some m"
    by (simp add: response_Apply_def response_New_def ev0_def rm_op_defs)
  have "response_Finish m = None"
    using response_accepted_shape [OF m] by (simp add: terminal_types_def)
  with m show ?thesis by blast
qed

text \<open>
  In a stream the machine accepted, the reconstructed arguments of an item are the
  concatenation of its argument deltas, and every \<open>arguments.done\<close> event carries exactly the
  deltas that came before it.
\<close>

theorem response_arguments_reconstructed:
  assumes "run_all response_Apply response_New (pre @ e # post) = Some m"
    and "ev_Type e = ArgumentsDone"
  shows "ev_Arguments e = deltas (ev_ItemID e) pre \<and>
    ReconstructedArguments m (ev_ItemID e) = Some (deltas (ev_ItemID e) (pre @ e # post))"
proof -
  obtain m0 m1 where m0: "accepts pre m0" "resp_step m0 e m1"
    using assms(1) by (elim run_all_midE) (auto simp: response_Apply_iff_step)
  from m0(2) assms(2) obtain it where it: "aget (rm_items m0) (ev_ItemID e) = Some it"
      "ev_Arguments e = it_arguments it"
    by cases (auto simp: rm_ready_def terminal_types_def)
  from accepts_items [OF m0(1), of "ev_ItemID e"] it
  have args: "ev_Arguments e = deltas (ev_ItemID e) pre" "added (ev_ItemID e) pre" by simp_all
  then have "added (ev_ItemID e) (pre @ e # post)" by (auto simp: added_def)
  with accepts_items [OF assms(1), of "ev_ItemID e"] args(1) show ?thesis
    by (auto simp: ReconstructedArguments_def split: option.splits)
qed

definition call_event :: "nat \<Rightarrow> event_type \<Rightarrow> event" where
  "call_event n t = \<lparr>ev_Sequence = word_of_nat n, ev_Type = t, ev_ItemID = ''item'',
     ev_ItemKind = ''function_call'', ev_OutputIndex = 0, ev_CallID = ''call'', ev_Delta = ''{}'',
     ev_Arguments = ''{}''\<rparr>"

definition call_stream :: "event list" where
  "call_stream = [call_event 1 ResponseCreated, call_event 2 OutputItemAdded,
     call_event 3 ArgumentsDelta, call_event 4 ArgumentsDone, call_event 5 OutputItemDone,
     call_event 6 ToolResult, call_event 7 ResponseCompleted]"

lemma call_stream_accepted: "\<exists>m. run_all response_Apply response_New call_stream = Some m"
  by (simp add: call_stream_def call_event_def response_Apply_def response_New_def rm_op_defs
      Let_def ahas_def aput_def aget_def)

theorem response_arguments_reconstructed_witness:
  "\<exists>m. run_all response_Apply response_New call_stream = Some m \<and>
       ReconstructedArguments m ''item'' = Some ''{}''"
proof -
  let ?e = "call_event 4 ArgumentsDone"
  obtain m where m: "run_all response_Apply response_New call_stream = Some m"
    using call_stream_accepted by blast
  have split: "call_stream = take 3 call_stream @ ?e # drop 4 call_stream"
    by (simp add: call_stream_def)
  have "ReconstructedArguments m (ev_ItemID ?e) =
      Some (deltas (ev_ItemID ?e) (take 3 call_stream @ ?e # drop 4 call_stream))"
    using response_arguments_reconstructed [of "take 3 call_stream" ?e "drop 4 call_stream" m] m
    by (simp add: split [symmetric]) (simp add: call_event_def)
  with m show ?thesis
    by (simp add: split [symmetric]) (simp add: call_stream_def call_event_def deltas_def)
qed

text \<open>
  In a stream the machine accepted, a tool result follows the announcement and the closing of
  the function-call item that carries its call identifier, and it is the only result for it so far.
\<close>

theorem response_tool_result_order:
  assumes "run_all response_Apply response_New (pre @ e # post) = Some m"
    and "ev_Type e = ToolResult"
  shows "(\<exists>i. announced pre i ''function_call'' (ev_CallID e) \<and> closed i pre) \<and>
    (\<forall>t\<in>set pre. ev_Type t = ToolResult \<longrightarrow> ev_CallID t \<noteq> ev_CallID e)"
proof -
  obtain m0 m1 where m0: "accepts pre m0" "resp_step m0 e m1"
    using assms(1) by (elim run_all_midE) (auto simp: response_Apply_iff_step)
  from m0(2) assms(2) obtain i it where it: "aget (rm_calls m0) (ev_CallID e) = Some i"
      "aget (rm_items m0) i = Some it" "it_done it" "\<not> ahas (rm_toolResults m0) (ev_CallID e)"
    by cases (auto simp: rm_ready_def terminal_types_def)
  have "response_inv m0" by (rule response.run_all_invar [OF response_inv_New m0(1)])
  then have "it_kind it = ''function_call''" "it_callID it = ev_CallID e"
    using it by (auto simp: response_inv_def elim: calls_inv_call)
  with accepts_announced [OF m0(1), of i] accepts_results [OF m0(1), of "ev_CallID e"] it
  show ?thesis by auto
qed

theorem response_tool_result_order_witness:
  "\<exists>i. announced (take 5 call_stream) i ''function_call'' ''call'' \<and> closed i (take 5 call_stream)"
proof -
  let ?e = "call_event 6 ToolResult"
  obtain m where m: "run_all response_Apply response_New call_stream = Some m"
    using call_stream_accepted by blast
  have split: "call_stream = take 5 call_stream @ ?e # drop 6 call_stream"
    by (simp add: call_stream_def)
  have e: "ev_Type ?e = ToolResult" "ev_CallID ?e = ''call''" by (simp_all add: call_event_def)
  have "run_all response_Apply response_New (take 5 call_stream @ ?e # drop 6 call_stream) = Some m"
    by (simp only: split [symmetric] m)
  from response_tool_result_order [OF this e(1)] show ?thesis unfolding e(2) by blast
qed

end
