(* ===== verification/SchemaCore.thy ===== *)
theory SchemaCore
  imports GoStd
begin

text \<open>
  Package \<open>schema\<close>, the identity layer (\<open>digest.go\<close>, \<open>id.go\<close>, \<open>duration.go\<close>, \<open>common.go\<close>):
  digests, UUIDv7 instance identifiers, producers, object references and the envelope that every
  immutable public object embeds.

  SHA-256 and the canonical JSON rendering (\<open>json.Marshal\<close> followed by the third-party RFC 8785
  transformation) are parameters: \<open>sha\<close> maps bytes to the 32 bytes of the sum, and \<open>canon\<close> maps
  a projection to the digest of its canonical bytes or to the marshalling error.
\<close>

section \<open>Digests\<close>

type_synonym digest = string

text \<open>\<open>^sha256:[0-9a-f]{64}$\<close>\<close>

definition digest_pattern :: "string \<Rightarrow> bool" where
  "digest_pattern s \<longleftrightarrow> seq_match (map (=) ''sha256:'' @ replicate 64 is_hex) s"

definition NewDigest :: "(string \<Rightarrow> byte list) \<Rightarrow> string \<Rightarrow> digest" where
  "NewDigest sha data = ''sha256:'' @ hex_encode (sha data)"

definition ParseDigest :: "string \<Rightarrow> digest res" where
  "ParseDigest value = (if \<not> digest_pattern value then Inl (Err ''invalid digest'') else Inr value)"

definition digest_Validate :: "digest \<Rightarrow> err" where
  "digest_Validate d =
     (if d = '''' then Some (Err ''digest is required'')
      else (case ParseDigest d of Inl e \<Rightarrow> Some e | Inr _ \<Rightarrow> None))"

lemma digest_pattern_length: "digest_pattern d \<Longrightarrow> length d = 71"
  by (auto simp: digest_pattern_def dest: seq_match_length)

lemma digest_Validate_None: "digest_Validate d = None \<longleftrightarrow> digest_pattern d"
  by (auto simp: digest_Validate_def ParseDigest_def dest: digest_pattern_length)

lemma NewDigest_pattern: "length (sha data) = 32 \<Longrightarrow> digest_pattern (NewDigest sha data)"
  unfolding digest_pattern_def NewDigest_def
  by (rule seq_match_append) (simp_all add: seq_match_replicate)

section \<open>Instance identifiers\<close>

type_synonym instance_id = string

text \<open>\<open>^[0-9a-f]{8}-[0-9a-f]{4}-7[0-9a-f]{3}-[89ab][0-9a-f]{3}-[0-9a-f]{12}$\<close>\<close>

definition uuidV7_classes :: "(char \<Rightarrow> bool) list" where
  "uuidV7_classes =
     replicate 8 is_hex @ [(=) CHR ''-''] @ replicate 4 is_hex @ [(=) CHR ''-'', (=) CHR ''7'']
     @ replicate 3 is_hex @ [(=) CHR ''-'', (\<lambda>c. c \<in> set ''89ab'')] @ replicate 3 is_hex
     @ [(=) CHR ''-''] @ replicate 12 is_hex"

definition uuidV7_pattern :: "string \<Rightarrow> bool" where
  "uuidV7_pattern s \<longleftrightarrow> seq_match uuidV7_classes s"

definition ParseInstanceID :: "string \<Rightarrow> instance_id res" where
  "ParseInstanceID value =
     (if equal_fold value ''latest'' then Inl (Err ''latest is a run reference, not an instance ID'')
      else if \<not> uuidV7_pattern value then Inl (Err ''invalid UUIDv7 instance ID'')
      else Inr value)"

definition id_Validate :: "instance_id \<Rightarrow> err" where
  "id_Validate v = (case ParseInstanceID v of Inl e \<Rightarrow> Some e | Inr _ \<Rightarrow> None)"

text \<open>
  \<open>NewInstanceID\<close>: \<open>millis\<close> is the wall clock in Unix milliseconds and \<open>random\<close> the outcome of
  \<open>io.ReadFull\<close> on the random source (\<open>None\<close> when it fails).
\<close>

definition uuid_bytes :: "int \<Rightarrow> byte list \<Rightarrow> byte list" where
  "uuid_bytes millis raw =
     raw[0 := word_of_int (millis div 2 ^ 40), 1 := word_of_int (millis div 2 ^ 32),
         2 := word_of_int (millis div 2 ^ 24), 3 := word_of_int (millis div 2 ^ 16),
         4 := word_of_int (millis div 2 ^ 8), 5 := word_of_int millis,
         6 := or (and (raw ! 6) 0x0f) 0x70, 8 := or (and (raw ! 8) 0x3f) 0x80]"

definition uuid_text :: "byte list \<Rightarrow> instance_id" where
  "uuid_text raw =
     (let encoded = hex_encode raw in
      take 8 encoded @ ''-'' @ take 4 (drop 8 encoded) @ ''-'' @ take 4 (drop 12 encoded) @ ''-''
      @ take 4 (drop 16 encoded) @ ''-'' @ take 12 (drop 20 encoded))"

definition NewInstanceID :: "int \<Rightarrow> byte list option \<Rightarrow> instance_id res" where
  "NewInstanceID millis random =
     (if millis < 0 \<or> 2 ^ 48 \<le> millis
      then Inl (Err ''UUIDv7 timestamp is outside the 48-bit range'')
      else (case random of
              None \<Rightarrow> Inl (Err ''read UUIDv7 randomness'')
            | Some raw \<Rightarrow> Inr (uuid_text (uuid_bytes millis raw))))"

lemma runes_of_ascii: "\<forall>b\<in>set bs. b < 128 \<Longrightarrow> runes_of bs = bs"
proof (induction bs)
  case (Cons b bs)
  then have "decode_rune (b # bs) = (b, 1)" by (simp add: decode_rune_def)
  with Cons show ?case by simp
qed simp

text \<open>Texts of printable ASCII characters without spaces pass the checks on surrounding space and controls.\<close>

definition plain :: "string \<Rightarrow> bool" where
  "plain s \<longleftrightarrow> s \<noteq> [] \<and> list_all (\<lambda>c. 33 \<le> code c \<and> code c \<le> 126) s"

lemma plain_no_control: "plain s \<Longrightarrow> r \<in> set (runes s) \<Longrightarrow> \<not> is_control r"
proof -
  assume s: "plain s" and r: "r \<in> set (runes s)"
  from s have "\<forall>b\<in>set (map code s). b < 128" by (auto simp: plain_def list_all_iff)
  from runes_of_ascii [OF this] r s show ?thesis by (auto simp: runes_def plain_def list_all_iff is_control_def)
qed

lemma plain_trimmed: "plain s \<Longrightarrow> trimmed s"
proof -
  assume s: "plain s"
  then obtain b bs where bs: "map code s = b # bs" by (cases s) (auto simp: plain_def)
  have all: "\<forall>x\<in>set (b # bs). 33 \<le> x \<and> x \<le> 126" using s unfolding bs [symmetric] by (auto simp: plain_def list_all_iff)
  then have l: "trim_left (b # bs) = b # bs" by (auto simp: decode_rune_def is_space_def)
  have "33 \<le> last (b # bs) \<and> last (b # bs) \<le> 126" using all last_in_set [of "b # bs"] by blast
  then have "fst (decode_last_rune (b # bs)) = last (b # bs)" "\<not> is_space (last (b # bs))"
    by (auto simp: decode_last_rune_def is_space_def)
  then have "trim_right_fuel (length (b # bs)) (b # bs) = b # bs"
    by (auto simp: Let_def case_prod_beta)
  with l show ?thesis by (simp add: trimmed_def trim_bytes_def bs Let_def del: trim_right_fuel.simps trim_left.simps)
qed

lemma plain_not_blank: "plain s \<Longrightarrow> \<not> blank s"
  using plain_trimmed [of s] by (auto simp: plain_def trimmed_def blank_def)

lemma uuidV7_pattern_ascii:
  assumes "uuidV7_pattern s"
  shows "\<forall>b\<in>set (map code s). b < 128"
proof -
  have "code c < 128" if "p \<in> set uuidV7_classes" "p c" for p c
    using that by (auto simp: uuidV7_classes_def char_class_defs)
  with assms show ?thesis
    unfolding uuidV7_pattern_def using seq_match_all [of uuidV7_classes s "\<lambda>c. code c < 128"] by auto
qed

text \<open>An identifier has 36 characters, so it is never a spelling of \<open>latest\<close>.\<close>

lemma uuidV7_not_latest: "uuidV7_pattern s \<Longrightarrow> \<not> equal_fold s ''latest''"
proof
  assume s: "uuidV7_pattern s" and eq: "equal_fold s ''latest''"
  have "length s = 36"
    using seq_match_length [OF s [unfolded uuidV7_pattern_def]] by (simp add: uuidV7_classes_def)
  moreover have "length (runes s) = length s"
    unfolding runes_def using runes_of_ascii [OF uuidV7_pattern_ascii [OF s]] by simp
  moreover have "length (runes s) = length (runes ''latest'')"
    using eq by (metis equal_fold_def length_map)
  moreover have "runes ''latest'' = map code ''latest''"
    unfolding runes_def by (rule runes_of_ascii) (simp add: code_def)
  ultimately show False by simp
qed

lemma id_Validate_None: "id_Validate v = None \<longleftrightarrow> uuidV7_pattern v"
  using uuidV7_not_latest by (auto simp: id_Validate_def ParseInstanceID_def)

lemma id_Validate_nonempty: "id_Validate v = None \<Longrightarrow> v \<noteq> []"
  by (auto simp: id_Validate_None uuidV7_pattern_def uuidV7_classes_def dest: seq_match_length)

lemma unat_and_low: "unat (and b 0x0f) < 16" "unat (and b 0x3f) < 64" for b :: byte
proof -
  have *: "unat (take_bit n b) < 2 ^ n" for n
    by (simp only: unsigned_take_bit_eq take_bit_nat_less_exp)
  have "and b 0x0f = take_bit 4 b" "and b 0x3f = take_bit 6 b"
    by (simp_all add: take_bit_eq_mask mask_eq_exp_minus_1 and.commute)
  with * [of 4] * [of 6] show "unat (and b 0x0f) < 16" "unat (and b 0x3f) < 64" by simp_all
qed

lemma hex_digit_values: "hex_digit 7 = CHR ''7''" "hex_digit 8 = CHR ''8''" "hex_digit 9 = CHR ''9''"
  "hex_digit 10 = CHR ''a''" "hex_digit 11 = CHR ''b''"
  by code_simp+

lemma hex_byte_version: "hex_byte (or (and b 0x0f) 0x70) = [CHR ''7'', hex_digit (unat (and b 0x0f))]"
  for b :: byte
proof -
  have lt: "unat (and b 0x0f) < 16" by (rule unat_and_low)
  have "and (and b 0x0f) 0x70 = 0" by (simp add: and.assoc)
  then have "or (and b 0x0f) 0x70 = and b 0x0f + 0x70" by (rule disjunctive_add_eq_or [symmetric])
  moreover have "unat (and b 0x0f + 0x70) = unat (and b 0x0f) + 112"
    using lt by (simp add: unat_word_ariths)
  moreover have "(unat (and b 0x0f) + 112) div 16 = 7" "(unat (and b 0x0f) + 112) mod 16 = unat (and b 0x0f)"
    using lt mod_mult_self1 [of "unat (and b 0x0f)" 7 16] by (linarith, simp)
  ultimately show ?thesis by (simp only: hex_byte_def hex_digit_values)
qed

lemma hex_digit_variant: "n \<in> {8, 9, 10, 11} \<Longrightarrow> hex_digit n \<in> set ''89ab''"
  by (elim insertE) (simp_all add: hex_digit_values)

lemma hex_byte_variant:
  "\<exists>c d. hex_byte (or (and b 0x3f) 0x80) = [c, d] \<and> c \<in> set ''89ab'' \<and> is_hex d" for b :: byte
proof -
  let ?x = "unat (or (and b 0x3f) 0x80)"
  have lt: "unat (and b 0x3f) < 64" by (rule unat_and_low)
  have "and (and b 0x3f) 0x80 = 0" by (simp add: and.assoc)
  then have "or (and b 0x3f) 0x80 = and b 0x3f + 0x80" by (rule disjunctive_add_eq_or [symmetric])
  then have "?x = unat (and b 0x3f) + 128"
    using lt by (simp add: unat_word_ariths)
  then have "128 \<le> ?x" "?x < 192" using lt by simp_all
  then have "8 \<le> ?x div 16" "?x div 16 < 12" by linarith+
  then have "?x div 16 \<in> {8, 9, 10, 11}" by auto
  then have "hex_digit (?x div 16) \<in> set ''89ab''" by (rule hex_digit_variant)
  moreover have "is_hex (hex_digit (?x mod 16))" by (rule is_hex_hex_digit) simp
  ultimately show ?thesis unfolding hex_byte_def by blast
qed

lemma uuid_text_split:
  assumes "hex_encode raw = a @ b @ c @ d @ e" "length a = 8" "length b = 4" "length c = 4"
    "length d = 4" "length e = 12"
  shows "uuid_text raw = a @ ''-'' @ b @ ''-'' @ c @ ''-'' @ d @ ''-'' @ e"
  using assms by (simp add: uuid_text_def)

text \<open>Whatever the random source delivers, a generated identifier is a UUIDv7.\<close>

lemma split16:
  assumes "length w = 16"
  shows "w = take 4 w @ take 2 (drop 4 w) @ w ! 6 # w ! 7 # w ! 8 # w ! 9 # drop 10 w"
proof -
  have "drop 6 w = w ! 6 # w ! 7 # w ! 8 # w ! 9 # drop 10 w"
    using assms Cons_nth_drop_Suc [of 6 w] Cons_nth_drop_Suc [of 7 w] Cons_nth_drop_Suc [of 8 w]
      Cons_nth_drop_Suc [of 9 w] by simp
  moreover have "w = take 4 w @ take 2 (drop 4 w) @ drop 2 (drop 4 w)" by (simp del: drop_drop)
  ultimately show ?thesis by (simp add: drop_drop)
qed

lemma uuid_text_valid:
  assumes "length raw = 16"
  shows "uuidV7_pattern (uuid_text (uuid_bytes millis raw))"
proof -
  define w where "w = uuid_bytes millis raw"
  have len: "length w = 16"
    and w6: "w ! 6 = or (and (raw ! 6) 0x0f) 0x70" and w8: "w ! 8 = or (and (raw ! 8) 0x3f) 0x80"
    using assms by (simp_all add: w_def uuid_bytes_def)
  obtain v u where v: "hex_byte (w ! 8) = [v, u]" "v \<in> set ''89ab''" "is_hex u"
    unfolding w8 using hex_byte_variant by blast
  define d where "d = hex_digit (unat (and (raw ! 6) 0x0f))"
  have d: "hex_byte (w ! 6) = [CHR ''7'', d]" "is_hex d"
    unfolding w6 d_def by (simp_all add: hex_byte_version is_hex_hex_digit [OF unat_and_low(1)])
  have "hex_encode w = hex_encode (take 4 w) @ hex_encode (take 2 (drop 4 w))
      @ (CHR ''7'' # d # hex_byte (w ! 7)) @ (v # u # hex_byte (w ! 9)) @ hex_encode (drop 10 w)"
    by (subst split16 [OF len]) (simp only: hex_encode_append hex_encode_Cons v d append.simps append_assoc)
  then have shape: "uuid_text w = hex_encode (take 4 w) @ ''-'' @ hex_encode (take 2 (drop 4 w))
      @ ''-'' @ (CHR ''7'' # d # hex_byte (w ! 7)) @ ''-'' @ (v # u # hex_byte (w ! 9))
      @ ''-'' @ hex_encode (drop 10 w)"
    by (rule uuid_text_split) (simp_all add: len hex_byte_def)
  have classes: "uuidV7_classes =
      replicate 8 is_hex @ [(=) CHR ''-''] @ replicate 4 is_hex @ [(=) CHR ''-'']
      @ ((=) CHR ''7'' # is_hex # replicate 2 is_hex) @ [(=) CHR ''-'']
      @ ((\<lambda>c. c \<in> set ''89ab'') # is_hex # replicate 2 is_hex) @ [(=) CHR ''-''] @ replicate 12 is_hex"
    by (simp add: uuidV7_classes_def numeral_eq_Suc)
  show ?thesis
    unfolding uuidV7_pattern_def w_def [symmetric] shape classes
    by (intro seq_match_append) (use v d len in \<open>simp_all add: seq_match_replicate hex_byte_def\<close>)
qed

section \<open>Durations\<close>

definition duration_Validate :: "duration \<Rightarrow> err" where
  "duration_Validate v = fail_if (v \<le> 0) (Err ''duration must be positive'')"

section \<open>Producers, references and envelopes\<close>

definition kindPattern :: "string \<Rightarrow> bool" where
  "kindPattern = class_match is_upper (\<lambda>c. is_upper c \<or> is_lower c \<or> is_digit c) 1 63"

definition namePattern :: "string \<Rightarrow> bool" where
  "namePattern = class_match (\<lambda>c. is_lower c \<or> is_digit c)
     (\<lambda>c. is_lower c \<or> is_digit c \<or> c \<in> set ''._/-'') 0 127"

lemma namePattern_nonempty: "namePattern s \<Longrightarrow> s \<noteq> []"
  unfolding namePattern_def by (rule class_match_nonempty)

record producer =
  prod_Name :: string
  prod_Version :: string
  prod_ArtifactDigest :: digest

definition producer_Validate :: "producer \<Rightarrow> err" where
  "producer_Validate p = first_err
     [fail_if (\<not> namePattern (prod_Name p)) (Err ''invalid producer name''),
      fail_if (prod_Version p = '''') (Err ''producer version is required''),
      wrap_err ''producer artifact digest'' (digest_Validate (prod_ArtifactDigest p))]"

record object_ref =
  ref_Kind :: string
  ref_InstanceID :: instance_id
  ref_ContentDigest :: digest

definition ref_Validate :: "object_ref \<Rightarrow> err" where
  "ref_Validate r = first_err
     [fail_if (\<not> kindPattern (ref_Kind r)) (Err ''invalid object kind''),
      if ref_InstanceID r \<noteq> '''' then wrap_err ''object instance ID'' (id_Validate (ref_InstanceID r))
      else None,
      wrap_err ''object content digest'' (digest_Validate (ref_ContentDigest r))]"

text \<open>\<open>json_valid\<close> stands for \<open>json.Valid\<close> on the raw bytes of an extension.\<close>

record envelope_meta =
  em_SchemaVersion :: string
  em_Kind :: string
  em_InstanceID :: instance_id
  em_ContentDigest :: digest
  em_ObjectRef :: object_ref
  em_Producer :: producer
  em_CreatedAt :: time
  em_Extensions :: "(string, string) gomap"

definition SchemaNamespace :: string where "SchemaNamespace = ''urn:agentapi-doctor:''"
definition ExtensionPrefix :: string where "ExtensionPrefix = ''x-''"

definition extension_check :: "(string \<Rightarrow> bool) \<Rightarrow> string \<times> string \<Rightarrow> err" where
  "extension_check json_valid kv = first_err
     [fail_if (\<not> has_prefix (fst kv) ExtensionPrefix \<or> length (fst kv) \<le> length ExtensionPrefix)
        (Err ''extension namespace must start with x-''),
      fail_if (snd kv = '''' \<or> \<not> json_valid (snd kv)) (Err ''extension is not valid JSON'')]"

definition meta_Validate :: "(string \<Rightarrow> bool) \<Rightarrow> envelope_meta \<Rightarrow> err" where
  "meta_Validate json_valid m = first_err
     ([fail_if (\<not> has_prefix (em_SchemaVersion m) SchemaNamespace) (Err ''schema version is outside namespace''),
       fail_if (\<not> kindPattern (em_Kind m)) (Err ''invalid kind''),
       if em_InstanceID m \<noteq> '''' then wrap_err ''instance ID'' (id_Validate (em_InstanceID m)) else None,
       wrap_err ''content digest'' (digest_Validate (em_ContentDigest m)),
       ref_Validate (em_ObjectRef m),
       fail_if (ref_Kind (em_ObjectRef m) \<noteq> em_Kind m
                \<or> ref_InstanceID (em_ObjectRef m) \<noteq> em_InstanceID m
                \<or> ref_ContentDigest (em_ObjectRef m) \<noteq> em_ContentDigest m)
         (Err ''object_ref does not match envelope identity''),
       producer_Validate (em_Producer m),
       fail_if (is_zero (em_CreatedAt m)) (Err ''created_at is required'')]
      @ map (extension_check json_valid) (em_Extensions m))"

text \<open>\<open>SealMeta\<close>; \<open>canon\<close> is \<open>CanonicalDigest\<close> on the projection.\<close>

definition SealMeta ::
  "('p \<Rightarrow> digest res) \<Rightarrow> string \<Rightarrow> string \<Rightarrow> instance_id \<Rightarrow> producer \<Rightarrow> time \<Rightarrow> 'p \<Rightarrow> envelope_meta res" where
  "SealMeta canon schemaVersion kind iid producer createdAt projection =
     guard_res (first_err
       [fail_if (\<not> has_prefix schemaVersion SchemaNamespace) (Err ''schema version is outside namespace''),
        fail_if (\<not> kindPattern kind) (Err ''invalid kind''),
        if iid \<noteq> '''' then id_Validate iid else None,
        producer_Validate producer,
        fail_if (is_zero createdAt) (Err ''created_at is required'')])
     (case canon projection of
        Inl e \<Rightarrow> Inl (Wrap ''digest immutable projection'' e)
      | Inr d \<Rightarrow> Inr \<lparr>em_SchemaVersion = schemaVersion, em_Kind = kind, em_InstanceID = iid,
                     em_ContentDigest = d,
                     em_ObjectRef = \<lparr>ref_Kind = kind, ref_InstanceID = iid, ref_ContentDigest = d\<rparr>,
                     em_Producer = producer, em_CreatedAt = createdAt, em_Extensions = []\<rparr>)"

text \<open>A sealed envelope passes the envelope's own validation.\<close>

lemma SealMeta_validates:
  assumes "SealMeta canon sv k i p t x = Inr m" and "\<And>d. canon x = Inr d \<Longrightarrow> digest_pattern d"
  shows "meta_Validate jv m = None" "em_ContentDigest m = ref_ContentDigest (em_ObjectRef m)"
    "canon x = Inr (em_ContentDigest m)" "em_Kind m = k" "em_InstanceID m = i" "em_SchemaVersion m = sv"
  using assms
  by (auto simp: SealMeta_def meta_Validate_def ref_Validate_def digest_Validate_None
      split: sum.splits if_splits)

section \<open>Concrete identifiers\<close>

text \<open>Two identifiers and a digest on which the witnesses of the components run.\<close>

definition uuid_a :: instance_id where "uuid_a = ''01890000-0000-7000-8000-00000000000a''"
definition uuid_b :: instance_id where "uuid_b = ''01890000-0000-7000-8000-00000000000b''"
definition zero_digest :: digest where "zero_digest = ''sha256:'' @ replicate 64 (CHR ''0'')"

lemma sample_identifiers [simp]: "id_Validate uuid_a = None" "id_Validate uuid_b = None"
  "digest_Validate zero_digest = None"
  by (simp_all add: id_Validate_None digest_Validate_None uuidV7_pattern_def uuidV7_classes_def uuid_a_def uuid_b_def
      digest_pattern_def zero_digest_def char_class_defs numeral_eq_Suc has_prefix_def)

end
