(* ===== verification/SchemaPlan.thy ===== *)
theory SchemaPlan
  imports SchemaCore
begin

text \<open>
  Package \<open>schema\<close>, \<open>plan.go\<close>: artifact pins, budgets, the intent plan that is authored offline
  and the resolved plan that the executor accepts, each with its \<open>Validate\<close>.  \<open>int64\<close> limits are
  64-bit words compared by their signed value.  Two library calls are parameters: \<open>json_valid\<close>
  (\<open>json.Valid\<close>) and \<open>url_parse\<close> (\<open>url.Parse\<close>, \<open>None\<close> for an error).
\<close>

section \<open>Enumerations\<close>

datatype disposition = DispositionExecute | DispositionSkip | DispositionNotApplicable
  | OtherDisposition string

datatype capture_mode = CaptureMetadataOnly | CaptureSynthetic | CaptureStandard
  | CaptureLocalPrivate | OtherCapture string

datatype network_policy = NetworkOffline | NetworkTargetOnly | OtherNetwork string

datatype side_effects = SideEffectsNone | SideEffectsReversible | OtherSideEffects string

section \<open>Pins and budgets\<close>

record artifact_pin =
  pin_Kind :: string
  pin_Name :: string
  pin_Version :: string
  pin_Digest :: digest

definition pin_Validate :: "artifact_pin \<Rightarrow> err" where
  "pin_Validate p = first_err
     [fail_if (\<not> kindPattern (pin_Kind p)) (Err ''invalid artifact kind''),
      fail_if (\<not> namePattern (pin_Name p)) (Err ''invalid artifact name''),
      fail_if (pin_Version p = '''' \<or> pin_Version p = ''latest'')
        (Err ''artifact version must be exact and cannot be latest''),
      wrap_err ''artifact digest'' (digest_Validate (pin_Digest p))]"

record hard_budget =
  hb_MaxRequests :: i64
  hb_MaxRequestBytes :: i64
  hb_MaxResponseBytes :: i64
  hb_MaxArtifactBytes :: i64
  hb_MaxProcesses :: i64
  hb_MaxDuration :: duration

definition hard_Validate :: "hard_budget \<Rightarrow> err" where
  "hard_Validate b = first_err
     [fail_if (sint (hb_MaxRequests b) \<le> 0 \<or> sint (hb_MaxRequestBytes b) \<le> 0
               \<or> sint (hb_MaxResponseBytes b) \<le> 0 \<or> sint (hb_MaxArtifactBytes b) \<le> 0
               \<or> sint (hb_MaxProcesses b) \<le> 0) (Err ''all hard budget limits must be positive''),
      duration_Validate (hb_MaxDuration b)]"

record token_budget =
  tb_MaxInputTokens :: i64
  tb_MaxOutputTokens :: i64

definition token_Validate :: "token_budget \<Rightarrow> err" where
  "token_Validate b = fail_if (sint (tb_MaxInputTokens b) < 0 \<or> sint (tb_MaxOutputTokens b) < 0)
     (Err ''token budgets cannot be negative'')"

record budget_policy =
  bp_Hard :: hard_budget
  bp_Reservation :: token_budget
  bp_Cleanup :: hard_budget

definition policy_Validate :: "budget_policy \<Rightarrow> err" where
  "policy_Validate b = first_err
     [wrap_err ''hard budget'' (hard_Validate (bp_Hard b)),
      wrap_err ''reservation budget'' (token_Validate (bp_Reservation b)),
      wrap_err ''cleanup budget'' (hard_Validate (bp_Cleanup b))]"

section \<open>Intent plans\<close>

record parsed_url =
  url_Scheme :: string
  url_Host :: string
  url_Path :: string
  url_RawQuery :: string
  url_Fragment :: string
  url_HasUser :: bool

record target_intent =
  ti_LogicalRef :: string
  ti_ProtocolFamily :: string
  ti_IdentityExpectation :: string
  ti_AllowedOrigin :: string

definition target_Validate :: "(string \<Rightarrow> parsed_url option) \<Rightarrow> target_intent \<Rightarrow> err" where
  "target_Validate url_parse t = first_err
     [fail_if (\<not> namePattern (ti_LogicalRef t)) (Err ''invalid target logical reference''),
      fail_if (\<not> namePattern (ti_ProtocolFamily t)) (Err ''invalid protocol family''),
      fail_if (ti_IdentityExpectation t = '''') (Err ''target identity expectation is required''),
      (case url_parse (ti_AllowedOrigin t) of
         None \<Rightarrow> Some (Err ''allowed origin must contain only scheme and host'')
       | Some u \<Rightarrow> first_err
          [fail_if (url_Scheme u = '''' \<or> url_Host u = ''''
                    \<or> (url_Path u \<noteq> '''' \<and> url_Path u \<noteq> ''/'') \<or> url_RawQuery u \<noteq> ''''
                    \<or> url_Fragment u \<noteq> '''' \<or> url_HasUser u)
             (Err ''allowed origin must contain only scheme and host''),
           fail_if (url_Scheme u \<noteq> ''http'' \<and> url_Scheme u \<noteq> ''https'')
             (Err ''target origin scheme must be http or https'')])]"

record artifact_selector =
  sel_Kind :: string
  sel_Name :: string
  sel_Constraint :: string
  sel_Allowed :: "digest list"

record probe_policy =
  pp_Operations :: "string list"
  pp_Budget :: hard_budget
  pp_Network :: network_policy

record conditional_branch =
  cb_Capability :: string
  cb_Scenarios :: "string list"

record evidence_policy =
  epol_Capture :: capture_mode
  epol_Redaction :: string
  epol_Publication :: string

record safety_policy =
  sp_Network :: network_policy
  sp_Redirects :: string
  sp_ToolSideEffects :: side_effects
  sp_DriverPermissions :: "string list"

record intent_plan =
  ip_meta :: envelope_meta
  ip_IntentPlanID :: instance_id
  ip_ConfigDigest :: digest
  ip_Target :: target_intent
  ip_Selectors :: "artifact_selector list"
  ip_SupportManifestDigest :: digest
  ip_CandidateDenominatorDigest :: digest
  ip_Probe :: probe_policy
  ip_ConditionalBranches :: "conditional_branch list"
  ip_Budget :: budget_policy
  ip_Evidence :: evidence_policy
  ip_Safety :: safety_policy
  ip_Author :: string
  ip_ApprovalRequirements :: "string list"

fun validateIntentBranches_from :: "string list \<Rightarrow> conditional_branch list \<Rightarrow> err" where
  "validateIntentBranches_from seen [] = None"
| "validateIntentBranches_from seen (b # bs) =
     (if \<not> namePattern (cb_Capability b) \<or> cb_Scenarios b = []
        then Some (Err ''invalid conditional branch'')
      else if cb_Capability b \<in> set seen then Some (Err ''duplicate conditional branch'')
      else validateIntentBranches_from (cb_Capability b # seen) bs)"

definition validateIntentBranches :: "conditional_branch list \<Rightarrow> err" where
  "validateIntentBranches bs = validateIntentBranches_from [] bs"

definition intent_Validate ::
  "(string \<Rightarrow> bool) \<Rightarrow> (string \<Rightarrow> parsed_url option) \<Rightarrow> intent_plan \<Rightarrow> err" where
  "intent_Validate json_valid url_parse p = first_err
     [meta_Validate json_valid (ip_meta p),
      fail_if (em_Kind (ip_meta p) \<noteq> ''IntentPlan'' \<or> ip_IntentPlanID p \<noteq> em_InstanceID (ip_meta p))
        (Err ''IntentPlan identity does not match its envelope''),
      wrap_err ''config digest'' (digest_Validate (ip_ConfigDigest p)),
      wrap_err ''support manifest digest'' (digest_Validate (ip_SupportManifestDigest p)),
      wrap_err ''candidate denominator digest'' (digest_Validate (ip_CandidateDenominatorDigest p)),
      target_Validate url_parse (ip_Target p),
      wrap_err ''probe budget'' (hard_Validate (pp_Budget (ip_Probe p))),
      policy_Validate (ip_Budget p),
      fail_if (ip_Author p = '''' \<or> ip_Selectors p = [])
        (Err ''intent plan requires an author and at least one selector''),
      validateIntentBranches (ip_ConditionalBranches p)]"

section \<open>Capability observations and resolved plans\<close>

datatype capability_status = CapabilitySupported | CapabilityUnsupported | CapabilityUnknown
  | OtherCapability string

record capability_fact =
  cf_Capability :: string
  cf_Status :: capability_status
  cf_Evidence :: "object_ref list"

record capability_observation =
  co_meta :: envelope_meta
  co_ObservationID :: instance_id
  co_IntentPlanRef :: object_ref
  co_ProbePolicyHash :: digest
  co_Facts :: "capability_fact list"
  co_ConsumedBudget :: hard_budget

record scenario_decision =
  sd_ScenarioID :: string
  sd_Disposition :: disposition
  sd_ReasonCode :: string
  sd_Driver :: artifact_pin
  sd_DependsOn :: "string list"

record target_resolution =
  tr_IdentityLevel :: string
  tr_ObservedFingerprint :: digest
  tr_Version :: string
  tr_ConfigurationDigest :: digest
  tr_Model :: string
  tr_Region :: string

record runtime_policy =
  rt_Concurrency :: i64
  rt_Retries :: i64
  rt_Timeout :: duration
  rt_Capture :: capture_mode
  rt_Sandbox :: string
  rt_Network :: network_policy

record finalizer_plan =
  fp_LeaseID :: string
  fp_ResourceType :: string
  fp_Operation :: string
  fp_CleanupBudget :: hard_budget

record resolved_plan =
  rp_meta :: envelope_meta
  rp_ResolvedPlanID :: instance_id
  rp_IntentPlanRef :: object_ref
  rp_Resolver :: artifact_pin
  rp_CapabilityObservationRefs :: "object_ref list"
  rp_SupportLockDigest :: digest
  rp_Artifacts :: "artifact_pin list"
  rp_Target :: target_resolution
  rp_Scenarios :: "scenario_decision list"
  rp_DenominatorDigest :: digest
  rp_Budget :: budget_policy
  rp_Runtime :: runtime_policy
  rp_Finalizers :: "finalizer_plan list"

definition decision_check :: "scenario_decision \<Rightarrow> (string, nat) gomap \<Rightarrow> err" where
  "decision_check d seen = first_err
     [fail_if (\<not> namePattern (sd_ScenarioID d)) (Err ''invalid scenario ID''),
      fail_if (ahas seen (sd_ScenarioID d)) (Err ''duplicate scenario ID'')]"

definition decision_rest :: "scenario_decision \<Rightarrow> err" where
  "decision_rest d = first_err
     [fail_if (sd_Disposition d \<notin> set [DispositionExecute, DispositionSkip, DispositionNotApplicable])
        (Err ''invalid disposition''),
      fail_if (sd_Disposition d \<noteq> DispositionExecute \<and> sd_ReasonCode d = '''')
        (Err ''scenario requires a reason''),
      wrap_err ''scenario driver'' (pin_Validate (sd_Driver d))]"

text \<open>First loop of \<open>validateScenarioDAG\<close>: the decisions themselves, recording each index.\<close>

fun dag_scan :: "nat \<Rightarrow> (string, nat) gomap \<Rightarrow> scenario_decision list \<Rightarrow> (string, nat) gomap res" where
  "dag_scan index seen [] = Inr seen"
| "dag_scan index seen (d # ds) =
     guard_res (decision_check d seen)
       (guard_res (decision_rest d)
         (dag_scan (Suc index) (aput (sd_ScenarioID d) index seen) ds))"

text \<open>Second loop: every dependency must have been seen at a smaller index.\<close>

definition dependency_check :: "(string, nat) gomap \<Rightarrow> nat \<Rightarrow> string \<Rightarrow> err" where
  "dependency_check seen index dependency =
     (case aget seen dependency of
        None \<Rightarrow> Some (Err ''scenario depends on unknown scenario'')
      | Some dependencyIndex \<Rightarrow>
          fail_if (index \<le> dependencyIndex) (Err ''dependency is not earlier in the ordered DAG''))"

fun dag_dependencies :: "(string, nat) gomap \<Rightarrow> nat \<Rightarrow> scenario_decision list \<Rightarrow> err" where
  "dag_dependencies seen index [] = None"
| "dag_dependencies seen index (d # ds) =
     first_err [first_err (map (dependency_check seen index) (sd_DependsOn d)),
                dag_dependencies seen (Suc index) ds]"

definition validateScenarioDAG :: "scenario_decision list \<Rightarrow> err" where
  "validateScenarioDAG ds =
     (case dag_scan 0 [] ds of Inl e \<Rightarrow> Some e | Inr seen \<Rightarrow> dag_dependencies seen 0 ds)"

definition resolved_Validate :: "(string \<Rightarrow> bool) \<Rightarrow> resolved_plan \<Rightarrow> err" where
  "resolved_Validate json_valid p = first_err
     [meta_Validate json_valid (rp_meta p),
      fail_if (em_Kind (rp_meta p) \<noteq> ''ResolvedRunPlan''
               \<or> rp_ResolvedPlanID p \<noteq> em_InstanceID (rp_meta p))
        (Err ''ResolvedRunPlan identity does not match its envelope''),
      wrap_err ''intent plan reference'' (ref_Validate (rp_IntentPlanRef p)),
      wrap_err ''resolver'' (pin_Validate (rp_Resolver p)),
      digest_Validate (rp_SupportLockDigest p),
      digest_Validate (rp_DenominatorDigest p),
      digest_Validate (tr_ObservedFingerprint (rp_Target p)),
      policy_Validate (rp_Budget p),
      fail_if (sint (rt_Concurrency (rp_Runtime p)) \<le> 0 \<or> sint (rt_Retries (rp_Runtime p)) < 0)
        (Err ''runtime concurrency must be positive and retries nonnegative''),
      duration_Validate (rt_Timeout (rp_Runtime p)),
      fail_if (rp_Scenarios p = [] \<or> rp_Artifacts p = [])
        (Err ''resolved plan requires scenarios and exact artifacts''),
      validateScenarioDAG (rp_Scenarios p)]"

section \<open>What the validators establish\<close>

lemma validateIntentBranches_from_None:
  "validateIntentBranches_from seen bs = None \<longleftrightarrow>
     (\<forall>b\<in>set bs. namePattern (cb_Capability b) \<and> cb_Scenarios b \<noteq> []) \<and>
     distinct (map cb_Capability bs) \<and> set (map cb_Capability bs) \<inter> set seen = {}"
  by (induction bs arbitrary: seen) auto

lemma validateIntentBranches_None:
  "validateIntentBranches bs = None \<longleftrightarrow>
     (\<forall>b\<in>set bs. namePattern (cb_Capability b) \<and> cb_Scenarios b \<noteq> []) \<and> distinct (map cb_Capability bs)"
  by (simp add: validateIntentBranches_def validateIntentBranches_from_None)

lemma dag_scan_Inr:
  "dag_scan n seen ds = Inr out \<Longrightarrow>
     (\<forall>d\<in>set ds. namePattern (sd_ScenarioID d) \<and> decision_rest d = None) \<and>
     distinct (map sd_ScenarioID ds) \<and> (\<forall>d\<in>set ds. \<not> ahas seen (sd_ScenarioID d)) \<and>
     (\<forall>k < length ds. aget out (sd_ScenarioID (ds ! k)) = Some (n + k)) \<and>
     (\<forall>s. aget out s \<noteq> None \<longleftrightarrow> ahas seen s \<or> s \<in> sd_ScenarioID ` set ds) \<and>
     (\<forall>s. ahas seen s \<longrightarrow> aget out s = aget seen s)"
proof (induction ds arbitrary: n seen)
  case Nil
  then show ?case by (simp add: ahas_def)
next
  case (Cons d ds)
  let ?seen = "aput (sd_ScenarioID d) n seen"
  from Cons.prems have d: "decision_check d seen = None" "decision_rest d = None"
    and scan: "dag_scan (Suc n) ?seen ds = Inr out" by simp_all
  note IH = Cons.IH [OF scan]
  have "aget out (sd_ScenarioID d) = Some n" using IH by simp
  then have "\<forall>k < length (d # ds). aget out (sd_ScenarioID ((d # ds) ! k)) = Some (n + k)"
    using IH by (auto simp: nth_Cons split: nat.splits)
  moreover have "namePattern (sd_ScenarioID d)" "\<not> ahas seen (sd_ScenarioID d)"
    using d(1) by (simp_all add: decision_check_def)
  ultimately show ?case using IH d(2) by (auto simp: ahas_def split: if_splits)
qed

lemma dag_scan_complete:
  assumes "\<forall>d\<in>set ds. namePattern (sd_ScenarioID d) \<and> decision_rest d = None"
    "distinct (map sd_ScenarioID ds)" "\<forall>d\<in>set ds. \<not> ahas seen (sd_ScenarioID d)"
  shows "\<exists>out. dag_scan n seen ds = Inr out"
  using assms
proof (induction ds arbitrary: n seen)
  case (Cons d ds)
  then have "\<forall>d'\<in>set ds. \<not> ahas (aput (sd_ScenarioID d) n seen) (sd_ScenarioID d')"
    by (auto simp: image_iff)
  with Cons show ?case by (simp add: decision_check_def)
qed simp

lemma dag_dependencies_None:
  "dag_dependencies seen n ds = None \<longleftrightarrow>
     (\<forall>k < length ds. \<forall>s\<in>set (sd_DependsOn (ds ! k)). \<exists>j. aget seen s = Some j \<and> j < n + k)"
proof (induction ds arbitrary: n)
  case (Cons d ds)
  have "(\<forall>k < length (d # ds). P ((d # ds) ! k) k) \<longleftrightarrow> P d 0 \<and> (\<forall>k < length ds. P (ds ! k) (Suc k))" for P
    by (auto simp: less_Suc_eq_0_disj)
  note * = this [of "\<lambda>x k. \<forall>s\<in>set (sd_DependsOn x). \<exists>j. aget seen s = Some j \<and> j < n + k"]
  show ?case unfolding * by (auto simp: Cons.IH dependency_check_def split: option.splits)
qed simp

text \<open>The plan's scenarios are in an order in which every dependency comes first.\<close>

definition ordered_dag :: "scenario_decision list \<Rightarrow> bool" where
  "ordered_dag ds \<longleftrightarrow> distinct (map sd_ScenarioID ds) \<and>
     (\<forall>k < length ds. \<forall>s\<in>set (sd_DependsOn (ds ! k)). \<exists>j < k. sd_ScenarioID (ds ! j) = s)"

lemma validateScenarioDAG_None:
  "validateScenarioDAG ds = None \<longleftrightarrow>
     (\<forall>d\<in>set ds. namePattern (sd_ScenarioID d) \<and> decision_rest d = None) \<and> ordered_dag ds"
proof (cases "dag_scan 0 [] ds")
  case (Inl e)
  then have "\<not> ((\<forall>d\<in>set ds. namePattern (sd_ScenarioID d) \<and> decision_rest d = None) \<and>
      distinct (map sd_ScenarioID ds))"
    using dag_scan_complete [of ds "[]" 0] by auto
  with Inl show ?thesis by (auto simp: validateScenarioDAG_def ordered_dag_def)
next
  case (Inr out)
  note scan = dag_scan_Inr [OF Inr]
  have at: "aget out s = Some j \<longleftrightarrow> j < length ds \<and> sd_ScenarioID (ds ! j) = s" for s j
  proof
    assume "aget out s = Some j"
    moreover from this scan obtain k where "k < length ds" "sd_ScenarioID (ds ! k) = s"
      by (metis (no_types, lifting) ahas_simps(1) image_iff in_set_conv_nth option.discI)
    ultimately show "j < length ds \<and> sd_ScenarioID (ds ! j) = s" using scan by fastforce
  qed (use scan in auto)
  have "dag_dependencies out 0 ds = None \<longleftrightarrow>
      (\<forall>k < length ds. \<forall>s\<in>set (sd_DependsOn (ds ! k)). \<exists>j < k. sd_ScenarioID (ds ! j) = s)"
    unfolding dag_dependencies_None at by (auto simp: Bex_def) (meson less_trans)+
  with scan Inr show ?thesis by (auto simp: validateScenarioDAG_def ordered_dag_def)
qed

end
