(* ===== verification/BudgetLedger.thy ===== *)
theory BudgetLedger
  imports SchemaPlan Machines
begin

text \<open>
  Package \<open>budget\<close> (\<open>internal/budget/ledger.go\<close>): hard, reservation and cleanup ledgers.  Amounts
  are \<open>int64\<close> words, so \<open>add\<close> and \<open>subtract\<close> wrap as in Go, and limits are compared by signed
  value.  A \<open>*Reservation\<close> is an index into \<open>lg_heap\<close>, the reservations the ledger has handed out,
  so that the same handle can be committed or cancelled twice.  The clock reading of a call is
  its argument \<open>now\<close>.
\<close>

section \<open>Usage\<close>

datatype usage = Usage (us_Requests: i64) (us_RequestBytes: i64) (us_ResponseBytes: i64)
  (us_ArtifactBytes: i64) (us_Processes: i64) (us_InputTokens: i64) (us_OutputTokens: i64)

definition ErrExhausted :: go_error where "ErrExhausted = Err ''budget exhausted''"
definition ErrReservationClosed :: go_error where
  "ErrReservationClosed = Err ''reservation is already closed''"
definition ErrInvalidConsumption :: go_error where
  "ErrInvalidConsumption = Err ''budget consumption cannot be negative''"

definition usage_fields :: "usage \<Rightarrow> i64 list" where
  "usage_fields u = [us_Requests u, us_RequestBytes u, us_ResponseBytes u, us_ArtifactBytes u,
     us_Processes u, us_InputTokens u, us_OutputTokens u]"

definition usage_Validate :: "usage \<Rightarrow> err" where
  "usage_Validate u = fail_if (sint (us_Requests u) < 0 \<or> sint (us_RequestBytes u) < 0
     \<or> sint (us_ResponseBytes u) < 0 \<or> sint (us_ArtifactBytes u) < 0 \<or> sint (us_Processes u) < 0
     \<or> sint (us_InputTokens u) < 0 \<or> sint (us_OutputTokens u) < 0) ErrInvalidConsumption"

definition usage_add :: "usage \<Rightarrow> usage \<Rightarrow> usage" where
  "usage_add u v = Usage (us_Requests u + us_Requests v) (us_RequestBytes u + us_RequestBytes v)
     (us_ResponseBytes u + us_ResponseBytes v) (us_ArtifactBytes u + us_ArtifactBytes v)
     (us_Processes u + us_Processes v) (us_InputTokens u + us_InputTokens v)
     (us_OutputTokens u + us_OutputTokens v)"

definition usage_subtract :: "usage \<Rightarrow> usage \<Rightarrow> usage" where
  "usage_subtract u v = Usage (us_Requests u - us_Requests v) (us_RequestBytes u - us_RequestBytes v)
     (us_ResponseBytes u - us_ResponseBytes v) (us_ArtifactBytes u - us_ArtifactBytes v)
     (us_Processes u - us_Processes v) (us_InputTokens u - us_InputTokens v)
     (us_OutputTokens u - us_OutputTokens v)"

text \<open>Usage is a commutative group under the two operations: wrapped sums still cancel.\<close>

instantiation usage :: ab_group_add
begin

definition zero_usage :: usage where "zero_usage = Usage 0 0 0 0 0 0 0"
definition plus_usage :: "usage \<Rightarrow> usage \<Rightarrow> usage" where "plus_usage = usage_add"
definition minus_usage :: "usage \<Rightarrow> usage \<Rightarrow> usage" where "minus_usage = usage_subtract"
definition uminus_usage :: "usage \<Rightarrow> usage" where "uminus_usage u = usage_subtract 0 u"

instance
  by standard
     (auto simp: zero_usage_def plus_usage_def minus_usage_def uminus_usage_def usage_add_def
        usage_subtract_def algebra_simps intro: usage.expand)

end

definition clamp0 :: "i64 \<Rightarrow> i64" where
  "clamp0 x = (if sint x < 0 then 0 else x)"

definition positiveDifference :: "usage \<Rightarrow> usage \<Rightarrow> usage" where
  "positiveDifference actual planned =
     (let d = usage_subtract actual planned in
      Usage (clamp0 (us_Requests d)) (clamp0 (us_RequestBytes d)) (clamp0 (us_ResponseBytes d))
        (clamp0 (us_ArtifactBytes d)) (clamp0 (us_Processes d)) (clamp0 (us_InputTokens d))
        (clamp0 (us_OutputTokens d)))"

definition exceeds :: "usage \<Rightarrow> hard_budget \<Rightarrow> token_budget \<Rightarrow> string" where
  "exceeds u hard tokens =
     (if sint (hb_MaxRequests hard) < sint (us_Requests u) then ''requests''
      else if sint (hb_MaxRequestBytes hard) < sint (us_RequestBytes u) then ''request bytes''
      else if sint (hb_MaxResponseBytes hard) < sint (us_ResponseBytes u) then ''response bytes''
      else if sint (hb_MaxArtifactBytes hard) < sint (us_ArtifactBytes u) then ''artifact bytes''
      else if sint (hb_MaxProcesses hard) < sint (us_Processes u) then ''processes''
      else if 0 < sint (tb_MaxInputTokens tokens)
              \<and> sint (tb_MaxInputTokens tokens) < sint (us_InputTokens u) then ''input tokens''
      else if 0 < sint (tb_MaxOutputTokens tokens)
              \<and> sint (tb_MaxOutputTokens tokens) < sint (us_OutputTokens u) then ''output tokens''
      else [])"

section \<open>Ledger\<close>

record reservation =
  rv_id :: u64
  rv_planned :: usage
  rv_closed :: bool

record ledger =
  lg_policy :: budget_policy
  lg_startedAt :: time
  lg_deadline :: time
  lg_consumed :: usage
  lg_reserved :: usage
  lg_cleanupConsumed :: usage
  lg_overshoot :: usage
  lg_exhausted :: bool
  lg_nextID :: u64
  lg_open :: "(u64, nat) gomap"
  lg_heap :: "reservation list"

definition ledger_New :: "budget_policy \<Rightarrow> time \<Rightarrow> ledger res" where
  "ledger_New policy now = guard_res (policy_Validate policy)
     (Inr \<lparr>lg_policy = policy, lg_startedAt = now, lg_deadline = now + hb_MaxDuration (bp_Hard policy),
           lg_consumed = 0, lg_reserved = 0, lg_cleanupConsumed = 0, lg_overshoot = 0,
           lg_exhausted = False, lg_nextID = 0, lg_open = [], lg_heap = []\<rparr>)"

definition checkTimeLocked :: "ledger \<Rightarrow> time \<Rightarrow> ledger \<times> err" where
  "checkTimeLocked l now =
     (if \<not> now < lg_deadline l then (l\<lparr>lg_exhausted := True\<rparr>, Some (Wrap ''duration'' ErrExhausted))
      else (l, None))"

definition Reserve :: "ledger \<Rightarrow> usage \<Rightarrow> time \<Rightarrow> ledger \<times> nat res" where
  "Reserve l planned now =
     (case usage_Validate planned of Some e \<Rightarrow> (l, Inl e) | None \<Rightarrow>
      if us_Requests planned = 0 \<and> us_Processes planned = 0
        then (l, Inl (Err ''reservation must cover a request or process''))
      else (case checkTimeLocked l now of
         (l1, Some e) \<Rightarrow> (l1, Inl e)
       | (l1, None) \<Rightarrow>
          if lg_exhausted l1 then (l1, Inl ErrExhausted)
          else (let projected = usage_add (usage_add (lg_consumed l1) (lg_reserved l1)) planned;
                    reason = exceeds projected (bp_Hard (lg_policy l1)) (bp_Reservation (lg_policy l1))
                in if reason \<noteq> [] then (l1, Inl (Wrap reason ErrExhausted))
                   else (let i = lg_nextID l1 + 1; p = length (lg_heap l1)
                         in (l1\<lparr>lg_nextID := i,
                               lg_heap := lg_heap l1 @ [\<lparr>rv_id = i, rv_planned = planned, rv_closed = False\<rparr>],
                               lg_open := aput i p (lg_open l1),
                               lg_reserved := usage_add (lg_reserved l1) planned\<rparr>, Inr p)))))"

text \<open>The common part of \<open>Commit\<close> and \<open>Cancel\<close>: close the handle and release what it reserved.\<close>

definition release :: "ledger \<Rightarrow> nat \<Rightarrow> ledger" where
  "release l p =
     (let r = lg_heap l ! p in
      l\<lparr>lg_heap := (lg_heap l)[p := r\<lparr>rv_closed := True\<rparr>],
        lg_open := adel (rv_id r) (lg_open l),
        lg_reserved := usage_subtract (lg_reserved l) (rv_planned r)\<rparr>)"

definition Commit :: "ledger \<Rightarrow> nat \<Rightarrow> usage \<Rightarrow> time \<Rightarrow> ledger \<times> err" where
  "Commit l p actual now =
     (case usage_Validate actual of Some e \<Rightarrow> (l, Some e) | None \<Rightarrow>
      if length (lg_heap l) \<le> p then (l, Some (Err ''nil reservation''))
      else if rv_closed (lg_heap l ! p) then (l, Some ErrReservationClosed)
      else (let planned = rv_planned (lg_heap l ! p);
                l1 = release l p;
                l2 = l1\<lparr>lg_consumed := usage_add (lg_consumed l1) actual,
                        lg_overshoot := usage_add (lg_overshoot l1) (positiveDifference actual planned)\<rparr>;
                reason = exceeds (lg_consumed l2) (bp_Hard (lg_policy l2)) (bp_Reservation (lg_policy l2))
            in if reason \<noteq> []
               then (l2\<lparr>lg_exhausted := True\<rparr>, Some (Wrap (''after in-flight completion: '' @ reason) ErrExhausted))
               else checkTimeLocked l2 now))"

definition Cancel :: "ledger \<Rightarrow> nat \<Rightarrow> ledger \<times> err" where
  "Cancel l p =
     (if length (lg_heap l) \<le> p then (l, Some (Err ''nil reservation''))
      else if rv_closed (lg_heap l ! p) then (l, Some ErrReservationClosed)
      else (release l p, None))"

definition ConsumeCleanup :: "ledger \<Rightarrow> usage \<Rightarrow> ledger \<times> err" where
  "ConsumeCleanup l actual =
     (case usage_Validate actual of Some e \<Rightarrow> (l, Some e) | None \<Rightarrow>
      (let projected = usage_add (lg_cleanupConsumed l) actual;
           reason = exceeds projected (bp_Cleanup (lg_policy l))
                      \<lparr>tb_MaxInputTokens = 0, tb_MaxOutputTokens = 0\<rparr>
       in if reason \<noteq> [] then (l, Some (Wrap (''cleanup '' @ reason) ErrExhausted))
          else (l\<lparr>lg_cleanupConsumed := projected\<rparr>, None)))"

record budget_snapshot =
  sn_Consumed :: usage
  sn_Reserved :: usage
  sn_CleanupConsumed :: usage
  sn_Overshoot :: usage
  sn_Unknown :: "string list"
  sn_StartedAt :: time
  sn_Deadline :: time
  sn_Exhausted :: bool

definition ledger_Snapshot :: "ledger \<Rightarrow> time \<Rightarrow> ledger \<times> budget_snapshot" where
  "ledger_Snapshot l now =
     (let l1 = fst (checkTimeLocked l now) in
      (l1, \<lparr>sn_Consumed = lg_consumed l1, sn_Reserved = lg_reserved l1,
            sn_CleanupConsumed = lg_cleanupConsumed l1, sn_Overshoot = lg_overshoot l1,
            sn_Unknown = [], sn_StartedAt = lg_startedAt l1, sn_Deadline = lg_deadline l1,
            sn_Exhausted = lg_exhausted l1\<rparr>))"

text \<open>The interleaved calls of all users of a ledger, each with the clock reading it saw.\<close>

datatype ledger_op = OpReserve usage | OpCommit nat usage | OpCancel nat | OpCleanup usage | OpSnapshot

definition ledger_step :: "ledger \<Rightarrow> ledger_op \<times> time \<Rightarrow> ledger \<times> err" where
  "ledger_step l ot =
     (case ot of (op, now) \<Rightarrow>
       (case op of
          OpReserve u \<Rightarrow> (case Reserve l u now of (l', Inl e) \<Rightarrow> (l', Some e) | (l', Inr _) \<Rightarrow> (l', None))
        | OpCommit p u \<Rightarrow> Commit l p u now
        | OpCancel p \<Rightarrow> Cancel l p
        | OpCleanup u \<Rightarrow> ConsumeCleanup l u
        | OpSnapshot \<Rightarrow> (fst (ledger_Snapshot l now), None)))"

section \<open>Accounting invariant\<close>

definition open_planned :: "reservation list \<Rightarrow> usage" where
  "open_planned rs = sum_list (map rv_planned (filter (\<lambda>r. \<not> rv_closed r) rs))"

definition no_tokens :: token_budget where
  "no_tokens = \<lparr>tb_MaxInputTokens = 0, tb_MaxOutputTokens = 0\<rparr>"

definition ledger_inv :: "ledger \<Rightarrow> bool" where
  "ledger_inv l \<longleftrightarrow>
     lg_reserved l = open_planned (lg_heap l) \<and>
     (lg_exhausted l \<or> exceeds (lg_consumed l) (bp_Hard (lg_policy l)) (bp_Reservation (lg_policy l)) = []) \<and>
     exceeds (lg_cleanupConsumed l) (bp_Cleanup (lg_policy l)) no_tokens = []"

lemma usage_add_plus: "usage_add u v = u + v" and usage_subtract_minus: "usage_subtract u v = u - v"
  by (simp_all add: plus_usage_def minus_usage_def)

lemma open_planned_snoc: "open_planned (rs @ [r]) = open_planned rs + (if rv_closed r then 0 else rv_planned r)"
  by (simp add: open_planned_def)

lemma open_planned_close:
  assumes "p < length rs" "\<not> rv_closed (rs ! p)"
  shows "open_planned (rs[p := (rs ! p)\<lparr>rv_closed := True\<rparr>]) = open_planned rs - rv_planned (rs ! p)"
proof -
  have rs: "rs = take p rs @ rs ! p # drop (Suc p) rs" using assms(1) by (rule id_take_nth_drop)
  have upd: "rs[p := r] = take p rs @ r # drop (Suc p) rs" for r
    using assms(1) by (simp add: upd_conv_take_nth_drop)
  have "open_planned rs = open_planned (take p rs @ rs ! p # drop (Suc p) rs)" using rs by simp
  with assms(2) show ?thesis by (simp add: upd open_planned_def)
qed

lemma exceeds_zero: "hard_Validate hard = None \<Longrightarrow> exceeds 0 hard tokens = []"
  by (auto simp: hard_Validate_def exceeds_def zero_usage_def)

lemma ledger_inv_New: "ledger_New policy now = Inr l \<Longrightarrow> ledger_inv l"
  by (auto simp: ledger_New_def ledger_inv_def open_planned_def policy_Validate_def exceeds_zero)

lemma checkTimeLocked_fields [simp]:
  "lg_heap (fst (checkTimeLocked l now)) = lg_heap l"
  "lg_policy (fst (checkTimeLocked l now)) = lg_policy l"
  "lg_consumed (fst (checkTimeLocked l now)) = lg_consumed l"
  "lg_reserved (fst (checkTimeLocked l now)) = lg_reserved l"
  "lg_cleanupConsumed (fst (checkTimeLocked l now)) = lg_cleanupConsumed l"
  by (simp_all add: checkTimeLocked_def)

lemma checkTimeLocked_inv: "ledger_inv l \<Longrightarrow> ledger_inv (fst (checkTimeLocked l now))"
  by (auto simp: ledger_inv_def checkTimeLocked_def)

lemma checkTimeLocked_None: "checkTimeLocked l now = (l1, None) \<longleftrightarrow> l1 = l \<and> now < lg_deadline l"
  by (auto simp: checkTimeLocked_def)

lemma release_fields [simp]:
  "lg_policy (release l p) = lg_policy l" "lg_consumed (release l p) = lg_consumed l"
  "lg_exhausted (release l p) = lg_exhausted l" "lg_overshoot (release l p) = lg_overshoot l"
  "lg_cleanupConsumed (release l p) = lg_cleanupConsumed l"
  "lg_deadline (release l p) = lg_deadline l"
  "lg_heap (release l p) = (lg_heap l)[p := (lg_heap l ! p)\<lparr>rv_closed := True\<rparr>]"
  by (simp_all add: release_def Let_def)

lemma release_inv:
  "ledger_inv l \<Longrightarrow> p < length (lg_heap l) \<Longrightarrow> \<not> rv_closed (lg_heap l ! p) \<Longrightarrow> ledger_inv (release l p)"
  by (auto simp: ledger_inv_def open_planned_close usage_subtract_minus) (auto simp: release_def usage_subtract_minus Let_def)

lemma Reserve_Inr:
  assumes "Reserve l u now = (l', Inr p)"
  shows "usage_Validate u = None" "\<not> (us_Requests u = 0 \<and> us_Processes u = 0)" "now < lg_deadline l"
    "\<not> lg_exhausted l" "p = length (lg_heap l)"
    "exceeds (lg_consumed l + lg_reserved l + u) (bp_Hard (lg_policy l)) (bp_Reservation (lg_policy l)) = []"
    "l' = l\<lparr>lg_nextID := lg_nextID l + 1,
            lg_heap := lg_heap l @ [\<lparr>rv_id = lg_nextID l + 1, rv_planned = u, rv_closed = False\<rparr>],
            lg_open := aput (lg_nextID l + 1) p (lg_open l), lg_reserved := lg_reserved l + u\<rparr>"
  using assms
  by (auto simp: Reserve_def checkTimeLocked_def usage_add_plus Let_def split: option.splits if_splits)

lemma Reserve_inv: "ledger_inv l \<Longrightarrow> ledger_inv (fst (Reserve l u now))"
proof (cases "Reserve l u now")
  case (Pair l' r)
  assume inv: "ledger_inv l"
  show ?thesis
  proof (cases r)
    case (Inr p)
    with Pair have "Reserve l u now = (l', Inr p)" by simp
    from Reserve_Inr(7) [OF this] inv Pair show ?thesis
      by (simp add: ledger_inv_def open_planned_snoc)
  next
    case (Inl e)
    with Pair inv show ?thesis
      by (auto simp: Reserve_def checkTimeLocked_def Let_def ledger_inv_def split: option.splits if_splits)
  qed
qed

lemma Commit_inv: "ledger_inv l \<Longrightarrow> ledger_inv (fst (Commit l p u now))"
proof (cases "usage_Validate u = None \<and> p < length (lg_heap l) \<and> \<not> rv_closed (lg_heap l ! p)")
  case True
  assume "ledger_inv l"
  with True have "ledger_inv (release l p)" by (simp add: release_inv)
  with True show ?thesis
    by (auto simp: Commit_def Let_def not_le intro!: checkTimeLocked_inv) (auto simp: ledger_inv_def)
qed (auto simp: Commit_def split: option.splits)

lemma Cancel_inv: "ledger_inv l \<Longrightarrow> ledger_inv (fst (Cancel l p))"
  by (auto simp: Cancel_def not_le intro: release_inv)

lemma ConsumeCleanup_inv: "ledger_inv l \<Longrightarrow> ledger_inv (fst (ConsumeCleanup l u))"
  by (auto simp: ConsumeCleanup_def Let_def ledger_inv_def no_tokens_def split: option.splits)

lemma ledger_step_inv: "ledger_inv l \<Longrightarrow> ledger_inv (fst (ledger_step l ot))"
  using Reserve_inv [of l _ "snd ot"] Commit_inv [of l _ _ "snd ot"] Cancel_inv [of l] ConsumeCleanup_inv [of l]
    checkTimeLocked_inv [of l "snd ot"]
  by (auto simp: ledger_step_def ledger_Snapshot_def Let_def
      split: prod.splits ledger_op.splits sum.splits) (metis fst_conv)+

text \<open>Exhaustion is final, and so is the closing of a reservation.\<close>

definition ledger_rank :: "ledger \<Rightarrow> nat" where
  "ledger_rank l = (if lg_exhausted l then 1 else 0)"

lemma ledger_step_exhausted: "lg_exhausted l \<Longrightarrow> lg_exhausted (fst (ledger_step l ot))"
  by (auto simp: ledger_step_def Reserve_def Commit_def Cancel_def ConsumeCleanup_def
      ledger_Snapshot_def checkTimeLocked_def Let_def
      split: prod.splits ledger_op.splits sum.splits option.splits)

interpretation ledger: invariant_machine ledger_step ledger_inv
  by standard (rule ledger_step_inv)

interpretation ledger: lifecycle_machine ledger_step ledger_inv ledger_rank
  by standard (auto simp: ledger_rank_def ledger_step_exhausted)

text \<open>The ledger as the executor uses it: a reservation is held until its commit.\<close>

lemma Reserve_Inl_reserved: "Reserve l u t = (l', Inl e) \<Longrightarrow> lg_reserved l' = lg_reserved l"
  by (auto simp: Reserve_def checkTimeLocked_def Let_def split: option.splits if_splits)

lemma Reserve_Commit_reserved:
  assumes "Reserve l u t = (l1, Inr h)" "usage_Validate v = None"
  shows "lg_reserved (fst (Commit l1 h v t')) = lg_reserved l"
  using assms(2) unfolding Reserve_Inr(5,7) [OF assms(1)]
  by (simp add: Commit_def Let_def release_def usage_subtract_minus)

interpretation budget: reservation_ledger Reserve Commit lg_reserved "\<lambda>u. usage_Validate u = None" ledger_inv
proof
  show "ledger_inv l' \<and> lg_reserved l' = lg_reserved l" if "ledger_inv l" "Reserve l u t = (l', Inl e)" for l u t l' e
    using Reserve_inv [OF that(1), of u t] Reserve_Inl_reserved [OF that(2)] that(2) by simp
  show "usage_Validate u = None" if "Reserve l u t = (l', Inr h)" for l u t l' h by (rule Reserve_Inr(1) [OF that])
  show "ledger_inv (fst (Commit l1 h v t')) \<and> lg_reserved (fst (Commit l1 h v t')) = lg_reserved l"
    if "ledger_inv l" "Reserve l u t = (l1, Inr h)" "usage_Validate v = None" for l u t l1 h v t'
    using Reserve_inv [OF that(1), of u t] that(2,3) Reserve_Commit_reserved [OF that(2,3)] by (simp add: Commit_inv)
qed

text \<open>A handle, once handed out, keeps its plan; once closed it stays closed.\<close>

definition handle_kept :: "reservation \<Rightarrow> reservation \<Rightarrow> bool" where
  "handle_kept r r' \<longleftrightarrow> rv_id r' = rv_id r \<and> rv_planned r' = rv_planned r \<and> (rv_closed r \<longrightarrow> rv_closed r')"

lemma ledger_step_handles:
  assumes "p < length (lg_heap l)"
  shows "p < length (lg_heap (fst (ledger_step l ot))) \<and>
     handle_kept (lg_heap l ! p) (lg_heap (fst (ledger_step l ot)) ! p)"
proof -
  have upd: "handle_kept (lg_heap l ! p) ((lg_heap l)[q := (lg_heap l ! q)\<lparr>rv_closed := True\<rparr>] ! p)" for q
    using assms by (cases "p = q") (auto simp: handle_kept_def)
  have same: "handle_kept r r" for r by (simp add: handle_kept_def)
  show ?thesis
    using assms upd same
    by (auto simp: ledger_step_def Reserve_def Commit_def Cancel_def ConsumeCleanup_def nth_append
        ledger_Snapshot_def checkTimeLocked_def Let_def
        split: prod.splits ledger_op.splits sum.splits option.splits)
qed

lemma ledger_run_handles:
  "p < length (lg_heap l) \<Longrightarrow> p < length (lg_heap (run ledger_step l ops)) \<and>
     handle_kept (lg_heap l ! p) (lg_heap (run ledger_step l ops) ! p)"
proof (induction ops arbitrary: l)
  case (Cons ot ops)
  from ledger_step_handles [OF Cons.prems, of ot] Cons.IH [of "fst (ledger_step l ot)"]
  show ?case by (auto simp: handle_kept_def)
qed (simp add: handle_kept_def)

section \<open>Properties\<close>

text \<open>
  C2. Whatever calls the users of a ledger make and in whatever order, the reserved amount is the
  sum of what the still-open reservations planned (so it returns to zero when all are closed),
  what was consumed is within the hard and token limits unless the ledger is exhausted, and the
  cleanup ledger is within its own limits.
\<close>

theorem ledger_accounting:
  assumes "ledger_New policy start = Inr l0"
  shows "ledger_inv (run ledger_step l0 ops)"
  by (rule ledger.run_invar [OF ledger_inv_New [OF assms]])

definition small_hard :: hard_budget where
  "small_hard = \<lparr>hb_MaxRequests = 4, hb_MaxRequestBytes = 1000, hb_MaxResponseBytes = 1000,
     hb_MaxArtifactBytes = 1000, hb_MaxProcesses = 2, hb_MaxDuration = 60\<rparr>"

definition small_policy :: budget_policy where
  "small_policy = \<lparr>bp_Hard = small_hard, bp_Reservation = no_tokens, bp_Cleanup = small_hard\<rparr>"

definition small_ledger :: ledger where
  "small_ledger = \<lparr>lg_policy = small_policy, lg_startedAt = 100, lg_deadline = 160,
     lg_consumed = 0, lg_reserved = 0, lg_cleanupConsumed = 0, lg_overshoot = 0,
     lg_exhausted = False, lg_nextID = 0, lg_open = [], lg_heap = []\<rparr>"

lemma small_ledger_New: "ledger_New small_policy 100 = Inr small_ledger"
  by (simp add: ledger_New_def small_policy_def small_hard_def policy_Validate_def hard_Validate_def
      token_Validate_def duration_Validate_def small_ledger_def no_tokens_def)

theorem ledger_accounting_witness:
  "ledger_inv (run ledger_step small_ledger [(OpReserve (Usage 1 10 10 10 0 0 0), 110), (OpCancel 0, 111)])"
  by (rule ledger_accounting [OF small_ledger_New])

text \<open>The amounts of a reservation and of the ledger add up without leaving the \<open>int64\<close> range.\<close>

definition no_wrap :: "i64 \<Rightarrow> i64 \<Rightarrow> i64 \<Rightarrow> bool" where
  "no_wrap a b c \<longleftrightarrow> i64_range (sint a + sint b) \<and> i64_range (sint a + sint b + sint c)"

lemma sint_no_wrap: "no_wrap a b c \<Longrightarrow> sint (a + b + c) = sint a + sint b + sint c"
  by (simp add: no_wrap_def sint_add_i64)


lemma small_reserve: "\<exists>l'. Reserve small_ledger (Usage 1 10 10 10 0 0 0) 110 = (l', Inr 0)"
  by (simp add: Reserve_def small_ledger_def usage_Validate_def checkTimeLocked_def usage_add_def
      zero_usage_def exceeds_def small_policy_def small_hard_def no_tokens_def Let_def)


text \<open>
  The hypothesis on the sums cannot be dropped: with a limit of 1000 request bytes and 1000
  bytes reserved, a reservation of \<open>2^63 - 1\<close> request bytes is granted, because the projected sum
  wraps to a negative number.
\<close>

theorem Reserve_overflow_admits:
  "\<exists>l1 l2. Reserve small_ledger (Usage 1 1000 0 0 0 0 0) 110 = (l1, Inr 0) \<and>
     Reserve l1 (Usage 1 9223372036854775807 0 0 0 0 0) 110 = (l2, Inr 1) \<and>
     hb_MaxRequestBytes (bp_Hard (lg_policy l1)) = 1000 \<and>
     sint (us_RequestBytes (lg_reserved l1)) + sint (9223372036854775807 :: i64) > 1000"
  by (simp add: Reserve_def small_ledger_def usage_Validate_def checkTimeLocked_def usage_add_def
      zero_usage_def exceeds_def small_policy_def small_hard_def no_tokens_def Let_def)

text \<open>
  Exhaustion is permanent: once a ledger is exhausted, no sequence of calls makes it grant a
  reservation again, while the cleanup ledger answers exactly as it would have.
\<close>

theorem exhausted_is_final:
  assumes "lg_exhausted l"
  shows "(\<exists>e. snd (Reserve (run ledger_step l ops) u now) = Inl e) \<and>
    snd (ConsumeCleanup l c) = snd (ConsumeCleanup (l\<lparr>lg_exhausted := False\<rparr>) c)"
proof
  have "lg_exhausted (run ledger_step l ops)"
    using assms by (induction ops arbitrary: l) (auto simp: ledger_step_exhausted)
  then show "\<exists>e. snd (Reserve (run ledger_step l ops) u now) = Inl e"
    using Reserve_Inr(4) [of "run ledger_step l ops" u now]
    by (cases "Reserve (run ledger_step l ops) u now"; cases "snd (Reserve (run ledger_step l ops) u now)") auto
  show "snd (ConsumeCleanup l c) = snd (ConsumeCleanup (l\<lparr>lg_exhausted := False\<rparr>) c)"
    by (auto simp: ConsumeCleanup_def Let_def split: option.splits)
qed

theorem exhausted_is_final_witness:
  "let l = fst (ledger_step small_ledger (OpSnapshot, 160)) in
     lg_exhausted l \<and> (\<exists>e. snd (Reserve (run ledger_step l [(OpSnapshot, 100)]) (Usage 1 1 1 1 0 0 0) 100) = Inl e)"
proof -
  have "lg_exhausted (fst (ledger_step small_ledger (OpSnapshot, 160)))"
    by (simp add: ledger_step_def ledger_Snapshot_def checkTimeLocked_def small_ledger_def Let_def)
  with exhausted_is_final [OF this] show ?thesis by (simp only: Let_def)
qed



end
