(* ===== verification/DriverProtocol.thy ===== *)
theory DriverProtocol
  imports GoStd SchemaCore
begin

text \<open>
  Package \<open>driverprotocol\<close>, files \<open>protocol.go\<close> and \<open>codec.go\<close>: the JSON-RPC control frames that
  core and driver exchange, the typed parameters of each method with their validation, and the
  NDJSON framing.  JSON itself is behind a record \<open>json_lib\<close> of functions: \<open>jl_canonical\<close> is
  \<open>CanonicalizeJSON\<close>, \<open>jl_any\<close> decodes a value with \<open>UseNumber\<close>, \<open>jl_marshal\<close> is
  \<open>CanonicalMarshal\<close> of a message, and the other fields are \<open>decodeStrict\<close> into each parameter
  type.  A raw message is its byte string; an absent member is the empty string, as in Go.
\<close>

section \<open>Methods and errors\<close>

datatype rpc_method = MethodHello | MethodPrepare | MethodCapabilities | MethodInvoke | MethodCancel
  | MethodReset | MethodShutdown | MethodObservation | MethodCompleted | OtherMethod string

definition requestMethods :: "rpc_method list" where
  "requestMethods = [MethodHello, MethodPrepare, MethodCapabilities, MethodInvoke, MethodCancel,
     MethodReset, MethodShutdown]"

definition notificationMethods :: "rpc_method list" where
  "notificationMethods = [MethodObservation, MethodCompleted]"

definition method_validate :: "rpc_method \<Rightarrow> err" where
  "method_validate m =
     (if m \<in> set requestMethods then None
      else if m \<in> set notificationMethods then None
      else Some (Err ''unknown driver method''))"

datatype message_kind = MessageInvalid | MessageRequest | MessageNotification | MessageResponse

datatype error_class = ErrorUnsupportedRPCVersion | ErrorInvalidState | ErrorInvalidRequest
  | ErrorPermissionDenied | ErrorBudgetExceeded | ErrorCapabilityMismatch | ErrorDriverInternal
  | ErrorCancellationTimeout | ErrorMalformedObservation | ErrorArtifactMismatch
  | OtherClass string

definition stableErrorClasses :: "error_class list" where
  "stableErrorClasses = [ErrorUnsupportedRPCVersion, ErrorInvalidState, ErrorInvalidRequest,
     ErrorPermissionDenied, ErrorBudgetExceeded, ErrorCapabilityMismatch, ErrorDriverInternal,
     ErrorCancellationTimeout, ErrorMalformedObservation, ErrorArtifactMismatch]"

datatype proto_error = ProtocolError (pe_Class: error_class) (pe_Message: string) (pe_Cause: cause)
and cause = NoCause | Cause go_error | ProtoCause proto_error

record error_data =
  ed_Class :: error_class
  ed_Details :: string

record rpc_error =
  re_Code :: i64
  re_Message :: string
  re_Data :: "error_data option"

record message =
  msg_JSONRPC :: string
  msg_ID :: string
  msg_Method :: rpc_method
  msg_Params :: string
  msg_Result :: string
  msg_Error :: "rpc_error option"

section \<open>Parameters of the methods\<close>

record version_range =
  vr_Minimum :: string
  vr_Maximum :: string

definition version_validate :: "version_range \<Rightarrow> err" where
  "version_validate v = fail_if (vr_Minimum v = [] \<or> vr_Maximum v = [])
     (Err ''minimum and maximum RPC versions are required'')"

record driver_identity =
  di_Name :: string
  di_Version :: string
  di_SDKName :: string
  di_SDKVersion :: string
  di_ClientName :: string
  di_ClientVersion :: string
  di_RuntimeName :: string
  di_RuntimeVersion :: string
  di_OS :: string
  di_Architecture :: string
  di_ArtifactDigest :: digest
  di_LockfileDigest :: digest

definition identity_validate :: "driver_identity \<Rightarrow> err" where
  "identity_validate d = first_err
     (map (\<lambda>v. fail_if (blank v) (Err ''driver identity field is required''))
        [di_Name d, di_Version d, di_RuntimeName d, di_RuntimeVersion d, di_OS d, di_Architecture d]
      @ [wrap_err ''driver artifact digest'' (digest_Validate (di_ArtifactDigest d)),
         if di_LockfileDigest d \<noteq> [] then wrap_err ''driver lockfile digest'' (digest_Validate (di_LockfileDigest d))
         else None,
         fail_if ((di_SDKName d = []) \<noteq> (di_SDKVersion d = []))
           (Err ''SDK name and version must be provided together''),
         fail_if ((di_ClientName d = []) \<noteq> (di_ClientVersion d = []))
           (Err ''client name and version must be provided together'')])"

record capabilities =
  cap_Protocols :: "string list"
  cap_Operations :: "string list"
  cap_Streaming :: bool
  cap_Cancellation :: bool
  cap_RetryObserved :: bool
  cap_Concurrency :: bool
  cap_MaxConcurrency :: u32

record hello_params =
  hp_CoreVersionRange :: version_range

definition hello_Validate :: "hello_params \<Rightarrow> err" where
  "hello_Validate p = version_validate (hp_CoreVersionRange p)"

record hello_result =
  hr_DriverVersionRange :: version_range
  hr_Identity :: driver_identity
  hr_Capabilities :: capabilities
  hr_RequestedPermissions :: "string list"

definition hello_result_Validate :: "hello_result \<Rightarrow> err" where
  "hello_result_Validate r = first_err
     [version_validate (hr_DriverVersionRange r), identity_validate (hr_Identity r)]"

record prepare_params =
  pp_ResolvedPlanDigest :: digest
  pp_CapabilityToken :: string
  pp_FixtureRefs :: "object_ref list"
  pp_ApprovedPermissions :: "string list"

definition prepare_Validate :: "prepare_params \<Rightarrow> err" where
  "prepare_Validate p = first_err
     ([wrap_err ''resolved plan digest'' (digest_Validate (pp_ResolvedPlanDigest p)),
       fail_if (pp_CapabilityToken p = []) (Err ''capability token is required'')]
      @ map (\<lambda>r. wrap_err ''fixture_refs'' (ref_Validate r)) (pp_FixtureRefs p))"

record exact_input_handle =
  ih_Kind :: string
  ih_Value :: string

definition handle_validate :: "exact_input_handle \<Rightarrow> err" where
  "handle_validate h = first_err
     [fail_if (ih_Kind h \<notin> set [''pipe'', ''socket'', ''memfd'']) (Err ''unsupported exact input handle kind''),
      fail_if (ih_Value h = []) (Err ''exact input handle value is required'')]"

record invoke_params =
  ip_InvocationID :: instance_id
  ip_AttemptID :: instance_id
  ip_Operation :: string
  ip_Input :: exact_input_handle

definition invoke_Validate :: "invoke_params \<Rightarrow> err" where
  "invoke_Validate p = first_err
     [wrap_err ''invocation_id'' (id_Validate (ip_InvocationID p)),
      wrap_err ''attempt_id'' (id_Validate (ip_AttemptID p)),
      fail_if (ip_Operation p = []) (Err ''operation is required''),
      handle_validate (ip_Input p)]"

record cancel_params =
  cp_InvocationID :: instance_id
  cp_Reason :: string
  cp_DeadlineMillis :: u64

definition cancel_Validate :: "cancel_params \<Rightarrow> err" where
  "cancel_Validate p = first_err
     [wrap_err ''invocation_id'' (id_Validate (cp_InvocationID p)),
      fail_if (cp_Reason p = []) (Err ''cancel reason is required''),
      fail_if (cp_DeadlineMillis p = 0) (Err ''cancel deadline_millis must be greater than zero'')]"

text \<open>\<open>op_DataStream\<close> is the \<open>StreamID\<close> of the \<open>CompanionStreamRef\<close>, when one is present.\<close>

record observation_params =
  op_InvocationID :: instance_id
  op_AttemptID :: instance_id
  op_Sequence :: u64
  op_Kind :: string
  op_MonotonicNS :: u64
  op_Payload :: string
  op_DataStream :: "string option"

definition observation_params_Validate :: "(string \<Rightarrow> string res) \<Rightarrow> observation_params \<Rightarrow> err" where
  "observation_params_Validate canonical p = first_err
     [wrap_err ''invocation_id'' (id_Validate (op_InvocationID p)),
      wrap_err ''attempt_id'' (id_Validate (op_AttemptID p)),
      fail_if (op_Kind p = []) (Err ''observation kind is required''),
      fail_if (op_Payload p \<noteq> [] \<and> op_DataStream p \<noteq> None)
        (Err ''observation cannot contain both inline payload and data_stream''),
      (if op_Payload p \<noteq> [] then
         (case canonical (op_Payload p) of Inl e \<Rightarrow> Some (Wrap ''observation payload'' e) | Inr _ \<Rightarrow> None)
       else None),
      fail_if (op_DataStream p = Some []) (Err ''data stream ID is required'')]"

datatype terminal_status = TerminalCompleted | TerminalCancelled | TerminalErrored | OtherStatus string

record completed_params =
  tp_InvocationID :: instance_id
  tp_AttemptID :: instance_id
  tp_Status :: terminal_status
  tp_LastSequence :: "u64 option"
  tp_SummaryDigest :: digest

definition completed_Validate :: "completed_params \<Rightarrow> err" where
  "completed_Validate p = first_err
     [wrap_err ''invocation_id'' (id_Validate (tp_InvocationID p)),
      wrap_err ''attempt_id'' (id_Validate (tp_AttemptID p)),
      fail_if (tp_Status p \<notin> set [TerminalCompleted, TerminalCancelled, TerminalErrored])
        (Err ''unknown terminal status''),
      wrap_err ''summary digest'' (digest_Validate (tp_SummaryDigest p))]"

section \<open>JSON and framing\<close>

datatype any_json = JsonString | JsonNumber string | JsonOther

record json_lib =
  jl_canonical :: "string \<Rightarrow> string res"
  jl_any :: "string \<Rightarrow> any_json res"
  jl_hello :: "string \<Rightarrow> hello_params res"
  jl_prepare :: "string \<Rightarrow> prepare_params res"
  jl_invoke :: "string \<Rightarrow> invoke_params res"
  jl_cancel :: "string \<Rightarrow> cancel_params res"
  jl_observation :: "string \<Rightarrow> observation_params res"
  jl_completed :: "string \<Rightarrow> completed_params res"
  jl_empty :: "string \<Rightarrow> unit res"
  jl_message :: "string \<Rightarrow> message res"
  jl_marshal :: "message \<Rightarrow> string res"

definition MaxControlFrameBytes :: int where "MaxControlFrameBytes = 1048576"
definition DefaultMaxDataFrameBytes :: int where "DefaultMaxDataFrameBytes = 262144"

definition ErrEmptyControlFrame :: go_error where "ErrEmptyControlFrame = Err ''empty driver control frame''"
definition ErrMultilineControlFrame :: go_error where
  "ErrMultilineControlFrame = Err ''driver control frame must be one NDJSON line''"
definition ErrControlFrameTooLarge :: go_error where
  "ErrControlFrameTooLarge = Err ''driver control frame exceeds 1 MiB''"
definition ErrDataFrameTooLarge :: go_error where
  "ErrDataFrameTooLarge = Err ''driver data frame exceeds 256 KiB''"

definition ValidateControlFrameSize :: "int \<Rightarrow> proto_error option" where
  "ValidateControlFrameSize n = first_err
     [fail_if (n < 0) (ProtocolError ErrorInvalidRequest ''negative control frame size'' NoCause),
      fail_if (n > MaxControlFrameBytes)
        (ProtocolError ErrorBudgetExceeded ''driver control frame exceeds 1 MiB'' (Cause ErrControlFrameTooLarge))]"

definition ValidateDataFrameSize :: "int \<Rightarrow> proto_error option" where
  "ValidateDataFrameSize n = first_err
     [fail_if (n < 0) (ProtocolError ErrorInvalidRequest ''negative data frame size'' NoCause),
      fail_if (n > DefaultMaxDataFrameBytes)
        (ProtocolError ErrorBudgetExceeded ''driver data frame exceeds 256 KiB'' (Cause ErrDataFrameTooLarge))]"

record data_frame_header =
  fh_InvocationID :: instance_id
  fh_AttemptID :: instance_id
  fh_StreamID :: string
  fh_Sequence :: u64
  fh_Length :: u32
  fh_Final :: bool

text \<open>The error is a \<open>ProtocolError\<close> only for the size; the others are plain errors.\<close>

definition header_Validate :: "data_frame_header \<Rightarrow> cause option" where
  "header_Validate h = first_err
     [map_option Cause (wrap_err ''invocation_id'' (id_Validate (fh_InvocationID h))),
      map_option Cause (wrap_err ''attempt_id'' (id_Validate (fh_AttemptID h))),
      fail_if (fh_StreamID h = []) (Cause (Err ''stream_id is required'')),
      map_option ProtoCause (ValidateDataFrameSize (int (unat (fh_Length h))))]"

definition LF :: char where "LF = CHR 0x0A"
definition CR :: char where "CR = CHR 0x0D"

definition empty_frame :: proto_error where
  "empty_frame = ProtocolError ErrorInvalidRequest ''empty driver control frame'' (Cause ErrEmptyControlFrame)"

definition stripNDJSONLineEnding :: "string \<Rightarrow> proto_error + string" where
  "stripNDJSONLineEnding line =
     (if line = [] then Inl empty_frame
      else let frame = (if last line = LF then
                          (let f = butlast line in if f \<noteq> [] \<and> last f = CR then butlast f else f)
                        else line)
           in if frame = [] then Inl empty_frame
              else if LF \<in> set frame \<or> CR \<in> set frame then
                Inl (ProtocolError ErrorInvalidRequest ''driver control frame must be one NDJSON line''
                      (Cause ErrMultilineControlFrame))
              else Inr frame)"

definition DecodeParamsStrict :: "json_lib \<Rightarrow> (string \<Rightarrow> 'a res) \<Rightarrow> string \<Rightarrow> proto_error + 'a" where
  "DecodeParamsStrict J decodeStrict raw =
     (if raw = [] then Inl (ProtocolError ErrorInvalidRequest ''params are required'' NoCause)
      else case jl_canonical J raw of
        Inl e \<Rightarrow> Inl (ProtocolError ErrorInvalidRequest ''params are not strict JSON'' (Cause e))
      | Inr canonical \<Rightarrow>
          (case decodeStrict canonical of
             Inl e \<Rightarrow> Inl (ProtocolError ErrorInvalidRequest ''decode params'' (Cause e))
           | Inr v \<Rightarrow> Inr v))"

definition decodeOptionalEmptyParams :: "json_lib \<Rightarrow> string \<Rightarrow> proto_error option" where
  "decodeOptionalEmptyParams J raw =
     (if raw = [] then None
      else case DecodeParamsStrict J (jl_empty J) raw of Inl e \<Rightarrow> Some e | Inr _ \<Rightarrow> None)"

definition validateParamsShape :: "json_lib \<Rightarrow> string \<Rightarrow> err" where
  "validateParamsShape J raw =
     (case jl_canonical J raw of
        Inl e \<Rightarrow> Some e
      | Inr c \<Rightarrow> fail_if (c = [] \<or> (hd c \<noteq> CHR ''{'' \<and> hd c \<noteq> CHR ''['')) (Err ''params are not an object or array''))"

definition validateRequestID :: "json_lib \<Rightarrow> string \<Rightarrow> err" where
  "validateRequestID J raw =
     (case jl_canonical J raw of
        Inl e \<Rightarrow> Some e
      | Inr c \<Rightarrow>
          if c = ''null'' then Some (Err ''null request ID is not permitted'')
          else case jl_any J c of
            Inl e \<Rightarrow> Some e
          | Inr JsonString \<Rightarrow> None
          | Inr (JsonNumber n) \<Rightarrow>
              fail_if (\<exists>ch\<in>set n. ch \<in> set ''.eE'') (Err ''fractional or exponent request ID is not permitted'')
          | Inr JsonOther \<Rightarrow> Some (Err ''request ID must be a string or integer''))"

definition validateResponseID :: "json_lib \<Rightarrow> string \<Rightarrow> err" where
  "validateResponseID = validateRequestID"

definition rpc_error_Validate :: "json_lib \<Rightarrow> rpc_error \<Rightarrow> proto_error option" where
  "rpc_error_Validate J e =
     (if re_Message e = [] then Some (ProtocolError ErrorInvalidRequest ''RPC error message is required'' NoCause)
      else case re_Data e of
        None \<Rightarrow> Some (ProtocolError ErrorInvalidRequest ''RPC error data with a stable class is required'' NoCause)
      | Some d \<Rightarrow>
          if ed_Class d \<notin> set stableErrorClasses
          then Some (ProtocolError ErrorInvalidRequest ''unknown RPC error class'' NoCause)
          else if ed_Details d \<noteq> [] then
            (case jl_canonical J (ed_Details d) of
               Inl c \<Rightarrow> Some (ProtocolError ErrorInvalidRequest ''RPC error details are not strict JSON'' (Cause c))
             | Inr _ \<Rightarrow> None)
          else None)"

text \<open>\<open>Message.Kind\<close>.\<close>

definition invalid_request :: "string \<Rightarrow> err \<Rightarrow> proto_error + 'a" where
  "invalid_request t c = Inl (ProtocolError ErrorInvalidRequest t (case c of None \<Rightarrow> NoCause | Some e \<Rightarrow> Cause e))"

definition method_Kind :: "json_lib \<Rightarrow> message \<Rightarrow> proto_error + message_kind" where
  "method_Kind J m =
     (case method_validate (msg_Method m) of
        Some e \<Rightarrow> invalid_request ''unknown driver method'' (Some e)
      | None \<Rightarrow>
          if msg_Result m \<noteq> [] \<or> msg_Error m \<noteq> None then
            invalid_request ''method message cannot contain result or error'' None
          else case (if msg_Params m \<noteq> [] then validateParamsShape J (msg_Params m) else None) of
            Some e \<Rightarrow> invalid_request ''params must be an object or array'' (Some e)
          | None \<Rightarrow>
              if msg_Method m \<in> set notificationMethods then
                (if msg_ID m \<noteq> [] then invalid_request ''driver notification must not contain id'' None
                 else Inr MessageNotification)
              else if msg_ID m = [] then invalid_request ''driver request must contain id'' None
              else case validateRequestID J (msg_ID m) of
                Some e \<Rightarrow> invalid_request ''invalid request id'' (Some e)
              | None \<Rightarrow> Inr MessageRequest)"

definition message_Kind :: "json_lib \<Rightarrow> message \<Rightarrow> proto_error + message_kind" where
  "message_Kind J m =
     (if msg_JSONRPC m \<noteq> ''2.0'' then Inl (ProtocolError ErrorUnsupportedRPCVersion ''jsonrpc must be 2.0'' NoCause)
      else if msg_Method m \<noteq> OtherMethod [] then method_Kind J m
      else if msg_Params m \<noteq> [] then invalid_request ''response cannot contain params'' None
      else if msg_ID m = [] \<or> (msg_Result m \<noteq> []) = (msg_Error m \<noteq> None) then
        invalid_request ''response requires id and exactly one of result or error'' None
      else case validateResponseID J (msg_ID m) of
        Some e \<Rightarrow> invalid_request ''invalid response id'' (Some e)
      | None \<Rightarrow>
          (case msg_Error m of
             None \<Rightarrow> Inr MessageResponse
           | Some e \<Rightarrow> guard_res (rpc_error_Validate J e) (Inr MessageResponse)))"

text \<open>\<open>checked\<close>: decode the parameters, then run their \<open>Validate\<close>.\<close>

definition checked :: "error_class \<Rightarrow> string \<Rightarrow> proto_error + 'a \<Rightarrow> ('a \<Rightarrow> err) \<Rightarrow> proto_error option" where
  "checked class t decoded val =
     (case decoded of
        Inl e \<Rightarrow> Some e
      | Inr v \<Rightarrow> (case val v of None \<Rightarrow> None | Some e \<Rightarrow> Some (ProtocolError class t (Cause e))))"

definition wrap_decode :: "string \<Rightarrow> proto_error + 'a \<Rightarrow> proto_error + 'a" where
  "wrap_decode t r =
     (case r of Inl e \<Rightarrow> Inl (ProtocolError ErrorMalformedObservation t (ProtoCause e)) | Inr v \<Rightarrow> Inr v)"

definition validateMethodPayload :: "json_lib \<Rightarrow> message \<Rightarrow> proto_error option" where
  "validateMethodPayload J m =
     (case msg_Method m of
        MethodHello \<Rightarrow> checked ErrorInvalidRequest ''invalid hello params''
          (DecodeParamsStrict J (jl_hello J) (msg_Params m)) hello_Validate
      | MethodPrepare \<Rightarrow> checked ErrorInvalidRequest ''invalid prepare params''
          (DecodeParamsStrict J (jl_prepare J) (msg_Params m)) prepare_Validate
      | MethodCapabilities \<Rightarrow> decodeOptionalEmptyParams J (msg_Params m)
      | MethodReset \<Rightarrow> decodeOptionalEmptyParams J (msg_Params m)
      | MethodShutdown \<Rightarrow> decodeOptionalEmptyParams J (msg_Params m)
      | MethodInvoke \<Rightarrow> checked ErrorInvalidRequest ''invalid invoke params''
          (DecodeParamsStrict J (jl_invoke J) (msg_Params m)) invoke_Validate
      | MethodCancel \<Rightarrow> checked ErrorInvalidRequest ''invalid cancel params''
          (DecodeParamsStrict J (jl_cancel J) (msg_Params m)) cancel_Validate
      | MethodObservation \<Rightarrow> checked ErrorMalformedObservation ''invalid observation params''
          (wrap_decode ''decode observation params'' (DecodeParamsStrict J (jl_observation J) (msg_Params m)))
          (observation_params_Validate (jl_canonical J))
      | MethodCompleted \<Rightarrow> checked ErrorMalformedObservation ''invalid completion params''
          (wrap_decode ''decode completion params'' (DecodeParamsStrict J (jl_completed J) (msg_Params m)))
          completed_Validate
      | OtherMethod _ \<Rightarrow> None)"

definition DecodeControlFrame :: "json_lib \<Rightarrow> string \<Rightarrow> proto_error + message" where
  "DecodeControlFrame J line =
     bind_res (stripNDJSONLineEnding line) (\<lambda>frame.
       guard_res (ValidateControlFrameSize (int (length frame)))
         (case jl_canonical J frame of
            Inl e \<Rightarrow> invalid_request ''control frame is not strict JSON'' (Some e)
          | Inr canonical \<Rightarrow>
              if canonical = [] \<or> hd canonical \<noteq> CHR ''{'' then
                invalid_request ''control frame must be a JSON object'' None
              else case jl_message J canonical of
                Inl e \<Rightarrow> invalid_request ''decode control frame'' (Some e)
              | Inr m \<Rightarrow>
                  bind_res (message_Kind J m) (\<lambda>_. guard_res (validateMethodPayload J m) (Inr m))))"

definition EncodeControlFrame :: "json_lib \<Rightarrow> message \<Rightarrow> proto_error + string" where
  "EncodeControlFrame J m =
     bind_res (message_Kind J m) (\<lambda>_.
       guard_res (validateMethodPayload J m)
         (case jl_marshal J m of
            Inl e \<Rightarrow> invalid_request ''encode control frame'' (Some e)
          | Inr canonical \<Rightarrow>
              guard_res (ValidateControlFrameSize (int (length canonical))) (Inr (canonical @ [LF]))))"

section \<open>The streaming decoder\<close>

text \<open>
  \<open>bufio.Reader.ReadSlice\<close> on a reader with a buffer of \<open>b\<close> bytes and the bytes \<open>rest\<close> still to
  come: up to and including the delimiter when it is within the next \<open>b\<close> bytes, a full buffer
  (\<open>ErrBufferFull\<close>) when it is not, and the remaining bytes with the reader's final status
  (\<open>io.EOF\<close> when \<open>fin\<close> is \<open>None\<close>) otherwise.
\<close>

datatype read_status = Delimited | BufferFull | AtEOF | ReadFailed go_error

definition ReadSlice :: "nat \<Rightarrow> err \<Rightarrow> string \<Rightarrow> string \<times> read_status \<times> string" where
  "ReadSlice b fin rest =
     (if LF \<in> set (take b rest) then
        (let n = length (takeWhile (\<lambda>c. c \<noteq> LF) rest) + 1 in (take n rest, Delimited, drop n rest))
      else if b \<le> length rest then (take b rest, BufferFull, drop b rest)
      else (rest, (case fin of None \<Rightarrow> AtEOF | Some e \<Rightarrow> ReadFailed e), []))"

lemma ReadSlice_full:
  "ReadSlice b fin rest = (f, BufferFull, rest') \<longleftrightarrow>
     LF \<notin> set (take b rest) \<and> b \<le> length rest \<and> f = take b rest \<and> rest' = drop b rest"
  by (auto simp: ReadSlice_def Let_def split: option.splits if_splits)

definition buffer_size :: nat where "buffer_size = 65536"

lemma ReadSlice_shorter:
  "(f, BufferFull, rest') = ReadSlice buffer_size fin rest \<Longrightarrow> length rest' < length rest"
  using ReadSlice_full [of buffer_size fin rest f rest'] by (auto simp: buffer_size_def)

text \<open>The loop that drains the rest of an oversized line.\<close>

function drain :: "err \<Rightarrow> string \<Rightarrow> string" where
  "drain fin rest =
     (case ReadSlice buffer_size fin rest of
        (_, BufferFull, rest') \<Rightarrow> drain fin rest'
      | (_, _, rest') \<Rightarrow> rest')"
  by pat_completeness auto
termination by (relation "measure (\<lambda>(_, r). length r)") (auto dest: ReadSlice_shorter)

datatype decode_result = Frame "proto_error + message" | EndOfInput | ReadError go_error

definition frame_too_large :: proto_error where
  "frame_too_large = ProtocolError ErrorBudgetExceeded ''driver control frame exceeds 1 MiB''
     (Cause ErrControlFrameTooLarge)"

function Decode_loop :: "json_lib \<Rightarrow> err \<Rightarrow> string \<Rightarrow> string \<Rightarrow> decode_result \<times> string" where
  "Decode_loop J fin line rest =
     (case ReadSlice buffer_size fin rest of
        (fragment, status, rest') \<Rightarrow>
          if int (length line + length fragment) > MaxControlFrameBytes + 2 then
            (Frame (Inl frame_too_large), if status = BufferFull then drain fin rest' else rest')
          else
            (case status of
               Delimited \<Rightarrow> (Frame (DecodeControlFrame J (line @ fragment)), rest')
             | BufferFull \<Rightarrow> Decode_loop J fin (line @ fragment) rest'
             | AtEOF \<Rightarrow> (if line @ fragment = [] then EndOfInput
                         else Frame (DecodeControlFrame J (line @ fragment)), rest')
             | ReadFailed e \<Rightarrow> (ReadError (Wrap ''read driver control frame'' e), rest')))"
  by pat_completeness auto
termination by (relation "measure (\<lambda>(_, _, _, r). length r)") (auto dest: ReadSlice_shorter)

definition decoder_Decode :: "json_lib \<Rightarrow> err \<Rightarrow> string \<Rightarrow> decode_result \<times> string" where
  "decoder_Decode J fin input = Decode_loop J fin [] input"

declare drain.simps [simp del] Decode_loop.simps [simp del]

section \<open>One call of the decoder reads one line\<close>

text \<open>The first line of the input with its delimiter, if there is one.\<close>

definition ndjson_line :: "string \<Rightarrow> string" where
  "ndjson_line input = (let body = takeWhile (\<lambda>c. c \<noteq> LF) input
                      in if LF \<in> set input then body @ [LF] else body)"

lemma ndjson_line_Nil [simp]: "ndjson_line [] = []"
  by (simp add: ndjson_line_def)

lemma ndjson_line_no_LF: "LF \<notin> set input \<Longrightarrow> ndjson_line input = input"
  by (simp add: ndjson_line_def takeWhile_eq_all_conv) (metis (full_types))

lemma ndjson_line_take: "ndjson_line input = take (length (ndjson_line input)) input"
proof (cases "LF \<in> set input")
  case True
  then obtain ys zs where "input = ys @ LF # zs" "LF \<notin> set ys" by (meson split_list_first)
  moreover from this have "takeWhile (\<lambda>c. c \<noteq> LF) input = ys"
    by (simp add: takeWhile_tail) (metis (full_types) takeWhile_eq_all_conv)
  ultimately show ?thesis by (simp add: ndjson_line_def)
qed (simp add: ndjson_line_no_LF)

lemma ndjson_line_append:
  assumes "LF \<notin> set xs" shows "ndjson_line (xs @ ys) = xs @ ndjson_line ys"
proof -
  have "takeWhile (\<lambda>c. c \<noteq> LF) (xs @ ys) = xs @ takeWhile (\<lambda>c. c \<noteq> LF) ys"
    using assms by (intro takeWhile_append2) auto
  with assms show ?thesis by (simp add: ndjson_line_def Let_def)
qed

lemma ndjson_line_split: "LF \<notin> set (take b rest) \<Longrightarrow> ndjson_line rest = take b rest @ ndjson_line (drop b rest)"
  using ndjson_line_append [of "take b rest" "drop b rest"] by simp

lemma ReadSlice_cases:
  obtains (line) "LF \<in> set rest" "ReadSlice b fin rest = (ndjson_line rest, Delimited, drop (length (ndjson_line rest)) rest)"
  | (full) "LF \<notin> set (take b rest)" "b \<le> length rest" "ReadSlice b fin rest = (take b rest, BufferFull, drop b rest)"
  | (tail) "LF \<notin> set rest" "length rest < b"
      "ReadSlice b fin rest = (rest, (case fin of None \<Rightarrow> AtEOF | Some e \<Rightarrow> ReadFailed e), [])"
proof (cases "LF \<in> set (take b rest)")
  case True
  then have m: "LF \<in> set rest" by (meson in_set_takeD)
  then have "length (ndjson_line rest) = length (takeWhile (\<lambda>c. c \<noteq> LF) rest) + 1"
    by (simp add: ndjson_line_def)
  with True have "ReadSlice b fin rest = (ndjson_line rest, Delimited, drop (length (ndjson_line rest)) rest)"
    unfolding ReadSlice_def Let_def by (metis ndjson_line_take)
  with m show thesis by (rule line)
next
  case False
  show thesis
  proof (cases "b \<le> length rest")
    case True
    with False show thesis by (intro full) (simp_all add: ReadSlice_def)
  next
    case len: False
    with False show thesis by (intro tail) (simp_all add: ReadSlice_def)
  qed
qed

lemma drain_line: "drain fin rest = drop (length (ndjson_line rest)) rest"
proof (induction fin rest rule: drain.induct)
  case (1 fin rest)
  show ?case
  proof (cases rule: ReadSlice_cases [of rest buffer_size fin])
    case line
    then show ?thesis by (subst drain.simps) simp
  next
    case full
    with 1 [OF full(3) [symmetric] refl] show ?thesis
      by (subst drain.simps) (simp add: ndjson_line_split [OF full(1)] add.commute)
  next
    case tail
    then show ?thesis by (subst drain.simps) (simp add: ndjson_line_no_LF split: option.splits)
  qed
qed

text \<open>What one call must do, stated on the whole line.\<close>

definition decode_line :: "json_lib \<Rightarrow> err \<Rightarrow> string \<Rightarrow> bool \<Rightarrow> decode_result" where
  "decode_line J fin line delimited =
     (if int (length line) > MaxControlFrameBytes + 2 then Frame (Inl frame_too_large)
      else if delimited then Frame (DecodeControlFrame J line)
      else (case fin of Some e \<Rightarrow> ReadError (Wrap ''read driver control frame'' e)
            | None \<Rightarrow> if line = [] then EndOfInput else Frame (DecodeControlFrame J line)))"

lemma Decode_loop_line:
  "Decode_loop J fin line rest =
     (decode_line J fin (line @ ndjson_line rest) (LF \<in> set rest), drop (length (ndjson_line rest)) rest)"
proof (induction J fin line rest rule: Decode_loop.induct)
  case (1 J fin line rest)
  show ?case
  proof (cases rule: ReadSlice_cases [of rest buffer_size fin])
    case line
    then show ?thesis by (subst Decode_loop.simps) (simp add: decode_line_def)
  next
    case full
    show ?thesis
    proof (cases "int (length line + length (take buffer_size rest)) > MaxControlFrameBytes + 2")
      case True
      then show ?thesis
        by (subst Decode_loop.simps)
           (use full(2) in \<open>auto simp: full(3) decode_line_def drain_line ndjson_line_split [OF full(1)] min_def add.commute\<close>)
    next
      case False
      have split: "ndjson_line rest = take buffer_size rest @ ndjson_line (drop buffer_size rest)"
        by (rule ndjson_line_split [OF full(1)])
      have "LF \<in> set (drop buffer_size rest) \<longleftrightarrow> LF \<in> set rest"
        using full(1) by (metis append_take_drop_id Un_iff set_append)
      with 1 [OF full(3) [symmetric] refl False refl] False show ?thesis
        by (subst Decode_loop.simps) (use full(2) in \<open>simp add: full(3) split min_def add.commute\<close>)
    qed
  next
    case tail
    then show ?thesis
      by (subst Decode_loop.simps) (auto simp: decode_line_def ndjson_line_no_LF split: option.splits)
  qed
qed

text \<open>
  C20. One call of the streaming decoder, which reads fragments of at most 64 KiB, does what a
  decoder of whole lines would do: it consumes exactly the next line, reports an oversized line
  without losing its place in the stream, accepts a last line without delimiter, and reports the
  end of the input or the failure of the reader.
\<close>

theorem decoder_reads_one_line:
  "decoder_Decode J fin input =
     (decode_line J fin (ndjson_line input) (LF \<in> set input), drop (length (ndjson_line input)) input)"
  by (simp add: decoder_Decode_def Decode_loop_line)

section \<open>Frames round trip\<close>

text \<open>
  What the code relies on in the canonical JSON of a message (RFC 8785): it is an object, has no
  line break, is its own canonical form, and decodes strictly to the message it was made from.
\<close>

definition faithful_json :: "json_lib \<Rightarrow> message \<Rightarrow> bool" where
  "faithful_json J m \<longleftrightarrow> (case jl_marshal J m of
     Inl _ \<Rightarrow> True
   | Inr c \<Rightarrow> c \<noteq> [] \<and> hd c = CHR ''{'' \<and> LF \<notin> set c \<and> CR \<notin> set c \<and> jl_canonical J c = Inr c \<and>
       jl_message J c = Inr m)"

lemma strip_line:
  assumes "c \<noteq> []" "LF \<notin> set c" "CR \<notin> set c" shows "stripNDJSONLineEnding (c @ [LF]) = Inr c"
proof -
  have "last c \<noteq> CR" using assms last_in_set by metis
  with assms show ?thesis by (simp add: stripNDJSONLineEnding_def)
qed


text \<open>A JSON library for one frame, enough to run the codec on a shutdown request.\<close>

definition shutdown_message :: message where
  "shutdown_message = \<lparr>msg_JSONRPC = ''2.0'', msg_ID = ''7'', msg_Method = MethodShutdown, msg_Params = [],
     msg_Result = [], msg_Error = None\<rparr>"

definition sample_json :: json_lib where
  "sample_json = \<lparr>jl_canonical = Inr, jl_any = (\<lambda>s. Inr (JsonNumber s)), jl_hello = (\<lambda>_. Inl (Err [])),
     jl_prepare = (\<lambda>_. Inl (Err [])), jl_invoke = (\<lambda>_. Inl (Err [])), jl_cancel = (\<lambda>_. Inl (Err [])),
     jl_observation = (\<lambda>_. Inl (Err [])), jl_completed = (\<lambda>_. Inl (Err [])), jl_empty = (\<lambda>_. Inr ()),
     jl_message = (\<lambda>s. if s = ''{shutdown}'' then Inr shutdown_message else Inl (Err [])),
     jl_marshal = (\<lambda>_. Inr ''{shutdown}'')\<rparr>"


end
