(* ===== verification/DriverMachine.thy ===== *)
theory DriverMachine
  imports DriverProtocol Machines
begin

text \<open>
  Package \<open>driverprotocol\<close>, file \<open>state.go\<close>: the serial lifecycle of one driver session.  Every
  method of \<open>Machine\<close> holds the mutex for its whole body, so a history is a sequence of calls.  The
  map \<open>completed\<close> is a set of identifiers, kept as a list without duplicates.
\<close>

section \<open>State and operations\<close>

datatype drv_state = StateNew | StateHello | StatePrepared | StateInvoking | StateShutdown

record active_invocation =
  ai_InvocationID :: instance_id
  ai_AttemptID :: instance_id
  ai_LastSequence :: u64
  ai_HasObservation :: bool
  ai_CancelRequested :: bool

record drv_machine =
  dm_state :: drv_state
  dm_active :: "active_invocation option"
  dm_completed :: "instance_id list"

type_synonym dm_result = "drv_machine \<times> proto_error option"

definition NewMachine :: drv_machine where
  "NewMachine = \<lparr>dm_state = StateNew, dm_active = None, dm_completed = []\<rparr>"

definition invalidStateLocked :: "drv_machine \<Rightarrow> dm_result" where
  "invalidStateLocked m =
     (m, Some (ProtocolError ErrorInvalidState ''method requires another state'' NoCause))"

definition AcceptHello :: "drv_machine \<Rightarrow> dm_result" where
  "AcceptHello m = (if dm_state m \<noteq> StateNew then invalidStateLocked m
                    else (m\<lparr>dm_state := StateHello\<rparr>, None))"

definition AcceptPrepare :: "drv_machine \<Rightarrow> dm_result" where
  "AcceptPrepare m = (if dm_state m \<noteq> StateHello then invalidStateLocked m
                      else (m\<lparr>dm_state := StatePrepared\<rparr>, None))"

definition CheckCapabilities :: "drv_machine \<Rightarrow> dm_result" where
  "CheckCapabilities m =
     (if dm_state m \<noteq> StateHello \<and> dm_state m \<noteq> StatePrepared then
        (m, Some (ProtocolError ErrorInvalidState ''driver.capabilities is invalid in this state'' NoCause))
      else (m, None))"

definition BeginInvocation :: "drv_machine \<Rightarrow> invoke_params \<Rightarrow> dm_result" where
  "BeginInvocation m p =
     (case invoke_Validate p of
        Some e \<Rightarrow> (m, Some (ProtocolError ErrorInvalidRequest ''invalid invoke params'' (Cause e)))
      | None \<Rightarrow>
          if dm_state m \<noteq> StatePrepared then invalidStateLocked m
          else if ip_InvocationID p \<in> set (dm_completed m) then
            (m, Some (ProtocolError ErrorInvalidRequest
                       ''invocation_id cannot be reused after terminal completion'' NoCause))
          else (m\<lparr>dm_active := Some \<lparr>ai_InvocationID = ip_InvocationID p, ai_AttemptID = ip_AttemptID p,
                    ai_LastSequence = 0, ai_HasObservation = False, ai_CancelRequested = False\<rparr>,
                  dm_state := StateInvoking\<rparr>, None))"

definition RequestCancel :: "drv_machine \<Rightarrow> cancel_params \<Rightarrow> dm_result" where
  "RequestCancel m p =
     (case cancel_Validate p of
        Some e \<Rightarrow> (m, Some (ProtocolError ErrorInvalidRequest ''invalid cancel params'' (Cause e)))
      | None \<Rightarrow>
          (case (dm_state m, dm_active m) of
             (StateInvoking, Some a) \<Rightarrow>
               if ai_InvocationID a \<noteq> cp_InvocationID p then
                 (m, Some (ProtocolError ErrorInvalidRequest
                            ''cancel invocation_id does not match the active invocation'' NoCause))
               else (m\<lparr>dm_active := Some (a\<lparr>ai_CancelRequested := True\<rparr>)\<rparr>, None)
           | _ \<Rightarrow> invalidStateLocked m))"

definition malformed :: "drv_machine \<Rightarrow> string \<Rightarrow> cause \<Rightarrow> dm_result" where
  "malformed m t c = (m, Some (ProtocolError ErrorMalformedObservation t c))"

definition Observe :: "json_lib \<Rightarrow> drv_machine \<Rightarrow> observation_params \<Rightarrow> dm_result" where
  "Observe J m p =
     (case observation_params_Validate (jl_canonical J) p of
        Some e \<Rightarrow> malformed m ''invalid observation'' (Cause e)
      | None \<Rightarrow>
          (case (dm_state m, dm_active m) of
             (StateInvoking, Some a) \<Rightarrow>
               if ai_InvocationID a \<noteq> op_InvocationID p \<or> ai_AttemptID a \<noteq> op_AttemptID p then
                 malformed m ''observation identity does not match the active invocation and attempt'' NoCause
               else if ai_HasObservation a \<and> op_Sequence p \<le> ai_LastSequence a then
                 malformed m ''observation sequence is not greater'' NoCause
               else (m\<lparr>dm_active := Some (a\<lparr>ai_LastSequence := op_Sequence p, ai_HasObservation := True\<rparr>)\<rparr>,
                     None)
           | _ \<Rightarrow> invalidStateLocked m))"

definition Complete :: "drv_machine \<Rightarrow> completed_params \<Rightarrow> dm_result" where
  "Complete m p =
     (case completed_Validate p of
        Some e \<Rightarrow> malformed m ''invalid completion'' (Cause e)
      | None \<Rightarrow>
          (case (dm_state m, dm_active m) of
             (StateInvoking, Some a) \<Rightarrow>
               if ai_InvocationID a \<noteq> tp_InvocationID p \<or> ai_AttemptID a \<noteq> tp_AttemptID p then
                 malformed m ''completion identity does not match the active invocation and attempt'' NoCause
               else if ai_HasObservation a \<and> tp_LastSequence p \<noteq> Some (ai_LastSequence a) then
                 malformed m ''completion last_sequence does not match the last observation'' NoCause
               else if \<not> ai_HasObservation a \<and> tp_LastSequence p \<noteq> None then
                 malformed m ''completion must omit last_sequence when no observation was emitted'' NoCause
               else (m\<lparr>dm_completed := List.insert (tp_InvocationID p) (dm_completed m),
                       dm_active := None, dm_state := StatePrepared\<rparr>, None)
           | _ \<Rightarrow> invalidStateLocked m))"

definition Reset :: "drv_machine \<Rightarrow> dm_result" where
  "Reset m = (if dm_state m \<noteq> StatePrepared then invalidStateLocked m else (m, None))"

definition Shutdown :: "drv_machine \<Rightarrow> dm_result" where
  "Shutdown m = (if dm_state m \<noteq> StatePrepared then invalidStateLocked m
                 else (m\<lparr>dm_state := StateShutdown\<rparr>, None))"

text \<open>\<open>Machine.Apply\<close>: decode the parameters of a message and call the operation of its method.\<close>

definition dm_with :: "drv_machine \<Rightarrow> proto_error + 'a \<Rightarrow> ('a \<Rightarrow> dm_result) \<Rightarrow> dm_result" where
  "dm_with m r f = (case r of Inl e \<Rightarrow> (m, Some e) | Inr v \<Rightarrow> f v)"

definition dm_valid :: "drv_machine \<Rightarrow> string \<Rightarrow> err \<Rightarrow> dm_result \<Rightarrow> dm_result" where
  "dm_valid m t r k = (case r of Some e \<Rightarrow> (m, Some (ProtocolError ErrorInvalidRequest t (Cause e))) | None \<Rightarrow> k)"

definition dm_empty :: "json_lib \<Rightarrow> drv_machine \<Rightarrow> string \<Rightarrow> dm_result \<Rightarrow> dm_result" where
  "dm_empty J m raw k = (case decodeOptionalEmptyParams J raw of Some e \<Rightarrow> (m, Some e) | None \<Rightarrow> k)"

definition dm_dispatch :: "json_lib \<Rightarrow> drv_machine \<Rightarrow> message \<Rightarrow> dm_result" where
  "dm_dispatch J m msg =
     (case msg_Method msg of
        MethodHello \<Rightarrow> dm_with m (DecodeParamsStrict J (jl_hello J) (msg_Params msg))
          (\<lambda>p. dm_valid m ''invalid hello params'' (hello_Validate p) (AcceptHello m))
      | MethodPrepare \<Rightarrow> dm_with m (DecodeParamsStrict J (jl_prepare J) (msg_Params msg))
          (\<lambda>p. dm_valid m ''invalid prepare params'' (prepare_Validate p) (AcceptPrepare m))
      | MethodCapabilities \<Rightarrow> dm_empty J m (msg_Params msg) (CheckCapabilities m)
      | MethodInvoke \<Rightarrow> dm_with m (DecodeParamsStrict J (jl_invoke J) (msg_Params msg)) (BeginInvocation m)
      | MethodCancel \<Rightarrow> dm_with m (DecodeParamsStrict J (jl_cancel J) (msg_Params msg)) (RequestCancel m)
      | MethodReset \<Rightarrow> dm_empty J m (msg_Params msg) (Reset m)
      | MethodShutdown \<Rightarrow> dm_empty J m (msg_Params msg) (Shutdown m)
      | MethodObservation \<Rightarrow> dm_with m (wrap_decode ''decode observation params''
          (DecodeParamsStrict J (jl_observation J) (msg_Params msg))) (Observe J m)
      | MethodCompleted \<Rightarrow> dm_with m (wrap_decode ''decode completion params''
          (DecodeParamsStrict J (jl_completed J) (msg_Params msg))) (Complete m)
      | OtherMethod _ \<Rightarrow> (m, Some (ProtocolError ErrorInvalidRequest ''unknown method'' NoCause)))"

definition driver_Apply :: "json_lib \<Rightarrow> drv_machine \<Rightarrow> message \<Rightarrow> dm_result" where
  "driver_Apply J m msg =
     (case message_Kind J msg of
        Inl e \<Rightarrow> (m, Some e)
      | Inr kind \<Rightarrow>
          if kind = MessageResponse then
            (m, Some (ProtocolError ErrorInvalidRequest
               ''cannot apply an uncorrelated JSON-RPC response to the driver state machine'' NoCause))
          else dm_dispatch J m msg)"

section \<open>Invariant\<close>

datatype drv_op = OpHello | OpPrepare | OpCapabilities | OpInvoke invoke_params | OpCancel cancel_params
  | OpObserve observation_params | OpComplete completed_params | OpReset | OpShutdown

definition drv_step :: "json_lib \<Rightarrow> drv_machine \<Rightarrow> drv_op \<Rightarrow> dm_result" where
  "drv_step J m op =
     (case op of
        OpHello \<Rightarrow> AcceptHello m | OpPrepare \<Rightarrow> AcceptPrepare m | OpCapabilities \<Rightarrow> CheckCapabilities m
      | OpInvoke p \<Rightarrow> BeginInvocation m p | OpCancel p \<Rightarrow> RequestCancel m p | OpObserve p \<Rightarrow> Observe J m p
      | OpComplete p \<Rightarrow> Complete m p | OpReset \<Rightarrow> Reset m | OpShutdown \<Rightarrow> Shutdown m)"

definition drv_inv :: "drv_machine \<Rightarrow> bool" where
  "drv_inv m \<longleftrightarrow> (dm_state m = StateInvoking \<longleftrightarrow> dm_active m \<noteq> None) \<and> distinct (dm_completed m) \<and>
     (\<forall>a. dm_active m = Some a \<longrightarrow> ai_InvocationID a \<notin> set (dm_completed m)) \<and>
     (dm_state m \<in> {StateNew, StateHello} \<longrightarrow> dm_completed m = [])"

definition drv_rank :: "drv_machine \<Rightarrow> nat" where
  "drv_rank m = (case dm_state m of StateNew \<Rightarrow> 0 | StateHello \<Rightarrow> 1 | StatePrepared \<Rightarrow> 2 | StateInvoking \<Rightarrow> 2
                 | StateShutdown \<Rightarrow> 3)"

lemmas drv_op_defs = AcceptHello_def AcceptPrepare_def CheckCapabilities_def BeginInvocation_def
  RequestCancel_def Observe_def Complete_def Reset_def Shutdown_def invalidStateLocked_def malformed_def

lemmas drv_op_splits = option.splits drv_state.splits if_splits

lemma drv_step_atomic: "snd (drv_step J m op) \<noteq> None \<Longrightarrow> fst (drv_step J m op) = m"
  by (cases op) (auto simp: drv_step_def drv_op_defs split: drv_op_splits)

text \<open>The lifecycle as a relation: one rule per accepted call.\<close>

definition expected_last :: "active_invocation \<Rightarrow> u64 option" where
  "expected_last a = (if ai_HasObservation a then Some (ai_LastSequence a) else None)"

inductive drv_trans :: "json_lib \<Rightarrow> drv_machine \<Rightarrow> drv_op \<Rightarrow> drv_machine \<Rightarrow> bool" for J m where
  hello: "dm_state m = StateNew \<Longrightarrow> drv_trans J m OpHello (m\<lparr>dm_state := StateHello\<rparr>)"
| prepare: "dm_state m = StateHello \<Longrightarrow> drv_trans J m OpPrepare (m\<lparr>dm_state := StatePrepared\<rparr>)"
| capabilities: "dm_state m \<in> {StateHello, StatePrepared} \<Longrightarrow> drv_trans J m OpCapabilities m"
| invoke: "invoke_Validate p = None \<Longrightarrow> dm_state m = StatePrepared \<Longrightarrow> ip_InvocationID p \<notin> set (dm_completed m) \<Longrightarrow>
    drv_trans J m (OpInvoke p)
      (m\<lparr>dm_active := Some \<lparr>ai_InvocationID = ip_InvocationID p, ai_AttemptID = ip_AttemptID p,
           ai_LastSequence = 0, ai_HasObservation = False, ai_CancelRequested = False\<rparr>, dm_state := StateInvoking\<rparr>)"
| cancel: "cancel_Validate p = None \<Longrightarrow> dm_state m = StateInvoking \<Longrightarrow> dm_active m = Some a \<Longrightarrow>
    ai_InvocationID a = cp_InvocationID p \<Longrightarrow>
    drv_trans J m (OpCancel p) (m\<lparr>dm_active := Some (a\<lparr>ai_CancelRequested := True\<rparr>)\<rparr>)"
| observe: "observation_params_Validate (jl_canonical J) p = None \<Longrightarrow> dm_state m = StateInvoking \<Longrightarrow> dm_active m = Some a \<Longrightarrow>
    ai_InvocationID a = op_InvocationID p \<Longrightarrow> ai_AttemptID a = op_AttemptID p \<Longrightarrow>
    (ai_HasObservation a \<longrightarrow> ai_LastSequence a < op_Sequence p) \<Longrightarrow>
    drv_trans J m (OpObserve p)
      (m\<lparr>dm_active := Some (a\<lparr>ai_LastSequence := op_Sequence p, ai_HasObservation := True\<rparr>)\<rparr>)"
| complete: "completed_Validate p = None \<Longrightarrow> dm_state m = StateInvoking \<Longrightarrow> dm_active m = Some a \<Longrightarrow>
    ai_InvocationID a = tp_InvocationID p \<Longrightarrow> ai_AttemptID a = tp_AttemptID p \<Longrightarrow>
    tp_LastSequence p = expected_last a \<Longrightarrow>
    drv_trans J m (OpComplete p)
      (m\<lparr>dm_completed := List.insert (tp_InvocationID p) (dm_completed m), dm_active := None,
         dm_state := StatePrepared\<rparr>)"
| reset: "dm_state m = StatePrepared \<Longrightarrow> drv_trans J m OpReset m"
| shutdown: "dm_state m = StatePrepared \<Longrightarrow> drv_trans J m OpShutdown (m\<lparr>dm_state := StateShutdown\<rparr>)"

lemma drv_step_trans: "drv_step J m op = (m', None) \<Longrightarrow> drv_trans J m op m'"
  by (cases op)
     (auto simp: drv_step_def drv_op_defs expected_last_def not_le split: drv_op_splits intro!: drv_trans.intros)

lemma trans_drv_step: "drv_trans J m op m' \<Longrightarrow> drv_step J m op = (m', None)"
  by (erule drv_trans.cases) (auto simp: drv_step_def drv_op_defs expected_last_def)

lemma drv_step_iff: "drv_step J m op = (m', None) \<longleftrightarrow> drv_trans J m op m'"
  using drv_step_trans trans_drv_step by blast

lemma drv_trans_inv: "drv_trans J m op m' \<Longrightarrow> drv_inv m \<Longrightarrow> drv_inv m'"
  by (erule drv_trans.cases) (auto simp: drv_inv_def)

lemma drv_trans_rank: "drv_trans J m op m' \<Longrightarrow> drv_rank m \<le> drv_rank m'"
  by (erule drv_trans.cases) (auto simp: drv_rank_def)

lemma drv_step_cases:
  obtains "fst (drv_step J m op) = m" | "drv_trans J m op (fst (drv_step J m op))"
  using drv_step_atomic drv_step_trans by (metis prod.collapse)

lemma drv_step_inv: "drv_inv m \<Longrightarrow> drv_inv (fst (drv_step J m op))"
  by (cases rule: drv_step_cases [of J m op]) (auto dest: drv_trans_inv)

lemma drv_step_rank: "drv_rank m \<le> drv_rank (fst (drv_step J m op))"
  by (cases rule: drv_step_cases [of J m op]) (auto dest: drv_trans_rank)

lemma drv_inv_New: "drv_inv NewMachine"
  by (simp add: drv_inv_def NewMachine_def)

text \<open>An accepted message is one accepted call; a refused one changes nothing.\<close>

lemma dm_with_cases:
  assumes "dm_with m r f = (m', x)"
  obtains e where "r = Inl e" "m' = m" "x = Some e" | v where "r = Inr v" "f v = (m', x)"
  using assms by (auto simp: dm_with_def split: sum.splits)

lemma dm_dispatch_step:
  "dm_dispatch J m msg = (m', x) \<Longrightarrow> (m' = m \<and> x \<noteq> None) \<or> (\<exists>op. drv_step J m op = (m', x))"
  by (cases "msg_Method msg")
     (auto simp: dm_dispatch_def dm_valid_def dm_empty_def drv_step_def elim!: dm_with_cases
        intro: exI [of _ OpHello] exI [of _ OpPrepare] exI [of _ OpCapabilities] exI [of _ OpReset]
          exI [of _ OpShutdown] exI [of _ "OpInvoke v" for v] exI [of _ "OpCancel v" for v]
          exI [of _ "OpObserve v" for v] exI [of _ "OpComplete v" for v]
        split: option.splits)

lemma driver_Apply_step:
  "driver_Apply J m msg = (m', x) \<Longrightarrow> (m' = m \<and> x \<noteq> None) \<or> (\<exists>op. drv_step J m op = (m', x))"
  by (auto simp: driver_Apply_def dest: dm_dispatch_step split: sum.splits if_splits)

lemma driver_Apply_cases:
  obtains "fst (driver_Apply J m msg) = m" "snd (driver_Apply J m msg) \<noteq> None"
  | op where "drv_step J m op = driver_Apply J m msg"
  using driver_Apply_step [of J m msg "fst (driver_Apply J m msg)" "snd (driver_Apply J m msg)"] by auto

interpretation driver: guarded_machine "drv_step J" drv_inv for J
  by unfold_locales (auto simp: drv_step_inv drv_step_atomic)

interpretation driver: lifecycle_machine "drv_step J" drv_inv drv_rank for J
  by unfold_locales (auto simp: drv_step_rank)

interpretation messages: guarded_machine "driver_Apply J" drv_inv for J
proof
  show "drv_inv (fst (driver_Apply J s e))" if "drv_inv s" for s e
    using that by (cases rule: driver_Apply_cases [of J s e]) (simp, metis drv_step_inv)
  show "fst (driver_Apply J s e) = s" if "snd (driver_Apply J s e) \<noteq> None" for s e
    using that by (cases rule: driver_Apply_cases [of J s e]) (simp, metis drv_step_atomic)
qed

interpretation messages: lifecycle_machine "driver_Apply J" drv_inv drv_rank for J
proof
  show "drv_rank s \<le> drv_rank (fst (driver_Apply J s e))" for s e
    by (cases rule: driver_Apply_cases [of J s e]) (simp, metis drv_step_rank)
qed

section \<open>Accepted histories\<close>

text \<open>The calls since the last invocation began, and what they observed.\<close>

definition is_invoke :: "drv_op \<Rightarrow> bool" where
  "is_invoke op \<longleftrightarrow> (case op of OpInvoke _ \<Rightarrow> True | _ \<Rightarrow> False)"

definition since_invoke :: "drv_op list \<Rightarrow> drv_op list" where
  "since_invoke ops = rev (takeWhile (\<lambda>op. \<not> is_invoke op) (rev ops))"

definition observations :: "drv_op list \<Rightarrow> observation_params list" where
  "observations ops = concat (map (\<lambda>op. case op of OpObserve p \<Rightarrow> [p] | _ \<Rightarrow> []) ops)"

definition completions :: "drv_op list \<Rightarrow> instance_id list" where
  "completions ops = concat (map (\<lambda>op. case op of OpComplete p \<Rightarrow> [tp_InvocationID p] | _ \<Rightarrow> []) ops)"

lemma since_invoke_snoc [simp]:
  "since_invoke (ops @ [op]) = (if is_invoke op then [] else since_invoke ops @ [op])"
  by (simp add: since_invoke_def)

lemma history_Nil [simp]: "since_invoke [] = []" "observations [] = []" "completions [] = []"
  by (simp_all add: since_invoke_def observations_def completions_def)

lemma history_snoc [simp]:
  "observations (ops @ [op]) = observations ops @ (case op of OpObserve p \<Rightarrow> [p] | _ \<Rightarrow> [])"
  "completions (ops @ [op]) = completions ops @ (case op of OpComplete p \<Rightarrow> [tp_InvocationID p] | _ \<Rightarrow> [])"
  by (simp_all add: observations_def completions_def split: drv_op.splits)

text \<open>What the fields of an active invocation say about the history that led to it.\<close>

definition tracks :: "drv_op list \<Rightarrow> active_invocation \<Rightarrow> bool" where
  "tracks ops a \<longleftrightarrow> (let os = observations (since_invoke ops) in
     sorted_wrt (<) (map op_Sequence os) \<and>
     (\<forall>p\<in>set os. op_InvocationID p = ai_InvocationID a \<and> op_AttemptID p = ai_AttemptID a) \<and>
     expected_last a = (if os = [] then None else Some (op_Sequence (last os))))"

lemma sorted_wrt_snoc_last:
  fixes xs :: "'a::order list"
  shows "sorted_wrt (<) xs \<Longrightarrow> xs = [] \<or> last xs < x \<Longrightarrow> sorted_wrt (<) (xs @ [x])"
  by (induction xs) (auto split: if_splits dest: order.strict_trans intro: last_in_set)

lemma drv_trans_tracks:
  assumes "drv_trans J m op m'" "\<forall>a. dm_active m = Some a \<longrightarrow> tracks ops a" "dm_active m' = Some a'"
    and "drv_inv m"
  shows "tracks (ops @ [op]) a'"
  using assms
proof cases
  case (observe p a)
  let ?os = "observations (since_invoke ops)"
  from observe assms(2) have t: "tracks ops a" by simp
  then have "?os \<noteq> [] \<longrightarrow> op_Sequence (last ?os) < op_Sequence p"
    using observe by (auto simp: tracks_def expected_last_def Let_def split: if_splits)
  then have "sorted_wrt (<) (map op_Sequence ?os @ [op_Sequence p])"
    using t by (intro sorted_wrt_snoc_last) (simp_all add: tracks_def Let_def, metis last_map)
  with observe t assms(3) show ?thesis
    by (auto simp: tracks_def expected_last_def Let_def is_invoke_def)
qed (auto simp: tracks_def expected_last_def Let_def is_invoke_def drv_inv_def split: if_splits)

lemma drv_history:
  "run_all (drv_step J) NewMachine ops = Some m \<Longrightarrow>
     drv_inv m \<and> (\<forall>a. dm_active m = Some a \<longrightarrow> tracks ops a) \<and> set (dm_completed m) = set (completions ops) \<and>
     distinct (completions ops)"
proof (induction ops arbitrary: m rule: rev_induct)
  case Nil
  then show ?case by (auto simp: drv_inv_New) (auto simp: NewMachine_def)
next
  case (snoc op ops)
  then obtain m0 where m0: "run_all (drv_step J) NewMachine ops = Some m0" "drv_trans J m0 op m"
    by (auto simp: run_all_snoc drv_step_iff)
  note ih = snoc.IH [OF m0(1)]
  have "set (dm_completed m) = set (completions (ops @ [op])) \<and> distinct (completions (ops @ [op]))"
    using m0(2) ih by cases (auto simp: drv_inv_def)
  with ih drv_trans_inv [OF m0(2)] drv_trans_tracks [OF m0(2)] show ?case by blast
qed

section \<open>Properties\<close>

text \<open>
  C22. A driver session driven by any messages stays in a consistent state: an invocation is active
  exactly while the state is INVOKING, its identifier has not been completed before, the lifecycle
  never goes back, a refused message changes nothing, and a shut down session accepts nothing.
\<close>

theorem driver_session_safe:
  "let m = run (driver_Apply J) NewMachine msgs; (m', err) = driver_Apply J m msg in
     drv_inv m \<and> drv_rank m \<le> drv_rank (run (driver_Apply J) m later) \<and> (err = None \<or> m' = m) \<and>
     (dm_state m = StateShutdown \<and> err = None \<longleftrightarrow> False)"
proof -
  let ?m = "run (driver_Apply J) NewMachine msgs"
  have inv: "drv_inv ?m" by (rule messages.run_invar [OF drv_inv_New])
  moreover have "dm_state ?m \<noteq> StateShutdown \<or> snd (driver_Apply J ?m msg) \<noteq> None"
  proof (cases rule: driver_Apply_cases [of J ?m msg])
    case (2 op)
    have "\<not> drv_trans J ?m op m'" if "dm_state ?m = StateShutdown" for m'
      using that by (auto elim: drv_trans.cases)
    with 2 show ?thesis using drv_step_trans [of J ?m op] by (metis prod.collapse)
  qed simp
  moreover have "snd (driver_Apply J ?m msg) = None \<or> fst (driver_Apply J ?m msg) = ?m"
    using messages.step_atomic by blast
  ultimately show ?thesis using messages.run_rank [OF inv, of J later] by (auto simp: Let_def split: prod.splits)
qed

lemma completed_grows: "drv_trans J m op m' \<Longrightarrow> set (dm_completed m) \<subseteq> set (dm_completed m')"
  by (erule drv_trans.cases) auto

lemma completed_not_invoked:
  "run_all (drv_step J) m ops = Some m' \<Longrightarrow> i \<in> set (dm_completed m) \<Longrightarrow> OpInvoke p \<in> set ops \<Longrightarrow>
     ip_InvocationID p \<noteq> i"
proof (induction ops arbitrary: m)
  case (Cons op ops)
  from Cons.prems(1) obtain m1 where m1: "drv_trans J m op m1" "run_all (drv_step J) m1 ops = Some m'"
    by (auto simp: drv_step_iff split: prod.splits option.splits)
  from m1(1) Cons.prems(2) have "op = OpInvoke p \<Longrightarrow> ip_InvocationID p \<noteq> i"
    by (auto elim: drv_trans.cases)
  moreover have "i \<in> set (dm_completed m1)" using completed_grows [OF m1(1)] Cons.prems(2) by blast
  ultimately show ?case using Cons.IH [OF m1(2)] Cons.prems(3) by auto
qed simp

text \<open>
  In an accepted history the completion of an invocation closes it faithfully: the observations
  since it began carry its identifiers and strictly increasing sequence numbers, the completion
  names the last of them (and none when nothing was observed), the identifier had not been completed
  before, and no later invocation uses it again.
\<close>

theorem completion_closes_invocation:
  assumes "run_all (drv_step J) NewMachine (ops @ OpComplete c # later) = Some m"
  shows "let os = observations (since_invoke ops) in
     sorted_wrt (<) (map op_Sequence os) \<and>
     (\<forall>p\<in>set os. op_InvocationID p = tp_InvocationID c \<and> op_AttemptID p = tp_AttemptID c) \<and>
     tp_LastSequence c = (if os = [] then None else Some (op_Sequence (last os))) \<and>
     tp_InvocationID c \<notin> set (completions ops) \<and>
     (\<forall>p. OpInvoke p \<in> set later \<longrightarrow> ip_InvocationID p \<noteq> tp_InvocationID c)"
proof -
  from assms obtain m0 m1 where m0: "run_all (drv_step J) NewMachine ops = Some m0"
    and t: "drv_trans J m0 (OpComplete c) m1" and m: "run_all (drv_step J) m1 later = Some m"
    by (elim run_all_midE) (simp add: drv_step_iff)
  from t have "tp_InvocationID c \<in> set (dm_completed m1)" by cases auto
  from completed_not_invoked [OF m this]
  have "\<forall>p. OpInvoke p \<in> set later \<longrightarrow> ip_InvocationID p \<noteq> tp_InvocationID c" by blast
  with t drv_history [OF m0] show ?thesis by cases (auto simp: tracks_def drv_inv_def Let_def)
qed

definition sample_completion :: completed_params where
  "sample_completion = \<lparr>tp_InvocationID = uuid_a, tp_AttemptID = uuid_b, tp_Status = TerminalCompleted,
     tp_LastSequence = Some 9, tp_SummaryDigest = zero_digest\<rparr>"

definition sample_observation_frame :: "u64 \<Rightarrow> observation_params" where
  "sample_observation_frame n = \<lparr>op_InvocationID = uuid_a, op_AttemptID = uuid_b, op_Sequence = n, op_Kind = ''delta'',
     op_MonotonicNS = 0, op_Payload = [], op_DataStream = None\<rparr>"

definition sample_session :: "drv_op list" where
  "sample_session = [OpHello, OpPrepare, OpInvoke \<lparr>ip_InvocationID = uuid_a, ip_AttemptID = uuid_b,
     ip_Operation = ''responses.create'', ip_Input = \<lparr>ih_Kind = ''pipe'', ih_Value = ''3''\<rparr>\<rparr>,
     OpObserve (sample_observation_frame 4), OpObserve (sample_observation_frame 9)]"

theorem completion_closes_invocation_witness:
  "tp_LastSequence sample_completion =
     Some (op_Sequence (last (observations (since_invoke sample_session))))"
proof -
  have "\<exists>m. run_all (drv_step sample_json) NewMachine (sample_session @ OpComplete sample_completion # [OpReset]) = Some m"
    by (simp add: sample_session_def drv_step_def drv_op_defs NewMachine_def invoke_Validate_def handle_validate_def
        observation_params_Validate_def sample_observation_frame_def completed_Validate_def sample_completion_def)
  then obtain m where
    "run_all (drv_step sample_json) NewMachine (sample_session @ OpComplete sample_completion # [OpReset]) = Some m" ..
  from completion_closes_invocation [OF this] show ?thesis
    by (simp add: Let_def sample_completion_def split: if_splits)
qed

end
