(* ===== verification/Minimizer.thy ===== *)
theory Minimizer
  imports Prelude
begin

text \<open>
  Package \<open>minimizer\<close>: bounded delta debugging.  The predicate is code of the caller that may be
  flaky, fail, or change its mind: it is a function of the number of evaluations made before and of
  the candidate, so any sequence of answers is covered.  \<open>ctx_err\<close> gives the context's error at each
  round of the loop.  Both loops of \<open>DDMin\<close> are proved to terminate.
\<close>

section \<open>Options, results and one candidate\<close>

type_synonym 'a predicate = "nat \<Rightarrow> 'a list \<Rightarrow> bool res"

datatype mm_status = StatusMinimized | StatusUnchanged | StatusInconclusive

record mm_options =
  mo_Attempts :: int
  mo_RequiredPasses :: int
  mo_MaxEvaluations :: int

record 'a mm_result =
  mr_Items :: "'a list"
  mr_Status :: mm_status
  mr_ReasonCode :: string
  mr_Evaluations :: nat
  mr_Attempts :: int
  mr_Required :: int

definition ErrBudgetExhausted :: go_error where
  "ErrBudgetExhausted = Err ''minimization evaluation budget exhausted''"

definition normalizeOptions :: "mm_options \<Rightarrow> mm_options res" where
  "normalizeOptions opts =
     (let attempts = (if mo_Attempts opts = 0 then 1 else mo_Attempts opts);
          required = (if mo_RequiredPasses opts = 0 then attempts else mo_RequiredPasses opts);
          budget = (if mo_MaxEvaluations opts = 0 then 1000 else mo_MaxEvaluations opts)
      in if attempts < 1 \<or> required < 1 \<or> required > attempts \<or> budget < 1
         then Inl (Err ''invalid minimizer attempts, required passes, or evaluation budget'')
         else Inr \<lparr>mo_Attempts = attempts, mo_RequiredPasses = required, mo_MaxEvaluations = budget\<rparr>)"

text \<open>
  The attempts of \<open>evaluator.check\<close>, with the number of attempts left.  It returns the new count and
  the error or the pair (reproduces, conclusive).
\<close>

fun check_loop :: "'a predicate \<Rightarrow> mm_options \<Rightarrow> 'a list \<Rightarrow> nat \<Rightarrow> int \<Rightarrow> int \<Rightarrow> nat \<Rightarrow> nat \<times> (bool \<times> bool) res" where
  "check_loop pred opts candidate 0 passes failures n = (n, Inr (False, False))"
| "check_loop pred opts candidate (Suc left) passes failures n =
     (if int n \<ge> mo_MaxEvaluations opts then (n, Inl ErrBudgetExhausted)
      else case pred n candidate of
        Inl _ \<Rightarrow> check_loop pred opts candidate left passes failures (Suc n)
      | Inr matched \<Rightarrow>
          (let passes' = (if matched then passes + 1 else passes);
               failures' = (if matched then failures else failures + 1)
           in if passes' \<ge> mo_RequiredPasses opts then (Suc n, Inr (True, True))
              else if failures' > mo_Attempts opts - mo_RequiredPasses opts then (Suc n, Inr (False, True))
              else check_loop pred opts candidate left passes' failures' (Suc n)))"

definition check :: "'a predicate \<Rightarrow> mm_options \<Rightarrow> nat \<Rightarrow> 'a list \<Rightarrow> nat \<times> (bool \<times> bool) res" where
  "check pred opts n candidate = check_loop pred opts candidate (nat (mo_Attempts opts)) 0 0 n"

definition evaluation_result :: "mm_options \<Rightarrow> nat \<Rightarrow> 'a list \<Rightarrow> mm_status \<Rightarrow> string \<Rightarrow> 'a mm_result" where
  "evaluation_result opts n items status reason =
     \<lparr>mr_Items = items, mr_Status = status, mr_ReasonCode = reason, mr_Evaluations = n,
      mr_Attempts = mo_Attempts opts, mr_Required = mo_RequiredPasses opts\<rparr>"

section \<open>The loops\<close>

datatype 'a scan = Reduced "'a list" | NotReduced | Exhausted | Failed go_error

definition complement :: "'a list \<Rightarrow> nat \<Rightarrow> nat \<Rightarrow> 'a list" where
  "complement current start chunk = take start current @ drop (min (start + chunk) (length current)) current"

text \<open>
  One pass over the chunks.  \<open>DDMin\<close> calls it with a positive chunk size only; the conjunct
  \<open>0 < chunk\<close> serves the termination proof.
\<close>

function scan_loop :: "'a predicate \<Rightarrow> mm_options \<Rightarrow> 'a list \<Rightarrow> nat \<Rightarrow> nat \<Rightarrow> nat \<Rightarrow> bool \<Rightarrow> nat \<times> bool \<times> 'a scan" where
  "scan_loop pred opts current chunk start n saw =
     (if start < length current \<and> 0 < chunk then
        (let candidate = complement current start chunk in
         if candidate = [] then scan_loop pred opts current chunk (start + chunk) n saw
         else case check pred opts n candidate of
           (n', Inl e) \<Rightarrow> (n', saw, if errors_is e ErrBudgetExhausted then Exhausted else Failed e)
         | (n', Inr (reproduces, conclusive)) \<Rightarrow>
             if \<not> conclusive then scan_loop pred opts current chunk (start + chunk) n' True
             else if reproduces then (n', saw, Reduced candidate)
             else scan_loop pred opts current chunk (start + chunk) n' saw)
      else (n, saw, NotReduced))"
  by pat_completeness auto
termination by (relation "measure (\<lambda>(_, _, current, _, start, _, _). length current - start)") auto

declare scan_loop.simps [simp del]

lemma complement_length: "start < length current \<Longrightarrow> 0 < chunk \<Longrightarrow> length (complement current start chunk) < length current"
  by (auto simp: complement_def)

lemma complement_subseq: "subseq (complement current start chunk) current"
  by (cases "start \<le> min (start + chunk) (length current)")
     (auto simp: complement_def intro: subseq_remove_slice)

lemma scan_loop_cases:
  obtains (stop) "\<not> (start < length current \<and> 0 < chunk)"
      "scan_loop pred opts current chunk start n saw = (n, saw, NotReduced)"
  | (pass) n1 saw1 where "start < length current" "0 < chunk"
      "scan_loop pred opts current chunk start n saw = scan_loop pred opts current chunk (start + chunk) n1 saw1"
      "complement current start chunk = [] \<and> n1 = n \<and> saw1 = saw \<or>
       (\<exists>r. check pred opts n (complement current start chunk) = (n1, Inr (r, False)) \<and> saw1) \<or>
       check pred opts n (complement current start chunk) = (n1, Inr (False, True)) \<and> saw1 = saw"
  | (found) n1 where "start < length current" "0 < chunk" "complement current start chunk \<noteq> []"
      "check pred opts n (complement current start chunk) = (n1, Inr (True, True))"
      "scan_loop pred opts current chunk start n saw = (n1, saw, Reduced (complement current start chunk))"
  | (error) n1 e where "start < length current" "0 < chunk"
      "check pred opts n (complement current start chunk) = (n1, Inl e)"
      "scan_loop pred opts current chunk start n saw =
         (n1, saw, if errors_is e ErrBudgetExhausted then Exhausted else Failed e)"
proof (cases "start < length current \<and> 0 < chunk")
  case False
  then show thesis by (intro stop) (auto simp: scan_loop.simps)
next
  case True
  let ?c = "complement current start chunk"
  note step = scan_loop.simps [of pred opts current chunk start n saw]
  show thesis
  proof (cases "?c = []")
    case True
    with \<open>start < length current \<and> 0 < chunk\<close> show thesis
      by (intro pass [of n saw]) (simp_all add: step)
  next
    case ne: False
    obtain n1 r where ch: "check pred opts n ?c = (n1, r)" by fastforce
    show thesis
    proof (cases r)
      case (Inl e)
      with True ne ch show thesis by (intro error [of n1 e]) (simp_all add: step)
    next
      case (Inr rc)
      obtain rp cn where rc: "rc = (rp, cn)" by fastforce
      show thesis
      proof (cases "cn \<and> rp")
        case found': True
        with True ne ch Inr rc show thesis by (intro found [of n1]) (simp_all add: step)
      next
        case False
        with True ne ch Inr rc show thesis
          by (intro pass [of n1 "if cn then saw else True"]) (auto simp: step)
      qed
    qed
  qed
qed

lemma scan_induct [case_names step]:
  fixes len chunk :: nat
  assumes "\<And>start n saw. (\<And>n' saw'. start < len \<Longrightarrow> 0 < chunk \<Longrightarrow> P (start + chunk) n' saw') \<Longrightarrow> P start n saw"
  shows "P start n saw"
proof (induction "len - start" arbitrary: start n saw rule: less_induct)
  case less
  show ?case by (rule assms, rule less) simp
qed

lemma scan_loop_Reduced:
  "scan_loop pred opts current chunk start n saw = (n', saw', Reduced candidate) \<Longrightarrow>
     subseq candidate current \<and> length candidate < length current \<and> candidate \<noteq> [] \<and>
     (\<exists>c0. check pred opts c0 candidate = (n', Inr (True, True)))"
proof (induction start n saw rule: scan_induct [where len = "length current" and chunk = chunk])
  case (step start n saw)
  show ?case
    by (cases rule: scan_loop_cases [of start current chunk pred opts n saw])
       (use step in \<open>auto simp: complement_subseq complement_length split: if_splits\<close>)
qed

datatype 'a loop_end = LoopDone "'a list" bool | LoopExhausted "'a list" | LoopError go_error

function ddmin_loop :: "'a predicate \<Rightarrow> (nat \<Rightarrow> err) \<Rightarrow> mm_options \<Rightarrow> nat \<Rightarrow> 'a list \<Rightarrow> nat \<Rightarrow> nat \<Rightarrow> bool \<Rightarrow> nat \<times> 'a loop_end" where
  "ddmin_loop pred ctx_err opts round current granularity n saw =
     (if length current < 2 then (n, LoopDone current saw)
      else case ctx_err round of
        Some e \<Rightarrow> (n, LoopError e)
      | None \<Rightarrow>
          if granularity = 0 then (n, LoopError (Err ''integer divide by zero''))
          else (let chunk = (length current + granularity - 1) div granularity in
           case scan_loop pred opts current chunk 0 n saw of
             (n', saw', Exhausted) \<Rightarrow> (n', LoopExhausted current)
           | (n', saw', Failed e) \<Rightarrow> (n', LoopError e)
           | (n', saw', Reduced candidate) \<Rightarrow>
               ddmin_loop pred ctx_err opts (Suc round) candidate (max 2 (granularity - 1)) n' saw'
           | (n', saw', NotReduced) \<Rightarrow>
               if granularity \<ge> length current then (n', LoopDone current saw')
               else ddmin_loop pred ctx_err opts (Suc round) current
                      (min (length current) (granularity * 2)) n' saw'))"
  by pat_completeness auto
termination
proof (relation "measures [\<lambda>(_, _, _, _, current, _, _, _). length current,
                           \<lambda>(_, _, _, _, current, granularity, _, _). length current - granularity]", goal_cases)
  case prems: 2
  from scan_loop_Reduced [OF prems(5) [symmetric, unfolded prems(6) [symmetric] prems(7)]]
  show ?case by simp
qed auto

declare ddmin_loop.simps [simp del]

section \<open>DDMin\<close>

definition DDMin :: "(nat \<Rightarrow> err) \<Rightarrow> 'a list \<Rightarrow> 'a predicate option \<Rightarrow> mm_options \<Rightarrow> 'a mm_result res" where
  "DDMin ctx_err input predicate options =
     (case predicate of
        None \<Rightarrow> Inl (Err ''minimization predicate is required'')
      | Some pred \<Rightarrow>
          bind_res (normalizeOptions options) (\<lambda>opts.
            case check pred opts 0 input of
              (n, Inl e) \<Rightarrow> Inl e
            | (n, Inr (reproduces, conclusive)) \<Rightarrow>
                if \<not> conclusive then Inr (evaluation_result opts n input StatusInconclusive ''insufficient_samples'')
                else if \<not> reproduces then Inl (Err ''initial input does not reproduce the finding'')
                else if length input < 2 then Inr (evaluation_result opts n input StatusUnchanged [])
                else (case ddmin_loop pred ctx_err opts 0 input 2 n False of
                    (n', LoopError e) \<Rightarrow> Inl e
                  | (n', LoopExhausted current) \<Rightarrow>
                      Inr (evaluation_result opts n' current StatusInconclusive ''budget_exhausted'')
                  | (n', LoopDone current saw) \<Rightarrow>
                      if saw then Inr (evaluation_result opts n' current StatusInconclusive ''flaky_detected'')
                      else Inr (evaluation_result opts n' current
                             (if length current = length input then StatusUnchanged else StatusMinimized) []))))"

text \<open>\<open>RemoveJSONObjectKeys\<close>; \<open>'v\<close> is the type of JSON values.\<close>

fun ordered_keys_check :: "(string, 'v) gomap \<Rightarrow> string list \<Rightarrow> string list \<Rightarrow> err" where
  "ordered_keys_check input seen [] = None"
| "ordered_keys_check input seen (key # keys) = first_err
     [fail_if (\<not> ahas input key) (Err ''ordered key is not present''),
      fail_if (key \<in> set seen) (Err ''ordered key is duplicated''),
      ordered_keys_check input (key # seen) keys]"

definition retain :: "(string, 'v) gomap \<Rightarrow> string list \<Rightarrow> (string, 'v) gomap" where
  "retain input keys = fold (\<lambda>key m. aput key (the (aget input key)) m) keys []"

definition RemoveJSONObjectKeys ::
  "(nat \<Rightarrow> err) \<Rightarrow> (string, 'v) gomap \<Rightarrow> string list \<Rightarrow> (nat \<Rightarrow> (string, 'v) gomap \<Rightarrow> bool res) option \<Rightarrow>
   mm_options \<Rightarrow> ((string, 'v) gomap \<times> string mm_result) res" where
  "RemoveJSONObjectKeys ctx_err input orderedKeys predicate options =
     (case predicate of
        None \<Rightarrow> Inl (Err ''JSON predicate is required'')
      | Some pred \<Rightarrow>
          guard_res (ordered_keys_check input [] orderedKeys)
            (bind_res (DDMin ctx_err orderedKeys (Some (\<lambda>n retained. pred n (retain input retained))) options)
              (\<lambda>result. Inr (retain input (mr_Items result), result))))"

section \<open>Budget of the checks\<close>

lemma check_loop_count:
  "check_loop pred opts c left p f n = (n', r) \<Longrightarrow>
     n \<le> n' \<and> n' \<le> n + left \<and> (int n \<le> mo_MaxEvaluations opts \<longrightarrow> int n' \<le> mo_MaxEvaluations opts) \<and>
     (\<forall>e. r = Inl e \<longrightarrow> e = ErrBudgetExhausted)"
proof (induction left arbitrary: p f n)
  case (Suc left)
  from Suc.prems show ?case by (auto simp: Let_def split: if_splits sum.splits dest!: Suc.IH)
qed auto

lemma check_count:
  assumes "check pred opts n c = (n', r)"
  shows "n \<le> n'" "n' \<le> n + nat (mo_Attempts opts)"
    "int n \<le> mo_MaxEvaluations opts \<Longrightarrow> int n' \<le> mo_MaxEvaluations opts"
    "r = Inl e \<Longrightarrow> e = ErrBudgetExhausted"
  using check_loop_count [OF assms [unfolded check_def]] by auto

lemma errors_is_refl [simp]: "errors_is e e"
  by (cases e) simp_all

lemma chunk_cost: "start < len \<Longrightarrow> n1 \<le> n + a \<Longrightarrow> n1 \<le> n + a * (len - start)" for n1 n a len start :: nat
  by (erule order.trans) (simp add: Suc_leI)

lemma scan_loop_count:
  "scan_loop pred opts current chunk start n saw = (n', r) \<Longrightarrow>
     n \<le> n' \<and> n' \<le> n + nat (mo_Attempts opts) * (length current - start) \<and>
     (int n \<le> mo_MaxEvaluations opts \<longrightarrow> int n' \<le> mo_MaxEvaluations opts) \<and> (\<forall>s e. r \<noteq> (s, Failed e))"
proof (induction start n saw rule: scan_induct [where len = "length current" and chunk = chunk])
  case (step start n saw)
  let ?a = "nat (mo_Attempts opts)"
  show ?case
  proof (cases rule: scan_loop_cases [of start current chunk pred opts n saw])
    case stop
    with step.prems show ?thesis by auto
  next
    case (pass n1 saw1)
    then have n1: "n \<le> n1" "n1 \<le> n + ?a" "int n \<le> mo_MaxEvaluations opts \<Longrightarrow> int n1 \<le> mo_MaxEvaluations opts"
      using check_count by fastforce+
    have "Suc (length current - (start + chunk)) \<le> length current - start" using pass(1,2) by simp
    from mult_le_mono2 [OF this, of ?a]
    have "?a * (length current - (start + chunk)) + ?a \<le> ?a * (length current - start)" by simp
    with n1 step.IH [OF pass(1,2) step.prems [unfolded pass(3)]] show ?thesis by auto
  next
    case (found n1)
    with step.prems check_count [OF found(4)] show ?thesis by (auto intro: chunk_cost)
  next
    case (error n1 e)
    with step.prems check_count [OF error(3)] show ?thesis by (auto intro: chunk_cost)
  qed
qed

section \<open>The rounds\<close>

lemma ddmin_loop_cases:
  obtains (small) "length current < 2" "ddmin_loop pred ctx_err opts rnd current g n saw = (n, LoopDone current saw)"
  | (stopped) e where "ddmin_loop pred ctx_err opts rnd current g n saw = (n, LoopError e)"
      "ctx_err rnd = Some e \<or> g = 0"
  | (exhausted) n1 s1 where
      "scan_loop pred opts current ((length current + g - 1) div g) 0 n saw = (n1, s1, Exhausted)"
      "ddmin_loop pred ctx_err opts rnd current g n saw = (n1, LoopExhausted current)"
  | (reduced) n1 s1 cand where "2 \<le> length current" "0 < g"
      "scan_loop pred opts current ((length current + g - 1) div g) 0 n saw = (n1, s1, Reduced cand)"
      "ddmin_loop pred ctx_err opts rnd current g n saw =
         ddmin_loop pred ctx_err opts (Suc rnd) cand (max 2 (g - 1)) n1 s1"
  | (finished) n1 s1 where "2 \<le> length current" "length current \<le> g"
      "scan_loop pred opts current ((length current + g - 1) div g) 0 n saw = (n1, s1, NotReduced)"
      "ddmin_loop pred ctx_err opts rnd current g n saw = (n1, LoopDone current s1)"
  | (refined) n1 s1 where "2 \<le> length current" "0 < g" "g < length current"
      "scan_loop pred opts current ((length current + g - 1) div g) 0 n saw = (n1, s1, NotReduced)"
      "ddmin_loop pred ctx_err opts rnd current g n saw =
         ddmin_loop pred ctx_err opts (Suc rnd) current (min (length current) (g * 2)) n1 s1"
proof -
  note step = ddmin_loop.simps [of pred ctx_err opts rnd current g n saw]
  obtain n1 s1 out where scan: "scan_loop pred opts current ((length current + g - 1) div g) 0 n saw = (n1, s1, out)"
    using prod_cases3 by blast
  consider "length current < 2" | e where "2 \<le> length current" "ctx_err rnd = Some e"
    | "2 \<le> length current" "ctx_err rnd = None" "g = 0" | "2 \<le> length current" "ctx_err rnd = None" "0 < g"
    by (metis gr0I not_le option.exhaust)
  then show thesis
  proof cases
    case 4
    then have eq: "ddmin_loop pred ctx_err opts rnd current g n saw =
       (case out of Exhausted \<Rightarrow> (n1, LoopExhausted current) | Failed e \<Rightarrow> (n1, LoopError e)
        | Reduced cand \<Rightarrow> ddmin_loop pred ctx_err opts (Suc rnd) cand (max 2 (g - 1)) n1 s1
        | NotReduced \<Rightarrow> if length current \<le> g then (n1, LoopDone current s1)
            else ddmin_loop pred ctx_err opts (Suc rnd) current (min (length current) (g * 2)) n1 s1)"
      by (subst step) (simp add: scan Let_def del: One_nat_def)
    have "out \<noteq> Failed e" for e using scan_loop_count [OF scan] by auto
    with 4 scan eq show thesis
      by (cases out) (auto intro: reduced finished refined exhausted split: if_splits simp: not_le)
  qed (use step in \<open>auto intro: small stopped\<close>)
qed

lemma ddmin_induct [case_names step]:
  assumes "\<And>rnd current g n saw.
      (\<And>rnd' current' g' n' saw'.
         length current' < length current \<or> current' = current \<and> g < g' \<and> g' \<le> length current \<Longrightarrow>
         P rnd' current' g' n' saw') \<Longrightarrow> P rnd current g n saw"
  shows "P rnd (current :: 'a list) (g :: nat) n saw"
proof (induction "length current" arbitrary: rnd current g n saw rule: less_induct)
  case outer: (less current rnd g n saw)
  show ?case
  proof (induction "length current - g" arbitrary: rnd g n saw rule: less_induct)
    case inner: (less g rnd n saw)
    show ?case
    proof (rule assms, elim disjE conjE)
      show "P rnd' current' g' n' saw'" if "length current' < length current" for rnd' current' g' n' saw'
        using that by (rule outer)
      show "P rnd' current' g' n' saw'" if "current' = current" "g < g'" "g' \<le> length current"
        for rnd' current' g' n' saw'
        unfolding that(1) by (rule inner) (use that in simp)
    qed
  qed
qed

text \<open>What a list that the loop returns is to the list it started from.\<close>

definition reproduced :: "'a predicate \<Rightarrow> mm_options \<Rightarrow> 'a list \<Rightarrow> bool" where
  "reproduced pred opts items \<longleftrightarrow> (\<exists>n n'. check pred opts n items = (n', Inr (True, True)))"

definition shrunk :: "'a predicate \<Rightarrow> mm_options \<Rightarrow> 'a list \<Rightarrow> 'a list \<Rightarrow> bool" where
  "shrunk pred opts current items \<longleftrightarrow> items = current \<or>
     subseq items current \<and> items \<noteq> [] \<and> length items < length current \<and> reproduced pred opts items"

lemma shrunk_trans: "shrunk pred opts a b \<Longrightarrow> shrunk pred opts b c \<Longrightarrow> shrunk pred opts a c"
  by (auto simp: shrunk_def intro: subseq_order.trans)

lemma ddmin_loop_safe:
  "ddmin_loop pred ctx_err opts rnd current g n saw = (n', res) \<Longrightarrow> int n \<le> mo_MaxEvaluations opts \<Longrightarrow>
     int n' \<le> mo_MaxEvaluations opts \<and>
     (\<forall>items s. res = LoopDone items s \<or> res = LoopExhausted items \<longrightarrow> shrunk pred opts current items)"
proof (induction rnd current g n saw rule: ddmin_induct)
  case (step rnd current g n saw)
  show ?case
  proof (cases rule: ddmin_loop_cases [of current pred ctx_err opts rnd g n saw])
    case (reduced n1 s1 cand)
    note c = scan_loop_Reduced [OF reduced(3)] and n = scan_loop_count [OF reduced(3)]
    from c have "shrunk pred opts current cand" by (auto simp: shrunk_def reproduced_def)
    moreover from step.prems reduced(4) c n
    have "int n' \<le> mo_MaxEvaluations opts \<and>
       (\<forall>items s. res = LoopDone items s \<or> res = LoopExhausted items \<longrightarrow> shrunk pred opts cand items)"
      by (intro step.IH [of cand "max 2 (g - 1)" "Suc rnd" n1 s1]) auto
    ultimately show ?thesis by (metis shrunk_trans)
  next
    case (refined n1 s1)
    with step.prems scan_loop_count [OF refined(4)] show ?thesis
      by (intro step.IH [of current "min (length current) (g * 2)" "Suc rnd" n1 s1]) auto
  qed (use step.prems in \<open>auto simp: shrunk_def dest!: scan_loop_count\<close>)
qed

section \<open>Deterministic predicates\<close>

definition answers :: "('a list \<Rightarrow> bool) \<Rightarrow> 'a predicate" where
  "answers P = (\<lambda>_ c. Inr (P c))"

definition valid_options :: "mm_options \<Rightarrow> bool" where
  "valid_options opts \<longleftrightarrow> 1 \<le> mo_RequiredPasses opts \<and> mo_RequiredPasses opts \<le> mo_Attempts opts \<and>
     1 \<le> mo_MaxEvaluations opts"

lemma normalizeOptions_valid: "normalizeOptions o1 = Inr o2 \<Longrightarrow> valid_options o2"
  by (auto simp: normalizeOptions_def valid_options_def Let_def split: if_splits)

lemma normalizeOptions_id: "valid_options opts \<Longrightarrow> normalizeOptions opts = Inr opts"
  by (auto simp: normalizeOptions_def valid_options_def Let_def)

lemma check_loop_answers:
  assumes "0 \<le> p" "0 \<le> f"
    "P c \<Longrightarrow> f = 0 \<and> p < mo_RequiredPasses opts \<and> mo_RequiredPasses opts \<le> p + int left"
    "\<not> P c \<Longrightarrow> p = 0 \<and> f \<le> mo_Attempts opts - mo_RequiredPasses opts \<and>
       mo_Attempts opts - mo_RequiredPasses opts < f + int left"
    "int n + int left \<le> mo_MaxEvaluations opts" "valid_options opts"
  shows "\<exists>n'. check_loop (answers P) opts c left p f n = (n', Inr (P c, True))"
  using assms
proof (induction left arbitrary: p f n)
  case (Suc left)
  show ?case
  proof (cases "P c")
    case True
    show ?thesis
    proof (cases "mo_RequiredPasses opts \<le> p + 1")
      case False
      with True Suc.prems have "\<exists>n'. check_loop (answers P) opts c left (p + 1) f (Suc n) = (n', Inr (P c, True))"
        by (intro Suc.IH) auto
      with True False Suc.prems show ?thesis by (auto simp: answers_def Let_def valid_options_def)
    qed (use True Suc.prems in \<open>auto simp: answers_def Let_def\<close>)
  next
    case no: False
    show ?thesis
    proof (cases "mo_Attempts opts - mo_RequiredPasses opts < f + 1")
      case False
      with no Suc.prems have "\<exists>n'. check_loop (answers P) opts c left p (f + 1) (Suc n) = (n', Inr (P c, True))"
        by (intro Suc.IH) auto
      with no False Suc.prems show ?thesis by (auto simp: answers_def Let_def valid_options_def)
    qed (use no Suc.prems in \<open>auto simp: answers_def Let_def valid_options_def\<close>)
  qed
qed (cases "P c", auto)

lemma check_answers:
  assumes "valid_options opts" "int n + mo_Attempts opts \<le> mo_MaxEvaluations opts"
  obtains n' where "check (answers P) opts n c = (n', Inr (P c, True))" "n' \<le> n + nat (mo_Attempts opts)"
proof -
  have "\<exists>n'. check_loop (answers P) opts c (nat (mo_Attempts opts)) 0 0 n = (n', Inr (P c, True))"
    using assms by (intro check_loop_answers) (auto simp: valid_options_def)
  then show thesis using that check_count by (metis check_def)
qed

lemma scan_loop_answers:
  assumes "valid_options opts"
    "int n + mo_Attempts opts * int (length current - start) \<le> mo_MaxEvaluations opts" "0 < chunk"
  shows "(\<exists>n1 cand. scan_loop (answers P) opts current chunk start n saw = (n1, saw, Reduced cand) \<and> P cand) \<or>
    (\<exists>n1. scan_loop (answers P) opts current chunk start n saw = (n1, saw, NotReduced) \<and>
       (chunk = 1 \<longrightarrow> (\<forall>i. start \<le> i \<and> i < length current \<longrightarrow>
          complement current i 1 = [] \<or> \<not> P (complement current i 1))))"
  using assms(2)
proof (induction start n saw rule: scan_induct [where len = "length current" and chunk = chunk])
  case (step start n saw)
  let ?c = "complement current start chunk"
  show ?case
  proof (cases "start < length current")
    case True
    have "mo_Attempts opts * 1 \<le> mo_Attempts opts * int (length current - start)"
      using True assms(1) by (intro mult_left_mono) (auto simp: valid_options_def)
    then have n: "int n + mo_Attempts opts \<le> mo_MaxEvaluations opts" using step.prems by simp
    have more: "int n1 + mo_Attempts opts * int (length current - (start + chunk)) \<le> mo_MaxEvaluations opts"
      if "n1 \<le> n + nat (mo_Attempts opts)" for n1
    proof -
      have "mo_Attempts opts * (int (length current - (start + chunk)) + 1)
          \<le> mo_Attempts opts * int (length current - start)"
        using True assms by (intro mult_left_mono) (auto simp: valid_options_def)
      moreover have "int n1 \<le> int n + mo_Attempts opts"
        using of_nat_mono [OF that, where 'a = int] assms(1) by (simp add: valid_options_def)
      ultimately show ?thesis using step.prems by (simp add: algebra_simps)
    qed
    from check_answers [OF assms(1) n, of P ?c] obtain n1
      where n1: "check (answers P) opts n ?c = (n1, Inr (P ?c, True))" "n1 \<le> n + nat (mo_Attempts opts)" .
    note ih = step.IH [OF True assms(3), where n' = "if ?c = [] then n else n1" and saw' = saw]
    have eq: "scan_loop (answers P) opts current chunk start n saw =
      (if ?c \<noteq> [] \<and> P ?c then (n1, saw, Reduced ?c)
       else scan_loop (answers P) opts current chunk (start + chunk) (if ?c = [] then n else n1) saw)"
      using True assms(3) n1 by (subst scan_loop.simps) (simp add: Let_def)
    have "start \<le> i \<longleftrightarrow> i = start \<or> start + chunk \<le> i" if "chunk = 1" for i using that by auto
    with ih more n1(2) eq show ?thesis by auto
  qed (auto simp: scan_loop.simps)
qed

definition one_minimal :: "('a list \<Rightarrow> bool) \<Rightarrow> 'a list \<Rightarrow> bool" where
  "one_minimal P items \<longleftrightarrow>
     (2 \<le> length items \<longrightarrow> (\<forall>i < length items. \<not> P (take i items @ drop (Suc i) items)))"

text \<open>An upper bound of the passes still to come, for lists of at most \<open>m\<close> items.\<close>

definition passes_left :: "nat \<Rightarrow> 'a list \<Rightarrow> nat \<Rightarrow> nat" where
  "passes_left m current g = length current * (m + 1) + (length current - g) + 1"

lemma passes_left_reduced:
  assumes "length cand < length current" "length current \<le> m"
  shows "Suc (passes_left m cand g') \<le> passes_left m current g"
proof -
  have "(length cand + 1) * (m + 1) \<le> length current * (m + 1)"
    using assms by (intro mult_le_mono1) simp
  with assms show ?thesis by (simp add: passes_left_def)
qed

lemma pay_pass:
  assumes "int n + A * int m * int k \<le> (b :: int)" "Suc k' \<le> k" "n1 \<le> n + nat A * l" "l \<le> m" "0 \<le> A"
  shows "int n1 + A * int m * int k' \<le> b"
proof -
  have "A * int m * (int k' + 1) \<le> A * int m * int k" using assms by (intro mult_left_mono) auto
  moreover have "A * int l \<le> A * int m" using assms by (intro mult_left_mono) auto
  moreover have "int n1 \<le> int n + A * int l"
    using of_nat_mono [OF assms(3), where 'a = int] assms(5) by simp
  ultimately show ?thesis using assms(1) by (simp add: algebra_simps)
qed

lemma last_pass_chunk: "2 \<le> l \<Longrightarrow> l \<le> g \<Longrightarrow> (l + g - 1) div g = (1 :: nat)"
  by (subst div_nat_eqI [where q = 1]) auto

lemma chunk_pos: "2 \<le> l \<Longrightarrow> 0 < g \<Longrightarrow> 0 < (l + g - 1) div (g :: nat)"
  by (simp add: div_greater_zero_iff)

lemma ddmin_loop_answers:
  assumes "valid_options opts" "\<And>r. ctx_err r = None"
  shows "int n + mo_Attempts opts * int m * int (passes_left m current g) \<le> mo_MaxEvaluations opts \<Longrightarrow>
     length current \<le> m \<Longrightarrow> 0 < g \<Longrightarrow> P current \<Longrightarrow>
     \<exists>n' items. ddmin_loop (answers P) ctx_err opts rnd current g n saw = (n', LoopDone items saw) \<and>
       P items \<and> subseq items current \<and> one_minimal P items"
proof (induction rnd current g n saw rule: ddmin_induct)
  case (step rnd current g n saw)
  let ?chunk = "(length current + g - 1) div g" and ?A = "mo_Attempts opts"
  have A: "0 \<le> ?A" using assms(1) by (simp add: valid_options_def)
  show ?case
  proof (cases "2 \<le> length current")
    case False
    then show ?thesis using step.prems by (auto simp: ddmin_loop.simps one_minimal_def)
  next
    case len: True
    have "?A * int (length current) * 1 \<le> ?A * int m * int (passes_left m current g)"
      using step.prems(2) A by (intro mult_mono mult_left_mono) (auto simp: passes_left_def)
    then have "int n + ?A * int (length current - 0) \<le> mo_MaxEvaluations opts" using step.prems(1) by simp
    note scan = scan_loop_answers [OF assms(1) this chunk_pos [OF len step.prems(3)], of P saw]
    show ?thesis
    proof (cases rule: ddmin_loop_cases [of current "answers P" ctx_err opts rnd g n saw])
      case (reduced n1 s1 cand)
      with scan have c: "P cand" "s1 = saw" by auto
      note l = scan_loop_Reduced [OF reduced(3)]
      have "int n1 + ?A * int m * int (passes_left m cand (max 2 (g - 1))) \<le> mo_MaxEvaluations opts"
        using scan_loop_count [OF reduced(3)] l step.prems(2) A
        by (intro pay_pass [OF step.prems(1) passes_left_reduced [of cand current m]]) auto
      with step.IH [of cand "max 2 (g - 1)" n1 "Suc rnd" saw] c l step.prems(2) reduced(4)
      show ?thesis by (fastforce intro: subseq_order.trans)
    next
      case (finished n1 s1)
      with scan have s: "s1 = saw" by auto
      have "?chunk = 1" using finished(1,2) by (rule last_pass_chunk)
      with scan finished(3) have min: "\<forall>i < length current. complement current i 1 = [] \<or> \<not> P (complement current i 1)"
        by auto
      have "complement current i 1 = take i current @ drop (Suc i) current" if "i < length current" for i
        using that by (simp add: complement_def min_def)
      moreover have "complement current i 1 \<noteq> []" if "i < length current" for i
        using that len by (auto simp: complement_def min_def)
      ultimately have "one_minimal P current" using min unfolding one_minimal_def by metis
      with finished(4) s step.prems(4) show ?thesis by auto
    next
      case (refined n1 s1)
      with scan have s: "s1 = saw" by auto
      let ?g = "min (length current) (g * 2)"
      have "Suc (passes_left m current ?g) \<le> passes_left m current g"
        using refined(2,3) by (auto simp: passes_left_def min_def)
      from pay_pass [OF step.prems(1) this] have
        "int n1 + ?A * int m * int (passes_left m current ?g) \<le> mo_MaxEvaluations opts"
        using scan_loop_count [OF refined(4)] step.prems(2) A by auto
      moreover have "current \<noteq> []" using len by auto
      ultimately show ?thesis using step.IH [of current ?g n1 "Suc rnd" saw] refined s step.prems by auto
    qed (use scan assms(2) step.prems len in auto)
  qed
qed

section \<open>Properties\<close>

lemma DDMin_facts:
  assumes "DDMin ctx_err input (Some pred) options = Inr r" "normalizeOptions options = Inr opts"
  shows "shrunk pred opts input (mr_Items r)" "int (mr_Evaluations r) \<le> mo_MaxEvaluations opts"
    "mr_Status r = StatusUnchanged \<Longrightarrow> mr_Items r = input"
    "mr_Status r = StatusMinimized \<Longrightarrow> length (mr_Items r) < length input"
    "mr_Status r \<noteq> StatusInconclusive \<Longrightarrow> reproduced pred opts (mr_Items r)"
proof -
  obtain n c where ch: "check pred opts 0 input = (n, c)" by fastforce
  have n: "int n \<le> mo_MaxEvaluations opts"
    using check_count(3) [OF ch] normalizeOptions_valid [OF assms(2)] by (auto simp: valid_options_def)
  obtain n' e where loop: "ddmin_loop pred ctx_err opts 0 input 2 n False = (n', e)" by fastforce
  note safe = ddmin_loop_safe [OF loop n]
  have rep: "c = Inr (True, True) \<Longrightarrow> reproduced pred opts input" using ch by (auto simp: reproduced_def)
  note unfold = DDMin_def evaluation_result_def
  show "shrunk pred opts input (mr_Items r)" "int (mr_Evaluations r) \<le> mo_MaxEvaluations opts"
    "mr_Status r = StatusUnchanged \<Longrightarrow> mr_Items r = input"
    using assms ch loop n safe by (auto simp: unfold shrunk_def split: sum.splits if_splits loop_end.splits)
  show "mr_Status r = StatusMinimized \<Longrightarrow> length (mr_Items r) < length input"
    using assms ch loop safe by (auto simp: unfold shrunk_def split: sum.splits if_splits loop_end.splits)
  show "mr_Status r \<noteq> StatusInconclusive \<Longrightarrow> reproduced pred opts (mr_Items r)"
    using assms ch loop safe rep by (auto simp: unfold shrunk_def split: sum.splits if_splits loop_end.splits)
qed


definition two_needed :: "nat list \<Rightarrow> bool" where
  "two_needed xs \<longleftrightarrow> 3 \<in> set xs \<and> 5 \<in> set xs"

definition once :: "int \<Rightarrow> mm_options" where
  "once budget = \<lparr>mo_Attempts = 1, mo_RequiredPasses = 1, mo_MaxEvaluations = budget\<rparr>"


text \<open>
  C24. For a predicate that always gives the same answer and a budget of
  \<open>Attempts * (n (n+1)^2 + 1)\<close> evaluations for \<open>n\<close> items, \<open>DDMin\<close> terminates with a conclusive result
  that still reproduces and is 1-minimal: no single item can be removed from it.
\<close>

theorem DDMin_one_minimal:
  assumes "valid_options opts" "P input" "\<And>r. ctx_err r = None"
    and "mo_Attempts opts * (int (length input) * (int (length input) + 1) ^ 2 + 1) \<le> mo_MaxEvaluations opts"
  shows "\<exists>r. DDMin ctx_err input (Some (answers P)) opts = Inr r \<and> mr_Status r \<noteq> StatusInconclusive \<and>
    P (mr_Items r) \<and> subseq (mr_Items r) input \<and> one_minimal P (mr_Items r)"
proof -
  let ?A = "mo_Attempts opts" and ?m = "length input"
  have A: "1 \<le> ?A" using assms(1) by (simp add: valid_options_def)
  have "0 \<le> ?A * (int ?m * (int ?m + 1) ^ 2)" using A by simp
  then have "int 0 + ?A \<le> mo_MaxEvaluations opts" using assms(4) by (simp add: algebra_simps)
  from check_answers [OF assms(1) this, of P input] obtain n where
    n: "check (answers P) opts 0 input = (n, Inr (True, True))" "n \<le> nat ?A" using assms(2) by auto
  show ?thesis
  proof (cases "?m < 2")
    case True
    with assms n show ?thesis
      by (auto simp: DDMin_def normalizeOptions_id evaluation_result_def one_minimal_def)
  next
    case False
    have "int (passes_left ?m input 2) \<le> (int ?m + 1) ^ 2"
      using False by (simp add: passes_left_def power2_eq_square algebra_simps)
    then have "?A * int ?m * int (passes_left ?m input 2) \<le> ?A * int ?m * (int ?m + 1) ^ 2"
      using A by (intro mult_left_mono) auto
    moreover have "int n \<le> ?A" using n(2) A by linarith
    ultimately have "int n + ?A * int ?m * int (passes_left ?m input 2) \<le> mo_MaxEvaluations opts"
      using assms(4) by (simp add: algebra_simps)
    from ddmin_loop_answers [where ctx_err = ctx_err, OF assms(1,3) this, where P = P and rnd = 0 and saw = False] assms(2) obtain n' items where
      "ddmin_loop (answers P) ctx_err opts 0 input 2 n False = (n', LoopDone items False)" "P items"
      "subseq items input" "one_minimal P items" by auto
    with False n assms(1) show ?thesis by (auto simp: DDMin_def normalizeOptions_id evaluation_result_def)
  qed
qed

theorem DDMin_one_minimal_witness:
  "\<exists>r. DDMin (\<lambda>_. None) [1, 3, 4, 5] (Some (answers two_needed)) (once 101) = Inr r \<and>
     two_needed (mr_Items r) \<and> one_minimal two_needed (mr_Items r)"
  using DDMin_one_minimal [of "once 101" two_needed "[1, 3, 4, 5]" "\<lambda>_. None"]
  by (auto simp: valid_options_def once_def two_needed_def)

text \<open>Reduction of a JSON object: the map that is returned is the restriction of the input.\<close>

lemma aget_fold_aput:
  "aget (fold (\<lambda>key m. aput key (f key) m) keys m0) k = (if k \<in> set keys then Some (f k) else aget m0 k)"
  by (induction keys arbitrary: m0) auto

lemma aget_retain: "aget (retain input keys) k = (if k \<in> set keys then Some (the (aget input k)) else None)"
  by (simp add: retain_def aget_fold_aput)

lemma ordered_keys_check_None:
  "ordered_keys_check input seen keys = None \<longleftrightarrow>
     (\<forall>k\<in>set keys. ahas input k) \<and> distinct keys \<and> set keys \<inter> set seen = {}"
  by (induction keys arbitrary: seen) auto

lemma check_loop_no_pass:
  "\<not> P c \<Longrightarrow> p < mo_RequiredPasses opts \<Longrightarrow> check_loop (answers P) opts c left p f n \<noteq> (n', Inr (True, x))"
  by (induction left arbitrary: p f n) (auto simp: answers_def Let_def)

lemma reproduced_answers: "valid_options opts \<Longrightarrow> reproduced (answers P) opts c \<Longrightarrow> P c"
  using check_loop_no_pass [of P c 0 opts] by (fastforce simp: reproduced_def check_def valid_options_def)

text \<open>
  Removing keys from a JSON object keeps, for the keys that remain, the values of the input, adds
  nothing, and for a deterministic predicate leaves an object that satisfies it.
\<close>

theorem RemoveJSONObjectKeys_restricts:
  assumes "RemoveJSONObjectKeys ctx_err input orderedKeys (Some (\<lambda>_ obj. Inr (P obj))) options = Inr (out, r)"
  shows "subseq (mr_Items r) orderedKeys \<and> distinct (mr_Items r) \<and>
    (\<forall>k. aget out k = (if k \<in> set (mr_Items r) then aget input k else None)) \<and>
    (mr_Status r \<noteq> StatusInconclusive \<longrightarrow> P out)"
proof -
  let ?P = "\<lambda>keys. P (retain input keys)"
  from assms have d: "DDMin ctx_err orderedKeys (Some (answers ?P)) options = Inr r"
    and out: "out = retain input (mr_Items r)" and keys: "ordered_keys_check input [] orderedKeys = None"
    by (auto simp: RemoveJSONObjectKeys_def bind_res_Inr answers_def)
  from d obtain opts where opts: "normalizeOptions options = Inr opts"
    by (cases "normalizeOptions options") (auto simp: DDMin_def)
  note facts = DDMin_facts [OF d opts]
  have sub: "subseq (mr_Items r) orderedKeys" using facts(1) by (auto simp: shrunk_def)
  then have "distinct (mr_Items r)" "set (mr_Items r) \<subseteq> set orderedKeys"
    using keys by (auto simp: ordered_keys_check_None dest: subseq_distinct subseq_set)
  moreover from this keys have "\<forall>k. aget out k = (if k \<in> set (mr_Items r) then aget input k else None)"
    by (auto simp: out aget_retain ordered_keys_check_None ahas_def)
  moreover have "mr_Status r \<noteq> StatusInconclusive \<longrightarrow> P out"
    using facts(5) reproduced_answers [OF normalizeOptions_valid [OF opts]] by (auto simp: out)
  ultimately show ?thesis using sub by blast
qed

theorem RemoveJSONObjectKeys_restricts_witness:
  "\<exists>out r. RemoveJSONObjectKeys (\<lambda>_. None) [(''a'', 1), (''b'', 2 :: nat)] [''a'', ''b'']
     (Some (\<lambda>_ obj. Inr (ahas obj ''b''))) (once 9) = Inr (out, r) \<and>
     (\<forall>k. aget out k = (if k \<in> set (mr_Items r) then aget [(''a'', 1), (''b'', 2)] k else None))"
proof -
  have "\<exists>out r. RemoveJSONObjectKeys (\<lambda>_. None) [(''a'', 1), (''b'', 2 :: nat)] [''a'', ''b'']
     (Some (\<lambda>_ obj. Inr (ahas obj ''b''))) (once 9) = Inr (out, r)"
    by (simp add: RemoveJSONObjectKeys_def DDMin_def normalizeOptions_def once_def check_def ddmin_loop.simps
        scan_loop.simps complement_def ErrBudgetExhausted_def retain_def aput_def ahas_def aget_def)
  then obtain out r where r: "RemoveJSONObjectKeys (\<lambda>_. None) [(''a'', 1), (''b'', 2 :: nat)] [''a'', ''b'']
     (Some (\<lambda>_ obj. Inr (ahas obj ''b''))) (once 9) = Inr (out, r)" by blast
  with RemoveJSONObjectKeys_restricts [OF r] show ?thesis by blast
qed

end
