(* ===== verification/SchemaResult.thy ===== *)
theory SchemaResult
  imports SchemaPlan
begin

text \<open>
  Package \<open>schema\<close>, \<open>result.go\<close> and \<open>evidence.go\<close>: attempts, assertion results, findings, case
  results and captured evidence, with their validation.  A \<open>float64\<close> is never computed with here and
  is kept as its bit pattern; the \<open>any\<close> fields \<open>Expected\<close> and \<open>Observed\<close> are kept as their JSON text.
\<close>

type_synonym float64 = u64

section \<open>Results\<close>

datatype execution_status = ExecutionPlanned | ExecutionRunning | ExecutionCompleted | ExecutionSkipped
  | ExecutionCancelled | ExecutionErrored | OtherExecution string

datatype verdict = VerdictPass | VerdictFail | VerdictWarn | VerdictInconclusive | OtherVerdict string

text \<open>\<open>OtherReason []\<close> is the empty reason code, an omitted field.\<close>

datatype reason_code = ReasonUnsupportedCapability | ReasonAuthenticationFailed | ReasonPermissionDenied
  | ReasonTransientError | ReasonSpecAmbiguity | ReasonBudgetExhausted | ReasonCostLimit
  | ReasonUnsafeOperation | ReasonHarnessError | ReasonDriverError | ReasonCancelledByUser
  | ReasonFlakyDetected | ReasonInsufficientSamples | ReasonNotObserved | OtherReason string

abbreviation no_reason :: reason_code where "no_reason \<equiv> OtherReason []"

datatype assertion_role = AssertionPrecondition | AssertionNormative | AssertionConsumerProfile
  | AssertionBehavioral | AssertionAdvisory | OtherRole string

datatype fault_family = FaultTransport | FaultWire | FaultProtocol | FaultModel | FaultClient | FaultHarness
  | FaultUnknown | OtherFamily string

record budget_consumption =
  bc_Requests :: i64
  bc_RequestBytes :: i64
  bc_ResponseBytes :: i64
  bc_ArtifactBytes :: i64
  bc_InputTokens :: "i64 option"
  bc_OutputTokens :: "i64 option"
  bc_Unknown :: "string list"

record attempt =
  at_AttemptID :: instance_id
  at_InvocationID :: instance_id
  at_ExecutionStatus :: execution_status
  at_ReasonCode :: reason_code
  at_RequestRef :: "object_ref option"
  at_EvidenceRefs :: "object_ref list"
  at_Driver :: artifact_pin
  at_ClientObservationRefs :: "object_ref list"
  at_ConsumedBudget :: budget_consumption
  at_ResidualLeaseRefs :: "object_ref list"

record statistical_estimate =
  st_SampleCount :: i64
  st_Estimate :: float64
  st_LowerBound :: float64
  st_UpperBound :: float64
  st_Method :: string

record assertion_result =
  ar_AssertionResultID :: instance_id
  ar_AssertionID :: string
  ar_RequirementID :: string
  ar_Role :: assertion_role
  ar_Oracle :: artifact_pin
  ar_Verdict :: verdict
  ar_ReasonCode :: reason_code
  ar_Expected :: string
  ar_Observed :: string
  ar_EvidenceRefs :: "object_ref list"
  ar_Deterministic :: bool
  ar_Statistical :: "statistical_estimate option"
  ar_EvaluatorDigest :: digest

definition assertion_Validate :: "assertion_result \<Rightarrow> err" where
  "assertion_Validate r = first_err
     [id_Validate (ar_AssertionResultID r),
      fail_if (ar_AssertionID r = [] \<or> ar_Role r \<notin> set [AssertionPrecondition, AssertionNormative,
                 AssertionConsumerProfile, AssertionBehavioral, AssertionAdvisory])
        (Err ''assertion ID and valid role are required''),
      fail_if (ar_Role r = AssertionNormative \<and> ar_RequirementID r = [])
        (Err ''normative assertion requires a Requirement ID''),
      fail_if (ar_Verdict r \<notin> set [VerdictPass, VerdictFail, VerdictWarn, VerdictInconclusive])
        (Err ''invalid verdict''),
      wrap_err ''oracle'' (pin_Validate (ar_Oracle r)),
      wrap_err ''evaluator'' (digest_Validate (ar_EvaluatorDigest r)),
      fail_if (ar_EvidenceRefs r = []) (Err ''assertion result requires evidence''),
      fail_if (ar_Deterministic r \<and> ar_Statistical r \<noteq> None \<or> \<not> ar_Deterministic r \<and> ar_Statistical r = None)
        (Err ''statistical metadata must be present exactly for nondeterministic assertions'')]"

record finding =
  fi_FindingID :: instance_id
  fi_AssertionResultID :: instance_id
  fi_FaultDomain :: string
  fi_FaultFamily :: fault_family
  fi_Category :: string
  fi_Severity :: string
  fi_Confidence :: float64
  fi_CalibrationVersion :: string
  fi_AlternativeDomains :: "string list"
  fi_MinimalEvidenceRefs :: "object_ref list"
  fi_ReproRefs :: "object_ref list"
  fi_RequirementID :: string
  fi_AmbiguityID :: string
  fi_RemediationHint :: string
  fi_UpstreamRoutingHint :: string
  fi_FingerprintVersion :: string
  fi_Fingerprint :: digest

record case_result =
  cr_ScenarioID :: string
  cr_PlanDisposition :: disposition
  cr_AttemptIDs :: "instance_id list"
  cr_ExecutionStatus :: execution_status
  cr_Verdict :: "verdict option"
  cr_ReasonCode :: reason_code
  cr_EvidenceRefs :: "object_ref list"
  cr_AssertionResults :: "assertion_result list"
  cr_Findings :: "finding list"
  cr_CandidateMember :: bool
  cr_ApplicableMember :: bool
  cr_ExecutedMember :: bool
  cr_AttemptAggregation :: string

definition case_Validate :: "case_result \<Rightarrow> err" where
  "case_Validate r = first_err
     ([fail_if (cr_ScenarioID r = []) (Err ''scenario ID is required''),
       (if cr_PlanDisposition r = DispositionExecute then first_err
          [fail_if (cr_AttemptIDs r = []) (Err ''executed disposition requires at least one attempt''),
           fail_if (cr_ExecutionStatus r = ExecutionCompleted \<and> cr_Verdict r = None)
             (Err ''completed case requires a verdict''),
           fail_if (cr_ExecutionStatus r \<noteq> ExecutionCompleted \<and> cr_Verdict r \<noteq> None)
             (Err ''non-completed case cannot have a verdict'')]
        else first_err
          [fail_if (cr_AttemptIDs r \<noteq> [] \<or> cr_Verdict r \<noteq> None \<or> cr_EvidenceRefs r \<noteq> [])
             (Err ''skip/not_applicable cannot create target attempts, verdicts, or evidence''),
           fail_if (cr_ReasonCode r = no_reason) (Err ''skip/not_applicable requires a reason code'')])]
      @ map (\<lambda>ref. wrap_err ''case evidence ref'' (ref_Validate ref)) (cr_EvidenceRefs r))"

section \<open>Evidence\<close>

datatype capture_layer = LayerUpstreamApplication | LayerProxyForwarded | LayerClientSDK | LayerSanitizedPersisted
  | OtherLayer string

datatype instrumentation_mode = InstrumentationDirect | InstrumentationProxy | InstrumentationFixture
  | InstrumentationClient | OtherInstrumentation string

datatype direction = DirectionCoreToTarget | DirectionTargetToCore | DirectionProxyToClient
  | DirectionClientToProxy | DirectionDriverToCore | OtherDirection string

record redaction_record =
  rr_RuleID :: string
  rr_FieldClass :: string
  rr_Count :: i64

record evidence_relation =
  rel_Relation :: string
  rel_Target :: object_ref

record evidence =
  ev_meta :: envelope_meta
  ev_EvidenceID :: digest
  ev_RunID :: instance_id
  ev_InvocationID :: instance_id
  ev_AttemptID :: instance_id
  ev_Seq :: u64
  ev_CaptureLayer :: capture_layer
  ev_InstrumentationMode :: instrumentation_mode
  ev_Direction :: direction
  ev_EvidenceKind :: string
  ev_MonotonicOffsetNS :: i64
  ev_ByteOffset :: "i64 option"
  ev_EventOffset :: "i64 option"
  ev_PayloadRef :: "object_ref option"
  ev_PayloadDigest :: "digest option"
  ev_UnavailableReason :: string
  ev_Redactions :: "redaction_record list"
  ev_Relations :: "evidence_relation list"

definition validEvidenceObservationPoint :: "capture_layer \<Rightarrow> instrumentation_mode \<Rightarrow> direction \<Rightarrow> bool" where
  "validEvidenceObservationPoint layer mode dir =
     (if layer = LayerSanitizedPersisted then True
      else case layer of
        LayerUpstreamApplication \<Rightarrow> (mode = InstrumentationDirect \<or> mode = InstrumentationFixture) \<and>
          (dir = DirectionCoreToTarget \<or> dir = DirectionTargetToCore)
      | LayerProxyForwarded \<Rightarrow> mode = InstrumentationProxy \<and>
          (dir = DirectionProxyToClient \<or> dir = DirectionClientToProxy)
      | LayerClientSDK \<Rightarrow> (mode = InstrumentationClient \<or> mode = InstrumentationFixture) \<and>
          dir = DirectionDriverToCore
      | _ \<Rightarrow> False)"

definition payload_check :: "object_ref \<Rightarrow> digest option \<Rightarrow> err" where
  "payload_check ref d = first_err
     [wrap_err ''payload ref'' (ref_Validate ref),
      fail_if (ref_Kind ref \<noteq> ''Payload'' \<or> ref_InstanceID ref \<noteq> [])
        (Err ''payload_ref must be a content-addressed Payload ref''),
      fail_if (d \<noteq> Some (ref_ContentDigest ref)) (Err ''payload digest does not match payload_ref'')]"

definition evidence_Validate :: "(string \<Rightarrow> bool) \<Rightarrow> evidence \<Rightarrow> err" where
  "evidence_Validate json_valid e = first_err
     ([meta_Validate json_valid (ev_meta e),
       fail_if (em_Kind (ev_meta e) \<noteq> ''Evidence'' \<or> ev_EvidenceID e \<noteq> em_ContentDigest (ev_meta e))
         (Err ''evidence identity does not match its envelope'')]
      @ map (\<lambda>i. wrap_err ''ID'' (id_Validate i)) [ev_RunID e, ev_InvocationID e, ev_AttemptID e]
      @ [fail_if (ev_CaptureLayer e \<notin> set [LayerUpstreamApplication, LayerProxyForwarded, LayerClientSDK,
                    LayerSanitizedPersisted]) (Err ''invalid capture layer''),
         fail_if (ev_InstrumentationMode e \<notin> set [InstrumentationDirect, InstrumentationProxy,
                    InstrumentationFixture, InstrumentationClient]) (Err ''invalid instrumentation mode''),
         fail_if (ev_Direction e \<notin> set [DirectionCoreToTarget, DirectionTargetToCore, DirectionProxyToClient,
                    DirectionClientToProxy, DirectionDriverToCore]) (Err ''invalid evidence direction''),
         fail_if (\<not> validEvidenceObservationPoint (ev_CaptureLayer e) (ev_InstrumentationMode e) (ev_Direction e))
           (Err ''instrumentation mode and direction cannot describe capture layer''),
         fail_if (ev_Seq e = 0 \<or> sint (ev_MonotonicOffsetNS e) < 0 \<or> ev_EvidenceKind e = [])
           (Err ''evidence requires a positive sequence, nonnegative offset, and kind''),
         fail_if (case ev_ByteOffset e of None \<Rightarrow> False | Some n \<Rightarrow> sint n < 0)
           (Err ''evidence byte_offset cannot be negative''),
         fail_if (case ev_EventOffset e of None \<Rightarrow> False | Some n \<Rightarrow> sint n < 0)
           (Err ''evidence event_offset cannot be negative''),
         fail_if ((ev_PayloadRef e = None) \<noteq> (ev_PayloadDigest e = None))
           (Err ''payload_ref and payload_digest must be present together''),
         fail_if (ev_PayloadRef e = None \<and> ev_UnavailableReason e = [])
           (Err ''missing payload requires unavailable_reason''),
         fail_if (ev_PayloadRef e \<noteq> None \<and> ev_UnavailableReason e \<noteq> [])
           (Err ''available payload cannot also declare unavailable_reason''),
         (case ev_PayloadRef e of None \<Rightarrow> None | Some ref \<Rightarrow> payload_check ref (ev_PayloadDigest e))]
      @ map (\<lambda>r. fail_if (rr_RuleID r = [] \<or> rr_FieldClass r = [] \<or> sint (rr_Count r) \<le> 0)
               (Err ''redaction records require rule, field class, and positive count'')) (ev_Redactions e)
      @ map (\<lambda>r. first_err [fail_if (blank (rel_Relation r)) (Err ''evidence relation name is required''),
                             wrap_err ''evidence relation target'' (ref_Validate (rel_Target r))]) (ev_Relations e))"

datatype ir_type = IRMessage | IRContentPart | IRToolCall | IRToolResult | IRReasoningArtifact | IRUsage | IRError
  | IRLifecycleEvent | IRProviderExtension | OtherIR string

record loss_marker =
  lm_TransformID :: string
  lm_Reason :: string

record ir_item =
  ir_ItemID :: string
  ir_IRType :: ir_type
  ir_SourceProtocol :: string
  ir_SourceType :: string
  ir_InteractionID :: string
  ir_ParentItemID :: string
  ir_CallID :: string
  ir_NativeValue :: string
  ir_NormalizedValue :: string
  ir_EvidenceRefs :: "object_ref list"
  ir_Extension :: string
  ir_TransformID :: string
  ir_TransformVersion :: string
  ir_LossMarkers :: "loss_marker list"
  ir_Unavailable :: "string list"

definition ir_Validate :: "(string \<Rightarrow> bool) \<Rightarrow> ir_item \<Rightarrow> err" where
  "ir_Validate json_valid i = first_err
     ([fail_if (ir_ItemID i = [] \<or> ir_InteractionID i = [] \<or> ir_SourceProtocol i = [] \<or> ir_SourceType i = [])
         (Err ''IR item identity and source fields are required''),
       fail_if (ir_IRType i \<notin> set [IRMessage, IRContentPart, IRToolCall, IRToolResult, IRReasoningArtifact,
                  IRUsage, IRError, IRLifecycleEvent, IRProviderExtension]) (Err ''invalid IR type''),
       fail_if (ir_NativeValue i = [] \<or> \<not> json_valid (ir_NativeValue i))
         (Err ''IR native_value must be valid typed JSON''),
       fail_if (ir_EvidenceRefs i = [] \<or> ir_TransformID i = [] \<or> ir_TransformVersion i = [])
         (Err ''IR item requires evidence and normalization identity'')]
      @ map ref_Validate (ir_EvidenceRefs i)
      @ [fail_if (ir_IRType i = IRProviderExtension \<and> ir_Extension i = [])
           (Err ''provider extension item requires a namespace'')])"

end
