(* ===== verification/Attribution.thy ===== *)
theory Attribution
  imports SchemaResult
begin

text \<open>
  Package \<open>attribution\<close>: bounded differential evidence is mapped to a fault domain.  An observation
  that was not made is \<open>None\<close>.  The confidence constants are kept in hundredths.  \<open>canon\<close> is
  \<open>CanonicalDigest\<close> on the fingerprint's fields.
\<close>

datatype domain = DomainTransport | DomainAuth | DomainRequestMapping | DomainProtocolSerializer
  | DomainStreamStateMachine | DomainToolParser | DomainReasoningParser | DomainChatTemplate
  | DomainModelBehavior | DomainSDKParser | DomainAgentOrchestration | DomainGatewayTranslation
  | DomainRateLimitTransient | DomainHarness | DomainSpecAmbiguity | DomainUnknown | OtherDomain string

definition families :: "(domain, fault_family) gomap" where
  "families =
     [(DomainTransport, FaultTransport), (DomainAuth, FaultTransport), (DomainRateLimitTransient, FaultTransport),
      (DomainRequestMapping, FaultWire), (DomainProtocolSerializer, FaultWire),
      (DomainStreamStateMachine, FaultWire), (DomainGatewayTranslation, FaultWire),
      (DomainToolParser, FaultProtocol), (DomainReasoningParser, FaultProtocol),
      (DomainChatTemplate, FaultModel), (DomainModelBehavior, FaultModel),
      (DomainSDKParser, FaultClient), (DomainAgentOrchestration, FaultClient),
      (DomainHarness, FaultHarness), (DomainSpecAmbiguity, FaultUnknown), (DomainUnknown, FaultUnknown)]"

definition Family :: "domain \<Rightarrow> fault_family res" where
  "Family d = (case aget families d of None \<Rightarrow> Inl (Err ''unknown fault domain'') | Some f \<Rightarrow> Inr f)"

definition ValidatePair :: "domain \<Rightarrow> fault_family \<Rightarrow> err" where
  "ValidatePair d f = (case Family d of Inl e \<Rightarrow> Some e
     | Inr expected \<Rightarrow> fail_if (expected \<noteq> f) (Err ''fault domain belongs to another family''))"

record fault_evidence =
  fe_TransportReached :: "bool option"
  fe_AuthenticationAccepted :: "bool option"
  fe_RawWireValid :: "bool option"
  fe_ReferenceAccepts :: "bool option"
  fe_SDKAccepts :: "bool option"
  fe_DirectAccepts :: "bool option"
  fe_GatewayAccepts :: "bool option"
  fe_StreamAccepts :: "bool option"
  fe_NonStreamAccepts :: "bool option"
  fe_ToolSyntaxValid :: "bool option"
  fe_ReasoningSyntaxValid :: "bool option"
  fe_HarnessHealthy :: "bool option"
  fe_TransientStatus :: "bool option"
  fe_SpecUnambiguous :: "bool option"

record fault_result =
  fr_Domain :: domain
  fr_Family :: fault_family
  fr_Confidence :: nat
  fr_Alternatives :: "domain list"
  fr_Evidence :: "string list"
  fr_Taxonomy :: string
  fr_Calibration :: string

definition isTrue :: "bool option \<Rightarrow> bool" where "isTrue v \<longleftrightarrow> v = Some True"
definition isFalse :: "bool option \<Rightarrow> bool" where "isFalse v \<longleftrightarrow> v = Some False"

definition classify_rule :: "fault_evidence \<Rightarrow> domain \<times> nat \<times> string \<times> domain list" where
  "classify_rule e =
     (if isFalse (fe_HarnessHealthy e) then (DomainHarness, 100, ''harness health precondition failed'', [])
      else if isFalse (fe_SpecUnambiguous e) then
        (DomainSpecAmbiguity, 99, ''normative source has unresolved ambiguity'', [])
      else if isFalse (fe_TransportReached e) then (DomainTransport, 95, ''target transport was not reached'', [])
      else if isTrue (fe_TransportReached e) \<and> isFalse (fe_AuthenticationAccepted e) then
        (DomainAuth, 95, ''transport succeeded and authentication was rejected'', [])
      else if isTrue (fe_TransientStatus e) then
        (DomainRateLimitTransient, 90, ''bounded observation reported a rate-limit or transient service status'', [])
      else if isTrue (fe_RawWireValid e) \<and> isFalse (fe_SDKAccepts e) then
        (DomainSDKParser, 90, ''the same captured wire is valid to the raw decoder and rejected by the SDK'', [])
      else if isTrue (fe_DirectAccepts e) \<and> isFalse (fe_GatewayAccepts e) then
        (DomainGatewayTranslation, 90,
          ''direct path accepts the same semantic exchange while the gateway path rejects it'', [])
      else if isTrue (fe_NonStreamAccepts e) \<and> isFalse (fe_StreamAccepts e) then
        (DomainStreamStateMachine, 88, ''non-stream control passes while stream state-machine control fails'', [])
      else if isFalse (fe_RawWireValid e) \<and> isTrue (fe_ReferenceAccepts e) then
        (DomainProtocolSerializer, 85,
          ''reference control accepts the scenario while captured target wire violates the checked structure'', [])
      else if isFalse (fe_ToolSyntaxValid e) then
        (DomainToolParser, 80, ''tool syntax is invalid at the protocol semantic layer'', [DomainProtocolSerializer])
      else if isFalse (fe_ReasoningSyntaxValid e) then
        (DomainReasoningParser, 80, ''reasoning syntax is invalid at the protocol semantic layer'',
          [DomainProtocolSerializer])
      else (DomainUnknown, 25, ''available evidence does not isolate a product layer'', []))"

text \<open>\<open>family, _ := Family(domain)\<close>: an unknown domain would give the empty family.\<close>

definition Classify :: "fault_evidence \<Rightarrow> fault_result" where
  "Classify e =
     (case classify_rule e of (domain, confidence, reason, alternatives) \<Rightarrow>
        \<lparr>fr_Domain = domain, fr_Family = (case Family domain of Inl _ \<Rightarrow> OtherFamily [] | Inr f \<Rightarrow> f),
         fr_Confidence = confidence, fr_Alternatives = alternatives, fr_Evidence = [reason],
         fr_Taxonomy = ''fault-taxonomy-v1'', fr_Calibration = ''rules-v1''\<rparr>)"

definition Fingerprint ::
  "(string \<times> string \<times> string \<times> string \<times> 'j \<times> 'j \<Rightarrow> digest res) \<Rightarrow> string \<Rightarrow> string \<Rightarrow> string \<Rightarrow> 'j \<Rightarrow> 'j \<Rightarrow> digest res" where
  "Fingerprint canon scenarioID assertionID category expected observed =
     (if blank scenarioID \<or> blank assertionID \<or> blank category
      then Inl (Err ''scenario, assertion, and category are required'')
      else canon (''failure-fingerprint-v1'', scenarioID, assertionID, category, expected, observed))"

section \<open>Properties\<close>

text \<open>One record of evidence extends another when it only adds observations.\<close>

definition extends :: "bool option \<Rightarrow> bool option \<Rightarrow> bool" where
  "extends a b \<longleftrightarrow> a = None \<or> a = b"

definition evidence_extends :: "fault_evidence \<Rightarrow> fault_evidence \<Rightarrow> bool" where
  "evidence_extends e e' \<longleftrightarrow>
     extends (fe_TransportReached e) (fe_TransportReached e') \<and>
     extends (fe_AuthenticationAccepted e) (fe_AuthenticationAccepted e') \<and>
     extends (fe_RawWireValid e) (fe_RawWireValid e') \<and> extends (fe_ReferenceAccepts e) (fe_ReferenceAccepts e') \<and>
     extends (fe_SDKAccepts e) (fe_SDKAccepts e') \<and> extends (fe_DirectAccepts e) (fe_DirectAccepts e') \<and>
     extends (fe_GatewayAccepts e) (fe_GatewayAccepts e') \<and> extends (fe_StreamAccepts e) (fe_StreamAccepts e') \<and>
     extends (fe_NonStreamAccepts e) (fe_NonStreamAccepts e') \<and>
     extends (fe_ToolSyntaxValid e) (fe_ToolSyntaxValid e') \<and>
     extends (fe_ReasoningSyntaxValid e) (fe_ReasoningSyntaxValid e') \<and>
     extends (fe_HarnessHealthy e) (fe_HarnessHealthy e') \<and> extends (fe_TransientStatus e) (fe_TransientStatus e') \<and>
     extends (fe_SpecUnambiguous e) (fe_SpecUnambiguous e')"

text \<open>The position of a domain in the order in which the rules are tried.\<close>

definition rule_order :: "domain list" where
  "rule_order = [DomainHarness, DomainSpecAmbiguity, DomainTransport, DomainAuth, DomainRateLimitTransient,
     DomainSDKParser, DomainGatewayTranslation, DomainStreamStateMachine, DomainProtocolSerializer,
     DomainToolParser, DomainReasoningParser, DomainUnknown]"

fun position :: "'a \<Rightarrow> 'a list \<Rightarrow> nat" where
  "position x [] = 0"
| "position x (y # ys) = (if x = y then 0 else Suc (position x ys))"

lemma extends_keeps: "extends a b \<Longrightarrow> isTrue a \<Longrightarrow> isTrue b" "extends a b \<Longrightarrow> isFalse a \<Longrightarrow> isFalse b"
  by (auto simp: extends_def isTrue_def isFalse_def)

lemma Classify_domain: "fr_Domain (Classify e) = fst (classify_rule e)"
  by (simp add: Classify_def split: prod.splits)

text \<open>The rules as a list of guarded domains: the classifier returns the first whose guard holds.\<close>

definition rule_guards :: "fault_evidence \<Rightarrow> bool list" where
  "rule_guards e =
     [isFalse (fe_HarnessHealthy e), isFalse (fe_SpecUnambiguous e), isFalse (fe_TransportReached e),
      isTrue (fe_TransportReached e) \<and> isFalse (fe_AuthenticationAccepted e), isTrue (fe_TransientStatus e),
      isTrue (fe_RawWireValid e) \<and> isFalse (fe_SDKAccepts e),
      isTrue (fe_DirectAccepts e) \<and> isFalse (fe_GatewayAccepts e),
      isTrue (fe_NonStreamAccepts e) \<and> isFalse (fe_StreamAccepts e),
      isFalse (fe_RawWireValid e) \<and> isTrue (fe_ReferenceAccepts e), isFalse (fe_ToolSyntaxValid e),
      isFalse (fe_ReasoningSyntaxValid e)]"

lemma position_rule: "position (fst (classify_rule e)) rule_order = length (takeWhile Not (rule_guards e))"
  by (simp add: classify_rule_def rule_order_def rule_guards_def)

lemma rule_guards_mono: "evidence_extends e e' \<Longrightarrow> list_all2 (\<longrightarrow>) (rule_guards e) (rule_guards e')"
  by (auto simp: rule_guards_def evidence_extends_def intro: extends_keeps)

lemma takeWhile_mono: "list_all2 (\<longrightarrow>) bs cs \<Longrightarrow> length (takeWhile Not cs) \<le> length (takeWhile Not bs)"
  by (induction rule: list_all2_induct) auto

text \<open>
  C25. Attribution is conservative: with no observations the domain is unknown, every verdict carries
  the family that the taxonomy pairs with its domain, and an additional observation never moves the
  verdict to a less specific precondition: it stays or moves to a rule that is tried earlier.
\<close>

theorem attribution_conservative:
  assumes "evidence_extends e e'"
  shows "position (fr_Domain (Classify e')) rule_order \<le> position (fr_Domain (Classify e)) rule_order \<and>
    ValidatePair (fr_Domain (Classify e)) (fr_Family (Classify e)) = None \<and>
    fr_Domain (Classify (fault_evidence.make None None None None None None None None None None None None None None))
      = DomainUnknown"
proof -
  have "ValidatePair (fr_Domain (Classify e)) (fr_Family (Classify e)) = None"
    by (simp add: Classify_def classify_rule_def ValidatePair_def Family_def families_def aget_def)
  moreover have "fr_Domain (Classify (fault_evidence.make None None None None None None None None None None None None None None))
      = DomainUnknown"
    by (simp add: Classify_domain classify_rule_def fault_evidence.defs isTrue_def isFalse_def)
  ultimately show ?thesis
    using takeWhile_mono [OF rule_guards_mono [OF assms]] by (simp add: Classify_domain position_rule)
qed

definition no_evidence :: fault_evidence where
  "no_evidence = fault_evidence.make None None None None None None None None None None None None None None"

theorem attribution_conservative_witness:
  "position (fr_Domain (Classify (no_evidence\<lparr>fe_RawWireValid := Some True, fe_SDKAccepts := Some False\<rparr>))) rule_order
     \<le> position (fr_Domain (Classify (no_evidence\<lparr>fe_RawWireValid := Some True\<rparr>))) rule_order"
  using attribution_conservative [of "no_evidence\<lparr>fe_RawWireValid := Some True\<rparr>"
      "no_evidence\<lparr>fe_RawWireValid := Some True, fe_SDKAccepts := Some False\<rparr>"]
  by (simp add: evidence_extends_def extends_def no_evidence_def fault_evidence.defs)

end
