(* ===== verification/Planner.thy ===== *)
theory Planner
  imports SchemaResult
begin

text \<open>
  Package \<open>planner\<close>: the offline intent plan and its resolution against observed capabilities.  The
  functions that the code takes from other packages are the fields of a \<open>planner_env\<close>: the canonical
  digest of a list of identifiers and of each projection, \<open>json.Valid\<close> and \<open>url.Parse\<close>.  A projection
  is the record of the fields that are hashed.
\<close>

section \<open>Requests and projections\<close>

record scenario_candidate =
  sc_ID :: string
  sc_Capabilities :: "string list"
  sc_Driver :: artifact_pin
  sc_DependsOn :: "string list"

record intent_request =
  iq_ID :: instance_id
  iq_CreatedAt :: time
  iq_Producer :: producer
  iq_ConfigDigest :: digest
  iq_Target :: target_intent
  iq_Selectors :: "artifact_selector list"
  iq_SupportManifestDigest :: digest
  iq_Probe :: probe_policy
  iq_Scenarios :: "scenario_candidate list"
  iq_Budget :: budget_policy
  iq_Evidence :: evidence_policy
  iq_Safety :: safety_policy
  iq_Author :: string
  iq_ApprovalRequirements :: "string list"

record intent_projection =
  jp_SchemaVersion :: string
  jp_Kind :: string
  jp_IntentPlanID :: instance_id
  jp_ConfigDigest :: digest
  jp_Target :: target_intent
  jp_Selectors :: "artifact_selector list"
  jp_SupportManifestDigest :: digest
  jp_CandidateDenominatorDigest :: digest
  jp_Probe :: probe_policy
  jp_ConditionalBranches :: "conditional_branch list"
  jp_Budget :: budget_policy
  jp_Evidence :: evidence_policy
  jp_Safety :: safety_policy
  jp_Author :: string
  jp_ApprovalRequirements :: "string list"
  jp_Producer :: producer
  jp_CreatedAt :: time

record resolution_request =
  rq_ID :: instance_id
  rq_CreatedAt :: time
  rq_Producer :: producer
  rq_Resolver :: artifact_pin
  rq_Observations :: "capability_observation list"
  rq_SupportLockDigest :: digest
  rq_Artifacts :: "artifact_pin list"
  rq_Target :: target_resolution
  rq_Scenarios :: "scenario_candidate list"
  rq_Runtime :: runtime_policy
  rq_Finalizers :: "finalizer_plan list"

record resolved_projection =
  sj_SchemaVersion :: string
  sj_Kind :: string
  sj_ResolvedPlanID :: instance_id
  sj_IntentPlanRef :: object_ref
  sj_Resolver :: artifact_pin
  sj_CapabilityObservationRefs :: "object_ref list"
  sj_SupportLockDigest :: digest
  sj_Artifacts :: "artifact_pin list"
  sj_Target :: target_resolution
  sj_Scenarios :: "scenario_decision list"
  sj_DenominatorDigest :: digest
  sj_Budget :: budget_policy
  sj_Runtime :: runtime_policy
  sj_Finalizers :: "finalizer_plan list"
  sj_Producer :: producer
  sj_CreatedAt :: time

record planner_env =
  pe_ids :: "string list \<Rightarrow> digest res"
  pe_intent :: "intent_projection \<Rightarrow> digest res"
  pe_resolved :: "resolved_projection \<Rightarrow> digest res"
  pe_json_valid :: "string \<Rightarrow> bool"
  pe_url_parse :: "string \<Rightarrow> parsed_url option"

definition IntentSchema :: string where "IntentSchema = ''urn:agentapi-doctor:intent-plan:v1alpha1''"
definition ResolvedSchema :: string where "ResolvedSchema = ''urn:agentapi-doctor:resolved-run-plan:v1alpha1''"

section \<open>BuildIntent\<close>

definition append_branch :: "string \<Rightarrow> string \<Rightarrow> (string, string list) gomap \<Rightarrow> (string, string list) gomap" where
  "append_branch capability i branches =
     aput capability ((case aget branches capability of None \<Rightarrow> [] | Some xs \<Rightarrow> xs) @ [i]) branches"

text \<open>The loop over the candidates: the branches and the identifiers collected so far.\<close>

fun collect_branches ::
  "(string, string list) gomap \<Rightarrow> string list \<Rightarrow> scenario_candidate list \<Rightarrow> ((string, string list) gomap \<times> string list) res" where
  "collect_branches branches ids [] = Inr (branches, ids)"
| "collect_branches branches ids (s # ss) =
     (if sc_ID s = [] then Inl (Err ''scenario ID is required'')
      else if sc_ID s \<in> set ids then Inl (Err ''duplicate scenario'')
      else collect_branches (fold (\<lambda>c m. append_branch c (sc_ID s) m) (sc_Capabilities s) branches)
             (ids @ [sc_ID s]) ss)"

definition conditional_branches :: "(string, string list) gomap \<Rightarrow> conditional_branch list" where
  "conditional_branches branches =
     map (\<lambda>c. \<lparr>cb_Capability = c, cb_Scenarios = sort_strings (case aget branches c of None \<Rightarrow> [] | Some xs \<Rightarrow> xs)\<rparr>)
       (sort_strings (akeys branches))"

definition intent_projection_of :: "intent_request \<Rightarrow> digest \<Rightarrow> conditional_branch list \<Rightarrow> intent_projection" where
  "intent_projection_of q denominator conditional =
     \<lparr>jp_SchemaVersion = IntentSchema, jp_Kind = ''IntentPlan'', jp_IntentPlanID = iq_ID q,
      jp_ConfigDigest = iq_ConfigDigest q, jp_Target = iq_Target q, jp_Selectors = iq_Selectors q,
      jp_SupportManifestDigest = iq_SupportManifestDigest q, jp_CandidateDenominatorDigest = denominator,
      jp_Probe = iq_Probe q, jp_ConditionalBranches = conditional, jp_Budget = iq_Budget q,
      jp_Evidence = iq_Evidence q, jp_Safety = iq_Safety q, jp_Author = iq_Author q,
      jp_ApprovalRequirements = iq_ApprovalRequirements q, jp_Producer = iq_Producer q,
      jp_CreatedAt = iq_CreatedAt q\<rparr>"

definition intent_plan_of :: "intent_request \<Rightarrow> digest \<Rightarrow> conditional_branch list \<Rightarrow> envelope_meta \<Rightarrow> intent_plan" where
  "intent_plan_of q denominator conditional meta =
     \<lparr>ip_meta = meta, ip_IntentPlanID = iq_ID q, ip_ConfigDigest = iq_ConfigDigest q, ip_Target = iq_Target q,
      ip_Selectors = iq_Selectors q, ip_SupportManifestDigest = iq_SupportManifestDigest q,
      ip_CandidateDenominatorDigest = denominator, ip_Probe = iq_Probe q, ip_ConditionalBranches = conditional,
      ip_Budget = iq_Budget q, ip_Evidence = iq_Evidence q, ip_Safety = iq_Safety q, ip_Author = iq_Author q,
      ip_ApprovalRequirements = iq_ApprovalRequirements q\<rparr>"

definition BuildIntent :: "planner_env \<Rightarrow> intent_request \<Rightarrow> intent_plan res" where
  "BuildIntent E q =
     (if iq_Scenarios q = [] then Inl (Err ''at least one scenario candidate is required'')
      else bind_res (collect_branches [] [] (iq_Scenarios q)) (\<lambda>(branches, candidateIDs).
        bind_res (pe_ids E (sort_strings candidateIDs)) (\<lambda>denominator.
          let conditional = conditional_branches branches in
          bind_res (SealMeta (pe_intent E) IntentSchema ''IntentPlan'' (iq_ID q) (iq_Producer q) (iq_CreatedAt q)
                     (intent_projection_of q denominator conditional)) (\<lambda>meta.
            let plan = intent_plan_of q denominator conditional meta in
            guard_res (intent_Validate (pe_json_valid E) (pe_url_parse E) plan) (Inr plan)))))"

section \<open>Resolve\<close>

definition allowed_branch :: "conditional_branch \<Rightarrow> (string, string list) gomap \<Rightarrow> (string, string list) gomap" where
  "allowed_branch b allowed = aput (cb_Capability b) (cb_Scenarios b) allowed"

text \<open>\<open>allowedBranches\<close>: the inner set of scenarios is kept as a list.\<close>

definition allowedBranches :: "intent_plan \<Rightarrow> (string, string list) gomap" where
  "allowedBranches intent = fold allowed_branch (ip_ConditionalBranches intent) []"

definition authorized :: "(string, string list) gomap \<Rightarrow> string \<Rightarrow> string \<Rightarrow> bool" where
  "authorized allowed capability i = (case aget allowed capability of None \<Rightarrow> False | Some ss \<Rightarrow> i \<in> set ss)"

fun collect_observation ::
  "(string, capability_status) gomap \<Rightarrow> capability_fact list \<Rightarrow> (string, capability_status) gomap res" where
  "collect_observation facts [] = Inr facts"
| "collect_observation facts (f # fs) =
     (case aget facts (cf_Capability f) of
        Some existing \<Rightarrow>
          if existing \<noteq> cf_Status f then Inl (Err ''conflicting capability facts'')
          else collect_observation (aput (cf_Capability f) (cf_Status f) facts) fs
      | None \<Rightarrow> collect_observation (aput (cf_Capability f) (cf_Status f) facts) fs)"

fun collect_observations ::
  "object_ref \<Rightarrow> (string, capability_status) gomap \<Rightarrow> object_ref list \<Rightarrow> capability_observation list \<Rightarrow>
   ((string, capability_status) gomap \<times> object_ref list) res" where
  "collect_observations intent_ref facts refs [] = Inr (facts, refs)"
| "collect_observations intent_ref facts refs (obs # os) =
     (if co_IntentPlanRef obs \<noteq> intent_ref
      then Inl (Err ''capability observation is bound to a different IntentPlan'')
      else bind_res (collect_observation facts (co_Facts obs)) (\<lambda>facts'.
             collect_observations intent_ref facts' (refs @ [em_ObjectRef (co_meta obs)]) os))"

definition collectFacts ::
  "intent_plan \<Rightarrow> capability_observation list \<Rightarrow> ((string, capability_status) gomap \<times> object_ref list) res" where
  "collectFacts intent observations = collect_observations (em_ObjectRef (ip_meta intent)) [] [] observations"

text \<open>\<open>facts[capability]\<close> reads the empty status for a capability that was not observed.\<close>

definition fact_of :: "(string, capability_status) gomap \<Rightarrow> string \<Rightarrow> capability_status" where
  "fact_of facts capability = (case aget facts capability of None \<Rightarrow> OtherCapability [] | Some s \<Rightarrow> s)"

text \<open>The inner loop over the capabilities of one candidate.\<close>

fun decide ::
  "(string, string list) gomap \<Rightarrow> (string, capability_status) gomap \<Rightarrow> string \<Rightarrow> disposition \<times> string \<Rightarrow> string list \<Rightarrow>
   (disposition \<times> string) res" where
  "decide allowed facts i acc [] = Inr acc"
| "decide allowed facts i acc (c # cs) =
     (if \<not> authorized allowed c i then Inl (Err ''scenario capability branch was not authorized by IntentPlan'')
      else decide allowed facts i
        (case fact_of facts c of
           CapabilityUnsupported \<Rightarrow> (DispositionNotApplicable, ''unsupported_capability'')
         | CapabilityUnknown \<Rightarrow> (if fst acc = DispositionExecute then (DispositionSkip, ''not_observed'') else acc)
         | OtherCapability s \<Rightarrow>
             (if s = [] \<and> fst acc = DispositionExecute then (DispositionSkip, ''not_observed'') else acc)
         | CapabilitySupported \<Rightarrow> acc) cs)"

fun resolve_decisions ::
  "(string, string list) gomap \<Rightarrow> (string, capability_status) gomap \<Rightarrow> scenario_candidate list \<Rightarrow>
   (scenario_decision list \<times> string list) res" where
  "resolve_decisions allowed facts [] = Inr ([], [])"
| "resolve_decisions allowed facts (s # ss) =
     bind_res (decide allowed facts (sc_ID s) (DispositionExecute, []) (sc_Capabilities s)) (\<lambda>(disposition, reason).
       bind_res (resolve_decisions allowed facts ss) (\<lambda>(decisions, applicableIDs).
         Inr (\<lparr>sd_ScenarioID = sc_ID s, sd_Disposition = disposition, sd_ReasonCode = reason,
               sd_Driver = sc_Driver s, sd_DependsOn = sc_DependsOn s\<rparr> # decisions,
              (if disposition \<noteq> DispositionNotApplicable then [sc_ID s] else []) @ applicableIDs)))"

definition resolved_plan_of ::
  "intent_plan \<Rightarrow> resolution_request \<Rightarrow> object_ref list \<Rightarrow> scenario_decision list \<Rightarrow> digest \<Rightarrow> envelope_meta \<Rightarrow> resolved_plan" where
  "resolved_plan_of intent q refs decisions denominator meta =
     \<lparr>rp_meta = meta, rp_ResolvedPlanID = rq_ID q, rp_IntentPlanRef = em_ObjectRef (ip_meta intent),
      rp_Resolver = rq_Resolver q, rp_CapabilityObservationRefs = refs,
      rp_SupportLockDigest = rq_SupportLockDigest q, rp_Artifacts = rq_Artifacts q, rp_Target = rq_Target q,
      rp_Scenarios = decisions, rp_DenominatorDigest = denominator, rp_Budget = ip_Budget intent,
      rp_Runtime = rq_Runtime q, rp_Finalizers = rq_Finalizers q\<rparr>"

definition resolved_projection_of ::
  "intent_plan \<Rightarrow> resolution_request \<Rightarrow> object_ref list \<Rightarrow> scenario_decision list \<Rightarrow> digest \<Rightarrow> resolved_projection" where
  "resolved_projection_of intent q refs decisions denominator =
     \<lparr>sj_SchemaVersion = ResolvedSchema, sj_Kind = ''ResolvedRunPlan'', sj_ResolvedPlanID = rq_ID q,
      sj_IntentPlanRef = em_ObjectRef (ip_meta intent), sj_Resolver = rq_Resolver q,
      sj_CapabilityObservationRefs = refs, sj_SupportLockDigest = rq_SupportLockDigest q,
      sj_Artifacts = rq_Artifacts q, sj_Target = rq_Target q, sj_Scenarios = decisions,
      sj_DenominatorDigest = denominator, sj_Budget = ip_Budget intent, sj_Runtime = rq_Runtime q,
      sj_Finalizers = rq_Finalizers q, sj_Producer = rq_Producer q, sj_CreatedAt = rq_CreatedAt q\<rparr>"

definition Resolve :: "planner_env \<Rightarrow> intent_plan \<Rightarrow> resolution_request \<Rightarrow> resolved_plan res" where
  "Resolve E intent q =
     guard_res (wrap_err ''intent plan'' (intent_Validate (pe_json_valid E) (pe_url_parse E) intent))
       (bind_res (collectFacts intent (rq_Observations q)) (\<lambda>(facts, refs).
         bind_res (resolve_decisions (allowedBranches intent) facts (rq_Scenarios q)) (\<lambda>(decisions, applicableIDs).
           bind_res (pe_ids E (sort_strings applicableIDs)) (\<lambda>denominator.
             bind_res (SealMeta (pe_resolved E) ResolvedSchema ''ResolvedRunPlan'' (rq_ID q) (rq_Producer q)
                        (rq_CreatedAt q) (resolved_projection_of intent q refs decisions denominator)) (\<lambda>meta.
               let plan = resolved_plan_of intent q refs decisions denominator meta in
               guard_res (resolved_Validate (pe_json_valid E) plan) (Inr plan))))))"

section \<open>Branches\<close>

definition branch_of :: "(string, string list) gomap \<Rightarrow> string \<Rightarrow> string list" where
  "branch_of m c = (case aget m c of None \<Rightarrow> [] | Some xs \<Rightarrow> xs)"

lemma append_branch_simps [simp]:
  "branch_of (append_branch c i m) c' = branch_of m c' @ (if c' = c then [i] else [])"
  "ahas (append_branch c i m) c' \<longleftrightarrow> c' = c \<or> ahas m c'"
  "map_ok m \<Longrightarrow> map_ok (append_branch c i m)"
  by (simp_all add: append_branch_def branch_of_def)

lemma fold_append_branch:
  "set (branch_of (fold (\<lambda>c m. append_branch c i m) cs m) c) = set (branch_of m c) \<union> (if c \<in> set cs then {i} else {})"
  "ahas (fold (\<lambda>c m. append_branch c i m) cs m) c \<longleftrightarrow> ahas m c \<or> c \<in> set cs"
  "map_ok m \<Longrightarrow> map_ok (fold (\<lambda>c m. append_branch c i m) cs m)"
  by (induction cs arbitrary: m) auto

lemma collect_branches_Inr:
  "collect_branches m ids ss = Inr (m', ids') \<Longrightarrow> map_ok m \<Longrightarrow>
     ids' = ids @ map sc_ID ss \<and> (distinct ids \<longrightarrow> distinct ids') \<and> map_ok m' \<and>
     (\<forall>c. set (branch_of m' c) = set (branch_of m c) \<union> {sc_ID s |s. s \<in> set ss \<and> c \<in> set (sc_Capabilities s)}) \<and>
     (\<forall>c. ahas m' c \<longleftrightarrow> ahas m c \<or> (\<exists>s\<in>set ss. c \<in> set (sc_Capabilities s)))"
proof (induction m ids ss rule: collect_branches.induct)
  case (2 m ids s ss)
  let ?m = "fold (\<lambda>c m. append_branch c (sc_ID s) m) (sc_Capabilities s) m"
  from 2(2) have "sc_ID s \<noteq> []" "sc_ID s \<notin> set ids" "collect_branches ?m (ids @ [sc_ID s]) ss = Inr (m', ids')"
    by (auto split: if_splits)
  from 2(1) [OF this fold_append_branch(3) [OF 2(3)]] \<open>sc_ID s \<notin> set ids\<close> show ?case
    by (auto simp: fold_append_branch split: if_splits)
qed auto

lemma allowed_fold_aget:
  "distinct (map cb_Capability bs) \<Longrightarrow>
     aget (fold allowed_branch bs []) c = Some ss \<longleftrightarrow> (\<exists>b\<in>set bs. cb_Capability b = c \<and> cb_Scenarios b = ss)"
  by (induction bs rule: rev_induct) (auto simp: allowed_branch_def, metis imageI)

lemma authorized_iff:
  assumes "intent_Validate jv up intent = None"
  shows "authorized (allowedBranches intent) c i \<longleftrightarrow>
    (\<exists>b\<in>set (ip_ConditionalBranches intent). cb_Capability b = c \<and> i \<in> set (cb_Scenarios b))"
proof -
  have "distinct (map cb_Capability (ip_ConditionalBranches intent))"
    using assms by (auto simp: intent_Validate_def validateIntentBranches_None)
  from allowed_fold_aget [OF this, of c]
  have "(\<exists>ss. aget (allowedBranches intent) c = Some ss \<and> i \<in> set ss) \<longleftrightarrow>
      (\<exists>b\<in>set (ip_ConditionalBranches intent). cb_Capability b = c \<and> i \<in> set (cb_Scenarios b))"
    by (auto simp: allowedBranches_def)
  then show ?thesis by (auto simp: authorized_def split: option.splits)
qed

lemma conditional_branches_mem:
  "b \<in> set (conditional_branches m) \<longleftrightarrow>
     ahas m (cb_Capability b) \<and> cb_Scenarios b = sort_strings (branch_of m (cb_Capability b))"
  by (cases b) (auto simp: conditional_branches_def branch_of_def sort_strings_def set_akeys)

lemma sorted_branches:
  "map_ok m \<Longrightarrow> sorted (map cb_Capability (conditional_branches m)) \<and>
     distinct (map cb_Capability (conditional_branches m))"
  by (simp add: conditional_branches_def sort_strings_def map_ok_def comp_def)

lemma BuildIntent_Inr:
  assumes "BuildIntent E q = Inr plan"
  obtains m where "map_ok m"
    "\<And>c. set (branch_of m c) = {sc_ID s |s. s \<in> set (iq_Scenarios q) \<and> c \<in> set (sc_Capabilities s)}"
    "\<And>c. ahas m c \<longleftrightarrow> (\<exists>s\<in>set (iq_Scenarios q). c \<in> set (sc_Capabilities s))"
    "distinct (map sc_ID (iq_Scenarios q))"
    "pe_ids E (sort_strings (map sc_ID (iq_Scenarios q))) = Inr (ip_CandidateDenominatorDigest plan)"
    "ip_ConditionalBranches plan = conditional_branches m"
    "intent_Validate (pe_json_valid E) (pe_url_parse E) plan = None"
proof -
  from assms obtain m ids d meta where c: "collect_branches [] [] (iq_Scenarios q) = Inr (m, ids)"
    and d: "pe_ids E (sort_strings ids) = Inr d"
    and p: "plan = intent_plan_of q d (conditional_branches m) meta"
      "intent_Validate (pe_json_valid E) (pe_url_parse E) plan = None"
    by (auto simp: BuildIntent_def bind_res_Inr Let_def split: if_splits)
  from collect_branches_Inr [OF c] d p show thesis
    by (intro that [of m]) (auto simp: intent_plan_of_def branch_of_def)
qed

lemma BuildIntent_authorized:
  assumes "BuildIntent E q = Inr plan"
  shows "authorized (allowedBranches plan) c i \<longleftrightarrow>
    (\<exists>s\<in>set (iq_Scenarios q). sc_ID s = i \<and> c \<in> set (sc_Capabilities s))"
proof -
  from assms obtain m where m: "\<And>c. set (branch_of m c) = {sc_ID s |s. s \<in> set (iq_Scenarios q) \<and> c \<in> set (sc_Capabilities s)}"
    "\<And>c. ahas m c \<longleftrightarrow> (\<exists>s\<in>set (iq_Scenarios q). c \<in> set (sc_Capabilities s))"
    "ip_ConditionalBranches plan = conditional_branches m"
    "intent_Validate (pe_json_valid E) (pe_url_parse E) plan = None"
    by (rule BuildIntent_Inr) blast
  have "(\<exists>b\<in>set (conditional_branches m). cb_Capability b = c \<and> i \<in> set (cb_Scenarios b)) \<longleftrightarrow>
      ahas m c \<and> i \<in> set (branch_of m c)"
  proof
    assume "ahas m c \<and> i \<in> set (branch_of m c)"
    then have "\<lparr>cb_Capability = c, cb_Scenarios = sort_strings (branch_of m c)\<rparr> \<in> set (conditional_branches m)"
      "i \<in> set (sort_strings (branch_of m c))" by (simp_all add: conditional_branches_mem sort_strings_def)
    then show "\<exists>b\<in>set (conditional_branches m). cb_Capability b = c \<and> i \<in> set (cb_Scenarios b)"
      by (metis conditional_branch.select_convs(1,2))
  qed (auto simp: conditional_branches_mem sort_strings_def)
  with m authorized_iff [OF m(4)] show ?thesis by auto
qed

section \<open>Decisions\<close>

definition unobserved :: "capability_status \<Rightarrow> bool" where
  "unobserved s \<longleftrightarrow> s = CapabilityUnknown \<or> s = OtherCapability []"

definition decision_for :: "(string, capability_status) gomap \<Rightarrow> string list \<Rightarrow> disposition \<times> string" where
  "decision_for facts cs =
     (if \<exists>c\<in>set cs. fact_of facts c = CapabilityUnsupported then (DispositionNotApplicable, ''unsupported_capability'')
      else if \<exists>c\<in>set cs. unobserved (fact_of facts c) then (DispositionSkip, ''not_observed'')
      else (DispositionExecute, []))"

lemma decide_gen:
  "decide allowed facts i acc cs =
     (if \<forall>c\<in>set cs. authorized allowed c i then
        Inr (if \<exists>c\<in>set cs. fact_of facts c = CapabilityUnsupported then (DispositionNotApplicable, ''unsupported_capability'')
             else if fst acc = DispositionExecute \<and> (\<exists>c\<in>set cs. unobserved (fact_of facts c))
               then (DispositionSkip, ''not_observed'')
             else acc)
      else Inl (Err ''scenario capability branch was not authorized by IntentPlan''))"
proof (induction allowed facts i acc cs rule: decide.induct)
  case (2 allowed facts i acc c cs)
  then show ?case by (cases "fact_of facts c") (auto simp: unobserved_def split: if_splits)
qed simp

lemma decide_eq:
  "decide allowed facts i (DispositionExecute, []) cs =
     (if \<forall>c\<in>set cs. authorized allowed c i then Inr (decision_for facts cs)
      else Inl (Err ''scenario capability branch was not authorized by IntentPlan''))"
  by (auto simp: decide_gen decision_for_def)

definition decided :: "(string, capability_status) gomap \<Rightarrow> scenario_candidate \<Rightarrow> scenario_decision" where
  "decided facts s = \<lparr>sd_ScenarioID = sc_ID s, sd_Disposition = fst (decision_for facts (sc_Capabilities s)),
     sd_ReasonCode = snd (decision_for facts (sc_Capabilities s)), sd_Driver = sc_Driver s, sd_DependsOn = sc_DependsOn s\<rparr>"

definition applicable :: "scenario_decision list \<Rightarrow> string list" where
  "applicable ds = map sd_ScenarioID (filter (\<lambda>d. sd_Disposition d \<noteq> DispositionNotApplicable) ds)"

lemma resolve_decisions_eq:
  "resolve_decisions allowed facts ss =
     (if \<forall>s\<in>set ss. \<forall>c\<in>set (sc_Capabilities s). authorized allowed c (sc_ID s)
      then Inr (map (decided facts) ss, applicable (map (decided facts) ss))
      else Inl (Err ''scenario capability branch was not authorized by IntentPlan''))"
  by (induction ss) (auto simp: decide_eq decided_def [abs_def] applicable_def split: prod.splits)

lemma collect_observation_Inr:
  "collect_observation facts fs = Inr facts' \<Longrightarrow>
     aget facts' c = Some s \<longleftrightarrow> aget facts c = Some s \<or> (\<exists>f\<in>set fs. cf_Capability f = c \<and> cf_Status f = s)"
  by (induction facts fs rule: collect_observation.induct) (auto split: option.splits if_splits)

definition all_facts :: "capability_observation list \<Rightarrow> capability_fact list" where
  "all_facts os = concat (map co_Facts os)"

lemma collect_observations_Inr:
  "collect_observations r facts refs os = Inr (facts', refs') \<Longrightarrow>
     (\<forall>c s. aget facts' c = Some s \<longleftrightarrow>
        aget facts c = Some s \<or> (\<exists>f\<in>set (all_facts os). cf_Capability f = c \<and> cf_Status f = s)) \<and>
     (\<forall>obs\<in>set os. co_IntentPlanRef obs = r) \<and> refs' = refs @ map (\<lambda>obs. em_ObjectRef (co_meta obs)) os"
proof (induction r facts refs os rule: collect_observations.induct)
  case (2 r facts refs obs os)
  from 2(2) obtain facts1 where f1: "co_IntentPlanRef obs = r" "collect_observation facts (co_Facts obs) = Inr facts1"
    "collect_observations r facts1 (refs @ [em_ObjectRef (co_meta obs)]) os = Inr (facts', refs')"
    by (auto simp: bind_res_Inr split: if_splits)
  from 2(1) [OF _ f1(3)] f1(1) collect_observation_Inr [OF f1(2)] show ?case
    by (auto simp: all_facts_def)
qed (auto simp: all_facts_def)

section \<open>Properties\<close>

text \<open>
  \<open>BuildIntent\<close> authorizes exactly what was requested: the resolver accepts a scenario under a
  capability if and only if a candidate of the request has that identifier and lists that
  capability.  Identifiers are distinct, branches are sorted, the denominator is the digest of the
  sorted identifiers, and the plan passes its own validation.
\<close>

theorem BuildIntent_authorizes:
  assumes "BuildIntent E q = Inr plan"
  shows "(\<forall>c i. authorized (allowedBranches plan) c i \<longleftrightarrow>
       (\<exists>s\<in>set (iq_Scenarios q). sc_ID s = i \<and> c \<in> set (sc_Capabilities s))) \<and>
    distinct (map sc_ID (iq_Scenarios q)) \<and>
    sorted (map cb_Capability (ip_ConditionalBranches plan)) \<and>
    pe_ids E (sort (map sc_ID (iq_Scenarios q))) = Inr (ip_CandidateDenominatorDigest plan) \<and>
    intent_Validate (pe_json_valid E) (pe_url_parse E) plan = None"
proof -
  from assms obtain m where "map_ok m" "distinct (map sc_ID (iq_Scenarios q))"
    "pe_ids E (sort_strings (map sc_ID (iq_Scenarios q))) = Inr (ip_CandidateDenominatorDigest plan)"
    "ip_ConditionalBranches plan = conditional_branches m"
    "intent_Validate (pe_json_valid E) (pe_url_parse E) plan = None"
    by (rule BuildIntent_Inr) blast
  with BuildIntent_authorized [OF assms] sorted_branches show ?thesis by (auto simp: sort_strings_def)
qed

lemma Resolve_Inr:
  assumes "Resolve E intent q = Inr plan"
  obtains facts refs where "collectFacts intent (rq_Observations q) = Inr (facts, refs)"
    "\<forall>s\<in>set (rq_Scenarios q). \<forall>c\<in>set (sc_Capabilities s). authorized (allowedBranches intent) c (sc_ID s)"
    "rp_Scenarios plan = map (decided facts) (rq_Scenarios q)" "rp_Budget plan = ip_Budget intent"
    "rp_IntentPlanRef plan = em_ObjectRef (ip_meta intent)" "rp_CapabilityObservationRefs plan = refs"
    "pe_ids E (sort_strings (applicable (rp_Scenarios plan))) = Inr (rp_DenominatorDigest plan)"
    "resolved_Validate (pe_json_valid E) plan = None"
    "intent_Validate (pe_json_valid E) (pe_url_parse E) intent = None"
  using assms
  by (auto simp: Resolve_def bind_res_Inr resolve_decisions_eq Let_def resolved_plan_of_def split: if_splits
      intro: that)


text \<open>
  The two halves fit: an intent plan built from a list of candidates authorizes the resolution of
  the same candidates under any observations that are bound to the plan and do not contradict each
  other; one decision per candidate results.
\<close>

theorem BuildIntent_then_decide:
  assumes "BuildIntent E q = Inr plan" "collectFacts plan observations = Inr (facts, refs)"
  shows "resolve_decisions (allowedBranches plan) facts (iq_Scenarios q) =
    Inr (map (decided facts) (iq_Scenarios q), applicable (map (decided facts) (iq_Scenarios q)))"
  using BuildIntent_authorized [OF assms(1)] by (auto simp: resolve_decisions_eq)

section \<open>A concrete plan\<close>

definition sample_env :: planner_env where
  "sample_env = \<lparr>pe_ids = (\<lambda>_. Inr zero_digest), pe_intent = (\<lambda>_. Inr zero_digest), pe_resolved = (\<lambda>_. Inr zero_digest),
     pe_json_valid = (\<lambda>_. True),
     pe_url_parse = (\<lambda>_. Some \<lparr>url_Scheme = ''https'', url_Host = ''h'', url_Path = [], url_RawQuery = [],
        url_Fragment = [], url_HasUser = False\<rparr>)\<rparr>"

definition sample_pin :: artifact_pin where
  "sample_pin = \<lparr>pin_Kind = ''Driver'', pin_Name = ''raw'', pin_Version = ''1'', pin_Digest = zero_digest\<rparr>"

definition sample_hard :: hard_budget where
  "sample_hard = \<lparr>hb_MaxRequests = 9, hb_MaxRequestBytes = 9, hb_MaxResponseBytes = 9, hb_MaxArtifactBytes = 9,
     hb_MaxProcesses = 9, hb_MaxDuration = 9\<rparr>"

definition sample_candidate :: "string \<Rightarrow> string list \<Rightarrow> scenario_candidate" where
  "sample_candidate i cs = \<lparr>sc_ID = i, sc_Capabilities = cs, sc_Driver = sample_pin, sc_DependsOn = []\<rparr>"

definition sample_intent_request :: intent_request where
  "sample_intent_request = \<lparr>iq_ID = uuid_a, iq_CreatedAt = 1,
     iq_Producer = \<lparr>prod_Name = ''doctor'', prod_Version = ''1'', prod_ArtifactDigest = zero_digest\<rparr>,
     iq_ConfigDigest = zero_digest,
     iq_Target = \<lparr>ti_LogicalRef = ''t'', ti_ProtocolFamily = ''p'', ti_IdentityExpectation = ''i'', ti_AllowedOrigin = ''o''\<rparr>,
     iq_Selectors = [\<lparr>sel_Kind = [], sel_Name = [], sel_Constraint = [], sel_Allowed = []\<rparr>],
     iq_SupportManifestDigest = zero_digest,
     iq_Probe = \<lparr>pp_Operations = [], pp_Budget = sample_hard, pp_Network = NetworkOffline\<rparr>,
     iq_Scenarios = [sample_candidate ''s1'' [''tools'']],
     iq_Budget = \<lparr>bp_Hard = sample_hard, bp_Reservation = \<lparr>tb_MaxInputTokens = 9, tb_MaxOutputTokens = 9\<rparr>,
        bp_Cleanup = sample_hard\<rparr>,
     iq_Evidence = \<lparr>epol_Capture = CaptureMetadataOnly, epol_Redaction = [], epol_Publication = []\<rparr>,
     iq_Safety = \<lparr>sp_Network = NetworkOffline, sp_Redirects = [], sp_ToolSideEffects = SideEffectsNone, sp_DriverPermissions = []\<rparr>,
     iq_Author = ''a'', iq_ApprovalRequirements = []\<rparr>"

definition sample_meta :: "string \<Rightarrow> string \<Rightarrow> envelope_meta" where
  "sample_meta v k = \<lparr>em_SchemaVersion = v, em_Kind = k, em_InstanceID = uuid_a,
     em_ContentDigest = zero_digest, em_ObjectRef = \<lparr>ref_Kind = k, ref_InstanceID = uuid_a, ref_ContentDigest = zero_digest\<rparr>,
     em_Producer = \<lparr>prod_Name = ''doctor'', prod_Version = ''1'', prod_ArtifactDigest = zero_digest\<rparr>, em_CreatedAt = 1, em_Extensions = []\<rparr>"

definition sample_intent :: intent_plan where
  "sample_intent = intent_plan_of sample_intent_request zero_digest
     [\<lparr>cb_Capability = ''tools'', cb_Scenarios = [''s1'']\<rparr>] (sample_meta IntentSchema ''IntentPlan'')"

lemma sample_names [simp]: "namePattern ''doctor''" "namePattern ''t''" "namePattern ''p''" "namePattern ''raw''" "namePattern ''s1''"
  "namePattern ''extra''" "namePattern ''tools''" "kindPattern ''IntentPlan''" "kindPattern ''ResolvedRunPlan''" "kindPattern ''Driver''"
  by (simp_all add: namePattern_def kindPattern_def class_match_def char_class_defs)

lemma sample_schemas [simp]: "has_prefix IntentSchema SchemaNamespace" "has_prefix ResolvedSchema SchemaNamespace"
  by (simp_all add: has_prefix_def IntentSchema_def ResolvedSchema_def SchemaNamespace_def)

lemma sample_seal [simp]:
  "kindPattern k \<Longrightarrow> has_prefix v SchemaNamespace \<Longrightarrow>
     SealMeta (\<lambda>_. Inr zero_digest) v k uuid_a \<lparr>prod_Name = ''doctor'', prod_Version = ''1'', prod_ArtifactDigest = zero_digest\<rparr> 1 x
       = Inr (sample_meta v k)"
  "kindPattern k \<Longrightarrow> has_prefix v SchemaNamespace \<Longrightarrow> meta_Validate jv (sample_meta v k) = None"
  by (simp_all add: SealMeta_def sample_meta_def producer_Validate_def meta_Validate_def ref_Validate_def uuid_a_def fail_if_def
      del: sample_identifiers add: sample_identifiers [unfolded uuid_a_def])

lemma sample_meta_fields [simp]: "em_Kind (sample_meta v k) = k" "em_InstanceID (sample_meta v k) = uuid_a"
  "em_ObjectRef (sample_meta v k) = \<lparr>ref_Kind = k, ref_InstanceID = uuid_a, ref_ContentDigest = zero_digest\<rparr>"
  by (simp_all add: sample_meta_def)

lemma sample_intent_valid: "intent_Validate (pe_json_valid sample_env) (pe_url_parse sample_env) sample_intent = None"
  by (simp add: intent_Validate_def sample_intent_def intent_plan_of_def sample_intent_request_def sample_env_def
      target_Validate_def hard_Validate_def policy_Validate_def token_Validate_def duration_Validate_def sample_hard_def
      validateIntentBranches_None)

lemma sample_BuildIntent: "BuildIntent sample_env sample_intent_request = Inr sample_intent"
  using sample_intent_valid
  by (simp add: BuildIntent_def sample_intent_def sample_intent_request_def sample_candidate_def append_branch_def
      conditional_branches_def sort_strings_def akeys_def aput_def aget_def Let_def sample_env_def)

theorem BuildIntent_authorizes_witness:
  "authorized (allowedBranches sample_intent) ''tools'' ''s1'' \<and> \<not> authorized (allowedBranches sample_intent) ''tools'' ''s2''"
  using BuildIntent_authorizes [OF sample_BuildIntent] by (simp add: sample_intent_request_def sample_candidate_def)

definition sample_observation :: capability_observation where
  "sample_observation = \<lparr>co_meta = sample_meta IntentSchema ''IntentPlan'', co_ObservationID = uuid_a,
     co_IntentPlanRef = \<lparr>ref_Kind = ''IntentPlan'', ref_InstanceID = uuid_a, ref_ContentDigest = zero_digest\<rparr>,
     co_ProbePolicyHash = zero_digest,
     co_Facts = [\<lparr>cf_Capability = ''tools'', cf_Status = CapabilitySupported, cf_Evidence = []\<rparr>],
     co_ConsumedBudget = sample_hard\<rparr>"

definition sample_resolution :: "scenario_candidate list \<Rightarrow> resolution_request" where
  "sample_resolution ss = \<lparr>rq_ID = uuid_a, rq_CreatedAt = 1,
     rq_Producer = \<lparr>prod_Name = ''doctor'', prod_Version = ''1'', prod_ArtifactDigest = zero_digest\<rparr>,
     rq_Resolver = sample_pin, rq_Observations = [sample_observation], rq_SupportLockDigest = zero_digest,
     rq_Artifacts = [sample_pin],
     rq_Target = \<lparr>tr_IdentityLevel = [], tr_ObservedFingerprint = zero_digest, tr_Version = [], tr_ConfigurationDigest = [],
        tr_Model = [], tr_Region = []\<rparr>,
     rq_Scenarios = ss,
     rq_Runtime = \<lparr>rt_Concurrency = 1, rt_Retries = 0, rt_Timeout = 1, rt_Capture = CaptureMetadataOnly, rt_Sandbox = [],
        rt_Network = NetworkOffline\<rparr>,
     rq_Finalizers = []\<rparr>"

lemma sample_resolution_fields: "rq_Observations (sample_resolution ss) = [sample_observation]"
  "rq_Scenarios (sample_resolution ss) = ss" "rq_ID (sample_resolution ss) = uuid_a" "rq_CreatedAt (sample_resolution ss) = 1"
  "rq_Producer (sample_resolution ss) = \<lparr>prod_Name = ''doctor'', prod_Version = ''1'', prod_ArtifactDigest = zero_digest\<rparr>"
  "pe_ids sample_env = (\<lambda>_. Inr zero_digest)" "pe_resolved sample_env = (\<lambda>_. Inr zero_digest)"
  by (simp_all add: sample_resolution_def sample_env_def)

lemma sample_Resolve:
  "\<exists>plan. Resolve sample_env sample_intent (sample_resolution [sample_candidate ''s1'' [''tools''], sample_candidate ''extra'' []]) = Inr plan \<and>
     map sd_Disposition (rp_Scenarios plan) = [DispositionExecute, DispositionExecute]"
proof -
  let ?ss = "[sample_candidate ''s1'' [''tools''], sample_candidate ''extra'' []]"
  have facts: "collectFacts sample_intent [sample_observation] = Inr ([(''tools'', CapabilitySupported)],
      [\<lparr>ref_Kind = ''IntentPlan'', ref_InstanceID = uuid_a, ref_ContentDigest = zero_digest\<rparr>])"
    by (simp add: collectFacts_def sample_observation_def sample_intent_def intent_plan_of_def aput_def)
  have auth: "authorized (allowedBranches sample_intent) ''tools'' ''s1''"
    by (simp add: authorized_def allowedBranches_def sample_intent_def intent_plan_of_def allowed_branch_def)
  have exec: "decision_for [(''tools'', CapabilitySupported)] [''tools''] = (DispositionExecute, [])"
      "decision_for [(''tools'', CapabilitySupported)] [] = (DispositionExecute, [])"
    by (simp_all add: decision_for_def fact_of_def aget_def unobserved_def)
  define F where "F = [(''tools'', CapabilitySupported)]"
  define refs where "refs = [\<lparr>ref_Kind = ''IntentPlan'', ref_InstanceID = uuid_a, ref_ContentDigest = zero_digest\<rparr>]"
  define ss where "ss = ?ss"
  define ds where "ds = map (decided F) ss"
  define plan where "plan = resolved_plan_of sample_intent (sample_resolution ss) refs ds zero_digest
    (sample_meta ResolvedSchema ''ResolvedRunPlan'')"
  have facts': "collectFacts sample_intent [sample_observation] = Inr (F, refs)"
    using facts by (simp add: F_def refs_def)
  have dec: "resolve_decisions (allowedBranches sample_intent) F ss = Inr (ds, applicable ds)"
    using auth by (simp add: resolve_decisions_eq sample_candidate_def ds_def ss_def)
  have ds: "ds = [\<lparr>sd_ScenarioID = ''s1'', sd_Disposition = DispositionExecute, sd_ReasonCode = [], sd_Driver = sample_pin, sd_DependsOn = []\<rparr>,
      \<lparr>sd_ScenarioID = ''extra'', sd_Disposition = DispositionExecute, sd_ReasonCode = [], sd_Driver = sample_pin, sd_DependsOn = []\<rparr>]"
    by (simp add: ds_def ss_def F_def decided_def exec sample_candidate_def)
  have valid: "resolved_Validate (pe_json_valid sample_env) plan = None"
    by (simp add: plan_def ds refs_def resolved_Validate_def resolved_plan_of_def ref_Validate_def
        pin_Validate_def sample_pin_def policy_Validate_def hard_Validate_def token_Validate_def duration_Validate_def
        validateScenarioDAG_None decision_rest_def ordered_dag_def sample_intent_def intent_plan_of_def
        sample_intent_request_def sample_hard_def sample_resolution_def less_Suc_eq)
  have "Resolve sample_env sample_intent (sample_resolution ss) = Inr plan"
    using valid sample_intent_valid
    by (simp add: Resolve_def Let_def sample_resolution_fields facts' dec plan_def)
  moreover have "map sd_Disposition (rp_Scenarios plan) = [DispositionExecute, DispositionExecute]"
    by (simp add: plan_def resolved_plan_of_def ds)
  ultimately show ?thesis unfolding ss_def by (intro exI conjI)
qed


theorem BuildIntent_then_decide_witness:
  "\<exists>facts. resolve_decisions (allowedBranches sample_intent) facts [sample_candidate ''s1'' [''tools'']] =
     Inr (map (decided facts) [sample_candidate ''s1'' [''tools'']], [''s1''])"
proof -
  have "collectFacts sample_intent [sample_observation] = Inr ([(''tools'', CapabilitySupported)],
      [\<lparr>ref_Kind = ''IntentPlan'', ref_InstanceID = uuid_a, ref_ContentDigest = zero_digest\<rparr>])"
    by (simp add: collectFacts_def sample_observation_def sample_intent_def intent_plan_of_def aput_def)
  from BuildIntent_then_decide [OF sample_BuildIntent this] show ?thesis
    by (intro exI [of _ "[(''tools'', CapabilitySupported)]"])
       (simp add: sample_intent_request_def applicable_def decided_def decision_for_def sample_candidate_def fact_of_def aget_def
          unobserved_def)
qed

text \<open>
  A scenario that needs no capability is outside the authorization check: \<open>Resolve\<close> accepts and
  executes one that occurs in no branch of the intent plan and was not among its candidates.
\<close>

theorem Resolve_admits_unlisted_scenario:
  "\<exists>plan. BuildIntent sample_env sample_intent_request = Inr sample_intent \<and>
     ''extra'' \<notin> sc_ID ` set (iq_Scenarios sample_intent_request) \<and>
     (\<nexists>b. b \<in> set (ip_ConditionalBranches sample_intent) \<and> ''extra'' \<in> set (cb_Scenarios b)) \<and>
     Resolve sample_env sample_intent (sample_resolution [sample_candidate ''s1'' [''tools''], sample_candidate ''extra'' []]) = Inr plan \<and>
     map sd_Disposition (rp_Scenarios plan) = [DispositionExecute, DispositionExecute]"
  using sample_Resolve sample_BuildIntent
  by (simp add: sample_intent_request_def sample_candidate_def sample_intent_def intent_plan_of_def)

end
