(* ===== verification/Report.thy ===== *)
theory Report
  imports SchemaResult
begin

text \<open>
  Package \<open>report\<close>, \<open>report.go\<close> and \<open>baseline.go\<close>: the validation of a report bundle, its counters, the
  baseline that is taken from a bundle and the comparison of two baselines.  A Go map that may be
  \<open>nil\<close> is an option; the JSON codecs of bundles and baselines are not modelled.
\<close>

section \<open>Bundles\<close>

datatype profile_outcome = ProfileCompatible | ProfileDegraded | ProfileIncompatible | ProfileInconclusive
  | OtherProfileOutcome string

datatype dimension_outcome = DimensionPass | DimensionFail | DimensionDegraded | DimensionInconclusive
  | DimensionNotRun | OtherDimension string

record denominator_summary =
  dn_CandidateDigest :: digest
  dn_CandidateCount :: i64
  dn_ApplicableDigest :: digest
  dn_ApplicableCount :: i64
  dn_ExecutedDigest :: digest
  dn_ExecutedCount :: i64

record report_condition =
  rc_Code :: string
  rc_Message :: string

record report_bundle =
  bu_SchemaVersion :: string
  bu_RunID :: instance_id
  bu_IntentPlanRef :: object_ref
  bu_ResolvedPlanRef :: object_ref
  bu_Profile :: artifact_pin
  bu_Artifacts :: "artifact_pin list"
  bu_SupportLock :: digest
  bu_Denominators :: denominator_summary
  bu_Outcome :: profile_outcome
  bu_Dimensions :: "(string, dimension_outcome) gomap"
  bu_Cases :: "case_result list"
  bu_Conditions :: "report_condition list"
  bu_PrimaryExitCode :: i64

definition validateDenominators :: "denominator_summary \<Rightarrow> err" where
  "validateDenominators s = first_err
     (map (\<lambda>d. wrap_err ''denominator digest'' (digest_Validate d))
        [dn_CandidateDigest s, dn_ApplicableDigest s, dn_ExecutedDigest s]
      @ [fail_if (sint (dn_CandidateCount s) < 0 \<or> sint (dn_ApplicableCount s) < 0 \<or> sint (dn_ExecutedCount s) < 0
           \<or> sint (dn_ExecutedCount s) > sint (dn_ApplicableCount s)
           \<or> sint (dn_ApplicableCount s) > sint (dn_CandidateCount s))
           (Err ''denominator counts must satisfy 0 <= executed <= applicable <= candidate'')])"

definition containsProfileOutcome :: "profile_outcome \<Rightarrow> bool" where
  "containsProfileOutcome v \<longleftrightarrow>
     v = ProfileCompatible \<or> v = ProfileDegraded \<or> v = ProfileIncompatible \<or> v = ProfileInconclusive"

definition containsDimensionOutcome :: "dimension_outcome \<Rightarrow> bool" where
  "containsDimensionOutcome v \<longleftrightarrow> v = DimensionPass \<or> v = DimensionFail \<or> v = DimensionDegraded
     \<or> v = DimensionInconclusive \<or> v = DimensionNotRun"

definition validExitCode :: "i64 \<Rightarrow> bool" where
  "validExitCode v \<longleftrightarrow> sint v \<ge> 0 \<and> sint v \<le> 6 \<or> v = 130"

fun bundle_cases :: "string list \<Rightarrow> case_result list \<Rightarrow> err" where
  "bundle_cases seen [] = None"
| "bundle_cases seen (r # rs) = first_err
     [fail_if (cr_ScenarioID r \<in> set seen) (Err ''duplicate scenario''),
      wrap_err ''case'' (case_Validate r),
      bundle_cases (cr_ScenarioID r # seen) rs]"

definition bundle_Validate :: "report_bundle \<Rightarrow> err" where
  "bundle_Validate b = first_err
     ([fail_if (bu_SchemaVersion b \<noteq> ''urn:agentapi-doctor:report-bundle:v1alpha2''
                \<and> bu_SchemaVersion b \<noteq> ''urn:agentapi-doctor:report-bundle:v1alpha1'')
         (Err ''unsupported report schema''),
       wrap_err ''run ID'' (id_Validate (bu_RunID b)),
       wrap_err ''intent plan'' (ref_Validate (bu_IntentPlanRef b)),
       wrap_err ''resolved plan'' (ref_Validate (bu_ResolvedPlanRef b)),
       wrap_err ''profile'' (pin_Validate (bu_Profile b)),
       fail_if (bu_Artifacts b = []) (Err ''report requires exact artifact pins'')]
      @ map (\<lambda>a. wrap_err ''artifact'' (pin_Validate a)) (bu_Artifacts b)
      @ [wrap_err ''support lock'' (digest_Validate (bu_SupportLock b)),
         validateDenominators (bu_Denominators b),
         fail_if (\<not> containsProfileOutcome (bu_Outcome b)) (Err ''invalid profile outcome'')]
      @ map (\<lambda>(dimension, outcome). fail_if (blank dimension \<or> \<not> containsDimensionOutcome outcome)
               (Err ''dimension names and outcomes must be valid'')) (bu_Dimensions b)
      @ [bundle_cases [] (bu_Cases b),
         fail_if (\<not> validExitCode (bu_PrimaryExitCode b)) (Err ''invalid stable exit code'')]
      @ map (\<lambda>c. fail_if (blank (rc_Code c) \<or> blank (rc_Message c)) (Err ''conditions require code and message''))
          (bu_Conditions b))"

record counts =
  ct_Pass :: nat
  ct_Fail :: nat
  ct_Warn :: nat
  ct_Inconclusive :: nat
  ct_Skipped :: nat
  ct_Errored :: nat

definition count_case :: "case_result \<Rightarrow> counts \<Rightarrow> counts" where
  "count_case r c =
     (if cr_ExecutionStatus r = ExecutionErrored \<or> cr_ExecutionStatus r = ExecutionCancelled then
        c\<lparr>ct_Errored := ct_Errored c + 1\<rparr>
      else if cr_PlanDisposition r \<noteq> DispositionExecute \<or> cr_ExecutionStatus r = ExecutionSkipped then
        c\<lparr>ct_Skipped := ct_Skipped c + 1\<rparr>
      else case cr_Verdict r of
        Some VerdictPass \<Rightarrow> c\<lparr>ct_Pass := ct_Pass c + 1\<rparr>
      | Some VerdictFail \<Rightarrow> c\<lparr>ct_Fail := ct_Fail c + 1\<rparr>
      | Some VerdictWarn \<Rightarrow> c\<lparr>ct_Warn := ct_Warn c + 1\<rparr>
      | Some VerdictInconclusive \<Rightarrow> c\<lparr>ct_Inconclusive := ct_Inconclusive c + 1\<rparr>
      | _ \<Rightarrow> c)"

definition Count :: "report_bundle \<Rightarrow> counts" where
  "Count b = fold count_case (bu_Cases b)
     \<lparr>ct_Pass = 0, ct_Fail = 0, ct_Warn = 0, ct_Inconclusive = 0, ct_Skipped = 0, ct_Errored = 0\<rparr>"

section \<open>Baselines\<close>

definition ErrIncomparable :: go_error where
  "ErrIncomparable = Err ''baseline and run have different immutable test identities''"

definition baselineNamePattern :: "string \<Rightarrow> bool" where
  "baselineNamePattern = class_match is_lower (\<lambda>c. is_lower c \<or> is_digit c \<or> c \<in> set ''._-'') 0 63"

definition BaselineSchemaVersion :: string where
  "BaselineSchemaVersion = ''urn:agentapi-doctor:baseline:v1''"

record case_state =
  cs_Disposition :: disposition
  cs_Execution :: execution_status
  cs_Verdict :: "verdict option"

record baseline =
  bl_SchemaVersion :: string
  bl_Name :: string
  bl_ProfileDigest :: digest
  bl_PackDigest :: digest
  bl_SupportLockDigest :: digest
  bl_DenominatorDigest :: digest
  bl_Cases :: "(string, case_state) gomap option"

definition baseline_case :: "string \<times> case_state \<Rightarrow> err" where
  "baseline_case = (\<lambda>(i, s). first_err
     [fail_if (blank i) (Err ''baseline scenario ID is required''),
      fail_if (cs_Disposition s \<noteq> DispositionExecute \<and> cs_Disposition s \<noteq> DispositionSkip
               \<and> cs_Disposition s \<noteq> DispositionNotApplicable) (Err ''scenario has invalid disposition''),
      fail_if (cs_Execution s \<notin> set [OtherExecution [], ExecutionPlanned, ExecutionRunning, ExecutionCompleted,
                 ExecutionSkipped, ExecutionCancelled, ExecutionErrored])
        (Err ''scenario has invalid execution status''),
      fail_if (case cs_Verdict s of None \<Rightarrow> False
               | Some v \<Rightarrow> v \<notin> set [VerdictPass, VerdictFail, VerdictWarn, VerdictInconclusive])
        (Err ''scenario has invalid verdict''),
      fail_if (cs_Verdict s \<noteq> None \<and> cs_Execution s \<noteq> ExecutionCompleted)
        (Err ''scenario has verdict without completed execution'')])"

definition baseline_Validate :: "baseline \<Rightarrow> err" where
  "baseline_Validate b = first_err
     ([fail_if (bl_SchemaVersion b \<noteq> BaselineSchemaVersion) (Err ''unsupported baseline schema''),
       fail_if (\<not> baselineNamePattern (bl_Name b)) (Err ''invalid baseline name'')]
      @ map (\<lambda>d. wrap_err ''digest'' (digest_Validate d))
          [bl_ProfileDigest b, bl_PackDigest b, bl_SupportLockDigest b, bl_DenominatorDigest b]
      @ (case bl_Cases b of
           None \<Rightarrow> [Some (Err ''baseline cases are required'')]
         | Some cases \<Rightarrow> map baseline_case cases))"

definition state_of :: "case_result \<Rightarrow> case_state" where
  "state_of r = \<lparr>cs_Disposition = cr_PlanDisposition r, cs_Execution = cr_ExecutionStatus r, cs_Verdict = cr_Verdict r\<rparr>"

text \<open>\<open>NewBaseline\<close> returns the baseline also when its own validation fails.\<close>

definition NewBaseline :: "string \<Rightarrow> report_bundle \<Rightarrow> baseline option \<times> err" where
  "NewBaseline name b =
     (if \<not> baselineNamePattern name then (None, Some (Err ''baseline name is required''))
      else case bundle_Validate b of
        Some e \<Rightarrow> (None, Some e)
      | None \<Rightarrow>
          (case filter (\<lambda>a. pin_Kind a = ''ProtocolPack'') (bu_Artifacts b) of
             [pack] \<Rightarrow>
               (let baseline = \<lparr>bl_SchemaVersion = BaselineSchemaVersion, bl_Name = name,
                      bl_ProfileDigest = pin_Digest (bu_Profile b), bl_PackDigest = pin_Digest pack,
                      bl_SupportLockDigest = bu_SupportLock b,
                      bl_DenominatorDigest = dn_CandidateDigest (bu_Denominators b),
                      bl_Cases = Some (fold (\<lambda>r m. aput (cr_ScenarioID r) (state_of r) m) (bu_Cases b) [])\<rparr>
                in (Some baseline, baseline_Validate baseline))
           | _ \<Rightarrow> (None, Some (Err ''baseline requires exactly one ProtocolPack''))))"

datatype change = NewFailure | Regression | Fixed | Unchanged | NewCapability | NoLongerTested

record difference =
  df_ScenarioID :: string
  df_Change :: change
  df_Before :: "case_state option"
  df_After :: "case_state option"

definition isFailure :: "case_state \<Rightarrow> bool" where
  "isFailure s \<longleftrightarrow> cs_Verdict s = Some VerdictFail"

definition classify_change :: "case_state option \<Rightarrow> case_state option \<Rightarrow> change" where
  "classify_change before after =
     (case (before, after) of
        (None, Some right) \<Rightarrow> if isFailure right then NewFailure else NewCapability
      | (Some left, None) \<Rightarrow> NoLongerTested
      | (Some left, Some right) \<Rightarrow>
          if \<not> isFailure left \<and> isFailure right then Regression
          else if isFailure left \<and> \<not> isFailure right \<and> cs_Disposition right = DispositionExecute then Fixed
          else if cs_Disposition left \<noteq> DispositionExecute \<and> cs_Disposition right = DispositionExecute then NewCapability
          else Unchanged
      | (None, None) \<Rightarrow> Unchanged)"

definition case_map :: "baseline \<Rightarrow> (string, case_state) gomap" where
  "case_map b = (case bl_Cases b of None \<Rightarrow> [] | Some m \<Rightarrow> m)"

definition Compare :: "baseline \<Rightarrow> baseline \<Rightarrow> difference list res" where
  "Compare before after =
     guard_res (first_err
       [baseline_Validate before, baseline_Validate after,
        fail_if (bl_ProfileDigest before \<noteq> bl_ProfileDigest after \<or> bl_PackDigest before \<noteq> bl_PackDigest after
                 \<or> bl_SupportLockDigest before \<noteq> bl_SupportLockDigest after
                 \<or> bl_DenominatorDigest before \<noteq> bl_DenominatorDigest after)
          (Wrap ''digest changed'' ErrIncomparable)])
     (Inr (map (\<lambda>i. let left = aget (case_map before) i; right = aget (case_map after) i in
              \<lparr>df_ScenarioID = i, df_Change = classify_change left right, df_Before = left, df_After = right\<rparr>)
        (sort_strings (remdups (akeys (case_map before) @ akeys (case_map after))))))"

section \<open>Comparison\<close>

lemma Compare_Inr:
  assumes "Compare before after = Inr ds"
  shows "map df_ScenarioID ds = sort (remdups (akeys (case_map before) @ akeys (case_map after)))"
    "d \<in> set ds \<Longrightarrow> df_Before d = aget (case_map before) (df_ScenarioID d)"
    "d \<in> set ds \<Longrightarrow> df_After d = aget (case_map after) (df_ScenarioID d)"
    "d \<in> set ds \<Longrightarrow> df_Change d = classify_change (df_Before d) (df_After d)"
  using assms by (auto simp: Compare_def Let_def sort_strings_def comp_def)

lemma classify_self: "classify_change (Some s) (Some s) = Unchanged"
  by (simp add: classify_change_def)


lemma bundle_cases_None:
  "bundle_cases seen rs = None \<longleftrightarrow> (\<forall>r\<in>set rs. case_Validate r = None) \<and> distinct (map cr_ScenarioID rs) \<and>
     cr_ScenarioID ` set rs \<inter> set seen = {}"
  by (induction rs arbitrary: seen) auto

lemma aget_fold_states:
  "distinct (map cr_ScenarioID rs) \<Longrightarrow>
     aget (fold (\<lambda>r m. aput (cr_ScenarioID r) (state_of r) m) rs m0) i =
       (case map_of (map (\<lambda>r. (cr_ScenarioID r, state_of r)) rs) i of None \<Rightarrow> aget m0 i | Some s \<Rightarrow> Some s)"
proof (induction rs arbitrary: m0)
  case (Cons r rs)
  then have "map_of (map (\<lambda>r. (cr_ScenarioID r, state_of r)) rs) (cr_ScenarioID r) = None"
    by (auto simp: map_of_eq_None_iff)
  with Cons show ?case by (auto split: option.splits)
qed simp

lemma NewBaseline_cases:
  assumes "NewBaseline name b = (Some bl, None)"
  shows "aget (case_map bl) i = Some s \<longleftrightarrow> (\<exists>r\<in>set (bu_Cases b). cr_ScenarioID r = i \<and> s = state_of r)"
    "baseline_Validate bl = None"
proof -
  let ?m = "fold (\<lambda>r m. aput (cr_ScenarioID r) (state_of r) m) (bu_Cases b) []"
  have bv: "bundle_Validate b = None" "baseline_Validate bl = None" "case_map bl = ?m"
    using assms by (auto simp: NewBaseline_def Let_def case_map_def split: if_splits option.splits list.splits)
  then have d: "distinct (map cr_ScenarioID (bu_Cases b))"
    by (auto simp: bundle_Validate_def bundle_cases_None)
  have "distinct (map fst (map (\<lambda>r. (cr_ScenarioID r, state_of r)) (bu_Cases b)))"
    using d by (simp add: comp_def)
  from map_of_eq_Some_iff [OF this, of i s] show "aget (case_map bl) i = Some s \<longleftrightarrow>
      (\<exists>r\<in>set (bu_Cases b). cr_ScenarioID r = i \<and> s = state_of r)"
    unfolding bv(3) aget_fold_states [OF d] by (auto split: option.splits)
  show "baseline_Validate bl = None" by (rule bv(2))
qed

text \<open>
  The baseline of a run records exactly the run's cases, and comparing a run with itself reports
  every one of its scenarios, each unchanged.
\<close>

theorem Compare_self_unchanged:
  assumes "NewBaseline name b = (Some bl, None)"
  shows "\<exists>ds. Compare bl bl = Inr ds \<and> set (map df_ScenarioID ds) = cr_ScenarioID ` set (bu_Cases b) \<and>
    (\<forall>d\<in>set ds. df_Change d = Unchanged \<and>
       (\<exists>r\<in>set (bu_Cases b). cr_ScenarioID r = df_ScenarioID d \<and> df_After d = Some (state_of r)))"
proof -
  note cases = NewBaseline_cases [OF assms]
  have "\<exists>ds. Compare bl bl = Inr ds" using cases(2) by (simp add: Compare_def)
  then obtain ds where ds: "Compare bl bl = Inr ds" ..
  note c = Compare_Inr [OF ds]
  have mem: "i \<in> set (map df_ScenarioID ds) \<longleftrightarrow> (\<exists>s. aget (case_map bl) i = Some s)" for i
    by (simp only: c(1)) (auto simp: set_akeys ahas_def)
  have "df_Change d = Unchanged \<and> (\<exists>r\<in>set (bu_Cases b). cr_ScenarioID r = df_ScenarioID d \<and> df_After d = Some (state_of r))"
    if d: "d \<in> set ds" for d
  proof -
    from d mem [of "df_ScenarioID d"] obtain s where "aget (case_map bl) (df_ScenarioID d) = Some s" by auto
    with c(2-4) [OF d] cases(1) show ?thesis by (auto simp: classify_self)
  qed
  moreover have "set (map df_ScenarioID ds) = cr_ScenarioID ` set (bu_Cases b)"
    using mem cases(1) by (auto simp del: set_map)
  ultimately show ?thesis using ds by blast
qed

section \<open>Concrete reports\<close>

definition sample_baseline :: "case_state \<Rightarrow> baseline" where
  "sample_baseline s = \<lparr>bl_SchemaVersion = BaselineSchemaVersion, bl_Name = ''main'', bl_ProfileDigest = zero_digest,
     bl_PackDigest = zero_digest, bl_SupportLockDigest = zero_digest, bl_DenominatorDigest = zero_digest,
     bl_Cases = Some [(''s1'', s)]\<rparr>"

definition failed_state :: case_state where
  "failed_state = \<lparr>cs_Disposition = DispositionExecute, cs_Execution = ExecutionCompleted, cs_Verdict = Some VerdictFail\<rparr>"

definition errored_state :: case_state where
  "errored_state = \<lparr>cs_Disposition = DispositionExecute, cs_Execution = ExecutionErrored, cs_Verdict = None\<rparr>"

definition skipped_state :: case_state where
  "skipped_state = \<lparr>cs_Disposition = DispositionSkip, cs_Execution = ExecutionSkipped, cs_Verdict = None\<rparr>"

lemma s1_not_blank: "\<not> blank ''s1''"
  by (rule plain_not_blank) (simp add: plain_def code_def)

lemma main_name: "baselineNamePattern ''main''"
  by (simp add: baselineNamePattern_def class_match_def char_class_defs)

lemma sample_baseline_valid:
  "s \<in> {failed_state, errored_state, skipped_state} \<Longrightarrow> baseline_Validate (sample_baseline s) = None"
  by (auto simp: baseline_Validate_def sample_baseline_def baseline_case_def failed_state_def errored_state_def
      skipped_state_def main_name s1_not_blank)

lemma sample_Compare:
  assumes "s \<in> {failed_state, errored_state, skipped_state}" "t \<in> {failed_state, errored_state, skipped_state}"
  shows "Compare (sample_baseline s) (sample_baseline t) =
    Inr [\<lparr>df_ScenarioID = ''s1'', df_Change = classify_change (Some s) (Some t), df_Before = Some s, df_After = Some t\<rparr>]"
  using sample_baseline_valid [OF assms(1)] sample_baseline_valid [OF assms(2)]
  by (simp add: Compare_def) (simp add: sample_baseline_def case_map_def akeys_def aget_def sort_strings_def Let_def)


text \<open>
  A failing scenario whose next run ends in an execution error, with no verdict, is reported as
  fixed; one that is skipped is reported as unchanged.
\<close>

theorem Compare_errored_is_fixed:
  "isFailure failed_state \<and> cs_Execution errored_state = ExecutionErrored \<and> cs_Verdict errored_state = None \<and>
   Compare (sample_baseline failed_state) (sample_baseline errored_state) =
     Inr [\<lparr>df_ScenarioID = ''s1'', df_Change = Fixed, df_Before = Some failed_state, df_After = Some errored_state\<rparr>] \<and>
   Compare (sample_baseline failed_state) (sample_baseline skipped_state) =
     Inr [\<lparr>df_ScenarioID = ''s1'', df_Change = Unchanged, df_Before = Some failed_state, df_After = Some skipped_state\<rparr>]"
proof -
  have "classify_change (Some failed_state) (Some errored_state) = Fixed"
    "classify_change (Some failed_state) (Some skipped_state) = Unchanged"
    by (simp_all add: classify_change_def failed_state_def errored_state_def skipped_state_def isFailure_def)
  then show ?thesis
    using sample_Compare [of failed_state errored_state] sample_Compare [of failed_state skipped_state]
    by simp (simp add: failed_state_def errored_state_def isFailure_def)
qed

definition sample_ref :: object_ref where
  "sample_ref = \<lparr>ref_Kind = ''Plan'', ref_InstanceID = [], ref_ContentDigest = zero_digest\<rparr>"

definition pack_pin :: artifact_pin where
  "pack_pin = \<lparr>pin_Kind = ''ProtocolPack'', pin_Name = ''pack'', pin_Version = ''1'', pin_Digest = zero_digest\<rparr>"

definition sample_case :: case_result where
  "sample_case = \<lparr>cr_ScenarioID = ''s1'', cr_PlanDisposition = DispositionExecute, cr_AttemptIDs = [uuid_a],
     cr_ExecutionStatus = ExecutionCompleted, cr_Verdict = Some VerdictPass, cr_ReasonCode = no_reason, cr_EvidenceRefs = [],
     cr_AssertionResults = [], cr_Findings = [], cr_CandidateMember = True, cr_ApplicableMember = True,
     cr_ExecutedMember = True, cr_AttemptAggregation = []\<rparr>"

definition sample_bundle :: report_bundle where
  "sample_bundle = \<lparr>bu_SchemaVersion = ''urn:agentapi-doctor:report-bundle:v1alpha2'', bu_RunID = uuid_a,
     bu_IntentPlanRef = sample_ref, bu_ResolvedPlanRef = sample_ref, bu_Profile = pack_pin, bu_Artifacts = [pack_pin],
     bu_SupportLock = zero_digest,
     bu_Denominators = \<lparr>dn_CandidateDigest = zero_digest, dn_CandidateCount = 1, dn_ApplicableDigest = zero_digest,
       dn_ApplicableCount = 1, dn_ExecutedDigest = zero_digest, dn_ExecutedCount = 1\<rparr>,
     bu_Outcome = ProfileCompatible, bu_Dimensions = [], bu_Cases = [sample_case], bu_Conditions = [],
     bu_PrimaryExitCode = 0\<rparr>"

lemma sample_bundle_baseline: "\<exists>bl. NewBaseline ''main'' sample_bundle = (Some bl, None)"
proof -
  have n: "kindPattern ''Plan''" "kindPattern ''ProtocolPack''" "namePattern ''pack''"
    by (simp_all add: kindPattern_def namePattern_def class_match_def char_class_defs)
  have "bundle_Validate sample_bundle = None"
    by (simp add: bundle_Validate_def sample_bundle_def ref_Validate_def sample_ref_def pin_Validate_def pack_pin_def n
        validateDenominators_def containsProfileOutcome_def validExitCode_def case_Validate_def sample_case_def)
  then show ?thesis
    by (simp add: NewBaseline_def main_name Let_def)
       (simp add: sample_bundle_def pack_pin_def baseline_Validate_def main_name baseline_case_def aput_def state_of_def
         sample_case_def s1_not_blank)
qed

theorem Compare_self_unchanged_witness:
  "\<exists>bl ds. NewBaseline ''main'' sample_bundle = (Some bl, None) \<and> Compare bl bl = Inr ds \<and>
     (\<forall>d\<in>set ds. df_Change d = Unchanged)"
proof -
  from sample_bundle_baseline obtain bl where bl: "NewBaseline ''main'' sample_bundle = (Some bl, None)" ..
  from Compare_self_unchanged [OF bl] obtain ds where "Compare bl bl = Inr ds" "\<forall>d\<in>set ds. df_Change d = Unchanged"
    by (elim exE conjE) simp
  with bl show ?thesis by (intro exI conjI)
qed

end
