(* ===== verification/Provenance.thy ===== *)
theory Provenance
  imports SchemaCore Machines
begin

text \<open>
  Package \<open>provenance\<close>: the hash-chained journal of a run and the signed envelopes.  \<open>canon\<close> is
  \<open>CanonicalDigest\<close> on the projection of an event; Ed25519, base64, SHA-256 and \<open>CanonicalizeJSON\<close> are
  the fields of a \<open>crypto\<close> record.
\<close>

section \<open>The journal\<close>

datatype run_status = RunPlanned | RunRunning | RunCompleted | RunCancelled | RunErrored | OtherRun string

definition JournalSchema :: string where "JournalSchema = ''urn:agentapi-doctor:run-journal-event:v1alpha1''"

record journal_event =
  je_SchemaVersion :: string
  je_RunID :: instance_id
  je_Sequence :: u64
  je_PreviousEventDigest :: digest
  je_EventType :: string
  je_Status :: run_status
  je_OccurredAt :: time
  je_MonotonicOffsetNS :: i64
  je_PayloadDigest :: digest
  je_EventDigest :: digest

record event_input =
  ei_EventType :: string
  ei_Status :: run_status
  ei_OccurredAt :: time
  ei_MonotonicOffsetNS :: i64
  ei_PayloadDigest :: digest

record journal =
  jn_runID :: instance_id
  jn_events :: "journal_event list"

record event_projection =
  xp_SchemaVersion :: string
  xp_RunID :: instance_id
  xp_Sequence :: u64
  xp_Previous :: digest
  xp_EventType :: string
  xp_Status :: run_status
  xp_OccurredAt :: time
  xp_Monotonic :: i64
  xp_Payload :: digest

type_synonym event_canon = "event_projection \<Rightarrow> digest res"

definition eventDigest :: "event_canon \<Rightarrow> journal_event \<Rightarrow> digest res" where
  "eventDigest canon e = canon \<lparr>xp_SchemaVersion = je_SchemaVersion e, xp_RunID = je_RunID e,
     xp_Sequence = je_Sequence e, xp_Previous = je_PreviousEventDigest e, xp_EventType = je_EventType e,
     xp_Status = je_Status e, xp_OccurredAt = je_OccurredAt e, xp_Monotonic = je_MonotonicOffsetNS e,
     xp_Payload = je_PayloadDigest e\<rparr>"

definition validateTransition :: "run_status \<Rightarrow> run_status \<Rightarrow> err" where
  "validateTransition previous next =
     (if previous = OtherRun [] \<and> next = RunPlanned then None
      else if previous = RunPlanned \<and> next = RunRunning then None
      else if previous = RunRunning \<and>
        (next = RunRunning \<or> next = RunCompleted \<or> next = RunCancelled \<or> next = RunErrored) then None
      else Some (Err ''invalid run lifecycle transition''))"

definition NewJournal :: "instance_id \<Rightarrow> journal res" where
  "NewJournal runID = guard_res (id_Validate runID) (Inr \<lparr>jn_runID = runID, jn_events = []\<rparr>)"

text \<open>The digest, status and offset that the next event is checked against.\<close>

definition journal_tail :: "journal_event list \<Rightarrow> digest \<times> run_status \<times> i64" where
  "journal_tail es = (if es = [] then (zero_digest, OtherRun [], - 1)
     else (je_EventDigest (last es), je_Status (last es), je_MonotonicOffsetNS (last es)))"

definition Append :: "event_canon \<Rightarrow> journal \<Rightarrow> event_input \<Rightarrow> journal \<times> journal_event res" where
  "Append canon j i =
     (case journal_tail (jn_events j) of (previous, previousStatus, offset) \<Rightarrow>
        (case validateTransition previousStatus (ei_Status i) of
           Some e \<Rightarrow> (j, Inl e)
         | None \<Rightarrow>
             if blank (ei_EventType i) \<or> is_zero (ei_OccurredAt i) \<or> sint (ei_MonotonicOffsetNS i) < 0
                \<or> sint (ei_MonotonicOffsetNS i) < sint offset then
               (j, Inl (Err ''journal event requires type, time, and monotonic nondecreasing offset''))
             else case digest_Validate (ei_PayloadDigest i) of
               Some e \<Rightarrow> (j, Inl (Wrap ''payload digest'' e))
             | None \<Rightarrow>
                 (let event = \<lparr>je_SchemaVersion = JournalSchema, je_RunID = jn_runID j,
                        je_Sequence = of_nat (length (jn_events j) + 1), je_PreviousEventDigest = previous,
                        je_EventType = ei_EventType i, je_Status = ei_Status i, je_OccurredAt = ei_OccurredAt i,
                        je_MonotonicOffsetNS = ei_MonotonicOffsetNS i, je_PayloadDigest = ei_PayloadDigest i,
                        je_EventDigest = []\<rparr>
                  in case eventDigest canon event of
                    Inl e \<Rightarrow> (j, Inl e)
                  | Inr digest \<Rightarrow>
                      (let event' = event\<lparr>je_EventDigest := digest\<rparr>
                       in (j\<lparr>jn_events := jn_events j @ [event']\<rparr>, Inr event')))))"

text \<open>The body of the loop of \<open>Verify\<close>, for the event at \<open>index\<close>.\<close>

definition verify_event ::
  "event_canon \<Rightarrow> instance_id \<Rightarrow> nat \<Rightarrow> digest \<times> run_status \<times> i64 \<Rightarrow> journal_event \<Rightarrow> err" where
  "verify_event canon runID index prev e =
     (case prev of (previous, previousStatus, offset) \<Rightarrow> first_err
       [fail_if (je_SchemaVersion e \<noteq> JournalSchema \<or> je_RunID e \<noteq> runID \<or> je_Sequence e \<noteq> of_nat (index + 1)
                 \<or> je_PreviousEventDigest e \<noteq> previous) (Err ''journal chain invalid''),
        wrap_err ''sequence'' (validateTransition previousStatus (je_Status e)),
        fail_if (sint (je_MonotonicOffsetNS e) < 0 \<or> sint (je_MonotonicOffsetNS e) < sint offset
                 \<or> is_zero (je_OccurredAt e) \<or> blank (je_EventType e)) (Err ''journal event fields invalid''),
        digest_Validate (je_PayloadDigest e),
        fail_if (eventDigest canon e \<noteq> Inr (je_EventDigest e)) (Err ''journal event digest invalid'')])"

fun verify_events ::
  "event_canon \<Rightarrow> instance_id \<Rightarrow> nat \<Rightarrow> digest \<times> run_status \<times> i64 \<Rightarrow> journal_event list \<Rightarrow> err" where
  "verify_events canon runID index prev [] = None"
| "verify_events canon runID index prev (e # es) = first_err
     [verify_event canon runID index prev e,
      verify_events canon runID (Suc index) (je_EventDigest e, je_Status e, je_MonotonicOffsetNS e) es]"

definition journal_Verify :: "event_canon \<Rightarrow> journal \<Rightarrow> err" where
  "journal_Verify canon j = verify_events canon (jn_runID j) 0 (zero_digest, OtherRun [], - 1) (jn_events j)"

section \<open>Journals that were appended to\<close>

lemma verify_events_snoc:
  "verify_events canon r n prev (es @ [e]) = None \<longleftrightarrow>
     verify_events canon r n prev es = None \<and>
     verify_event canon r (n + length es)
       (if es = [] then prev else (je_EventDigest (last es), je_Status (last es), je_MonotonicOffsetNS (last es))) e = None"
  by (induction es arbitrary: n prev) auto

lemma journal_Verify_snoc:
  "journal_Verify canon (j\<lparr>jn_events := jn_events j @ [e]\<rparr>) = None \<longleftrightarrow>
     journal_Verify canon j = None \<and>
     verify_event canon (jn_runID j) (length (jn_events j)) (journal_tail (jn_events j)) e = None"
  by (simp add: journal_Verify_def verify_events_snoc journal_tail_def)

definition append_step :: "event_canon \<Rightarrow> journal \<Rightarrow> event_input \<Rightarrow> journal \<times> err" where
  "append_step canon j i = (case Append canon j i of (j', Inl e) \<Rightarrow> (j', Some e) | (j', Inr _) \<Rightarrow> (j', None))"

lemma Append_Inl: "Append canon j i = (j', Inl e) \<Longrightarrow> j' = j"
  by (auto simp: Append_def Let_def split: prod.splits option.splits if_splits sum.splits)

lemma Append_Inr:
  assumes "Append canon j i = (j', Inr ev)"
  shows "j' = j\<lparr>jn_events := jn_events j @ [ev]\<rparr>"
    "verify_event canon (jn_runID j) (length (jn_events j)) (journal_tail (jn_events j)) ev = None"
    "je_Status ev = ei_Status i" "je_PayloadDigest ev = ei_PayloadDigest i" "je_EventType ev = ei_EventType i"
  using assms
  by (auto simp: Append_def verify_event_def eventDigest_def Let_def split: prod.splits option.splits if_splits sum.splits)

definition journal_inv :: "event_canon \<Rightarrow> journal \<Rightarrow> bool" where
  "journal_inv canon j \<longleftrightarrow> journal_Verify canon j = None"

interpretation run_journal: guarded_machine "append_step canon" "journal_inv canon" for canon
proof
  fix j i
  obtain j' r where a: "Append canon j i = (j', r)" by fastforce
  show "journal_inv canon (fst (append_step canon j i))" if "journal_inv canon j"
  proof (cases r)
    case (Inl e)
    with that a show ?thesis by (auto simp: append_step_def dest: Append_Inl)
  next
    case (Inr ev)
    note ok = Append_Inr [OF a [unfolded Inr]]
    from that ok(2) show ?thesis by (simp add: journal_inv_def append_step_def a Inr ok(1) journal_Verify_snoc)
  qed
  show "fst (append_step canon j i) = j" if "snd (append_step canon j i) \<noteq> None"
    using that a by (cases r) (auto simp: append_step_def dest: Append_Inl)
qed

interpretation run_journal: journal_machine "append_step canon" "journal_inv canon" jn_events for canon
proof
  fix j i
  obtain j' r where a: "Append canon j i = (j', r)" by fastforce
  show "prefix (jn_events j) (jn_events (fst (append_step canon j i)))"
    using a by (cases r) (auto simp: append_step_def dest: Append_Inl Append_Inr)
qed

text \<open>The lifecycle that a verified journal records.\<close>

definition status_next :: "run_status list \<Rightarrow> run_status \<Rightarrow> bool" where
  "status_next ss s \<longleftrightarrow> validateTransition (if ss = [] then OtherRun [] else last ss) s = None"

definition shape :: "run_status list \<Rightarrow> bool" where
  "shape ss \<longleftrightarrow> ss = [] \<or> (\<exists>n. ss = RunPlanned # replicate n RunRunning) \<or>
     (\<exists>n. \<exists>x\<in>{RunCompleted, RunCancelled, RunErrored}. ss = RunPlanned # replicate (Suc n) RunRunning @ [x])"

lemma shape_snoc: "shape ss \<Longrightarrow> status_next ss s \<Longrightarrow> shape (ss @ [s])"
proof -
  assume "shape ss" "status_next ss s"
  then consider "ss = []" "s = RunPlanned" | n where "ss = RunPlanned # replicate n RunRunning" "s = RunRunning"
    | n where "ss = RunPlanned # replicate (Suc n) RunRunning" "s \<in> {RunCompleted, RunCancelled, RunErrored}"
    unfolding shape_def status_next_def validateTransition_def
    by (elim disjE exE bexE; simp split: if_splits; (case_tac n; simp split: if_splits)?; auto split: if_splits)
  then show ?thesis
  proof cases
    case 2
    then have "ss @ [s] = RunPlanned # replicate (Suc n) RunRunning" by (simp add: replicate_append_same)
    then show ?thesis unfolding shape_def by blast
  qed (auto simp: shape_def)
qed

lemma verify_event_None:
  "verify_event canon r n (p, st, off) e = None \<Longrightarrow>
     validateTransition st (je_Status e) = None \<and> sint off \<le> sint (je_MonotonicOffsetNS e) \<and>
     je_PreviousEventDigest e = p \<and> je_Sequence e = of_nat (n + 1) \<and> je_RunID e = r \<and>
     je_SchemaVersion e = JournalSchema \<and> eventDigest canon e = Inr (je_EventDigest e)"
  by (simp add: verify_event_def)

lemma journal_events_induct [consumes 1, case_names Nil snoc]:
  assumes "journal_Verify canon j = None"
    and "P []"
    and "\<And>es e. journal_Verify canon (j\<lparr>jn_events := es\<rparr>) = None \<Longrightarrow> P es \<Longrightarrow>
      verify_event canon (jn_runID j) (length es) (journal_tail es) e = None \<Longrightarrow> P (es @ [e])"
  shows "P (jn_events j)"
proof -
  have "journal_Verify canon (j\<lparr>jn_events := es\<rparr>) = None \<Longrightarrow> P es" for es
  proof (induction es rule: rev_induct)
    case (snoc e es)
    with journal_Verify_snoc [of canon "j\<lparr>jn_events := es\<rparr>" e] assms(3) show ?case by simp
  qed (rule assms(2))
  from this [of "jn_events j"] assms(1) show ?thesis by simp
qed

lemma journal_shape:
  "journal_Verify canon j = None \<Longrightarrow>
     shape (map je_Status (jn_events j)) \<and> sorted (map (\<lambda>e. sint (je_MonotonicOffsetNS e)) (jn_events j))"
proof (induction rule: journal_events_induct)
  case (snoc es e)
  then have "status_next (map je_Status es) (je_Status e)"
    by (auto simp: journal_tail_def status_next_def last_map dest!: verify_event_None split: if_splits)
  moreover have "\<forall>x\<in>set es. sint (je_MonotonicOffsetNS x) \<le> sint (je_MonotonicOffsetNS e)"
  proof (cases "es = []")
    case False
    with snoc have "sint (je_MonotonicOffsetNS (last es)) \<le> sint (je_MonotonicOffsetNS e)"
      by (auto simp: journal_tail_def dest: verify_event_None)
    moreover have "sint (je_MonotonicOffsetNS x) \<le> sint (je_MonotonicOffsetNS (last es))" if "x \<in> set es" for x
      using snoc.IH False that by (cases es rule: rev_cases) (auto simp: sorted_append)
    ultimately show ?thesis by force
  qed simp
  ultimately show ?case using snoc.IH shape_snoc by (auto simp: sorted_append)
qed (simp add: shape_def)

text \<open>
  Whatever is appended to a new journal, accepted or refused, the journal verifies, records the
  run's lifecycle (planned, then running, then at most one terminal event, at the end) with
  nondecreasing offsets, and never loses or alters an event that it already held.
\<close>

theorem journal_append_verifies:
  assumes "NewJournal runID = Inr j0"
  shows "let j = run (append_step canon) j0 inputs in
    journal_Verify canon j = None \<and> shape (map je_Status (jn_events j)) \<and>
    sorted (map (\<lambda>e. sint (je_MonotonicOffsetNS e)) (jn_events j)) \<and>
    prefix (jn_events j) (jn_events (run (append_step canon) j later))"
proof -
  have "journal_inv canon j0" using assms by (auto simp: NewJournal_def journal_inv_def journal_Verify_def)
  then have inv: "journal_inv canon (run (append_step canon) j0 inputs)" by (rule run_journal.run_invar)
  with journal_shape [of canon "run (append_step canon) j0 inputs"] run_journal.run_log [OF inv]
  show ?thesis by (simp add: journal_inv_def Let_def)
qed

theorem journal_append_verifies_witness:
  "NewJournal uuid_a = Inr \<lparr>jn_runID = uuid_a, jn_events = []\<rparr> \<and>
   (let j = run (append_step (\<lambda>_. Inr zero_digest)) \<lparr>jn_runID = uuid_a, jn_events = []\<rparr>
      [\<lparr>ei_EventType = ''plan'', ei_Status = RunPlanned, ei_OccurredAt = 1, ei_MonotonicOffsetNS = 0, ei_PayloadDigest = zero_digest\<rparr>]
    in journal_Verify (\<lambda>_. Inr zero_digest) j = None)"
proof
  show n: "NewJournal uuid_a = Inr \<lparr>jn_runID = uuid_a, jn_events = []\<rparr>" by (simp add: NewJournal_def)
  show "let j = run (append_step (\<lambda>_. Inr zero_digest)) \<lparr>jn_runID = uuid_a, jn_events = []\<rparr>
      [\<lparr>ei_EventType = ''plan'', ei_Status = RunPlanned, ei_OccurredAt = 1, ei_MonotonicOffsetNS = 0, ei_PayloadDigest = zero_digest\<rparr>]
    in journal_Verify (\<lambda>_. Inr zero_digest) j = None"
    using journal_append_verifies [OF n, of "\<lambda>_. Inr zero_digest"
      "[\<lparr>ei_EventType = ''plan'', ei_Status = RunPlanned, ei_OccurredAt = 1, ei_MonotonicOffsetNS = 0, ei_PayloadDigest = zero_digest\<rparr>]" "[]"]
    by (simp only: Let_def)
qed

text \<open>Tamper evidence, for a digest without collisions.\<close>

definition collision_free :: "event_canon \<Rightarrow> bool" where
  "collision_free canon \<longleftrightarrow> (\<forall>p p' d. canon p = Inr d \<longrightarrow> canon p' = Inr d \<longrightarrow> p = p')"

lemma eventDigest_inj:
  "collision_free canon \<Longrightarrow> eventDigest canon e = Inr d \<Longrightarrow> eventDigest canon e' = Inr d \<Longrightarrow>
     je_EventDigest e = je_EventDigest e' \<Longrightarrow> e = e'"
  by (cases e; cases e') (auto simp: collision_free_def eventDigest_def)

lemma chain_unique:
  assumes "collision_free canon"
  shows "journal_Verify canon \<lparr>jn_runID = r, jn_events = es\<rparr> = None \<Longrightarrow>
    journal_Verify canon \<lparr>jn_runID = r', jn_events = es'\<rparr> = None \<Longrightarrow> length es = length es' \<Longrightarrow> es \<noteq> [] \<Longrightarrow>
    je_EventDigest (last es) = je_EventDigest (last es') \<Longrightarrow> es = es'"
proof (induction es arbitrary: es' rule: rev_induct)
  case (snoc e es)
  from snoc.prems(3) obtain es1 e1 where es': "es' = es1 @ [e1]" by (cases es' rule: rev_cases) auto
  have v: "journal_Verify canon \<lparr>jn_runID = r, jn_events = es\<rparr> = None"
      "verify_event canon r (length es) (journal_tail es) e = None"
      "journal_Verify canon \<lparr>jn_runID = r', jn_events = es1\<rparr> = None"
      "verify_event canon r' (length es1) (journal_tail es1) e1 = None"
    using snoc.prems(1,2) journal_Verify_snoc [of canon "\<lparr>jn_runID = r, jn_events = es\<rparr>" e]
      journal_Verify_snoc [of canon "\<lparr>jn_runID = r', jn_events = es1\<rparr>" e1] by (simp_all add: es')
  obtain p st off p' st' off' where t: "journal_tail es = (p, st, off)" "journal_tail es1 = (p', st', off')"
    using prod_cases3 by metis
  note e = verify_event_None [OF v(2) [unfolded t]] and e1 = verify_event_None [OF v(4) [unfolded t]]
  have "e = e1" using eventDigest_inj [OF assms, of e _ e1] e e1 snoc.prems(5) by (simp add: es')
  then have "p = p'" using e e1 by simp
  have "es = es1"
  proof (cases "es = []")
    case True
    then show ?thesis using snoc.prems(3) by (simp add: es')
  next
    case False
    moreover from this have "es1 \<noteq> []" using snoc.prems(3) by (auto simp: es')
    ultimately have "je_EventDigest (last es) = je_EventDigest (last es1)"
      using t \<open>p = p'\<close> by (simp add: journal_tail_def)
    with snoc.IH [OF v(1,3)] snoc.prems(3) False show ?thesis by (simp add: es')
  qed
  with \<open>e = e1\<close> es' show ?case by simp
qed simp


definition first_projection :: event_projection where
  "first_projection = \<lparr>xp_SchemaVersion = JournalSchema, xp_RunID = uuid_a, xp_Sequence = 1, xp_Previous = zero_digest,
     xp_EventType = ''plan'', xp_Status = RunPlanned, xp_OccurredAt = 1, xp_Monotonic = 0, xp_Payload = zero_digest\<rparr>"

definition one_event_canon :: event_canon where
  "one_event_canon p = (if p = first_projection then Inr zero_digest else Inl (Err []))"

definition one_event_journal :: journal where
  "one_event_journal = \<lparr>jn_runID = uuid_a, jn_events = [\<lparr>je_SchemaVersion = JournalSchema, je_RunID = uuid_a,
     je_Sequence = 1, je_PreviousEventDigest = zero_digest, je_EventType = ''plan'', je_Status = RunPlanned,
     je_OccurredAt = 1, je_MonotonicOffsetNS = 0, je_PayloadDigest = zero_digest, je_EventDigest = zero_digest\<rparr>]\<rparr>"


section \<open>Envelopes\<close>

record signature =
  sg_KeyID :: string
  sg_Sig :: string

record envelope =
  en_Version :: string
  en_PayloadType :: string
  en_Payload :: string
  en_Signatures :: "signature list"

text \<open>
  \<open>ed_public\<close> is the public half of a private key; keys and raw signatures are byte strings, whose
  lengths the code checks.  \<open>b64_decode\<close> is the strict decoder.
\<close>

record crypto =
  ed_public :: "string \<Rightarrow> string"
  ed_sign :: "string \<Rightarrow> string \<Rightarrow> string"
  ed_verify :: "string \<Rightarrow> string \<Rightarrow> string \<Rightarrow> bool"
  b64_encode :: "string \<Rightarrow> string"
  b64_decode :: "string \<Rightarrow> string option"
  json_canonical :: "string \<Rightarrow> string res"
  sha256 :: "string \<Rightarrow> byte list"

definition EnvelopeVersion :: string where "EnvelopeVersion = ''dsse-envelope-v1''"

definition KeyID :: "crypto \<Rightarrow> string \<Rightarrow> string" where
  "KeyID C publicKey = NewDigest (sha256 C) publicKey"

definition pae :: "string \<Rightarrow> string \<Rightarrow> string" where
  "pae payloadType payload =
     ''DSSEv1 '' @ itoa (length payloadType) @ '' '' @ payloadType @ '' '' @ itoa (length payload) @ '' '' @ payload"

definition decodeEnvelope :: "crypto \<Rightarrow> envelope \<Rightarrow> string res" where
  "decodeEnvelope C e =
     (if en_Version e \<noteq> EnvelopeVersion \<or> en_PayloadType e = [] \<or> en_Payload e = [] \<or> en_Signatures e = []
      then Inl (Err ''incomplete or unsupported provenance envelope'')
      else case b64_decode C (en_Payload e) of
        None \<Rightarrow> Inl (Err ''payload is not strict base64'')
      | Some statement \<Rightarrow>
          (case json_canonical C statement of
             Inl err \<Rightarrow> Inl (Wrap ''invalid JSON statement'' err)
           | Inr canonical \<Rightarrow>
               if statement \<noteq> canonical then Inl (Err ''signed statement is not canonical RFC8785 JSON'')
               else Inr statement))"

definition Sign :: "crypto \<Rightarrow> string \<Rightarrow> string \<Rightarrow> string \<Rightarrow> envelope res" where
  "Sign C payloadType statement privateKey =
     (if payloadType = [] then Inl (Err ''payload type is required'')
      else if length privateKey \<noteq> 64 then Inl (Err ''invalid Ed25519 private key'')
      else case json_canonical C statement of
        Inl err \<Rightarrow> Inl (Wrap ''canonicalize statement'' err)
      | Inr canonical \<Rightarrow> Inr \<lparr>en_Version = EnvelopeVersion, en_PayloadType = payloadType,
          en_Payload = b64_encode C canonical,
          en_Signatures = [\<lparr>sg_KeyID = KeyID C (ed_public C privateKey),
             sg_Sig = b64_encode C (ed_sign C privateKey (pae payloadType canonical))\<rparr>]\<rparr>)"

definition AddSignature :: "crypto \<Rightarrow> envelope \<Rightarrow> string \<Rightarrow> envelope res" where
  "AddSignature C e privateKey =
     bind_res (decodeEnvelope C e) (\<lambda>statement.
       if length privateKey \<noteq> 64 then Inl (Err ''invalid Ed25519 private key'')
       else let keyID = KeyID C (ed_public C privateKey) in
         if \<exists>s\<in>set (en_Signatures e). sg_KeyID s = keyID then Inl (Err ''signer already present'')
         else Inr (e\<lparr>en_Signatures := en_Signatures e @ [\<lparr>sg_KeyID = keyID,
                sg_Sig = b64_encode C (ed_sign C privateKey (pae (en_PayloadType e) statement))\<rparr>]\<rparr>))"

text \<open>The loop of \<open>Verify\<close>: the key identifiers seen and the number of valid signatures.\<close>

fun verify_signatures ::
  "crypto \<Rightarrow> string \<Rightarrow> (string, string) gomap \<Rightarrow> string list \<Rightarrow> nat \<Rightarrow> signature list \<Rightarrow> nat res" where
  "verify_signatures C message trusted seen valid [] = Inr valid"
| "verify_signatures C message trusted seen valid (s # ss) =
     (if sg_KeyID s \<in> set seen then Inl (Err ''duplicate signature for key'')
      else case b64_decode C (sg_Sig s) of
        None \<Rightarrow> Inl (Err ''malformed signature for key'')
      | Some decoded \<Rightarrow>
          if length decoded \<noteq> 64 then Inl (Err ''malformed signature for key'')
          else case aget trusted (sg_KeyID s) of
            None \<Rightarrow> verify_signatures C message trusted (sg_KeyID s # seen) valid ss
          | Some publicKey \<Rightarrow>
              if length publicKey \<noteq> 32 \<or> KeyID C publicKey \<noteq> sg_KeyID s then Inl (Err ''trusted key binding mismatch'')
              else if \<not> ed_verify C publicKey message decoded then Inl (Err ''invalid signature for trusted key'')
              else verify_signatures C message trusted (sg_KeyID s # seen) (valid + 1) ss)"

definition envelope_Verify :: "crypto \<Rightarrow> envelope \<Rightarrow> (string, string) gomap \<Rightarrow> int \<Rightarrow> string res" where
  "envelope_Verify C e trusted threshold =
     (if threshold < 1 then Inl (Err ''signature threshold must be positive'')
      else bind_res (decodeEnvelope C e) (\<lambda>statement.
        bind_res (verify_signatures C (pae (en_PayloadType e) statement) trusted [] 0 (en_Signatures e)) (\<lambda>valid.
          if int valid < threshold then Inl (Err ''signature threshold not met'') else Inr statement)))"

section \<open>Pre-authentication encoding\<close>

lemma itoa_no_space: "CHR '' '' \<notin> set (itoa n)"
proof (induction n rule: itoa.induct)
  case (1 n)
  have d: "char_of (48 + m) \<noteq> CHR '' ''" if "m < 10" for m :: nat
  proof
    assume "char_of (48 + m) = CHR '' ''"
    then have "of_char (char_of (48 + m) :: char) = (of_char (CHR '' '') :: nat)" by simp
    with that show False by (simp add: of_char_of)
  qed
  show ?case
    by (subst itoa.simps) (use 1 d [of n] d [of "n mod 10"] in \<open>auto simp del: char_of_nat\<close>)
qed

lemma split_separator:
  "c \<notin> set xs \<Longrightarrow> c \<notin> set ys \<Longrightarrow> xs @ c # a = ys @ c # b \<longleftrightarrow> xs = ys \<and> a = b"
proof (induction xs arbitrary: ys)
  case Nil
  then show ?case by (cases ys) auto
next
  case (Cons x xs)
  then show ?case by (cases ys) auto
qed

text \<open>
  The pre-authentication encoding is unambiguous: the signed bytes determine both the payload
  type and the payload, so a signature cannot be moved to another pair.
\<close>

theorem pae_injective: "pae t p = pae t' p' \<longleftrightarrow> t = t' \<and> p = p'"
proof
  assume "pae t p = pae t' p'"
  then have "itoa (length t) @ CHR '' '' # (t @ '' '' @ itoa (length p) @ '' '' @ p) =
      itoa (length t') @ CHR '' '' # (t' @ '' '' @ itoa (length p') @ '' '' @ p')"
    by (simp add: pae_def)
  then have "itoa (length t) = itoa (length t')" and rest: "t @ '' '' @ itoa (length p) @ '' '' @ p = t' @ '' '' @ itoa (length p') @ '' '' @ p'"
    by (simp_all only: split_separator [OF itoa_no_space itoa_no_space])
  then have "length t = length t'" by (metis atoi_itoa)
  with rest have "t = t'" "itoa (length p) @ CHR '' '' # p = itoa (length p') @ CHR '' '' # p'" by simp_all
  then show "t = t' \<and> p = p'" by (simp only: split_separator [OF itoa_no_space itoa_no_space])
qed simp

section \<open>Verification of envelopes\<close>

definition signature_ok :: "crypto \<Rightarrow> string \<Rightarrow> (string, string) gomap \<Rightarrow> signature \<Rightarrow> bool" where
  "signature_ok C message trusted s \<longleftrightarrow> (\<exists>d. b64_decode C (sg_Sig s) = Some d \<and> length d = 64 \<and>
     (\<forall>pk. aget trusted (sg_KeyID s) = Some pk \<longrightarrow>
        length pk = 32 \<and> KeyID C pk = sg_KeyID s \<and> ed_verify C pk message d))"

lemma verify_signatures_eq:
  "verify_signatures C message trusted seen valid ss = Inr v \<longleftrightarrow>
     distinct (map sg_KeyID ss) \<and> sg_KeyID ` set ss \<inter> set seen = {} \<and>
     (\<forall>s\<in>set ss. signature_ok C message trusted s) \<and>
     v = valid + length (filter (\<lambda>s. ahas trusted (sg_KeyID s)) ss)"
proof (induction ss arbitrary: seen valid)
  case (Cons s ss)
  show ?case
    by (cases "b64_decode C (sg_Sig s)"; cases "aget trusted (sg_KeyID s)")
       (auto simp: Cons.IH signature_ok_def ahas_def)
qed auto

lemma envelope_Verify_Inr:
  "envelope_Verify C e trusted threshold = Inr statement \<longleftrightarrow>
     1 \<le> threshold \<and> decodeEnvelope C e = Inr statement \<and> distinct (map sg_KeyID (en_Signatures e)) \<and>
     (\<forall>s\<in>set (en_Signatures e). signature_ok C (pae (en_PayloadType e) statement) trusted s) \<and>
     threshold \<le> int (length (filter (\<lambda>s. ahas trusted (sg_KeyID s)) (en_Signatures e)))"
  by (auto simp: envelope_Verify_def bind_res_Inr verify_signatures_eq)


text \<open>What the code relies on in the libraries.\<close>

definition crypto_laws :: "crypto \<Rightarrow> bool" where
  "crypto_laws C \<longleftrightarrow> (\<forall>x. b64_decode C (b64_encode C x) = Some x) \<and> (\<forall>x. x \<noteq> [] \<longrightarrow> b64_encode C x \<noteq> []) \<and>
     (\<forall>x y. json_canonical C x = Inr y \<longrightarrow> y \<noteq> [] \<and> json_canonical C y = Inr y) \<and>
     (\<forall>k m. length k = 64 \<longrightarrow> length (ed_public C k) = 32 \<and> length (ed_sign C k m) = 64 \<and>
        ed_verify C (ed_public C k) m (ed_sign C k m))"

lemma countersigned_verifies:
  assumes "crypto_laws C" "Sign C payloadType statement k1 = Inr e1" "AddSignature C e1 k2 = Inr e2"
    and "aget trusted (KeyID C (ed_public C k1)) = Some (ed_public C k1)"
    and "aget trusted (KeyID C (ed_public C k2)) = Some (ed_public C k2)"
  shows "\<exists>canonical. json_canonical C statement = Inr canonical \<and> envelope_Verify C e2 trusted 2 = Inr canonical"
proof -
  from assms(2) obtain c where c: "payloadType \<noteq> []" "length k1 = 64" "json_canonical C statement = Inr c"
    and e1: "e1 = \<lparr>en_Version = EnvelopeVersion, en_PayloadType = payloadType, en_Payload = b64_encode C c,
      en_Signatures = [\<lparr>sg_KeyID = KeyID C (ed_public C k1), sg_Sig = b64_encode C (ed_sign C k1 (pae payloadType c))\<rparr>]\<rparr>"
    by (auto simp: Sign_def split: if_splits sum.splits)
  have d1: "decodeEnvelope C e1 = Inr c"
    using assms(1) c by (auto simp: decodeEnvelope_def e1 crypto_laws_def)
  with assms(3) have k2: "length k2 = 64" "KeyID C (ed_public C k1) \<noteq> KeyID C (ed_public C k2)"
    and e2: "e2 = e1\<lparr>en_Signatures := en_Signatures e1 @ [\<lparr>sg_KeyID = KeyID C (ed_public C k2),
      sg_Sig = b64_encode C (ed_sign C k2 (pae payloadType c))\<rparr>]\<rparr>"
    by (auto simp: AddSignature_def Let_def e1 split: if_splits)
  have "decodeEnvelope C e2 = Inr c"
    using assms(1) c by (auto simp: decodeEnvelope_def e2 e1 crypto_laws_def)
  then have "envelope_Verify C e2 trusted 2 = Inr c"
    using assms(1,4,5) c k2 by (simp add: envelope_Verify_Inr e2 e1 signature_ok_def crypto_laws_def ahas_def)
  with c(3) show ?thesis by blast
qed

text \<open>
  A statement that is signed with one key and countersigned with another verifies under threshold
  two, against any store that trusts both keys, and yields the canonical form of the statement.
\<close>

theorem sign_countersign_verify:
  assumes "crypto_laws C" "Sign C payloadType statement k1 = Inr e1" "AddSignature C e1 k2 = Inr e2"
    and "aget trusted (KeyID C (ed_public C k1)) = Some (ed_public C k1)"
    and "aget trusted (KeyID C (ed_public C k2)) = Some (ed_public C k2)"
  shows "\<exists>canonical. json_canonical C statement = Inr canonical \<and> envelope_Verify C e2 trusted 2 = Inr canonical"
  using assms by (rule countersigned_verifies)

definition toy_crypto :: crypto where
  "toy_crypto = \<lparr>ed_public = take 32, ed_sign = (\<lambda>_ _. replicate 64 (CHR ''s'')), ed_verify = (\<lambda>_ _ _. True),
     b64_encode = (\<lambda>x. CHR ''A'' # x), b64_decode = (\<lambda>x. if x = [] then None else Some (tl x)),
     json_canonical = (\<lambda>x. if x = [] then Inl (Err []) else Inr x),
     sha256 = (\<lambda>x. [if x = replicate 32 (CHR ''a'') then 0 else 1])\<rparr>"

lemma toy_crypto_laws: "crypto_laws toy_crypto"
  by (auto simp: crypto_laws_def toy_crypto_def)

definition toy_key :: "char \<Rightarrow> string" where "toy_key c = replicate 64 c"

definition toy_trusted :: "(string, string) gomap" where
  "toy_trusted = [(KeyID toy_crypto (replicate 32 (CHR ''a'')), replicate 32 (CHR ''a'')),
     (KeyID toy_crypto (replicate 32 (CHR ''b'')), replicate 32 (CHR ''b''))]"

lemma toy_keys: "KeyID toy_crypto (replicate 32 (CHR ''b'')) \<noteq> KeyID toy_crypto (replicate 32 (CHR ''a''))"
  "ed_public toy_crypto (toy_key c) = replicate 32 c"
  by (simp_all add: KeyID_def NewDigest_def toy_crypto_def hex_encode_def hex_byte_def hex_digit_def toy_key_def)

lemma toy_trusts:
  "aget toy_trusted (KeyID toy_crypto (ed_public toy_crypto (toy_key (CHR ''a'')))) = Some (ed_public toy_crypto (toy_key (CHR ''a'')))"
  "aget toy_trusted (KeyID toy_crypto (ed_public toy_crypto (toy_key (CHR ''b'')))) = Some (ed_public toy_crypto (toy_key (CHR ''b'')))"
  using toy_keys(1) by (simp_all add: toy_trusted_def aget_def toy_keys(2))

lemma toy_envelopes:
  "\<exists>e1 e2. Sign toy_crypto ''t'' ''p'' (toy_key (CHR ''a'')) = Inr e1 \<and> AddSignature toy_crypto e1 (toy_key (CHR ''b'')) = Inr e2"
proof -
  let ?e = "\<lparr>en_Version = EnvelopeVersion, en_PayloadType = ''t'', en_Payload = b64_encode toy_crypto ''p'',
    en_Signatures = [\<lparr>sg_KeyID = KeyID toy_crypto (replicate 32 (CHR ''a'')), sg_Sig = b64_encode toy_crypto (ed_sign toy_crypto (toy_key (CHR ''a'')) (pae ''t'' ''p''))\<rparr>]\<rparr>"
  have s: "Sign toy_crypto ''t'' ''p'' (toy_key (CHR ''a'')) = Inr ?e"
    using toy_keys(2) by (simp add: Sign_def toy_key_def) (simp add: toy_crypto_def)
  have "decodeEnvelope toy_crypto ?e = Inr ''p''" by (simp add: decodeEnvelope_def toy_crypto_def)
  then have "\<exists>e2. AddSignature toy_crypto ?e (toy_key (CHR ''b'')) = Inr e2"
    using toy_keys by (auto simp: AddSignature_def Let_def) (simp_all add: toy_key_def)
  with s show ?thesis by blast
qed

theorem sign_countersign_verify_witness:
  "\<exists>e1 e2. Sign toy_crypto ''t'' ''p'' (toy_key (CHR ''a'')) = Inr e1 \<and>
     AddSignature toy_crypto e1 (toy_key (CHR ''b'')) = Inr e2 \<and>
     (\<exists>canonical. envelope_Verify toy_crypto e2 toy_trusted 2 = Inr canonical)"
proof -
  from toy_envelopes obtain e1 e2 where e: "Sign toy_crypto ''t'' ''p'' (toy_key (CHR ''a'')) = Inr e1"
    "AddSignature toy_crypto e1 (toy_key (CHR ''b'')) = Inr e2" by (elim exE conjE)
  from sign_countersign_verify [OF toy_crypto_laws e toy_trusts] obtain c where
    "envelope_Verify toy_crypto e2 toy_trusted 2 = Inr c" by (elim exE conjE)
  with e show ?thesis by (intro exI conjI)
qed


end
