(* ===== verification/RegistryDomain.thy ===== *)
theory RegistryDomain
  imports SchemaCore Machines
begin

text \<open>
  Package \<open>registry\<close>: authenticated principals (\<open>auth.go\<close>), the two-phase upload session
  (\<open>ingest.go\<close>) and the purge of sensitive material (\<open>purge.go\<close>).  Each object holds its mutex for
  the whole of an operation, so a history is a sequence of calls.  A snapshot copies every field,
  so the record that models the object is also its snapshot; an operation returns the new object
  and the error.  \<open>UTC\<close> only changes how a time is displayed.
\<close>

section \<open>Errors, principals and scopes\<close>

definition ErrUnauthenticated :: go_error where "ErrUnauthenticated = Err ''registry principal is not authenticated''"
definition ErrForbidden :: go_error where "ErrForbidden = Err ''registry operation is forbidden''"
definition ErrNotOwner :: go_error where "ErrNotOwner = Err ''registry object is owned by another principal''"
definition ErrExpired :: go_error where "ErrExpired = Err ''registry object has expired''"
definition ErrDigestMismatch :: go_error where
  "ErrDigestMismatch = Err ''registry digest does not match prepared digest''"
definition ErrInvalidTransition :: go_error where "ErrInvalidTransition = Err ''invalid registry state transition''"
definition ErrConflict :: go_error where "ErrConflict = Err ''registry operation conflicts with existing state''"

datatype scope = ScopeObservationPrepare | ScopeObservationCommit | ScopeOwnershipManage | ScopeDisputeCreate
  | ScopeRunnerSubmit | ScopeModerationReview | ScopeRegistryAdmin | OtherScope string

definition validScopes :: "scope list" where
  "validScopes = [ScopeObservationPrepare, ScopeObservationCommit, ScopeOwnershipManage, ScopeDisputeCreate,
     ScopeRunnerSubmit, ScopeModerationReview, ScopeRegistryAdmin]"

type_synonym principal_id = string

definition principal_id_Validate :: "principal_id \<Rightarrow> err" where
  "principal_id_Validate v = first_err
     [fail_if (v = [] \<or> \<not> trimmed v \<or> length v > 512) (Err ''principal ID must be 1..512 non-whitespace bytes''),
      fail_if (\<exists>r\<in>set (runes v). is_control r) (Err ''principal ID contains a control character'')]"

record principal =
  pr_id :: principal_id
  pr_scopes :: "scope list"

fun collect_scopes :: "scope list \<Rightarrow> scope list \<Rightarrow> scope list res" where
  "collect_scopes acc [] = Inr acc"
| "collect_scopes acc (s # ss) =
     (if s \<notin> set validScopes then Inl (Err ''unknown Registry scope'')
      else if s \<in> set acc then Inl (Err ''duplicate Registry scope'')
      else collect_scopes (acc @ [s]) ss)"

definition NewPrincipal :: "principal_id \<Rightarrow> scope list \<Rightarrow> principal res" where
  "NewPrincipal i scopes =
     guard_res (principal_id_Validate i)
       (bind_res (collect_scopes [] scopes) (\<lambda>ss. Inr \<lparr>pr_id = i, pr_scopes = ss\<rparr>))"

definition HasScope :: "principal \<Rightarrow> scope \<Rightarrow> bool" where
  "HasScope p s \<longleftrightarrow> s \<in> set (pr_scopes p)"

definition RequireScope :: "principal \<Rightarrow> scope \<Rightarrow> err" where
  "RequireScope p s =
     (case principal_id_Validate (pr_id p) of
        Some e \<Rightarrow> Some (Wrap ''principal ID'' ErrUnauthenticated)
      | None \<Rightarrow>
          if s \<notin> set validScopes then Some (Wrap ''unknown required scope'' ErrForbidden)
          else if \<not> HasScope p s then Some (Wrap ''scope is required'' ErrForbidden)
          else None)"

definition authorizeOwned :: "principal \<Rightarrow> principal_id \<Rightarrow> scope \<Rightarrow> err" where
  "authorizeOwned p owner s =
     (case RequireScope p s of Some e \<Rightarrow> Some e | None \<Rightarrow> fail_if (pr_id p \<noteq> owner) ErrNotOwner)"

definition validateReason :: "string \<Rightarrow> err" where
  "validateReason v = first_err
     [fail_if (v = [] \<or> \<not> trimmed v \<or> length v > 4096) (Err ''reason must be 1..4096 non-whitespace bytes''),
      fail_if (\<exists>r\<in>set (runes v). is_control r \<and> r \<noteq> 10 \<and> r \<noteq> 9)
        (Err ''reason contains a forbidden control character'')]"

lemma RequireScope_None: "RequireScope p s = None \<Longrightarrow> principal_id_Validate (pr_id p) = None \<and> HasScope p s"
  by (auto simp: RequireScope_def split: option.splits if_splits)

lemma authorizeOwned_None:
  "authorizeOwned p owner s = None \<longleftrightarrow> RequireScope p s = None \<and> pr_id p = owner"
  by (auto simp: authorizeOwned_def split: option.splits)

lemma plain_principal_id: "plain v \<Longrightarrow> length v \<le> 512 \<Longrightarrow> principal_id_Validate v = None"
  by (auto simp: principal_id_Validate_def plain_trimmed dest: plain_no_control) (simp add: plain_def)

lemma plain_reason: "plain v \<Longrightarrow> length v \<le> 4096 \<Longrightarrow> validateReason v = None"
  by (auto simp: validateReason_def plain_trimmed dest: plain_no_control) (simp add: plain_def)

lemma RequireScope_plain:
  "plain (pr_id p) \<Longrightarrow> length (pr_id p) \<le> 512 \<Longrightarrow> s \<in> set validScopes \<Longrightarrow> s \<in> set (pr_scopes p) \<Longrightarrow> RequireScope p s = None"
  by (simp add: RequireScope_def plain_principal_id HasScope_def)

section \<open>Ingest sessions\<close>

datatype ingest_status = IngestPrepared | IngestStaged | IngestCommitted | IngestValidating | IngestQuarantined
  | IngestPublished | OtherIngest string

record ingest =
  in_SessionID :: instance_id
  in_Owner :: principal_id
  in_ExpectedDigest :: digest
  in_StagedDigest :: digest
  in_ExpiresAt :: time
  in_Status :: ingest_status
  in_QuarantineClass :: string

definition expired :: "time \<Rightarrow> time \<Rightarrow> bool" where
  "expired now expiresAt \<longleftrightarrow> is_zero now \<or> \<not> now < expiresAt"

definition transitionError :: go_error where
  "transitionError = Wrap ''ingest status'' ErrInvalidTransition"

definition RestoreIngest :: "ingest \<Rightarrow> ingest res" where
  "RestoreIngest s = guard_res (first_err
     [id_Validate (in_SessionID s),
      principal_id_Validate (in_Owner s),
      digest_Validate (in_ExpectedDigest s),
      fail_if (is_zero (in_ExpiresAt s)) (Err ''ingest expiry is required''),
      fail_if (in_Status s \<notin> set [IngestPrepared, IngestStaged, IngestCommitted, IngestValidating, IngestQuarantined,
                 IngestPublished]) (Err ''invalid ingest status''),
      (if in_Status s = IngestPrepared then
         fail_if (in_StagedDigest s \<noteq> [] \<or> in_QuarantineClass s \<noteq> [])
           (Err ''prepared ingest contains later lifecycle fields'')
       else fail_if (digest_Validate (in_StagedDigest s) \<noteq> None) (Err ''non-prepared ingest requires staged digest'')),
      (if in_Status s = IngestQuarantined then validateReason (in_QuarantineClass s)
       else fail_if (in_QuarantineClass s \<noteq> []) (Err ''only quarantined ingest may have a quarantine class''))])
     (Inr s)"

definition PrepareIngest :: "principal \<Rightarrow> instance_id \<Rightarrow> digest \<Rightarrow> time \<Rightarrow> time \<Rightarrow> ingest res" where
  "PrepareIngest p sessionID expectedDigest expiresAt now = guard_res (first_err
     [RequireScope p ScopeObservationPrepare,
      wrap_err ''session ID'' (id_Validate sessionID),
      wrap_err ''expected digest'' (digest_Validate expectedDigest),
      fail_if (is_zero now) (Err ''prepare time is required''),
      fail_if (\<not> now < expiresAt) (Err ''ingest expiry must be after prepare time'')])
     (Inr \<lparr>in_SessionID = sessionID, in_Owner = pr_id p, in_ExpectedDigest = expectedDigest, in_StagedDigest = [],
           in_ExpiresAt = expiresAt, in_Status = IngestPrepared, in_QuarantineClass = []\<rparr>)"

definition Stage :: "ingest \<Rightarrow> principal \<Rightarrow> digest \<Rightarrow> time \<Rightarrow> ingest \<times> err" where
  "Stage s p digest now =
     (case authorizeOwned p (in_Owner s) ScopeObservationPrepare of
        Some e \<Rightarrow> (s, Some e)
      | None \<Rightarrow>
          if digest \<noteq> in_ExpectedDigest s then (s, Some ErrDigestMismatch)
          else if in_Status s = IngestStaged \<and> in_StagedDigest s = digest then (s, None)
          else if in_Status s \<noteq> IngestPrepared then (s, Some transitionError)
          else if expired now (in_ExpiresAt s) then (s, Some ErrExpired)
          else (s\<lparr>in_StagedDigest := digest, in_Status := IngestStaged\<rparr>, None))"

definition ingest_Commit :: "ingest \<Rightarrow> principal \<Rightarrow> digest \<Rightarrow> time \<Rightarrow> ingest \<times> err" where
  "ingest_Commit s p digest now =
     (case authorizeOwned p (in_Owner s) ScopeObservationCommit of
        Some e \<Rightarrow> (s, Some e)
      | None \<Rightarrow>
          if digest \<noteq> in_ExpectedDigest s \<or> (in_StagedDigest s \<noteq> [] \<and> digest \<noteq> in_StagedDigest s)
          then (s, Some ErrDigestMismatch)
          else (case in_Status s of
              IngestCommitted \<Rightarrow> (s, None) | IngestValidating \<Rightarrow> (s, None)
            | IngestQuarantined \<Rightarrow> (s, None) | IngestPublished \<Rightarrow> (s, None)
            | IngestStaged \<Rightarrow> if expired now (in_ExpiresAt s) then (s, Some ErrExpired)
                             else (s\<lparr>in_Status := IngestCommitted\<rparr>, None)
            | _ \<Rightarrow> (s, Some transitionError)))"

definition BeginValidation :: "ingest \<Rightarrow> ingest \<times> err" where
  "BeginValidation s =
     (case in_Status s of
        IngestCommitted \<Rightarrow> (s\<lparr>in_Status := IngestValidating\<rparr>, None)
      | IngestValidating \<Rightarrow> (s, None)
      | _ \<Rightarrow> (s, Some transitionError))"

definition Publish :: "ingest \<Rightarrow> ingest \<times> err" where
  "Publish s =
     (case in_Status s of
        IngestValidating \<Rightarrow> (s\<lparr>in_Status := IngestPublished\<rparr>, None)
      | IngestPublished \<Rightarrow> (s, None)
      | _ \<Rightarrow> (s, Some transitionError))"

definition Quarantine :: "ingest \<Rightarrow> string \<Rightarrow> ingest \<times> err" where
  "Quarantine s reasonClass =
     (case validateReason reasonClass of
        Some e \<Rightarrow> (s, Some e)
      | None \<Rightarrow>
          (case in_Status s of
             IngestValidating \<Rightarrow> (s\<lparr>in_Status := IngestQuarantined, in_QuarantineClass := reasonClass\<rparr>, None)
           | IngestQuarantined \<Rightarrow> if in_QuarantineClass s = reasonClass then (s, None) else (s, Some ErrConflict)
           | _ \<Rightarrow> (s, Some transitionError)))"

datatype ingest_op = OpStage principal digest time | OpCommit principal digest time | OpBeginValidation
  | OpPublish | OpQuarantine string

definition ingest_step :: "ingest \<Rightarrow> ingest_op \<Rightarrow> ingest \<times> err" where
  "ingest_step s op = (case op of
     OpStage p d now \<Rightarrow> Stage s p d now | OpCommit p d now \<Rightarrow> ingest_Commit s p d now
   | OpBeginValidation \<Rightarrow> BeginValidation s | OpPublish \<Rightarrow> Publish s | OpQuarantine r \<Rightarrow> Quarantine s r)"

definition ingest_rank :: "ingest \<Rightarrow> nat" where
  "ingest_rank s = (case in_Status s of IngestPrepared \<Rightarrow> 0 | IngestStaged \<Rightarrow> 1 | IngestCommitted \<Rightarrow> 2
     | IngestValidating \<Rightarrow> 3 | IngestQuarantined \<Rightarrow> 4 | IngestPublished \<Rightarrow> 4 | OtherIngest _ \<Rightarrow> 0)"

text \<open>The lifecycle fields agree with the status, and staged content is the content announced.\<close>

definition ingest_inv :: "ingest \<Rightarrow> bool" where
  "ingest_inv s \<longleftrightarrow> RestoreIngest s = Inr s \<and>
     in_StagedDigest s = (if in_Status s = IngestPrepared then [] else in_ExpectedDigest s)"

lemmas ingest_op_defs = Stage_def ingest_Commit_def BeginValidation_def Publish_def Quarantine_def

lemma ingest_step_atomic: "snd (ingest_step s op) \<noteq> None \<Longrightarrow> fst (ingest_step s op) = s"
  by (cases op; cases "in_Status s") (auto simp: ingest_step_def ingest_op_defs split: option.splits if_splits)

lemma ingest_step_inv: "ingest_inv s \<Longrightarrow> ingest_inv (fst (ingest_step s op))"
  by (cases op; cases "in_Status s")
     (auto simp: ingest_step_def ingest_op_defs ingest_inv_def RestoreIngest_def split: option.splits if_splits)

lemma ingest_step_rank: "ingest_rank s \<le> ingest_rank (fst (ingest_step s op))"
  by (cases op; cases "in_Status s")
     (auto simp: ingest_step_def ingest_op_defs ingest_rank_def split: option.splits if_splits)

interpretation ingest_session: guarded_machine ingest_step ingest_inv
  by unfold_locales (auto simp: ingest_step_inv ingest_step_atomic)

interpretation ingest_session: lifecycle_machine ingest_step ingest_inv ingest_rank
  by unfold_locales (auto simp: ingest_step_rank)

lemma PrepareIngest_inv: "PrepareIngest p i d expiry now = Inr s \<Longrightarrow> 0 \<le> now \<Longrightarrow> ingest_inv s"
  by (auto simp: PrepareIngest_def ingest_inv_def RestoreIngest_def dest: RequireScope_None)


lemma ingest_step_fixed:
  "in_Owner (fst (ingest_step s op)) = in_Owner s"
  "in_ExpectedDigest (fst (ingest_step s op)) = in_ExpectedDigest s"
  "in_ExpiresAt (fst (ingest_step s op)) = in_ExpiresAt s"
  "in_SessionID (fst (ingest_step s op)) = in_SessionID s"
  by (cases op; cases "in_Status s"; simp add: ingest_step_def ingest_op_defs split: option.splits)+

lemma ingest_run_fixed:
  "in_Owner (run ingest_step s ops) = in_Owner s"
  "in_ExpectedDigest (run ingest_step s ops) = in_ExpectedDigest s"
  "in_ExpiresAt (run ingest_step s ops) = in_ExpiresAt s"
  "in_SessionID (run ingest_step s ops) = in_SessionID s"
  by (induction ops arbitrary: s) (simp_all add: ingest_step_fixed)

text \<open>A timely commit of the announced content by the owner, with the scope it needs.\<close>

definition owner_commit :: "ingest \<Rightarrow> ingest_op \<Rightarrow> bool" where
  "owner_commit s op \<longleftrightarrow> (\<exists>p now. op = OpCommit p (in_ExpectedDigest s) now \<and>
     authorizeOwned p (in_Owner s) ScopeObservationCommit = None \<and> \<not> expired now (in_ExpiresAt s))"

lemma owner_commit_fixed [simp]: "owner_commit (fst (ingest_step s op')) op \<longleftrightarrow> owner_commit s op"
  by (simp add: owner_commit_def ingest_step_fixed)

lemma ingest_step_commits:
  "ingest_rank s < 2 \<Longrightarrow> 2 \<le> ingest_rank (fst (ingest_step s op)) \<Longrightarrow>
     snd (ingest_step s op) = None \<and> owner_commit s op"
  by (cases op; cases "in_Status s")
     (auto simp: ingest_step_def ingest_op_defs ingest_rank_def owner_commit_def split: option.splits if_splits)

lemma ingest_run_commits:
  "ingest_rank s < 2 \<Longrightarrow> 2 \<le> ingest_rank (run ingest_step s ops) \<Longrightarrow>
     \<exists>op\<in>set (accepted ingest_step s ops). owner_commit s op"
proof (induction ops arbitrary: s)
  case (Cons op ops)
  show ?case
  proof (cases "2 \<le> ingest_rank (fst (ingest_step s op))")
    case True
    with ingest_step_commits [OF Cons.prems(1)] show ?thesis by auto
  next
    case False
    with Cons.IH [of "fst (ingest_step s op)"] Cons.prems(2) show ?thesis by auto
  qed
qed simp

lemma ingest_commit_replay:
  assumes "ingest_inv t" "2 \<le> ingest_rank t" "authorizeOwned p (in_Owner t) ScopeObservationCommit = None"
  shows "ingest_Commit t p (in_ExpectedDigest t) now = (t, None)"
  using assms by (cases "in_Status t") (auto simp: ingest_Commit_def ingest_rank_def ingest_inv_def)

lemma ingest_terminal_step: "ingest_rank t = 4 \<Longrightarrow> fst (ingest_step t op) = t"
  by (cases op; cases "in_Status t")
     (auto simp: ingest_step_def ingest_op_defs ingest_rank_def split: option.splits)

lemma ingest_terminal: "ingest_rank t = 4 \<Longrightarrow> run ingest_step t ops = t"
  by (induction ops) (simp_all add: ingest_terminal_step)

text \<open>
  C30.  The two-phase upload, over every history of calls by any principals: a prepared session
  always has a snapshot that \<open>RestoreIngest\<close> restores to itself, keeps its identity, owner,
  announced digest and expiry, and holds no content but the announced one; it is committed,
  validated, quarantined or published only if its owner committed the announced digest, with the
  commit scope and before the expiry; replaying that commit succeeds at any later time and changes
  nothing; and a quarantined or published session never changes again.
\<close>

theorem ingest_two_phase:
  assumes "PrepareIngest p i d expiry now = Inr s" "0 \<le> now"
  shows "let t = run ingest_step s ops in
    RestoreIngest t = Inr t \<and>
    (in_SessionID t, in_Owner t, in_ExpectedDigest t, in_ExpiresAt t) = (i, pr_id p, d, expiry) \<and>
    in_StagedDigest t \<in> {[], d} \<and>
    (2 \<le> ingest_rank t \<longrightarrow>
      (\<exists>q at. OpCommit q d at \<in> set (accepted ingest_step s ops) \<and> pr_id q = pr_id p \<and>
        HasScope q ScopeObservationCommit \<and> at < expiry) \<and>
      (\<forall>q later. authorizeOwned q (pr_id p) ScopeObservationCommit = None \<longrightarrow>
        ingest_Commit t q d later = (t, None))) \<and>
    (in_Status t \<in> {IngestQuarantined, IngestPublished} \<longrightarrow> (\<forall>more_ops. run ingest_step t more_ops = t))"
proof -
  let ?t = "run ingest_step s ops"
  have inv: "ingest_inv ?t" by (intro ingest_session.run_invar PrepareIngest_inv [OF assms])
  have s: "in_SessionID s = i" "in_Owner s = pr_id p" "in_ExpectedDigest s = d" "in_ExpiresAt s = expiry"
    "ingest_rank s = 0"
    using assms(1) by (auto simp: PrepareIngest_def ingest_rank_def)
  have "\<exists>q at. OpCommit q d at \<in> set (accepted ingest_step s ops) \<and> pr_id q = pr_id p \<and>
        HasScope q ScopeObservationCommit \<and> at < expiry" if "2 \<le> ingest_rank ?t"
    using ingest_run_commits [of s ops] that s
    by (auto simp: owner_commit_def authorizeOwned_None expired_def dest: RequireScope_None)
  moreover have "ingest_Commit ?t q d later = (?t, None)"
    if "2 \<le> ingest_rank ?t" "authorizeOwned q (pr_id p) ScopeObservationCommit = None" for q later
    using ingest_commit_replay [OF inv that(1), of q] that(2) by (simp add: ingest_run_fixed s)
  moreover have "run ingest_step ?t more_ops = ?t" if "in_Status ?t \<in> {IngestQuarantined, IngestPublished}" for more_ops
    using that by (intro ingest_terminal) (auto simp: ingest_rank_def)
  ultimately show ?thesis using inv by (auto simp: Let_def ingest_inv_def ingest_run_fixed s)
qed

definition alice :: principal where
  "alice = \<lparr>pr_id = ''alice'', pr_scopes = [ScopeObservationPrepare, ScopeObservationCommit]\<rparr>"

definition upload_ops :: "ingest_op list" where
  "upload_ops = [OpStage alice zero_digest 2, OpCommit alice zero_digest 3, OpBeginValidation, OpPublish]"

lemma alice_scopes [simp]:
  "RequireScope alice ScopeObservationPrepare = None" "RequireScope alice ScopeObservationCommit = None"
  by (simp_all add: RequireScope_plain alice_def plain_def code_def validScopes_def)

lemma alice_id [simp]: "pr_id alice = ''alice''"
  by (simp add: alice_def)

definition upload_session :: ingest where
  "upload_session = \<lparr>in_SessionID = uuid_a, in_Owner = ''alice'', in_ExpectedDigest = zero_digest, in_StagedDigest = [],
     in_ExpiresAt = 10, in_Status = IngestPrepared, in_QuarantineClass = []\<rparr>"

lemma upload_session_prepared: "PrepareIngest alice uuid_a zero_digest 10 1 = Inr upload_session"
  by (simp add: PrepareIngest_def upload_session_def)

lemma upload_session_published: "in_Status (run ingest_step upload_session upload_ops) = IngestPublished"
  by (simp add: upload_ops_def upload_session_def ingest_step_def ingest_op_defs authorizeOwned_def expired_def)

theorem ingest_two_phase_witness:
  "let t = run ingest_step upload_session upload_ops in
     in_Status t = IngestPublished \<and> ingest_Commit t alice zero_digest 99 = (t, None)"
proof -
  have "2 \<le> ingest_rank (run ingest_step upload_session upload_ops)"
    by (simp add: ingest_rank_def upload_session_published)
  moreover have "authorizeOwned alice (pr_id alice) ScopeObservationCommit = None" by (simp add: authorizeOwned_None)
  ultimately have "ingest_Commit (run ingest_step upload_session upload_ops) alice zero_digest 99 =
      (run ingest_step upload_session upload_ops, None)"
    using ingest_two_phase [OF upload_session_prepared, of upload_ops] unfolding Let_def by simp
  with upload_session_published show ?thesis unfolding Let_def by (intro conjI)
qed

text \<open>A moderator, for the witnesses of the moderated components.\<close>

definition moderator :: principal where
  "moderator = \<lparr>pr_id = ''mod'', pr_scopes = [ScopeModerationReview]\<rparr>"

lemma moderator_scope [simp]: "RequireScope moderator ScopeModerationReview = None"
  by (simp add: RequireScope_plain moderator_def plain_def code_def validScopes_def)

end
