(* ===== verification/RegistryPurge.thy ===== *)
theory RegistryPurge
  imports RegistryDomain
begin

text \<open>
  The purge of sensitive material (\<open>internal/registry/purge.go\<close>): a moderator requests it, starts it
  and reports each of the five stores; the request completes with the last store.  A snapshot is a
  copy of the fields, so one record models the object and its snapshot.
\<close>

section \<open>The purge request\<close>

definition ActiveStorePurgeTarget :: duration where
  "ActiveStorePurgeTarget = 24 * hour"

datatype purge_reason = PurgeSecret | PurgePII | PurgeUnlawful | PurgeUnauthorized | OtherReason string

definition purge_reason_validate :: "purge_reason \<Rightarrow> err" where
  "purge_reason_validate r = fail_if (r \<notin> set [PurgeSecret, PurgePII, PurgeUnlawful, PurgeUnauthorized])
     (Err ''invalid sensitive purge reason'')"

datatype purge_target = PurgeObjectStore | PurgeCDN | PurgeSearch | PurgeCache | PurgePublicPage | OtherTarget string

definition allPurgeTargets :: "purge_target list" where
  "allPurgeTargets = [PurgeObjectStore, PurgeCDN, PurgeSearch, PurgeCache, PurgePublicPage]"

text \<open>The empty target of the events that are about the whole request.\<close>

abbreviation no_target :: purge_target where
  "no_target \<equiv> OtherTarget []"

datatype target_status = PurgeTargetPending | PurgeTargetPurged | PurgeTargetNotApplicable | OtherTargetStatus string

definition target_status_text :: "target_status \<Rightarrow> string" where
  "target_status_text s = (case s of PurgeTargetPending \<Rightarrow> ''pending'' | PurgeTargetPurged \<Rightarrow> ''purged''
     | PurgeTargetNotApplicable \<Rightarrow> ''not_applicable'' | OtherTargetStatus t \<Rightarrow> t)"

datatype purge_status = PurgeRequested | PurgeInProgress | PurgeCompleted

record purge_event =
  pe_Sequence :: nat
  pe_Actor :: principal_id
  pe_Action :: string
  pe_Target :: purge_target
  pe_At :: time

record purge =
  pg_EventID :: instance_id
  pg_Reason :: purge_reason
  pg_Status :: purge_status
  pg_RequestedAt :: time
  pg_Deadline :: time
  pg_CompletedAt :: time
  pg_Targets :: "(purge_target, target_status) gomap"
  pg_Events :: "purge_event list"

definition appendEvent :: "principal_id \<Rightarrow> string \<Rightarrow> purge_target \<Rightarrow> time \<Rightarrow> purge \<Rightarrow> purge" where
  "appendEvent actor action target now r = r\<lparr>pg_Events := pg_Events r @
     [\<lparr>pe_Sequence = length (pg_Events r) + 1, pe_Actor = actor, pe_Action = action, pe_Target = target, pe_At = now\<rparr>]\<rparr>"

definition NewPurgeRequest :: "principal \<Rightarrow> instance_id \<Rightarrow> purge_reason \<Rightarrow> time \<Rightarrow> purge res" where
  "NewPurgeRequest p eventID reason now = guard_res (first_err
     [RequireScope p ScopeModerationReview,
      wrap_err ''purge event ID'' (id_Validate eventID),
      purge_reason_validate reason,
      fail_if (is_zero now) (Err ''purge request time is required'')])
     (Inr (appendEvent (pr_id p) ''requested'' no_target now
        \<lparr>pg_EventID = eventID, pg_Reason = reason, pg_Status = PurgeRequested, pg_RequestedAt = now,
         pg_Deadline = now + ActiveStorePurgeTarget, pg_CompletedAt = 0,
         pg_Targets = map (\<lambda>t. (t, PurgeTargetPending)) allPurgeTargets, pg_Events = []\<rparr>))"

definition purge_Start :: "purge \<Rightarrow> principal \<Rightarrow> time \<Rightarrow> purge \<times> err" where
  "purge_Start r p now =
     (case RequireScope p ScopeModerationReview of
        Some e \<Rightarrow> (r, Some e)
      | None \<Rightarrow>
          if pg_Status r = PurgeInProgress then (r, None)
          else if pg_Status r \<noteq> PurgeRequested then (r, Some ErrInvalidTransition)
          else if is_zero now then (r, Some (Err ''purge start time is required''))
          else (appendEvent (pr_id p) ''started'' no_target now (r\<lparr>pg_Status := PurgeInProgress\<rparr>), None))"

definition allTargetsTerminal :: "purge \<Rightarrow> bool" where
  "allTargetsTerminal r \<longleftrightarrow> (\<forall>kv\<in>set (pg_Targets r). snd kv \<noteq> PurgeTargetPending)"

definition CompleteTarget :: "purge \<Rightarrow> principal \<Rightarrow> purge_target \<Rightarrow> target_status \<Rightarrow> time \<Rightarrow> purge \<times> err" where
  "CompleteTarget r p target status now =
     (case RequireScope p ScopeModerationReview of
        Some e \<Rightarrow> (r, Some e)
      | None \<Rightarrow>
          (case aget (pg_Targets r) target of
             None \<Rightarrow> (r, Some (Err ''unknown purge target''))
           | Some current \<Rightarrow>
               if status \<noteq> PurgeTargetPurged \<and> status \<noteq> PurgeTargetNotApplicable
               then (r, Some (Err ''invalid terminal purge target status''))
               else if pg_Status r = PurgeCompleted \<and> current = status then (r, None)
               else if pg_Status r \<noteq> PurgeInProgress then (r, Some ErrInvalidTransition)
               else if current = status then (r, None)
               else if current \<noteq> PurgeTargetPending then (r, Some ErrConflict)
               else if is_zero now then (r, Some (Err ''purge target completion time is required''))
               else
                 (let r1 = appendEvent (pr_id p) (target_status_text status) target now
                             (r\<lparr>pg_Targets := aput target status (pg_Targets r)\<rparr>)
                  in if allTargetsTerminal r1
                     then (appendEvent (pr_id p) ''completed'' no_target now
                             (r1\<lparr>pg_Status := PurgeCompleted, pg_CompletedAt := now\<rparr>), None)
                     else (r1, None))))"

definition MissedDeadline :: "purge \<Rightarrow> time \<Rightarrow> bool" where
  "MissedDeadline r now \<longleftrightarrow> pg_Status r \<noteq> PurgeCompleted \<and> \<not> is_zero now \<and> \<not> now < pg_Deadline r"

datatype purge_op = OpPurgeStart principal time | OpCompleteTarget principal purge_target target_status time

definition purge_step :: "purge \<Rightarrow> purge_op \<Rightarrow> purge \<times> err" where
  "purge_step r op = (case op of OpPurgeStart p now \<Rightarrow> purge_Start r p now
     | OpCompleteTarget p t s now \<Rightarrow> CompleteTarget r p t s now)"

section \<open>Invariant\<close>

text \<open>The events about stores, one for each store that was reported.\<close>

definition reported :: "purge \<Rightarrow> (purge_target \<times> string) list" where
  "reported r = map (\<lambda>e. (pe_Target e, pe_Action e)) (filter (\<lambda>e. pe_Target e \<noteq> no_target) (pg_Events r))"

definition sequenced :: "purge \<Rightarrow> bool" where
  "sequenced r \<longleftrightarrow> map pe_Sequence (pg_Events r) = [1..<Suc (length (pg_Events r))]"

definition purge_inv :: "purge \<Rightarrow> bool" where
  "purge_inv r \<longleftrightarrow>
     akeys (pg_Targets r) = allPurgeTargets \<and>
     (\<forall>t s. aget (pg_Targets r) t = Some s \<longrightarrow> s \<in> {PurgeTargetPending, PurgeTargetPurged, PurgeTargetNotApplicable}) \<and>
     (pg_Status r = PurgeRequested \<longrightarrow> (\<forall>t s. aget (pg_Targets r) t = Some s \<longrightarrow> s = PurgeTargetPending)) \<and>
     (pg_Status r = PurgeCompleted \<longleftrightarrow> allTargetsTerminal r) \<and>
     sequenced r \<and>
     distinct (map fst (reported r)) \<and>
     (\<forall>t a. (t, a) \<in> set (reported r) \<longleftrightarrow>
        (\<exists>s. aget (pg_Targets r) t = Some s \<and> s \<noteq> PurgeTargetPending \<and> a = target_status_text s))"

definition purge_rank :: "purge \<Rightarrow> nat" where
  "purge_rank r = (case pg_Status r of PurgeRequested \<Rightarrow> 0 | PurgeInProgress \<Rightarrow> 1 | PurgeCompleted \<Rightarrow> 2)"

lemma akeys_aput_same: "ahas m k \<Longrightarrow> akeys (aput k v m) = akeys m"
  by (induction m) (auto simp: aput_def akeys_def ahas_def aget_def split: if_splits)

lemma allTargets_distinct [simp]: "distinct allPurgeTargets" "no_target \<notin> set allPurgeTargets"
  by (simp_all add: allPurgeTargets_def)

lemma allTargetsTerminal_aget:
  "map_ok (pg_Targets r) \<Longrightarrow> allTargetsTerminal r \<longleftrightarrow> (\<forall>t. aget (pg_Targets r) t \<noteq> Some PurgeTargetPending)"
  by (auto simp: allTargetsTerminal_def aget_iff)

lemma appendEvent_simps [simp]:
  "pg_Status (appendEvent a act t now r) = pg_Status r" "pg_Targets (appendEvent a act t now r) = pg_Targets r"
  "pg_Deadline (appendEvent a act t now r) = pg_Deadline r" "pg_EventID (appendEvent a act t now r) = pg_EventID r"
  "pg_Reason (appendEvent a act t now r) = pg_Reason r" "pg_RequestedAt (appendEvent a act t now r) = pg_RequestedAt r"
  "pg_CompletedAt (appendEvent a act t now r) = pg_CompletedAt r"
  "allTargetsTerminal (appendEvent a act t now r) = allTargetsTerminal r"
  "reported (appendEvent a act t now r) = reported r @ (if t = no_target then [] else [(t, act)])"
  by (simp_all add: appendEvent_def allTargetsTerminal_def reported_def)

lemma appendEvent_prefix [simp]: "prefix (pg_Events r) (pg_Events (appendEvent a act t now r))"
  by (simp add: appendEvent_def)

lemma sequenced_appendEvent [simp]: "sequenced r \<Longrightarrow> sequenced (appendEvent a act t now r)"
  by (simp add: sequenced_def appendEvent_def)

lemma purge_field_updates [simp]:
  "sequenced (r\<lparr>pg_Status := x\<rparr>) = sequenced r" "sequenced (r\<lparr>pg_CompletedAt := c\<rparr>) = sequenced r"
  "sequenced (r\<lparr>pg_Targets := m\<rparr>) = sequenced r"
  "reported (r\<lparr>pg_Status := x\<rparr>) = reported r" "reported (r\<lparr>pg_CompletedAt := c\<rparr>) = reported r"
  "reported (r\<lparr>pg_Targets := m\<rparr>) = reported r"
  "allTargetsTerminal (r\<lparr>pg_Status := x\<rparr>) = allTargetsTerminal r"
  "allTargetsTerminal (r\<lparr>pg_CompletedAt := c\<rparr>) = allTargetsTerminal r"
  by (simp_all add: sequenced_def reported_def allTargetsTerminal_def)

lemma target_status_text_inj:
  "s \<in> {PurgeTargetPurged, PurgeTargetNotApplicable} \<Longrightarrow> s' \<in> {PurgeTargetPurged, PurgeTargetNotApplicable} \<Longrightarrow>
     target_status_text s = target_status_text s' \<Longrightarrow> s = s'"
  by (auto simp: target_status_text_def)

lemma purge_inv_ok: "purge_inv r \<Longrightarrow> map_ok (pg_Targets r)"
  by (simp add: purge_inv_def map_ok_def)

lemma purge_inv_target: "purge_inv r \<Longrightarrow> aget (pg_Targets r) t = Some s \<Longrightarrow> t \<in> set allPurgeTargets"
  by (metis ahas_def mem_Collect_eq option.distinct(1) purge_inv_def set_akeys)

lemma purge_inv_no_target: "purge_inv r \<Longrightarrow> aget (pg_Targets r) no_target = None"
  using purge_inv_target allTargets_distinct(2) by (metis not_Some_eq)

lemma purge_Start_inv: "purge_inv r \<Longrightarrow> purge_inv (fst (purge_Start r p now))"
  by (auto simp: purge_Start_def purge_inv_def split: option.splits)

lemma report_target_inv:
  assumes "purge_inv r" "pg_Status r = PurgeInProgress" "aget (pg_Targets r) t = Some PurgeTargetPending"
    and s: "s \<in> {PurgeTargetPurged, PurgeTargetNotApplicable}"
    and r1: "r1 = appendEvent a (target_status_text s) t now (r\<lparr>pg_Targets := aput t s (pg_Targets r)\<rparr>)"
  shows "purge_inv (if allTargetsTerminal r1 then appendEvent a ''completed'' no_target now
            (r1\<lparr>pg_Status := PurgeCompleted, pg_CompletedAt := now\<rparr>) else r1)"
proof -
  have t: "t \<noteq> no_target" using assms(1,3) purge_inv_no_target by fastforce
  have keys: "akeys (aput t s (pg_Targets r)) = allPurgeTargets"
    using assms(1,3) by (simp add: akeys_aput_same ahas_def purge_inv_def)
  have rep: "reported r1 = reported r @ [(t, target_status_text s)]" using t by (simp add: r1)
  have fresh: "t \<notin> fst ` set (reported r)"
    using assms(1,3) by (auto simp: purge_inv_def)
  have iff: "(t', a') \<in> set (reported r1) \<longleftrightarrow>
      (\<exists>s'. aget (pg_Targets r1) t' = Some s' \<and> s' \<noteq> PurgeTargetPending \<and> a' = target_status_text s')" for t' a'
  proof -
    have old: "(t', a') \<in> set (reported r) \<longleftrightarrow>
        (\<exists>s'. aget (pg_Targets r) t' = Some s' \<and> s' \<noteq> PurgeTargetPending \<and> a' = target_status_text s')"
      using assms(1) by (simp add: purge_inv_def)
    have tg: "pg_Targets r1 = aput t s (pg_Targets r)" by (simp add: r1)
    show ?thesis
    proof (cases "t' = t")
      case True
      have "(t, a') \<notin> set (reported r)" using fresh by (metis fst_conv image_eqI)
      moreover have "s \<noteq> PurgeTargetPending" using s by auto
      ultimately show ?thesis by (simp add: rep tg True)
    next
      case False
      then show ?thesis using old by (simp add: rep tg)
    qed
  qed
  show ?thesis
    using assms(1,2) s keys fresh iff
    by (auto simp: purge_inv_def r1 t)
qed

lemma CompleteTarget_inv: "purge_inv r \<Longrightarrow> purge_inv (fst (CompleteTarget r p t s now))"
  using report_target_inv [of r t s "appendEvent (pr_id p) (target_status_text s) t now (r\<lparr>pg_Targets := aput t s (pg_Targets r)\<rparr>)"
      "pr_id p" now]
  by (auto simp: CompleteTarget_def Let_def split: option.splits if_splits)

lemma purge_step_inv: "purge_inv r \<Longrightarrow> purge_inv (fst (purge_step r op))"
  by (cases op) (simp_all add: purge_step_def purge_Start_inv CompleteTarget_inv)

lemma purge_step_atomic: "snd (purge_step r op) \<noteq> None \<Longrightarrow> fst (purge_step r op) = r"
  by (cases op) (auto simp: purge_step_def purge_Start_def CompleteTarget_def Let_def split: option.splits if_splits)

lemma purge_step_rank: "purge_rank r \<le> purge_rank (fst (purge_step r op))"
  by (cases op) (auto simp: purge_step_def purge_Start_def CompleteTarget_def Let_def purge_rank_def split: option.splits)

lemma purge_step_log: "prefix (pg_Events r) (pg_Events (fst (purge_step r op)))"
  by (cases op)
     (auto simp: purge_step_def purge_Start_def CompleteTarget_def Let_def appendEvent_def split: option.splits)

interpretation purge_request: guarded_machine purge_step purge_inv
  by unfold_locales (auto simp: purge_step_inv purge_step_atomic)

interpretation purge_request: lifecycle_machine purge_step purge_inv purge_rank
  by unfold_locales (rule purge_step_rank)

interpretation purge_request: journal_machine purge_step purge_inv pg_Events
  by unfold_locales (rule purge_step_log)

lemma NewPurgeRequest_inv: "NewPurgeRequest p i reason now = Inr r \<Longrightarrow> purge_inv r"
  by (auto simp: NewPurgeRequest_def purge_inv_def sequenced_def appendEvent_def allTargetsTerminal_def reported_def
      akeys_def allPurgeTargets_def aget_def split: if_splits)

lemma purge_step_fixed:
  "pg_Deadline (fst (purge_step r op)) = pg_Deadline r"
  by (cases op) (auto simp: purge_step_def purge_Start_def CompleteTarget_def Let_def split: option.splits)

lemma purge_run_fixed: "pg_Deadline (run purge_step r ops) = pg_Deadline r"
  by (induction ops arbitrary: r) (simp_all add: purge_step_fixed)

lemma purge_step_target:
  "aget (pg_Targets r) t = Some s \<Longrightarrow> s \<noteq> PurgeTargetPending \<Longrightarrow> aget (pg_Targets (fst (purge_step r op))) t = Some s"
  by (cases op) (auto simp: purge_step_def purge_Start_def CompleteTarget_def Let_def split: option.splits)

lemma purge_run_target:
  "aget (pg_Targets r) t = Some s \<Longrightarrow> s \<noteq> PurgeTargetPending \<Longrightarrow> aget (pg_Targets (run purge_step r ops)) t = Some s"
  by (induction ops arbitrary: r) (simp_all add: purge_step_target)

lemma purge_completed_iff:
  "purge_inv r \<Longrightarrow> pg_Status r = PurgeCompleted \<longleftrightarrow> (\<forall>t. aget (pg_Targets r) t \<noteq> Some PurgeTargetPending)"
  by (simp add: purge_inv_def allTargetsTerminal_aget purge_inv_ok map_ok_def)

section \<open>Progress\<close>

text \<open>The calls of a moderator who starts the purge and reports every store.\<close>

definition purge_script :: "principal \<Rightarrow> time \<Rightarrow> purge_op list" where
  "purge_script p now = OpPurgeStart p now # map (\<lambda>t. OpCompleteTarget p t PurgeTargetPurged now) allPurgeTargets"

lemma CompleteTarget_progress:
  assumes "purge_inv r" "RequireScope p ScopeModerationReview = None" "now \<noteq> 0" "pg_Status r \<noteq> PurgeRequested"
    "t \<in> set allPurgeTargets"
  shows "aget (pg_Targets (fst (purge_step r (OpCompleteTarget p t PurgeTargetPurged now)))) t \<noteq> Some PurgeTargetPending"
proof -
  from assms(1,5) have "ahas (pg_Targets r) t" using set_akeys [of "pg_Targets r"] by (auto simp: purge_inv_def)
  then obtain s where s: "aget (pg_Targets r) t = Some s" by (auto simp: ahas_def)
  have "pg_Status r = PurgeInProgress \<or> pg_Status r = PurgeCompleted" using assms(4) by (cases "pg_Status r") auto
  then show ?thesis
  proof
    assume "pg_Status r = PurgeInProgress"
    with s assms(2,3) show ?thesis by (auto simp: purge_step_def CompleteTarget_def Let_def)
  next
    assume "pg_Status r = PurgeCompleted"
    then have "s \<noteq> PurgeTargetPending" using s purge_completed_iff [OF assms(1)] by auto
    then show ?thesis using purge_step_target [OF s] by auto
  qed
qed

lemma report_all_progress:
  assumes "purge_inv r" "RequireScope p ScopeModerationReview = None" "now \<noteq> 0" "pg_Status r \<noteq> PurgeRequested"
    "set ts \<subseteq> set allPurgeTargets" "t \<in> set ts"
  shows "aget (pg_Targets (run purge_step r (map (\<lambda>t. OpCompleteTarget p t PurgeTargetPurged now) ts))) t
           \<noteq> Some PurgeTargetPending"
  using assms
proof (induction ts arbitrary: r)
  case (Cons u us)
  let ?r = "fst (purge_step r (OpCompleteTarget p u PurgeTargetPurged now))"
  have inv: "purge_inv ?r" by (rule purge_step_inv [OF Cons.prems(1)])
  have status: "pg_Status ?r \<noteq> PurgeRequested"
    using purge_step_rank [of r "OpCompleteTarget p u PurgeTargetPurged now"] Cons.prems(4)
    by (cases "pg_Status r") (auto simp: purge_rank_def)
  show ?case
  proof (cases "t \<in> set us")
    case True
    with Cons.IH [OF inv Cons.prems(2,3) status] Cons.prems(5) show ?thesis by simp
  next
    case False
    with Cons.prems(6) have "t = u" by simp
    with CompleteTarget_progress [OF Cons.prems(1-4), of u] Cons.prems(5)
    have "aget (pg_Targets ?r) t \<noteq> Some PurgeTargetPending" by simp
    moreover have "ahas (pg_Targets ?r) t" using inv Cons.prems(5) \<open>t = u\<close> set_akeys [of "pg_Targets ?r"]
      by (auto simp: purge_inv_def)
    ultimately obtain s where "aget (pg_Targets ?r) t = Some s" "s \<noteq> PurgeTargetPending" by (auto simp: ahas_def)
    from purge_run_target [OF this] \<open>s \<noteq> PurgeTargetPending\<close> show ?thesis by simp
  qed
qed simp

lemma purge_script_completes:
  assumes "purge_inv r" "RequireScope p ScopeModerationReview = None" "now \<noteq> 0"
  shows "pg_Status (run purge_step r (purge_script p now)) = PurgeCompleted"
proof -
  let ?r = "fst (purge_step r (OpPurgeStart p now))" and ?t = "run purge_step r (purge_script p now)"
  have inv: "purge_inv ?r" by (rule purge_step_inv [OF assms(1)])
  have "pg_Status ?r \<noteq> PurgeRequested" using assms(2,3) by (auto simp: purge_step_def purge_Start_def)
  note prog = report_all_progress [OF inv assms(2,3) this subset_refl]
  have t: "purge_inv ?t" by (rule purge_request.run_invar [OF assms(1)])
  have "aget (pg_Targets ?t) x \<noteq> Some PurgeTargetPending" for x
    using purge_inv_target [OF t, of x PurgeTargetPending] prog [of x] by (auto simp: purge_script_def)
  then show ?thesis using purge_completed_iff [OF t] by simp
qed

lemma reported_set: "fst ` set (reported r) = pe_Target ` {e \<in> set (pg_Events r). pe_Target e \<noteq> no_target}"
  by (force simp: reported_def image_iff)

lemma reported_targets:
  "purge_inv r \<Longrightarrow> t \<in> fst ` set (reported r) \<longleftrightarrow> (\<exists>s. aget (pg_Targets r) t = Some s \<and> s \<noteq> PurgeTargetPending)"
proof -
  assume "purge_inv r"
  then have "(t, a) \<in> set (reported r) \<longleftrightarrow>
      (\<exists>s. aget (pg_Targets r) t = Some s \<and> s \<noteq> PurgeTargetPending \<and> a = target_status_text s)" for a
    by (simp add: purge_inv_def)
  moreover have "t \<in> fst ` set (reported r) \<longleftrightarrow> (\<exists>a. (t, a) \<in> set (reported r))"
    by force
  ultimately show ?thesis by simp
qed

lemma purge_completed_events:
  assumes "purge_inv r"
  shows "pg_Status r = PurgeCompleted \<longleftrightarrow> set allPurgeTargets \<subseteq> pe_Target ` set (pg_Events r)"
proof -
  have keys: "ahas (pg_Targets r) t \<longleftrightarrow> t \<in> set allPurgeTargets" for t
    using assms set_akeys [of "pg_Targets r"] by (auto simp: purge_inv_def)
  have "pg_Status r = PurgeCompleted \<longleftrightarrow> (\<forall>t\<in>set allPurgeTargets. t \<in> fst ` set (reported r))"
    unfolding purge_completed_iff [OF assms] reported_targets [OF assms]
    using keys by (metis ahas_def option.exhaust option.inject option.distinct(1))
  also have "\<dots> \<longleftrightarrow> set allPurgeTargets \<subseteq> pe_Target ` set (pg_Events r)"
    unfolding reported_set using allTargets_distinct(2) by (fastforce simp: image_iff subset_iff)
  finally show ?thesis .
qed

section \<open>Properties\<close>

text \<open>
  C31.  The record of a purge, over every history of calls: the request is completed exactly when
  the journal names each of the five stores; no store is reported twice; the events are numbered
  from one without gaps and later calls only append to them; a store once reported keeps its
  status; a refused call changes nothing; and the deadline is missed exactly when the request is
  still open 24 hours after it was made.
\<close>

theorem purge_record:
  assumes "NewPurgeRequest p i reason now = Inr r"
  shows "let t = run purge_step r ops in
    (pg_Status t = PurgeCompleted \<longleftrightarrow> set allPurgeTargets \<subseteq> pe_Target ` set (pg_Events t)) \<and>
    distinct (map fst (reported t)) \<and>
    map pe_Sequence (pg_Events t) = [1..<Suc (length (pg_Events t))] \<and>
    (\<forall>later. prefix (pg_Events t) (pg_Events (run purge_step t later))) \<and>
    (\<forall>later target s. aget (pg_Targets t) target = Some s \<and> s \<noteq> PurgeTargetPending \<longrightarrow>
       aget (pg_Targets (run purge_step t later)) target = Some s) \<and>
    (\<forall>op. snd (purge_step t op) \<noteq> None \<longrightarrow> fst (purge_step t op) = t) \<and>
    (\<forall>at. 0 < at \<longrightarrow> MissedDeadline t at \<longleftrightarrow> pg_Status t \<noteq> PurgeCompleted \<and> now + 24 * hour \<le> at)"
proof -
  let ?t = "run purge_step r ops"
  have inv: "purge_inv ?t" by (rule purge_request.run_invar [OF NewPurgeRequest_inv [OF assms]])
  have "pg_Deadline ?t = now + 24 * hour"
    using assms by (auto simp: purge_run_fixed NewPurgeRequest_def ActiveStorePurgeTarget_def)
  then have "MissedDeadline ?t at \<longleftrightarrow> pg_Status ?t \<noteq> PurgeCompleted \<and> now + 24 * hour \<le> at" if "0 < at" for at
    using that by (auto simp: MissedDeadline_def)
  moreover have "distinct (map fst (reported ?t))" "sequenced ?t" using inv by (simp_all add: purge_inv_def)
  ultimately show ?thesis
    unfolding Let_def sequenced_def
    by (intro conjI allI impI purge_completed_events [OF inv] purge_request.run_log [OF inv] purge_step_atomic)
       (auto intro: purge_run_target)
qed

text \<open>
   A purge can always be finished: whatever calls were made before, and by whom, once a
  moderator starts the request and reports the five stores it is completed, and it stays completed.
\<close>

theorem purge_can_complete:
  assumes "NewPurgeRequest q i reason at = Inr r" "RequireScope p ScopeModerationReview = None" "now \<noteq> 0"
  shows "let t = run purge_step (run purge_step r ops) (purge_script p now) in
    pg_Status t = PurgeCompleted \<and> (\<forall>later. pg_Status (run purge_step t later) = PurgeCompleted)"
proof -
  let ?s = "run purge_step r ops"
  let ?t = "run purge_step ?s (purge_script p now)"
  have s: "purge_inv ?s" by (rule purge_request.run_invar [OF NewPurgeRequest_inv [OF assms(1)]])
  have finished: "pg_Status ?t = PurgeCompleted" by (rule purge_script_completes [OF s assms(2,3)])
  have "pg_Status (run purge_step ?t later) = PurgeCompleted" for later
    using purge_request.run_rank [OF purge_request.run_invar [OF s], of "purge_script p now" later] finished
    by (cases "pg_Status (run purge_step ?t later)") (simp_all add: purge_rank_def)
  with finished show ?thesis by (simp add: Let_def)
qed

lemma moderator_request: "\<exists>r. NewPurgeRequest moderator uuid_a PurgeSecret 1 = Inr r"
  by (simp add: NewPurgeRequest_def purge_reason_validate_def)

theorem purge_record_witness:
  "\<exists>r. NewPurgeRequest moderator uuid_a PurgeSecret 1 = Inr r \<and>
    (MissedDeadline r (25 * hour) \<longleftrightarrow> pg_Status r \<noteq> PurgeCompleted)"
proof -
  obtain r where r: "NewPurgeRequest moderator uuid_a PurgeSecret 1 = Inr r" using moderator_request by auto
  have "MissedDeadline r (25 * hour) \<longleftrightarrow> pg_Status r \<noteq> PurgeCompleted"
    using purge_record [OF r, of "[]"] by (simp add: Let_def hour_def)
  with r show ?thesis by (intro exI [of _ r] conjI)
qed

theorem purge_can_complete_witness:
  "\<exists>r. NewPurgeRequest moderator uuid_a PurgeSecret 1 = Inr r \<and>
    pg_Status (run purge_step r (purge_script moderator 2)) = PurgeCompleted"
proof -
  obtain r where r: "NewPurgeRequest moderator uuid_a PurgeSecret 1 = Inr r" using moderator_request by auto
  have "pg_Status (run purge_step r (purge_script moderator 2)) = PurgeCompleted"
    using purge_can_complete [OF r moderator_scope, of 2 "[]"] by (simp add: Let_def)
  with r show ?thesis by (intro exI [of _ r] conjI)
qed

end
