(* ===== verification/RegistryOwnership.thy ===== *)
theory RegistryOwnership
  imports RegistryDomain
begin

text \<open>
  Subject namespaces, ownership challenges and ownership of a namespace
  (\<open>internal/registry/ownership.go\<close>).  A challenge is answered outside the program: \<open>Verify\<close> records
  the digest of the evidence.  A verified challenge gives an ownership with an end of validity;
  it can be revoked by its owner or by a moderator, or transferred by its owner to the requester
  of another verified challenge.  The persistent snapshot of a challenge and the snapshot of an
  ownership copy every field, so one record models the object and the snapshot.
\<close>

section \<open>Subject namespaces\<close>

type_synonym subject_namespace = string

text \<open>\<open>strings.Split\<close> with a one-byte separator: always at least one part.\<close>

fun split_on :: "char \<Rightarrow> string \<Rightarrow> string list" where
  "split_on sep [] = [[]]"
| "split_on sep (c # cs) =
     (if c = sep then [] # split_on sep cs
      else case split_on sep cs of [] \<Rightarrow> [[c]] | p # ps \<Rightarrow> (c # p) # ps)"

definition namespacePartPattern :: "string \<Rightarrow> bool" where
  "namespacePartPattern s \<longleftrightarrow> class_match (\<lambda>c. is_upper c \<or> is_lower c \<or> is_digit c)
     (\<lambda>c. is_upper c \<or> is_lower c \<or> is_digit c \<or> c \<in> set ''._-'') 0 127 s"

definition namespace_Validate :: "subject_namespace \<Rightarrow> err" where
  "namespace_Validate ns =
     (let parts = split_on (CHR ''/'') ns in first_err
       [fail_if (length parts \<noteq> 2 \<or> \<not> namespacePartPattern (parts ! 0) \<or> \<not> namespacePartPattern (parts ! 1))
          (Err ''subject namespace must be owner/project''),
        fail_if (parts ! 0 = ''.'' \<or> parts ! 0 = ''..'' \<or> parts ! 1 = ''.'' \<or> parts ! 1 = ''..'')
          (Err ''subject namespace contains a path segment'')])"

section \<open>Challenges\<close>

datatype ownership_method = OwnershipDNS | OwnershipGitHubOrg | OwnershipDomain | OtherMethod string

definition ownership_method_validate :: "ownership_method \<Rightarrow> err" where
  "ownership_method_validate m = fail_if (m \<notin> set [OwnershipDNS, OwnershipGitHubOrg, OwnershipDomain])
     (Err ''invalid ownership method'')"

datatype challenge_status = ChallengePending | ChallengeVerified | ChallengeExpired | OtherChallenge string

record challenge =
  ch_ID :: instance_id
  ch_Subject :: subject_namespace
  ch_Requester :: principal_id
  ch_Method :: ownership_method
  ch_Nonce :: string
  ch_ExpiresAt :: time
  ch_Status :: challenge_status
  ch_VerifiedAt :: time
  ch_EvidenceDigest :: digest

definition validateNonce :: "string \<Rightarrow> err" where
  "validateNonce nonce = fail_if (nonce = [] \<or> \<not> trimmed nonce \<or> length nonce > 512
      \<or> (\<exists>c\<in>set nonce. code c = 13 \<or> code c = 10 \<or> code c = 0))
     (Err ''ownership nonce must be 1..512 non-control bytes'')"

definition RestoreOwnershipChallenge :: "challenge \<Rightarrow> challenge res" where
  "RestoreOwnershipChallenge s = guard_res (first_err
     [id_Validate (ch_ID s),
      namespace_Validate (ch_Subject s),
      principal_id_Validate (ch_Requester s),
      ownership_method_validate (ch_Method s),
      validateNonce (ch_Nonce s),
      fail_if (is_zero (ch_ExpiresAt s)) (Err ''challenge expiry is required''),
      fail_if (ch_Status s \<noteq> ChallengePending \<and> ch_Status s \<noteq> ChallengeVerified \<and> ch_Status s \<noteq> ChallengeExpired)
        (Err ''invalid challenge status''),
      (if ch_Status s = ChallengeVerified then first_err
         [fail_if (is_zero (ch_VerifiedAt s)) (Err ''verified challenge requires time''),
          digest_Validate (ch_EvidenceDigest s)]
       else fail_if (\<not> is_zero (ch_VerifiedAt s) \<or> ch_EvidenceDigest s \<noteq> [])
              (Err ''unverified challenge contains verification fields''))])
     (Inr s)"

definition NewOwnershipChallenge ::
  "principal \<Rightarrow> instance_id \<Rightarrow> subject_namespace \<Rightarrow> ownership_method \<Rightarrow> string \<Rightarrow> time \<Rightarrow> time \<Rightarrow> challenge res" where
  "NewOwnershipChallenge p i subject method nonce expiresAt now = guard_res (first_err
     [RequireScope p ScopeOwnershipManage,
      wrap_err ''challenge ID'' (id_Validate i),
      namespace_Validate subject,
      ownership_method_validate method,
      validateNonce nonce,
      fail_if (is_zero now \<or> \<not> now < expiresAt) (Err ''challenge expiry must be after creation time'')])
     (Inr \<lparr>ch_ID = i, ch_Subject = subject, ch_Requester = pr_id p, ch_Method = method, ch_Nonce = nonce,
           ch_ExpiresAt = expiresAt, ch_Status = ChallengePending, ch_VerifiedAt = 0, ch_EvidenceDigest = []\<rparr>)"

text \<open>The snapshot shown to callers reports a pending challenge as expired; the object itself is not changed.\<close>

definition challenge_Snapshot :: "challenge \<Rightarrow> time \<Rightarrow> challenge" where
  "challenge_Snapshot c now =
     (if ch_Status c = ChallengePending \<and> expired now (ch_ExpiresAt c) then c\<lparr>ch_Status := ChallengeExpired\<rparr> else c)"

definition challenge_Verify :: "challenge \<Rightarrow> digest \<Rightarrow> time \<Rightarrow> challenge \<times> err" where
  "challenge_Verify c evidence now =
     (case digest_Validate evidence of
        Some e \<Rightarrow> (c, Some (Wrap ''ownership evidence digest'' e))
      | None \<Rightarrow>
          if expired now (ch_ExpiresAt c) then (c, Some ErrExpired)
          else if ch_Status c = ChallengeVerified then
            (if ch_EvidenceDigest c = evidence then (c, None) else (c, Some ErrConflict))
          else if ch_Status c \<noteq> ChallengePending then (c, Some ErrInvalidTransition)
          else (c\<lparr>ch_Status := ChallengeVerified, ch_VerifiedAt := now, ch_EvidenceDigest := evidence\<rparr>, None))"

section \<open>Ownership\<close>

record ownership =
  ow_Subject :: subject_namespace
  ow_Owner :: principal_id
  ow_Method :: ownership_method
  ow_Evidence :: digest
  ow_VerifiedAt :: time
  ow_ValidUntil :: time
  ow_RevokedAt :: time
  ow_Reason :: string

definition RestoreOwnership :: "ownership \<Rightarrow> ownership res" where
  "RestoreOwnership s = guard_res (first_err
     [namespace_Validate (ow_Subject s),
      principal_id_Validate (ow_Owner s),
      ownership_method_validate (ow_Method s),
      digest_Validate (ow_Evidence s),
      fail_if (is_zero (ow_VerifiedAt s) \<or> \<not> ow_VerifiedAt s < ow_ValidUntil s)
        (Err ''ownership validity interval is invalid''),
      fail_if (is_zero (ow_RevokedAt s) \<noteq> (ow_Reason s = []))
        (Err ''ownership revocation time and reason must appear together''),
      (if \<not> is_zero (ow_RevokedAt s) then validateReason (ow_Reason s) else None)])
     (Inr s)"

text \<open>\<open>None\<close> stands for a nil challenge.\<close>

definition OwnershipFromChallenge :: "challenge option \<Rightarrow> time \<Rightarrow> time \<Rightarrow> ownership res" where
  "OwnershipFromChallenge c validUntil now =
     (case c of
        None \<Rightarrow> Inl (Err ''ownership challenge is required'')
      | Some ch \<Rightarrow>
          if is_zero now then Inl (Err ''ownership verification time is required'')
          else (let s = challenge_Snapshot ch now in
            if ch_Status s \<noteq> ChallengeVerified then Inl (Err ''ownership challenge is not verified'')
            else if \<not> now < ch_ExpiresAt s then Inl ErrExpired
            else if \<not> now < validUntil then Inl (Err ''ownership validity must extend beyond verification'')
            else Inr \<lparr>ow_Subject = ch_Subject s, ow_Owner = ch_Requester s, ow_Method = ch_Method s,
                      ow_Evidence = ch_EvidenceDigest s, ow_VerifiedAt = ch_VerifiedAt s, ow_ValidUntil = validUntil,
                      ow_RevokedAt = 0, ow_Reason = []\<rparr>))"

definition Current :: "ownership \<Rightarrow> time \<Rightarrow> bool" where
  "Current o1 now \<longleftrightarrow> \<not> is_zero now \<and> is_zero (ow_RevokedAt o1) \<and> now < ow_ValidUntil o1"

definition AuthorizeManage :: "ownership \<Rightarrow> principal \<Rightarrow> time \<Rightarrow> err" where
  "AuthorizeManage o1 p now = first_err
     [authorizeOwned p (ow_Owner o1) ScopeOwnershipManage, fail_if (\<not> Current o1 now) ErrExpired]"

definition Revoke :: "ownership \<Rightarrow> principal \<Rightarrow> string \<Rightarrow> time \<Rightarrow> ownership \<times> err" where
  "Revoke o1 p reason now =
     (case first_err [validateReason reason,
        (if HasScope p ScopeModerationReview then RequireScope p ScopeModerationReview
         else authorizeOwned p (ow_Owner o1) ScopeOwnershipManage)] of
        Some e \<Rightarrow> (o1, Some e)
      | None \<Rightarrow>
          if \<not> is_zero (ow_RevokedAt o1) then
            (if ow_Reason o1 = reason then (o1, None) else (o1, Some ErrConflict))
          else if is_zero now then (o1, Some (Err ''revocation time is required''))
          else (o1\<lparr>ow_RevokedAt := now, ow_Reason := reason\<rparr>, None))"

text \<open>The changed old ownership, and the new one or the error.\<close>

definition Transfer ::
  "ownership \<Rightarrow> principal \<Rightarrow> challenge option \<Rightarrow> time \<Rightarrow> time \<Rightarrow> ownership \<times> ownership res" where
  "Transfer o1 p newChallenge newValidUntil now =
     (case authorizeOwned p (ow_Owner o1) ScopeOwnershipManage of
        Some e \<Rightarrow> (o1, Inl e)
      | None \<Rightarrow>
          if \<not> Current o1 now then (o1, Inl ErrExpired)
          else case OwnershipFromChallenge newChallenge newValidUntil now of
            Inl e \<Rightarrow> (o1, Inl e)
          | Inr n \<Rightarrow>
              if ow_Subject n \<noteq> ow_Subject o1 then
                (o1, Inl (Err ''ownership transfer challenge names a different subject''))
              else if ow_Owner n = ow_Owner o1 then (o1, Inl (Err ''ownership transfer requires a different owner''))
              else (o1\<lparr>ow_RevokedAt := now, ow_Reason := ''ownership_transferred''\<rparr>, Inr n))"

section \<open>The ownerships of one namespace\<close>

text \<open>
  The ownership objects that descend from one verified challenge, oldest first.  Callers may keep
  references to old objects, so every object accepts calls at any time; a successful transfer
  adds the new object.
\<close>

datatype title_op = TitleRevoke nat principal string time
  | TitleTransfer nat principal "challenge option" time time

definition title_step :: "ownership list \<Rightarrow> title_op \<Rightarrow> ownership list \<times> err" where
  "title_step os op = (case op of
     TitleRevoke i p reason now \<Rightarrow>
       (if i < length os then (case Revoke (os ! i) p reason now of (o', e) \<Rightarrow> (os[i := o'], e))
        else (os, Some (Err ''no such ownership'')))
   | TitleTransfer i p c validUntil now \<Rightarrow>
       (if i < length os then
          (case Transfer (os ! i) p c validUntil now of
             (o', Inl e) \<Rightarrow> (os[i := o'], Some e) | (o', Inr n) \<Rightarrow> (os[i := o'] @ [n], None))
        else (os, Some (Err ''no such ownership''))))"

definition unrevoked :: "ownership \<Rightarrow> bool" where
  "unrevoked x \<longleftrightarrow> ow_RevokedAt x = 0"

text \<open>At most one position holds an ownership that is not revoked, and all name one subject.\<close>

definition title_inv :: "subject_namespace \<Rightarrow> ownership list \<Rightarrow> bool" where
  "title_inv subject os \<longleftrightarrow> (\<forall>x\<in>set os. ow_Subject x = subject) \<and>
     (\<forall>i<length os. \<forall>j<length os. unrevoked (os ! i) \<longrightarrow> unrevoked (os ! j) \<longrightarrow> i = j)"

lemma Transfer_refused: "Transfer x p c vu now = (x', Inl e) \<Longrightarrow> x' = x"
  by (auto simp: Transfer_def split: option.splits sum.splits if_splits)

lemma Transfer_granted:
  "Transfer x p c vu now = (x', Inr n) \<Longrightarrow>
     x' = x\<lparr>ow_RevokedAt := now, ow_Reason := ''ownership_transferred''\<rparr> \<and> OwnershipFromChallenge c vu now = Inr n \<and>
     Current x now \<and> ow_Subject n = ow_Subject x \<and> ow_Owner n \<noteq> ow_Owner x \<and>
     authorizeOwned p (ow_Owner x) ScopeOwnershipManage = None"
  by (auto simp: Transfer_def split: option.splits sum.splits if_splits)

lemma Transfer_cases:
  obtains (refused) e where "Transfer x p c vu now = (x, Inl e)"
  | (granted) n where "Transfer x p c vu now = (x\<lparr>ow_RevokedAt := now, ow_Reason := ''ownership_transferred''\<rparr>, Inr n)"
      "unrevoked x" "now \<noteq> 0" "ow_Subject n = ow_Subject x"
proof (cases "Transfer x p c vu now")
  case (Pair x' r)
  show ?thesis
  proof (cases r)
    case (Inl e)
    with Pair Transfer_refused show ?thesis by (metis refused)
  next
    case (Inr n)
    from Transfer_granted [OF Pair [unfolded Inr]] Pair Inr show ?thesis
      by (intro granted [of n]) (simp_all add: Current_def unrevoked_def)
  qed
qed

lemma Revoke_cases:
  obtains (same) e where "Revoke x p reason now = (x, e)"
  | (revoked) "Revoke x p reason now = (x\<lparr>ow_RevokedAt := now, ow_Reason := reason\<rparr>, None)" "unrevoked x" "now \<noteq> 0"
proof (cases "first_err [validateReason reason,
    (if HasScope p ScopeModerationReview then RequireScope p ScopeModerationReview
     else authorizeOwned p (ow_Owner x) ScopeOwnershipManage)]")
  case None
  show ?thesis
  proof (cases "ow_RevokedAt x = 0 \<and> now \<noteq> 0")
    case True
    then have "Revoke x p reason now = (x\<lparr>ow_RevokedAt := now, ow_Reason := reason\<rparr>, None)"
      unfolding Revoke_def None by simp
    with True show ?thesis by (intro revoked) (simp_all add: unrevoked_def)
  next
    case False
    then have "fst (Revoke x p reason now) = x" unfolding Revoke_def None by auto
    then show ?thesis by (metis prod.collapse same)
  qed
next
  case (Some e)
  with same show ?thesis unfolding Revoke_def Some by simp
qed

lemma title_inv_update:
  assumes "title_inv s os" "i < length os" "ow_Subject x = s" "unrevoked x \<Longrightarrow> unrevoked (os ! i)"
  shows "title_inv s (os[i := x])"
proof -
  have keep: "unrevoked (os ! j)" if "unrevoked (os[i := x] ! j)" "j < length os" for j
    using that assms(2,4) by (cases "j = i") simp_all
  have "ow_Subject y = s" if "y \<in> set (os[i := x])" for y
    using that assms(1,3) set_update_subset_insert [of os i x] by (auto simp: title_inv_def)
  with keep assms(1) show ?thesis by (simp add: title_inv_def)
qed

lemma title_inv_nth: "title_inv s os \<Longrightarrow> i < length os \<Longrightarrow> ow_Subject (os ! i) = s"
  by (simp add: title_inv_def)

lemma title_inv_transfer:
  assumes "title_inv s os" "i < length os" "unrevoked (os ! i)" "ow_Subject x = s" "ow_Subject n = s" "\<not> unrevoked x"
  shows "title_inv s (os[i := x] @ [n])"
proof -
  have none: "\<not> unrevoked (os[i := x] ! j)" if "j < length os" for j
    using assms that by (cases "j = i") (auto simp: title_inv_def)
  have inv: "title_inv s (os[i := x])" using assms by (intro title_inv_update) auto
  show ?thesis unfolding title_inv_def
  proof (intro conjI ballI allI impI)
    show "ow_Subject y = s" if "y \<in> set (os[i := x] @ [n])" for y using that inv assms(5) by (auto simp: title_inv_def)
    show "j = k" if "j < length (os[i := x] @ [n])" "k < length (os[i := x] @ [n])"
      "unrevoked ((os[i := x] @ [n]) ! j)" "unrevoked ((os[i := x] @ [n]) ! k)" for j k
      using that none [of j] none [of k] by (auto simp: nth_append split: if_splits)
  qed
qed

lemma title_step_inv: "title_inv s os \<Longrightarrow> title_inv s (fst (title_step os op))"
proof (cases op)
  case (TitleRevoke i p reason now)
  assume inv: "title_inv s os"
  show ?thesis
  proof (cases "i < length os")
    case True
    then show ?thesis using inv TitleRevoke title_inv_nth [OF inv True]
      by (cases rule: Revoke_cases [of "os ! i" p reason now])
         (auto simp: title_step_def intro!: title_inv_update)
  qed (use inv TitleRevoke in \<open>simp add: title_step_def\<close>)
next
  case (TitleTransfer i p c vu now)
  assume inv: "title_inv s os"
  show ?thesis
  proof (cases "i < length os")
    case True
    then show ?thesis using inv TitleTransfer title_inv_nth [OF inv True]
      by (cases rule: Transfer_cases [of "os ! i" p c vu now])
         (auto simp: title_step_def unrevoked_def intro!: title_inv_update title_inv_transfer)
  qed (use inv TitleTransfer in \<open>simp add: title_step_def\<close>)
qed

lemma title_step_atomic: "snd (title_step os op) \<noteq> None \<Longrightarrow> fst (title_step os op) = os"
proof (cases op)
  case (TitleRevoke i p reason now)
  assume "snd (title_step os op) \<noteq> None"
  then show ?thesis using TitleRevoke
    by (cases rule: Revoke_cases [of "os ! i" p reason now]) (auto simp: title_step_def split: if_splits)
next
  case (TitleTransfer i p c vu now)
  assume "snd (title_step os op) \<noteq> None"
  then show ?thesis using TitleTransfer
    by (cases rule: Transfer_cases [of "os ! i" p c vu now]) (auto simp: title_step_def split: if_splits)
qed

interpretation title: guarded_machine title_step "title_inv s" for s
  by unfold_locales (auto simp: title_step_inv title_step_atomic)

text \<open>A revoked ownership is frozen.\<close>

lemma title_step_frozen:
  assumes "i < length os" "\<not> unrevoked (os ! i)"
  shows "i < length (fst (title_step os op)) \<and> fst (title_step os op) ! i = os ! i"
proof (cases op)
  case (TitleRevoke k p reason now)
  then show ?thesis using assms
    by (cases rule: Revoke_cases [of "os ! k" p reason now]) (auto simp: title_step_def nth_list_update)
next
  case (TitleTransfer k p c vu now)
  then show ?thesis using assms
    by (cases rule: Transfer_cases [of "os ! k" p c vu now]) (auto simp: title_step_def nth_list_update nth_append)
qed

lemma title_run_frozen:
  "i < length os \<Longrightarrow> \<not> unrevoked (os ! i) \<Longrightarrow>
     i < length (run title_step os ops) \<and> run title_step os ops ! i = os ! i"
proof (induction ops arbitrary: os)
  case (Cons op ops)
  from title_step_frozen [OF Cons.prems, of op] have
    "i < length (fst (title_step os op))" "fst (title_step os op) ! i = os ! i" by auto
  with Cons.IH [of "fst (title_step os op)"] Cons.prems show ?case by simp
qed simp

lemma revoked_unusable: "\<not> unrevoked x \<Longrightarrow> \<not> Current x now \<and> AuthorizeManage x p now \<noteq> None"
  by (auto simp: unrevoked_def Current_def AuthorizeManage_def)

lemma Current_unrevoked: "Current x now \<Longrightarrow> unrevoked x"
  by (simp add: Current_def unrevoked_def)


definition owner_challenge :: "principal_id \<Rightarrow> challenge" where
  "owner_challenge who = \<lparr>ch_ID = uuid_a, ch_Subject = ''acme/gateway'', ch_Requester = who, ch_Method = OwnershipDNS,
     ch_Nonce = ''n'', ch_ExpiresAt = 10, ch_Status = ChallengeVerified, ch_VerifiedAt = 2, ch_EvidenceDigest = zero_digest\<rparr>"

definition alice_ownership :: ownership where
  "alice_ownership = \<lparr>ow_Subject = ''acme/gateway'', ow_Owner = ''alice'', ow_Method = OwnershipDNS,
     ow_Evidence = zero_digest, ow_VerifiedAt = 2, ow_ValidUntil = 100, ow_RevokedAt = 0, ow_Reason = []\<rparr>"

definition alice_owner :: principal where
  "alice_owner = \<lparr>pr_id = ''alice'', pr_scopes = [ScopeOwnershipManage, ScopeDisputeCreate]\<rparr>"

lemma alice_owner_scopes [simp]: "RequireScope alice_owner ScopeOwnershipManage = None"
  "RequireScope alice_owner ScopeDisputeCreate = None" "pr_id alice_owner = ''alice''"
  by (simp_all add: RequireScope_plain alice_owner_def plain_def code_def validScopes_def)

lemma alice_ownership_from: "OwnershipFromChallenge (Some (owner_challenge ''alice'')) 100 3 = Inr alice_ownership"
  by (simp add: OwnershipFromChallenge_def challenge_Snapshot_def owner_challenge_def alice_ownership_def)


end
