(* ===== verification/RegistryDispute.thy ===== *)
theory RegistryDispute
  imports RegistryOwnership
begin

text \<open>
  Disputes about published observations, supersessions and tombstones
  (\<open>internal/registry/dispute.go\<close>).  A dispute is an append-only journal with a status; a moderator
  who is neither the creator nor the subject's owner reviews it.  A snapshot copies every field.
\<close>

section \<open>Disputes\<close>

datatype dispute_status = DisputeOpened | DisputeUnderReview | DisputeResolved | DisputeSuperseded | OtherDispute string

datatype dispute_event_kind = DisputeEventOpened | DisputeEventOwnerResponse | DisputeEventReviewStarted
  | DisputeEventResolved | DisputeEventSuperseded | OtherEventKind string

record dispute_event =
  de_Sequence :: u64
  de_Kind :: dispute_event_kind
  de_Actor :: principal_id
  de_At :: time
  de_Statement :: string
  de_ReplacementID :: digest

record dispute =
  di_ID :: instance_id
  di_ObservationID :: digest
  di_Subject :: subject_namespace
  di_Creator :: principal_id
  di_SubjectOwner :: principal_id
  di_Reviewer :: principal_id
  di_Status :: dispute_status
  di_Events :: "dispute_event list"

text \<open>The body of the loop over the events of a snapshot, for the event at \<open>index\<close>.\<close>

definition restore_event :: "nat \<Rightarrow> time \<Rightarrow> dispute_event \<Rightarrow> err" where
  "restore_event index previous e = first_err
     [fail_if (de_Sequence e \<noteq> of_nat (index + 1) \<or> is_zero (de_At e) \<or> de_At e < previous)
        (Err ''dispute event sequence or time is invalid''),
      principal_id_Validate (de_Actor e),
      validateReason (de_Statement e),
      (if de_Kind e \<in> set [DisputeEventOpened, DisputeEventOwnerResponse, DisputeEventReviewStarted, DisputeEventResolved]
       then fail_if (de_ReplacementID e \<noteq> []) (Err ''unexpected replacement ID'')
       else if de_Kind e = DisputeEventSuperseded then digest_Validate (de_ReplacementID e)
       else Some (Err ''invalid dispute event kind''))]"

fun restore_events :: "nat \<Rightarrow> time \<Rightarrow> dispute_event list \<Rightarrow> err" where
  "restore_events index previous [] = None"
| "restore_events index previous (e # es) =
     first_err [restore_event index previous e, restore_events (Suc index) (de_At e) es]"

definition RestoreDispute :: "dispute \<Rightarrow> dispute res" where
  "RestoreDispute s = guard_res (first_err
     [id_Validate (di_ID s),
      digest_Validate (di_ObservationID s),
      namespace_Validate (di_Subject s),
      principal_id_Validate (di_Creator s),
      principal_id_Validate (di_SubjectOwner s),
      fail_if (di_Status s \<notin> set [DisputeOpened, DisputeUnderReview, DisputeResolved, DisputeSuperseded])
        (Err ''invalid dispute status''),
      (if di_Status s \<noteq> DisputeOpened
       then fail_if (principal_id_Validate (di_Reviewer s) \<noteq> None) (Err ''reviewed dispute requires reviewer'') else None),
      fail_if (di_Events s = []) (Err ''dispute event journal is empty''),
      restore_events 0 0 (di_Events s),
      fail_if (de_Kind (hd (di_Events s)) \<noteq> DisputeEventOpened \<or> de_Actor (hd (di_Events s)) \<noteq> di_Creator s)
        (Err ''dispute journal must start with creator open event'')])
     (Inr s)"

definition dispute_append ::
  "dispute_event_kind \<Rightarrow> principal_id \<Rightarrow> string \<Rightarrow> digest \<Rightarrow> time \<Rightarrow> dispute \<Rightarrow> dispute" where
  "dispute_append kind actor statement replacement now d = d\<lparr>di_Events := di_Events d @
     [\<lparr>de_Sequence = of_nat (length (di_Events d) + 1), de_Kind = kind, de_Actor = actor, de_At = now,
       de_Statement = statement, de_ReplacementID = replacement\<rparr>]\<rparr>"

definition NewDispute ::
  "principal \<Rightarrow> instance_id \<Rightarrow> digest \<Rightarrow> subject_namespace \<Rightarrow> principal_id \<Rightarrow> string \<Rightarrow> time \<Rightarrow> dispute res" where
  "NewDispute p i observationID subject subjectOwner statement now = guard_res (first_err
     [RequireScope p ScopeDisputeCreate,
      wrap_err ''dispute ID'' (id_Validate i),
      wrap_err ''observation ID'' (digest_Validate observationID),
      namespace_Validate subject,
      wrap_err ''subject owner'' (principal_id_Validate subjectOwner),
      validateReason statement,
      fail_if (is_zero now) (Err ''dispute creation time is required'')])
     (Inr (dispute_append DisputeEventOpened (pr_id p) statement [] now
        \<lparr>di_ID = i, di_ObservationID = observationID, di_Subject = subject, di_Creator = pr_id p,
         di_SubjectOwner = subjectOwner, di_Reviewer = [], di_Status = DisputeOpened, di_Events = []\<rparr>))"

definition AddOwnerResponse :: "dispute \<Rightarrow> principal \<Rightarrow> ownership \<Rightarrow> string \<Rightarrow> time \<Rightarrow> dispute \<times> err" where
  "AddOwnerResponse d p own statement now =
     (case first_err
        [fail_if (is_zero now) (Err ''owner response time is required''),
         RequireScope p ScopeDisputeCreate,
         AuthorizeManage own p now,
         fail_if (ow_Subject own \<noteq> di_Subject d \<or> ow_Owner own \<noteq> di_SubjectOwner d) ErrNotOwner,
         validateReason statement,
         fail_if (di_Status d \<noteq> DisputeOpened \<and> di_Status d \<noteq> DisputeUnderReview) ErrInvalidTransition] of
        Some e \<Rightarrow> (d, Some e)
      | None \<Rightarrow> (dispute_append DisputeEventOwnerResponse (pr_id p) statement [] now d, None))"

definition BeginReview :: "dispute \<Rightarrow> principal \<Rightarrow> time \<Rightarrow> dispute \<times> err" where
  "BeginReview d p now =
     (case RequireScope p ScopeModerationReview of
        Some e \<Rightarrow> (d, Some e)
      | None \<Rightarrow>
          if pr_id p = di_Creator d \<or> pr_id p = di_SubjectOwner d then
            (d, Some (Wrap ''dispute reviewer has a direct conflict of interest'' ErrForbidden))
          else if di_Status d = DisputeUnderReview \<and> di_Reviewer d = pr_id p then (d, None)
          else if di_Status d \<noteq> DisputeOpened then (d, Some ErrInvalidTransition)
          else if is_zero now then (d, Some (Err ''review time is required''))
          else (dispute_append DisputeEventReviewStarted (pr_id p) ''review_started'' [] now
                  (d\<lparr>di_Reviewer := pr_id p, di_Status := DisputeUnderReview\<rparr>), None))"

definition authorizeReviewer :: "dispute \<Rightarrow> principal \<Rightarrow> err" where
  "authorizeReviewer d p = first_err
     [RequireScope p ScopeModerationReview,
      fail_if (pr_id p \<noteq> di_Reviewer d)
        (Wrap ''only the assigned independent reviewer may resolve the dispute'' ErrForbidden)]"

definition dispute_Resolve :: "dispute \<Rightarrow> principal \<Rightarrow> string \<Rightarrow> time \<Rightarrow> dispute \<times> err" where
  "dispute_Resolve d p resolution now =
     (case first_err
        [authorizeReviewer d p,
         validateReason resolution,
         fail_if (is_zero now) (Err ''resolution time is required''),
         fail_if (di_Status d \<noteq> DisputeUnderReview) ErrInvalidTransition] of
        Some e \<Rightarrow> (d, Some e)
      | None \<Rightarrow> (dispute_append DisputeEventResolved (pr_id p) resolution [] now (d\<lparr>di_Status := DisputeResolved\<rparr>), None))"

definition Supersede :: "dispute \<Rightarrow> principal \<Rightarrow> digest \<Rightarrow> string \<Rightarrow> time \<Rightarrow> dispute \<times> err" where
  "Supersede d p replacementID reason now =
     (case first_err
        [authorizeReviewer d p,
         wrap_err ''replacement observation'' (digest_Validate replacementID),
         fail_if (replacementID = di_ObservationID d) (Err ''replacement observation must differ from original''),
         validateReason reason,
         fail_if (is_zero now) (Err ''supersession time is required''),
         fail_if (di_Status d \<noteq> DisputeUnderReview) ErrInvalidTransition] of
        Some e \<Rightarrow> (d, Some e)
      | None \<Rightarrow> (dispute_append DisputeEventSuperseded (pr_id p) reason replacementID now
                  (d\<lparr>di_Status := DisputeSuperseded\<rparr>), None))"

section \<open>Supersessions and tombstones\<close>

record supersession =
  su_OriginalID :: digest
  su_ReplacementID :: digest
  su_Reason :: string
  su_Actor :: principal_id
  su_CreatedAt :: time

definition NewSupersession :: "principal \<Rightarrow> digest \<Rightarrow> digest \<Rightarrow> string \<Rightarrow> time \<Rightarrow> supersession res" where
  "NewSupersession p originalID replacementID reason now = guard_res (first_err
     [RequireScope p ScopeModerationReview,
      wrap_err ''original observation'' (digest_Validate originalID),
      wrap_err ''replacement observation'' (digest_Validate replacementID),
      fail_if (originalID = replacementID) (Err ''supersession requires different observations''),
      validateReason reason,
      fail_if (is_zero now) (Err ''supersession time is required'')])
     (Inr \<lparr>su_OriginalID = originalID, su_ReplacementID = replacementID, su_Reason = reason, su_Actor = pr_id p,
           su_CreatedAt = now\<rparr>)"

record tombstone =
  to_ObservationID :: digest
  to_Reason :: string
  to_Actor :: principal_id
  to_CreatedAt :: time

definition NewTombstone :: "principal \<Rightarrow> digest \<Rightarrow> string \<Rightarrow> time \<Rightarrow> tombstone res" where
  "NewTombstone p observationID reason now = guard_res (first_err
     [RequireScope p ScopeModerationReview,
      wrap_err ''observation ID'' (digest_Validate observationID),
      validateReason reason,
      fail_if (is_zero now) (Err ''tombstone time is required'')])
     (Inr \<lparr>to_ObservationID = observationID, to_Reason = reason, to_Actor = pr_id p, to_CreatedAt = now\<rparr>)"

section \<open>Histories of a dispute\<close>

datatype dispute_op = OpRespond principal ownership string time | OpBeginReview principal time
  | OpResolve principal string time | OpSupersede principal digest string time

definition dispute_step :: "dispute \<Rightarrow> dispute_op \<Rightarrow> dispute \<times> err" where
  "dispute_step d op = (case op of
     OpRespond p own s now \<Rightarrow> AddOwnerResponse d p own s now | OpBeginReview p now \<Rightarrow> BeginReview d p now
   | OpResolve p r now \<Rightarrow> dispute_Resolve d p r now | OpSupersede p i r now \<Rightarrow> Supersede d p i r now)"

definition event_ok :: "nat \<Rightarrow> dispute_event \<Rightarrow> bool" where
  "event_ok k e \<longleftrightarrow> restore_event k (de_At e) e = None"

lemma restore_event_iff: "restore_event k previous e = None \<longleftrightarrow> event_ok k e \<and> previous \<le> de_At e"
  by (auto simp: event_ok_def restore_event_def)

lemma restore_events_iff:
  "restore_events n previous es = None \<longleftrightarrow>
     (\<forall>k<length es. event_ok (n + k) (es ! k)) \<and> sorted (previous # map de_At es)"
proof (induction es arbitrary: n previous)
  case (Cons e es)
  have "(\<forall>k<length (e # es). event_ok (n + k) ((e # es) ! k)) \<longleftrightarrow>
      event_ok n e \<and> (\<forall>k<length es. event_ok (Suc n + k) (es ! k))"
    by (simp add: All_less_Suc2)
  moreover have "sorted (previous # map de_At (e # es)) \<longleftrightarrow> previous \<le> de_At e \<and> sorted (de_At e # map de_At es)"
    by (simp only: list.map sorted2)
  ultimately show ?case using Cons.IH [of "Suc n" "de_At e"] by (simp only: restore_events.simps first_err_None)
      (auto simp: restore_event_iff simp del: sorted_simps)
qed simp

definition independent :: "dispute \<Rightarrow> bool" where
  "independent d \<longleftrightarrow> principal_id_Validate (di_Reviewer d) = None \<and>
     di_Reviewer d \<noteq> di_Creator d \<and> di_Reviewer d \<noteq> di_SubjectOwner d"

text \<open>Who may have written an event.\<close>

definition role_ok :: "dispute \<Rightarrow> dispute_event \<Rightarrow> bool" where
  "role_ok d e = (case de_Kind e of
     DisputeEventOpened \<Rightarrow> de_Actor e = di_Creator d
   | DisputeEventOwnerResponse \<Rightarrow> de_Actor e = di_SubjectOwner d
   | DisputeEventReviewStarted \<Rightarrow> di_Status d \<noteq> DisputeOpened \<and> de_Actor e = di_Reviewer d
   | DisputeEventResolved \<Rightarrow> di_Status d = DisputeResolved \<and> de_Actor e = di_Reviewer d
   | DisputeEventSuperseded \<Rightarrow> di_Status d = DisputeSuperseded \<and> de_Actor e = di_Reviewer d
       \<and> de_ReplacementID e \<noteq> di_ObservationID d
   | OtherEventKind _ \<Rightarrow> False)"

definition verdicts :: "dispute_event list \<Rightarrow> dispute_event_kind list" where
  "verdicts es = filter (\<lambda>k. k = DisputeEventResolved \<or> k = DisputeEventSuperseded) (map de_Kind es)"

definition dispute_inv :: "dispute \<Rightarrow> bool" where
  "dispute_inv d \<longleftrightarrow>
     id_Validate (di_ID d) = None \<and> digest_Validate (di_ObservationID d) = None \<and>
     namespace_Validate (di_Subject d) = None \<and> principal_id_Validate (di_Creator d) = None \<and>
     principal_id_Validate (di_SubjectOwner d) = None \<and>
     di_Events d \<noteq> [] \<and> de_Kind (hd (di_Events d)) = DisputeEventOpened \<and> de_Actor (hd (di_Events d)) = di_Creator d \<and>
     (\<forall>k<length (di_Events d). event_ok k (di_Events d ! k)) \<and>
     (\<forall>e\<in>set (di_Events d). role_ok d e) \<and>
     (di_Status d = DisputeOpened \<or>
        independent d \<and> (di_Status d = DisputeUnderReview \<or> di_Status d = DisputeResolved \<or> di_Status d = DisputeSuperseded)) \<and>
     verdicts (di_Events d) = (case di_Status d of DisputeResolved \<Rightarrow> [DisputeEventResolved]
        | DisputeSuperseded \<Rightarrow> [DisputeEventSuperseded] | _ \<Rightarrow> [])"

lemma dispute_append_simps [simp]:
  "di_ID (dispute_append k a s r now d) = di_ID d" "di_ObservationID (dispute_append k a s r now d) = di_ObservationID d"
  "di_Subject (dispute_append k a s r now d) = di_Subject d" "di_Creator (dispute_append k a s r now d) = di_Creator d"
  "di_SubjectOwner (dispute_append k a s r now d) = di_SubjectOwner d"
  "di_Reviewer (dispute_append k a s r now d) = di_Reviewer d" "di_Status (dispute_append k a s r now d) = di_Status d"
  by (simp_all add: dispute_append_def)

text \<open>The one way in which operations change a dispute: the status and the reviewer may change and one event is added.\<close>

lemma dispute_inv_append:
  assumes "dispute_inv d"
    and fixed: "di_ID d' = di_ID d" "di_ObservationID d' = di_ObservationID d" "di_Subject d' = di_Subject d"
      "di_Creator d' = di_Creator d" "di_SubjectOwner d' = di_SubjectOwner d" "di_Events d' = di_Events d"
    and event: "event_ok (length (di_Events d)) \<lparr>de_Sequence = of_nat (length (di_Events d) + 1), de_Kind = k, de_Actor = a,
        de_At = now, de_Statement = s, de_ReplacementID = r\<rparr>"
      "role_ok d' \<lparr>de_Sequence = of_nat (length (di_Events d) + 1), de_Kind = k, de_Actor = a,
        de_At = now, de_Statement = s, de_ReplacementID = r\<rparr>"
    and old: "\<And>e. e \<in> set (di_Events d) \<Longrightarrow> role_ok d e \<Longrightarrow> role_ok d' e"
    and status: "di_Status d' = DisputeOpened \<or> independent d' \<and>
        (di_Status d' = DisputeUnderReview \<or> di_Status d' = DisputeResolved \<or> di_Status d' = DisputeSuperseded)"
    and verdict: "verdicts (di_Events d) @ filter (\<lambda>k. k = DisputeEventResolved \<or> k = DisputeEventSuperseded) [k] =
        (case di_Status d' of DisputeResolved \<Rightarrow> [DisputeEventResolved] | DisputeSuperseded \<Rightarrow> [DisputeEventSuperseded] | _ \<Rightarrow> [])"
  shows "dispute_inv (dispute_append k a s r now d')"
proof -
  let ?e = "\<lparr>de_Sequence = of_nat (length (di_Events d) + 1), de_Kind = k, de_Actor = a, de_At = now, de_Statement = s,
     de_ReplacementID = r\<rparr>"
  let ?n = "dispute_append k a s r now d'"
  have evs: "di_Events ?n = di_Events d @ [?e]" by (simp add: dispute_append_def fixed)
  have role: "role_ok ?n x = role_ok d' x" for x by (simp add: role_ok_def cong: dispute_event_kind.case_cong)
  have ind: "independent ?n = independent d'" by (simp add: independent_def)
  have "event_ok j (di_Events ?n ! j)" if "j < length (di_Events ?n)" for j
    using that assms(1) event(1) by (auto simp: evs dispute_inv_def nth_append less_Suc_eq)
  moreover have "\<forall>x\<in>set (di_Events ?n). role_ok ?n x"
    using assms(1) old event(2) by (auto simp: evs role dispute_inv_def)
  moreover have "verdicts (di_Events ?n) = verdicts (di_Events d) @
      filter (\<lambda>k. k = DisputeEventResolved \<or> k = DisputeEventSuperseded) [k]" by (simp add: evs verdicts_def)
  moreover have "di_Events ?n \<noteq> []" "hd (di_Events ?n) = hd (di_Events d)"
    using assms(1) by (auto simp: evs dispute_inv_def hd_append)
  ultimately show ?thesis
    using assms(1) status verdict fixed ind unfolding dispute_inv_def by simp
qed

lemma event_okI:
  "now \<noteq> 0 \<Longrightarrow> principal_id_Validate a = None \<Longrightarrow> validateReason s = None \<Longrightarrow>
     (if k = DisputeEventSuperseded then digest_Validate r = None
      else r = [] \<and> k \<in> set [DisputeEventOpened, DisputeEventOwnerResponse, DisputeEventReviewStarted, DisputeEventResolved]) \<Longrightarrow>
     event_ok n \<lparr>de_Sequence = of_nat (n + 1), de_Kind = k, de_Actor = a, de_At = now, de_Statement = s, de_ReplacementID = r\<rparr>"
  by (auto simp: event_ok_def restore_event_def split: if_splits)

lemma review_started_reason: "validateReason ''review_started'' = None"
  by (rule plain_reason) (simp_all add: plain_def code_def)

lemma AddOwnerResponse_inv: "dispute_inv d \<Longrightarrow> dispute_inv (fst (AddOwnerResponse d p own s now))"
proof -
  assume inv: "dispute_inv d"
  show ?thesis
  proof (cases "snd (AddOwnerResponse d p own s now)")
    case None
    then have res: "fst (AddOwnerResponse d p own s now) = dispute_append DisputeEventOwnerResponse (pr_id p) s [] now d"
      unfolding AddOwnerResponse_def by (auto split: option.splits simp del: first_err_None)
    from None have ok: "now \<noteq> 0" "validateReason s = None" "pr_id p = di_SubjectOwner d" "principal_id_Validate (pr_id p) = None"
      "di_Status d = DisputeOpened \<or> di_Status d = DisputeUnderReview"
      by (auto simp: AddOwnerResponse_def AuthorizeManage_def authorizeOwned_None split: option.splits
          dest: RequireScope_None)
    have "dispute_inv (dispute_append DisputeEventOwnerResponse (pr_id p) s [] now d)"
    proof (rule dispute_inv_append [OF inv])
      show "event_ok (length (di_Events d)) \<lparr>de_Sequence = of_nat (length (di_Events d) + 1),
          de_Kind = DisputeEventOwnerResponse, de_Actor = pr_id p, de_At = now, de_Statement = s, de_ReplacementID = []\<rparr>"
        using ok by (intro event_okI) auto
    qed (use ok inv in \<open>auto simp: role_ok_def dispute_inv_def\<close>)
    then show ?thesis by (simp add: res)
  next
    case (Some e)
    then have "fst (AddOwnerResponse d p own s now) = d" by (auto simp: AddOwnerResponse_def split: option.splits)
    with inv show ?thesis by simp
  qed
qed

lemma opened_role:
  assumes "role_ok d e" "di_Status d = DisputeOpened" "di_Creator d' = di_Creator d" "di_SubjectOwner d' = di_SubjectOwner d"
  shows "role_ok d' e"
  using assms by (auto simp: role_ok_def split: dispute_event_kind.splits)

lemma review_role:
  assumes "role_ok d e" "di_Status d = DisputeUnderReview" "di_Creator d' = di_Creator d"
    "di_SubjectOwner d' = di_SubjectOwner d" "di_Reviewer d' = di_Reviewer d" "di_Status d' \<noteq> DisputeOpened"
  shows "role_ok d' e"
  using assms by (auto simp: role_ok_def split: dispute_event_kind.splits)

lemma BeginReview_inv: "dispute_inv d \<Longrightarrow> dispute_inv (fst (BeginReview d p now))"
proof -
  assume inv: "dispute_inv d"
  let ?d = "d\<lparr>di_Reviewer := pr_id p, di_Status := DisputeUnderReview\<rparr>"
  show ?thesis
  proof (cases "RequireScope p ScopeModerationReview = None \<and> pr_id p \<noteq> di_Creator d \<and> pr_id p \<noteq> di_SubjectOwner d
      \<and> di_Status d = DisputeOpened \<and> now \<noteq> 0")
    case True
    then have id: "principal_id_Validate (pr_id p) = None" by (auto dest: RequireScope_None)
    have "dispute_inv (dispute_append DisputeEventReviewStarted (pr_id p) ''review_started'' [] now ?d)"
    proof (rule dispute_inv_append [OF inv])
      show "event_ok (length (di_Events d)) \<lparr>de_Sequence = of_nat (length (di_Events d) + 1),
          de_Kind = DisputeEventReviewStarted, de_Actor = pr_id p, de_At = now, de_Statement = ''review_started'',
          de_ReplacementID = []\<rparr>" using True id review_started_reason by (intro event_okI) auto
      show "role_ok ?d e" if "role_ok d e" for e by (rule opened_role [OF that]) (use True in auto)
    qed (use True id inv in \<open>auto simp: role_ok_def independent_def dispute_inv_def\<close>)
    then show ?thesis using True by (simp add: BeginReview_def)
  next
    case False
    then have "fst (BeginReview d p now) = d" by (auto simp: BeginReview_def split: option.splits)
    with inv show ?thesis by simp
  qed
qed

lemma authorizeReviewer_None:
  "authorizeReviewer d p = None \<longleftrightarrow> RequireScope p ScopeModerationReview = None \<and> pr_id p = di_Reviewer d"
  by (auto simp: authorizeReviewer_def)

lemma verdict_inv:
  assumes inv: "dispute_inv d" and ok: "di_Status d = DisputeUnderReview" "authorizeReviewer d p = None"
    "validateReason s = None" "now \<noteq> 0"
    and k: "k = DisputeEventResolved \<and> st = DisputeResolved \<and> r = [] \<or>
      k = DisputeEventSuperseded \<and> st = DisputeSuperseded \<and> digest_Validate r = None \<and> r \<noteq> di_ObservationID d"
  shows "dispute_inv (dispute_append k (pr_id p) s r now (d\<lparr>di_Status := st\<rparr>))"
proof (rule dispute_inv_append [OF inv])
  have "principal_id_Validate (pr_id p) = None" using ok by (auto simp: authorizeReviewer_None dest: RequireScope_None)
  then show "event_ok (length (di_Events d)) \<lparr>de_Sequence = of_nat (length (di_Events d) + 1),
      de_Kind = k, de_Actor = pr_id p, de_At = now, de_Statement = s, de_ReplacementID = r\<rparr>"
    using ok k by (intro event_okI) auto
  show "role_ok (d\<lparr>di_Status := st\<rparr>) e" if "role_ok d e" for e
    by (rule review_role [OF that ok(1)]) (use k in auto)
qed (use ok k inv in \<open>auto simp: role_ok_def independent_def dispute_inv_def authorizeReviewer_None\<close>)

lemma Resolve_inv: "dispute_inv d \<Longrightarrow> dispute_inv (fst (dispute_Resolve d p r now))"
  using verdict_inv [of d p r now DisputeEventResolved DisputeResolved "[]"]
  by (auto simp: dispute_Resolve_def split: option.splits)

lemma Supersede_inv: "dispute_inv d \<Longrightarrow> dispute_inv (fst (Supersede d p i r now))"
  using verdict_inv [of d p r now DisputeEventSuperseded DisputeSuperseded i]
  by (auto simp: Supersede_def split: option.splits)

lemma dispute_step_inv: "dispute_inv d \<Longrightarrow> dispute_inv (fst (dispute_step d op))"
  by (cases op) (simp_all add: dispute_step_def AddOwnerResponse_inv BeginReview_inv Resolve_inv Supersede_inv)

lemmas dispute_op_defs = AddOwnerResponse_def BeginReview_def dispute_Resolve_def Supersede_def

lemma dispute_step_atomic: "snd (dispute_step d op) \<noteq> None \<Longrightarrow> fst (dispute_step d op) = d"
  by (cases op) (auto simp: dispute_step_def dispute_op_defs split: option.splits if_splits)

lemma dispute_step_log: "prefix (di_Events d) (di_Events (fst (dispute_step d op)))"
  by (cases op) (auto simp: dispute_step_def dispute_op_defs dispute_append_def split: option.splits)

interpretation dispute_process: guarded_machine dispute_step dispute_inv
  by unfold_locales (auto simp: dispute_step_inv dispute_step_atomic)

interpretation dispute_process: journal_machine dispute_step dispute_inv di_Events
  by unfold_locales (rule dispute_step_log)

lemma dispute_closed_step:
  "di_Status d = DisputeResolved \<or> di_Status d = DisputeSuperseded \<Longrightarrow> fst (dispute_step d op) = d"
  by (cases op) (auto simp: dispute_step_def dispute_op_defs split: option.splits)

lemma dispute_closed: "di_Status d = DisputeResolved \<or> di_Status d = DisputeSuperseded \<Longrightarrow> run dispute_step d ops = d"
  by (induction ops) (simp_all add: dispute_closed_step)

lemma NewDispute_inv: "NewDispute p i ob subject own s now = Inr d \<Longrightarrow> dispute_inv d"
  by (auto simp: NewDispute_def dispute_inv_def dispute_append_def role_ok_def verdicts_def
      intro!: event_okI [of _ _ _ _ _ 0, simplified] dest: RequireScope_None)

lemma dispute_step_fixed:
  "di_Creator (fst (dispute_step d op)) = di_Creator d" "di_SubjectOwner (fst (dispute_step d op)) = di_SubjectOwner d"
  by (cases op; auto simp: dispute_step_def dispute_op_defs split: option.splits)+

lemma dispute_run_fixed:
  "di_Creator (run dispute_step d ops) = di_Creator d" "di_SubjectOwner (run dispute_step d ops) = di_SubjectOwner d"
  by (induction ops arbitrary: d) (simp_all add: dispute_step_fixed)

lemma NewDispute_fields:
  "NewDispute p i ob subject owner s now = Inr d \<Longrightarrow> di_Creator d = pr_id p \<and> di_SubjectOwner d = owner"
  by (auto simp: NewDispute_def)

lemma dispute_verdict_length:
  "dispute_inv d \<Longrightarrow> length (verdicts (di_Events d)) =
     (if di_Status d = DisputeResolved \<or> di_Status d = DisputeSuperseded then 1 else 0)"
  by (cases "di_Status d") (auto simp: dispute_inv_def)

lemma dispute_independent:
  "dispute_inv d \<Longrightarrow> di_Status d \<noteq> DisputeOpened \<Longrightarrow> di_Reviewer d \<noteq> di_Creator d \<and> di_Reviewer d \<noteq> di_SubjectOwner d"
  by (auto simp: dispute_inv_def independent_def)

section \<open>Properties\<close>


text \<open>
   A stored dispute can be read back exactly when its event times never decrease: for every
  history, \<open>RestoreDispute\<close> accepts the snapshot if and only if the times of the journal, from the
  zero time on, are in order.  The operations do not check this order, so a dispute whose review
  began on a slower clock than it was opened on is accepted and can never be restored.
\<close>

theorem dispute_restorable_iff:
  assumes "NewDispute p i ob subject owner s now = Inr d"
  shows "let t = run dispute_step d ops in RestoreDispute t = Inr t \<longleftrightarrow> sorted (0 # map de_At (di_Events t))"
proof -
  let ?t = "run dispute_step d ops"
  have inv: "dispute_inv ?t" by (rule dispute_process.run_invar [OF NewDispute_inv [OF assms]])
  have "restore_events 0 0 (di_Events ?t) = None \<longleftrightarrow> sorted (0 # map de_At (di_Events ?t))"
  proof -
    have "\<forall>k<length (di_Events ?t). event_ok (0 + k) (di_Events ?t ! k)" using inv by (simp add: dispute_inv_def)
    then show ?thesis unfolding restore_events_iff by (intro iffI conjI) (elim conjE)
  qed
  moreover have "RestoreDispute ?t = Inr ?t \<longleftrightarrow> restore_events 0 0 (di_Events ?t) = None"
    using inv by (auto simp: RestoreDispute_def dispute_inv_def independent_def)
  ultimately show ?thesis by (simp only: Let_def)
qed

lemma acme_namespace: "namespace_Validate ''acme/gateway'' = None"
  by (simp add: namespace_Validate_def namespacePartPattern_def class_match_def char_class_defs)

lemma bob_id: "principal_id_Validate ''bob'' = None"
  by (rule plain_principal_id) (simp_all add: plain_def code_def)

lemma wrong_reason: "validateReason ''wrong'' = None"
  by (rule plain_reason) (simp_all add: plain_def code_def)

definition sample_dispute :: dispute where
  "sample_dispute = dispute_append DisputeEventOpened ''alice'' ''wrong'' [] 10
     \<lparr>di_ID = uuid_a, di_ObservationID = zero_digest, di_Subject = ''acme/gateway'', di_Creator = ''alice'',
      di_SubjectOwner = ''bob'', di_Reviewer = [], di_Status = DisputeOpened, di_Events = []\<rparr>"

lemma sample_dispute_new:
  "NewDispute alice_owner uuid_a zero_digest ''acme/gateway'' ''bob'' ''wrong'' 10 = Inr sample_dispute"
  by (simp add: NewDispute_def acme_namespace bob_id wrong_reason sample_dispute_def)

lemma sample_review:
  "dispute_step sample_dispute (OpBeginReview moderator t) = (if t = 0 then (sample_dispute, Some (Err ''review time is required''))
     else (dispute_append DisputeEventReviewStarted ''mod'' ''review_started'' [] t
             (sample_dispute\<lparr>di_Reviewer := ''mod'', di_Status := DisputeUnderReview\<rparr>), None))"
  by (simp add: dispute_step_def BeginReview_def sample_dispute_def moderator_def [THEN arg_cong [where f = pr_id], simplified])


theorem dispute_restorable_iff_witness:
  "snd (dispute_step sample_dispute (OpBeginReview moderator 5)) = None \<and>
   (let t = run dispute_step sample_dispute [OpBeginReview moderator 5] in RestoreDispute t \<noteq> Inr t)"
proof -
  have "snd (dispute_step sample_dispute (OpBeginReview moderator 5)) = None" by (simp add: sample_review)
  moreover have "\<not> sorted (0 # map de_At (di_Events (run dispute_step sample_dispute [OpBeginReview moderator 5])))"
    by (simp add: sample_review) (simp add: sample_dispute_def dispute_append_def)
  ultimately show ?thesis
    using dispute_restorable_iff [OF sample_dispute_new, of "[OpBeginReview moderator 5]"] by (simp only: Let_def simp_thms)
qed

end
