(* ===== verification/RateLimit.thy ===== *)
theory RateLimit
  imports GoStd Machines
begin

text \<open>
  The fixed-window rate limiter of the Registry API (\<open>internal/registry/httpapi/ratelimit.go\<close>).
  \<open>allow\<close> holds the mutex for its whole body.  The map is read and written by key only, except for
  the removal of stale windows, whose order does not matter.  Counters are \<open>int\<close> in the code and
  grow by one per request; \<open>time.Add\<close> and \<open>time.Sub\<close> work on nanoseconds.
\<close>

section \<open>The limiter\<close>

record rate_window =
  rw_started :: time
  rw_count :: nat

record limiter =
  lm_limit :: int
  lm_window :: duration
  lm_entries :: "(string, rate_window) gomap"

definition newFixedWindowLimiter :: "int \<Rightarrow> duration \<Rightarrow> limiter" where
  "newFixedWindowLimiter limit window = \<lparr>lm_limit = limit, lm_window = window, lm_entries = []\<rparr>"

definition rate_key :: "limiter \<Rightarrow> string \<Rightarrow> string" where
  "rate_key l key = (if \<not> ahas (lm_entries l) key \<and> length (lm_entries l) \<ge> 4096 then ''overflow'' else key)"

text \<open>A missing key reads as the zero window.\<close>

definition entry_of :: "limiter \<Rightarrow> string \<Rightarrow> rate_window" where
  "entry_of l key = (case aget (lm_entries l) key of None \<Rightarrow> \<lparr>rw_started = 0, rw_count = 0\<rparr> | Some e \<Rightarrow> e)"

definition fresh_entry :: "limiter \<Rightarrow> rate_window \<Rightarrow> time \<Rightarrow> rate_window" where
  "fresh_entry l e now =
     (if is_zero (rw_started e) \<or> time_sub now (rw_started e) \<ge> lm_window l \<or> now < rw_started e
      then \<lparr>rw_started = now, rw_count = 0\<rparr> else e)"

definition drop_stale :: "limiter \<Rightarrow> time \<Rightarrow> (string, rate_window) gomap \<Rightarrow> (string, rate_window) gomap" where
  "drop_stale l now m = filter (\<lambda>(_, e). \<not> time_sub now (rw_started e) \<ge> lm_window l) m"

definition allow :: "limiter \<Rightarrow> string \<Rightarrow> time \<Rightarrow> limiter \<times> bool \<times> int \<times> duration" where
  "allow l key0 now =
     (if lm_limit l \<le> 0 then (l, True, 0, 0)
      else
        (let key = rate_key l key0;
             entry0 = fresh_entry l (entry_of l key) now;
             entry = entry0\<lparr>rw_count := rw_count entry0 + 1\<rparr>;
             entries = aput key entry (lm_entries l);
             entries' = (if length entries > 4096 then drop_stale l now entries else entries)
         in (l\<lparr>lm_entries := entries'\<rparr>, int (rw_count entry) \<le> lm_limit l,
             max (lm_limit l - int (rw_count entry)) 0, time_sub (rw_started entry + lm_window l) now)))"

section \<open>Histories\<close>

text \<open>
  A request is a source and the clock reading.  The trace lists, for each request, the bucket it was
  counted in, the start of that bucket's window, whether it was allowed, and the clock.
\<close>

primrec rate_run :: "limiter \<Rightarrow> (string \<times> time) list \<Rightarrow> limiter" where
  "rate_run l [] = l"
| "rate_run l (r # rs) = rate_run (fst (allow l (fst r) (snd r))) rs"

definition rate_item :: "limiter \<Rightarrow> string \<times> time \<Rightarrow> string \<times> time \<times> bool \<times> time" where
  "rate_item l r = (rate_key l (fst r), rw_started (fresh_entry l (entry_of l (rate_key l (fst r))) (snd r)),
     fst (snd (allow l (fst r) (snd r))), snd r)"

primrec rate_trace :: "limiter \<Rightarrow> (string \<times> time) list \<Rightarrow> (string \<times> time \<times> bool \<times> time) list" where
  "rate_trace l [] = []"
| "rate_trace l (r # rs) = rate_item l r # rate_trace (fst (allow l (fst r) (snd r))) rs"

lemma rate_run_snoc: "rate_run l (rs @ [r]) = fst (allow (rate_run l rs) (fst r) (snd r))"
  by (induction rs arbitrary: l) simp_all

lemma rate_trace_snoc: "rate_trace l (rs @ [r]) = rate_trace l rs @ [rate_item (rate_run l rs) r]"
  by (induction rs arbitrary: l) simp_all

lemma allow_config [simp]: "lm_limit (fst (allow l k now)) = lm_limit l" "lm_window (fst (allow l k now)) = lm_window l"
  by (simp_all add: allow_def Let_def)

lemma rate_run_config [simp]: "lm_limit (rate_run l rs) = lm_limit l" "lm_window (rate_run l rs) = lm_window l"
  by (induction rs arbitrary: l) simp_all

section \<open>The number of windows\<close>

text \<open>At most 4097 windows are kept, the last one the shared one.\<close>

definition limiter_inv :: "limiter \<Rightarrow> bool" where
  "limiter_inv l \<longleftrightarrow> map_ok (lm_entries l) \<and> length (lm_entries l) \<le> 4097 \<and>
     (length (lm_entries l) = 4097 \<longrightarrow> ahas (lm_entries l) ''overflow'')"

lemma akeys_filter: "akeys (filter P m) = map fst (filter P m)"
  by (simp add: akeys_def)

lemma map_ok_filter: "map_ok m \<Longrightarrow> map_ok (filter P m)"
  by (simp add: map_ok_def akeys_def distinct_map_filter)

lemma aget_filter: "map_ok m \<Longrightarrow> aget (filter P m) k = (case aget m k of None \<Rightarrow> None | Some v \<Rightarrow> if P (k, v) then Some v else None)"
proof (cases "aget m k")
  case None
  then have "k \<notin> fst ` set m" by (simp add: aget_def map_of_eq_None_iff)
  then have "k \<notin> fst ` set (filter P m)" by auto
  then have "aget (filter P m) k = None" unfolding aget_def map_of_eq_None_iff .
  then show ?thesis using None by simp
next
  case (Some v)
  assume ok: "map_ok m"
  have "aget (filter P m) k = Some w \<longleftrightarrow> w = v \<and> P (k, v)" for w
  proof -
    have "aget (filter P m) k = Some w \<longleftrightarrow> aget m k = Some w \<and> P (k, w)"
      by (simp add: aget_iff [OF map_ok_filter [OF ok]] aget_iff [OF ok])
    with Some show ?thesis by auto
  qed
  then show ?thesis using Some by (cases "aget (filter P m) k") auto
qed

lemma filter_full: "length (filter P m) = length m \<Longrightarrow> filter P m = m"
  by (metis filter_id_conv length_filter_less less_irrefl)

lemma rate_key_present: "ahas (lm_entries l) (rate_key l k) \<or> length (lm_entries l) < 4096 \<or> rate_key l k = ''overflow''"
  by (simp add: rate_key_def)

lemma limiter_inv_put:
  assumes "limiter_inv l"
  shows "map_ok (aput (rate_key l k) e (lm_entries l)) \<and> length (aput (rate_key l k) e (lm_entries l)) \<le> 4097 \<and>
    (length (aput (rate_key l k) e (lm_entries l)) = 4097 \<longrightarrow> ahas (aput (rate_key l k) e (lm_entries l)) ''overflow'')"
proof -
  let ?k = "rate_key l k" and ?n = "length (lm_entries l)"
  have ok: "map_ok (lm_entries l)" "?n \<le> 4097" "?n = 4097 \<Longrightarrow> ahas (lm_entries l) ''overflow''"
    using assms by (auto simp: limiter_inv_def)
  show ?thesis
  proof (cases "ahas (lm_entries l) ?k")
    case True
    then show ?thesis using ok by (simp add: length_aput)
  next
    case False
    then have len: "length (aput ?k e (lm_entries l)) = Suc ?n" by (simp add: length_aput)
    have "?n < 4096 \<or> ?k = ''overflow''" using False rate_key_present [of l k] by auto
    then show ?thesis
    proof
      assume "?n < 4096"
      then show ?thesis using ok len by simp
    next
      assume k: "?k = ''overflow''"
      then have "?n \<noteq> 4097" using False ok(3) by auto
      then show ?thesis using ok len k by simp
    qed
  qed
qed

lemma allow_inv: "limiter_inv l \<Longrightarrow> limiter_inv (fst (allow l k now))"
proof (cases "lm_limit l \<le> 0")
  case False
  assume inv: "limiter_inv l"
  obtain e m where m: "m = aput (rate_key l k) e (lm_entries l)"
    and res: "lm_entries (fst (allow l k now)) = (if length m > 4096 then drop_stale l now m else m)"
    using False by (auto simp: allow_def Let_def)
  note put = limiter_inv_put [OF inv, of k e, folded m]
  show ?thesis
  proof (cases "length m > 4096")
    case True
    have "length (drop_stale l now m) \<le> length m" by (simp add: drop_stale_def)
    moreover have "ahas (drop_stale l now m) ''overflow''" if "length (drop_stale l now m) = 4097"
    proof -
      have "length m = 4097" using put that \<open>length (drop_stale l now m) \<le> length m\<close> by simp
      with that have "drop_stale l now m = m" unfolding drop_stale_def by (intro filter_full) simp
      with put \<open>length m = 4097\<close> show ?thesis by simp
    qed
    moreover have "map_ok (drop_stale l now m)" using put by (simp add: drop_stale_def map_ok_filter)
    ultimately show ?thesis using put True res by (auto simp: limiter_inv_def intro: le_trans)
  next
    case small: False
    then show ?thesis using put res by (simp add: limiter_inv_def)
  qed
qed (simp add: allow_def)

lemma rate_run_inv: "limiter_inv l \<Longrightarrow> limiter_inv (rate_run l rs)"
  by (induction rs arbitrary: l) (simp_all add: allow_inv)

lemma new_limiter_inv: "limiter_inv (newFixedWindowLimiter n w)"
  by (simp add: limiter_inv_def newFixedWindowLimiter_def)

section \<open>The number of requests per window\<close>

type_synonym rate_record = "string \<times> time \<times> bool \<times> time"

definition counted :: "rate_record list \<Rightarrow> string \<Rightarrow> time \<Rightarrow> nat" where
  "counted tr b s = length (filter (\<lambda>(b', s', _, _). b' = b \<and> s' = s) tr)"

definition allowed :: "rate_record list \<Rightarrow> string \<Rightarrow> time \<Rightarrow> nat" where
  "allowed tr b s = length (filter (\<lambda>(b', s', a, _). b' = b \<and> s' = s \<and> a) tr)"

lemma counted_snoc: "counted (tr @ [(b', s', a, t)]) b s = counted tr b s + (if b' = b \<and> s' = s then 1 else 0)"
  by (simp add: counted_def)

lemma allowed_snoc: "allowed (tr @ [(b', s', a, t)]) b s = allowed tr b s + (if b' = b \<and> s' = s \<and> a then 1 else 0)"
  by (simp add: allowed_def)

text \<open>
  The limiter \<open>l\<close> after the trace \<open>tr\<close>, at clock \<open>T\<close>: a kept window knows its count; a window that is no
  longer kept is over, and the windows of a bucket do not overlap.
\<close>

definition window_kept :: "limiter \<Rightarrow> string \<Rightarrow> time \<Rightarrow> bool" where
  "window_kept l b s \<longleftrightarrow> (\<exists>e. aget (lm_entries l) b = Some e \<and> rw_started e = s)"

definition window_inv :: "limiter \<Rightarrow> rate_record list \<Rightarrow> time \<Rightarrow> bool" where
  "window_inv l tr T \<longleftrightarrow>
     (\<forall>b e. aget (lm_entries l) b = Some e \<longrightarrow>
        0 < rw_started e \<and> rw_started e \<le> T \<and> rw_count e = counted tr b (rw_started e)) \<and>
     (\<forall>b s. 0 < counted tr b s \<longrightarrow> window_kept l b s \<or>
        s + lm_window l \<le> T \<and> (\<forall>e. aget (lm_entries l) b = Some e \<longrightarrow> s + lm_window l \<le> rw_started e)) \<and>
     (\<forall>b s. int (allowed tr b s) = min (int (counted tr b s)) (lm_limit l)) \<and>
     (\<forall>b s a t. (b, s, a, t) \<in> set tr \<longrightarrow> s \<le> t \<and> t < s + lm_window l) \<and>
     (\<forall>b s s'. 0 < counted tr b s \<longrightarrow> 0 < counted tr b s' \<longrightarrow> s < s' \<longrightarrow> s + lm_window l \<le> s')"

definition sane :: "limiter \<Rightarrow> bool" where
  "sane l \<longleftrightarrow> 0 < lm_limit l \<and> 0 < lm_window l \<and> lm_window l < 2 ^ 63"

lemma sane_time_sub: "sane l \<Longrightarrow> lm_window l \<le> time_sub now s \<longleftrightarrow> s + lm_window l \<le> now"
  using time_sub_ge [of "lm_window l" now s] by (auto simp: sane_def)

definition raised :: "rate_window \<Rightarrow> rate_window" where
  "raised e = e\<lparr>rw_count := rw_count e + 1\<rparr>"

lemma raised_simps [simp]: "rw_started (raised e) = rw_started e" "rw_count (raised e) = rw_count e + 1"
  by (simp_all add: raised_def)

text \<open>The map after a request: one window replaced, and possibly some windows removed that are over.\<close>

lemma allow_entries:
  assumes "sane l" "map_ok (lm_entries l)" and m: "m = aput (rate_key l k)
      (raised (fresh_entry l (entry_of l (rate_key l k)) now)) (lm_entries l)"
  shows "map_ok (lm_entries (fst (allow l k now)))"
    and "aget (lm_entries (fst (allow l k now))) b = Some e \<Longrightarrow> aget m b = Some e"
    and "aget m b = Some e \<Longrightarrow> aget (lm_entries (fst (allow l k now))) b = Some e \<or>
        aget (lm_entries (fst (allow l k now))) b = None \<and> rw_started e + lm_window l \<le> now"
proof -
  have ok: "map_ok m" using assms(2) by (simp add: m)
  have res: "lm_entries (fst (allow l k now)) = (if length m > 4096 then drop_stale l now m else m)"
    using assms(1) by (simp add: allow_def Let_def sane_def m raised_def)
  have get: "aget (drop_stale l now m) b = (case aget m b of None \<Rightarrow> None
        | Some v \<Rightarrow> if \<not> rw_started v + lm_window l \<le> now then Some v else None)"
    unfolding drop_stale_def aget_filter [OF ok] by (simp add: sane_time_sub [OF assms(1)] split: option.splits)
  show "map_ok (lm_entries (fst (allow l k now)))" using ok by (simp add: res drop_stale_def map_ok_filter)
  show "aget (lm_entries (fst (allow l k now))) b = Some e \<Longrightarrow> aget m b = Some e"
    using get by (auto simp: res split: if_splits option.splits)
  show "aget m b = Some e \<Longrightarrow> aget (lm_entries (fst (allow l k now))) b = Some e \<or>
        aget (lm_entries (fst (allow l k now))) b = None \<and> rw_started e + lm_window l \<le> now"
    using get by (auto simp: res)
qed

lemma window_inv_entry:
  "window_inv l tr T \<Longrightarrow> aget (lm_entries l) b = Some e \<Longrightarrow>
     0 < rw_started e \<and> rw_started e \<le> T \<and> rw_count e = counted tr b (rw_started e)"
  by (simp add: window_inv_def)

lemma window_inv_old:
  "window_inv l tr T \<Longrightarrow> 0 < counted tr b s \<Longrightarrow> window_kept l b s \<or>
     s + lm_window l \<le> T \<and> (\<forall>e. aget (lm_entries l) b = Some e \<longrightarrow> s + lm_window l \<le> rw_started e)"
  by (simp add: window_inv_def)

lemma window_inv_rest:
  assumes "window_inv l tr T"
  shows "int (allowed tr b s) = min (int (counted tr b s)) (lm_limit l)"
    and "(b, s, a, t) \<in> set tr \<Longrightarrow> s \<le> t \<and> t < s + lm_window l"
    and "0 < counted tr b s \<Longrightarrow> 0 < counted tr b s' \<Longrightarrow> s < s' \<Longrightarrow> s + lm_window l \<le> s'"
  using assms unfolding window_inv_def by blast+

lemma fresh_entry_cases:
  assumes "sane l" "window_inv l tr T" "T \<le> now" "0 < now"
  obtains (running) e where "aget (lm_entries l) b = Some e" "fresh_entry l (entry_of l b) now = e" "now < rw_started e + lm_window l"
      "rw_started e \<le> now"
  | (new) "fresh_entry l (entry_of l b) now = \<lparr>rw_started = now, rw_count = 0\<rparr>" "counted tr b now = 0"
      "\<And>e. aget (lm_entries l) b = Some e \<Longrightarrow> rw_started e + lm_window l \<le> now"
      "\<And>s. 0 < counted tr b s \<Longrightarrow> s + lm_window l \<le> now"
proof (cases "\<exists>e. aget (lm_entries l) b = Some e \<and> now < rw_started e + lm_window l")
  case True
  then obtain e where e: "aget (lm_entries l) b = Some e" "now < rw_started e + lm_window l" by auto
  then have "0 < rw_started e \<and> rw_started e \<le> T" using assms(2) by (simp add: window_inv_def)
  then have "0 < rw_started e" "rw_started e \<le> now" using assms(3) by auto
  with e show ?thesis using running sane_time_sub [OF assms(1), of now "rw_started e"]
    by (auto simp: fresh_entry_def entry_of_def)
next
  case False
  have over: "rw_started e + lm_window l \<le> now" if "aget (lm_entries l) b = Some e" for e using False that by force
  then have fresh: "fresh_entry l (entry_of l b) now = \<lparr>rw_started = now, rw_count = 0\<rparr>"
    using sane_time_sub [OF assms(1), of now] by (auto simp: fresh_entry_def entry_of_def split: option.splits)
  have old: "s + lm_window l \<le> now" if "0 < counted tr b s" for s
    using window_inv_old [OF assms(2) that] over assms(3) by (auto simp: window_kept_def)
  then have none: "counted tr b now = 0" using assms(1) by (force simp: sane_def)
  show ?thesis by (rule new [OF fresh none over old])
qed

text \<open>The invariant after one more request, given the bucket and its window before the count is raised.\<close>

lemma window_inv_step:
  assumes sane: "sane l" and inv: "window_inv l tr T" and now: "T \<le> now" "0 < now"
    and cfg: "lm_limit l' = lm_limit l" "lm_window l' = lm_window l"
    and b: "fresh_entry l (entry_of l b) now = e0"
    and kept: "\<And>x e. aget (lm_entries l') x = Some e \<Longrightarrow>
        aget (aput b (raised e0) (lm_entries l)) x = Some e"
    and gone: "\<And>x e. aget (aput b (raised e0) (lm_entries l)) x = Some e \<Longrightarrow>
        aget (lm_entries l') x = Some e \<or> aget (lm_entries l') x = None \<and> rw_started e + lm_window l \<le> now"
    and ok: "a \<longleftrightarrow> int (rw_count e0 + 1) \<le> lm_limit l"
  shows "window_inv l' (tr @ [(b, rw_started e0, a, now)]) now"
proof -
  let ?s = "rw_started e0" and ?tr = "tr @ [(b, rw_started e0, a, now)]" and ?w = "lm_window l"
  have "0 < ?s \<and> ?s \<le> now \<and> now < ?s + ?w \<and> rw_count e0 = counted tr b ?s \<and>
      (\<forall>s. 0 < counted tr b s \<longrightarrow> s \<noteq> ?s \<longrightarrow> s + ?w \<le> ?s \<and> s + ?w \<le> now)"
  proof (cases rule: fresh_entry_cases [OF sane inv now, of b, case_names running new])
    case (running e)
    then have e: "e = e0" using b by simp
    have g: "aget (lm_entries l) b = Some e0" using running(1) e by simp
    have "0 < ?s \<and> ?s \<le> T \<and> rw_count e0 = counted tr b ?s" by (rule window_inv_entry [OF inv g])
    moreover have "s + ?w \<le> ?s \<and> s + ?w \<le> now" if "0 < counted tr b s" "s \<noteq> ?s" for s
      using window_inv_old [OF inv that(1)] g now that(2) by (auto simp: window_kept_def)
    ultimately show ?thesis using running e now by simp
  next
    case new
    then show ?thesis using b now sane by (auto simp: sane_def)
  qed
  then have e0: "0 < ?s" "?s \<le> now" "now < ?s + ?w" "rw_count e0 = counted tr b ?s"
    and old: "\<And>s. 0 < counted tr b s \<Longrightarrow> s \<noteq> ?s \<Longrightarrow> s + ?w \<le> ?s \<and> s + ?w \<le> now" by auto
  have put: "aget (aput b (raised e0) (lm_entries l)) x =
      (if x = b then Some (raised e0) else aget (lm_entries l) x)" for x by simp
  have c1: "0 < rw_started e \<and> rw_started e \<le> now \<and> rw_count e = counted ?tr x (rw_started e)"
    if "aget (lm_entries l') x = Some e" for x e
  proof (cases "x = b")
    case True
    then have "e = raised e0" using kept [OF that] by simp
    with True e0 show ?thesis by (simp add: counted_snoc)
  next
    case False
    then have "aget (lm_entries l) x = Some e" using kept [OF that] by simp
    from window_inv_entry [OF inv this] False now show ?thesis by (auto simp: counted_snoc)
  qed
  have c2: "window_kept l' x s \<or> s + ?w \<le> now \<and> (\<forall>e. aget (lm_entries l') x = Some e \<longrightarrow> s + ?w \<le> rw_started e)"
    if n: "0 < counted ?tr x s" for x s
  proof (cases "x = b")
    case True
    have "aget (lm_entries l') b = Some (raised e0)"
      using gone [of b "raised e0"] e0 by auto
    then show ?thesis using True n old [of s] by (cases "s = ?s") (auto simp: window_kept_def counted_snoc)
  next
    case False
    then have "0 < counted tr x s" using n by (simp add: counted_snoc)
    then consider (k) e where "aget (lm_entries l) x = Some e" "rw_started e = s"
      | (o) "s + ?w \<le> T" "\<And>e. aget (lm_entries l) x = Some e \<Longrightarrow> s + ?w \<le> rw_started e"
      using window_inv_old [OF inv] unfolding window_kept_def by blast
    then show ?thesis
    proof cases
      case k
      then have "aget (lm_entries l') x = Some e \<or> aget (lm_entries l') x = None \<and> s + ?w \<le> now"
        using gone [of x e] False by auto
      then show ?thesis using k by (auto simp: window_kept_def)
    next
      case o
      then show ?thesis using now kept [of x] False by auto
    qed
  qed
  have c3: "int (allowed ?tr x s) = min (int (counted ?tr x s)) (lm_limit l)" for x s
  proof -
    have "int (allowed tr x s) = min (int (counted tr x s)) (lm_limit l)" by (rule window_inv_rest [OF inv])
    then show ?thesis using ok e0 by (auto simp: allowed_snoc counted_snoc)
  qed
  have c4: "s \<le> t \<and> t < s + ?w" if "(x, s, y, t) \<in> set ?tr" for x s y t
    using that window_inv_rest(2) [OF inv, of x s y t] e0 by auto
  have c5: "s + ?w \<le> s'" if "0 < counted ?tr x s" "0 < counted ?tr x s'" "s < s'" for x s s'
  proof (cases "x = b \<and> (s = ?s \<or> s' = ?s)")
    case False
    then have "0 < counted tr x s" "0 < counted tr x s'" using that by (auto simp: counted_snoc split: if_splits)
    from window_inv_rest(3) [OF inv this that(3)] show ?thesis .
  next
    case True
    then show ?thesis using that old [of s] old [of s'] sane by (auto simp: counted_snoc sane_def split: if_splits)
  qed
  show ?thesis unfolding window_inv_def cfg using c1 c2 c3 c4 c5 by blast
qed

lemma new_limiter_window_inv: "0 < limit \<Longrightarrow> window_inv (newFixedWindowLimiter limit w) [] 0"
  by (simp add: window_inv_def newFixedWindowLimiter_def counted_def allowed_def)

lemma rate_trace_inv:
  assumes "0 < limit" "0 < w" "w < 2 ^ 63"
  shows "sorted (map snd rs) \<Longrightarrow> \<forall>r\<in>set rs. 0 < snd r \<Longrightarrow>
    window_inv (rate_run (newFixedWindowLimiter limit w) rs) (rate_trace (newFixedWindowLimiter limit w) rs)
      (if rs = [] then 0 else snd (last rs))"
proof (induction rs rule: rev_induct)
  case Nil
  then show ?case by (simp add: new_limiter_window_inv assms)
next
  case (snoc r rs)
  let ?n = "newFixedWindowLimiter limit w"
  let ?l = "rate_run ?n rs"
  let ?T = "if rs = [] then 0 else snd (last rs)"
  let ?e0 = "fresh_entry ?l (entry_of ?l (rate_key ?l (fst r))) (snd r)"
  have sane: "sane ?l" using assms by (simp add: sane_def) (simp add: newFixedWindowLimiter_def)
  have ok: "map_ok (lm_entries ?l)" using rate_run_inv [OF new_limiter_inv, of limit w rs] by (simp add: limiter_inv_def)
  have inv: "window_inv ?l (rate_trace ?n rs) ?T" using snoc by (simp add: sorted_append)
  have "?T \<le> snd r"
  proof (cases "rs = []")
    case False
    then have "last rs \<in> set rs" by simp
    with snoc.prems(1) False show ?thesis by (auto simp: sorted_append)
  qed (use snoc.prems in simp)
  moreover have "0 < snd r" using snoc.prems by simp
  ultimately have "window_inv (fst (allow ?l (fst r) (snd r)))
      (rate_trace ?n rs @ [(rate_key ?l (fst r), rw_started ?e0, fst (snd (allow ?l (fst r) (snd r))), snd r)]) (snd r)"
  proof (rule window_inv_step [OF sane inv])
    show "fst (snd (allow ?l (fst r) (snd r))) \<longleftrightarrow> int (rw_count ?e0 + 1) \<le> lm_limit ?l"
      using sane by (simp add: allow_def Let_def sane_def)
  qed (use allow_entries [OF sane ok refl] in auto)
  then show ?case by (simp add: rate_run_snoc rate_trace_snoc rate_item_def)
qed

lemma length_filter_le_add:
  "(\<And>x. x \<in> set xs \<Longrightarrow> Q x \<Longrightarrow> P1 x \<or> P2 x) \<Longrightarrow> length (filter Q xs) \<le> length (filter P1 xs) + length (filter P2 xs)"
proof (induction xs)
  case (Cons x xs)
  then have "length (filter Q xs) \<le> length (filter P1 xs) + length (filter P2 xs)" by simp
  with Cons.prems [of x] show ?case by auto
qed simp

text \<open>Three windows of one bucket do not meet a span that is no longer than a window.\<close>

lemma two_windows:
  assumes apart: "\<And>x y :: int. x \<in> S \<Longrightarrow> y \<in> S \<Longrightarrow> x < y \<Longrightarrow> x + w \<le> y"
    and near: "\<And>x. x \<in> S \<Longrightarrow> t - w < x \<and> x < t + w"
  shows "\<exists>s1 s2. S \<subseteq> {s1, s2}"
proof (rule ccontr)
  assume no: "\<not> (\<exists>s1 s2. S \<subseteq> {s1, s2})"
  then obtain x where x: "x \<in> S" by blast
  from no obtain y where y: "y \<in> S" "y \<noteq> x" by blast
  from no obtain z where z: "z \<in> S" "z \<noteq> x" "z \<noteq> y" by blast
  have dist: "a + w \<le> b \<or> b + w \<le> a" if "a \<in> S" "b \<in> S" "a \<noteq> b" for a b
    using apart [OF that(1,2)] apart [OF that(2,1)] that(3) by linarith
  show False
    using dist [OF x y(1) y(2) [symmetric]] dist [OF x z(1) z(2) [symmetric]] dist [OF y(1) z(1) z(3) [symmetric]]
      near [OF x] near [OF y(1)] near [OF z(1)] by linarith
qed

lemma window_inv_span:
  assumes "window_inv l tr T" "0 < lm_limit l"
  shows "int (length (filter (\<lambda>(b', s, a, now). b' = b \<and> a \<and> t \<le> now \<and> now < t + lm_window l) tr)) \<le> 2 * lm_limit l"
proof -
  let ?Q = "\<lambda>(b', s, a, now). b' = b \<and> a \<and> t \<le> now \<and> now < t + lm_window l"
  let ?S = "{s. \<exists>a now. (b, s, a, now) \<in> set tr \<and> t \<le> now \<and> now < t + lm_window l}"
  have pos: "0 < counted tr b s" if "s \<in> ?S" for s
  proof -
    from that obtain a now where "(b, s, a, now) \<in> set (filter (\<lambda>(b', s', _, _). b' = b \<and> s' = s) tr)" by auto
    then show ?thesis unfolding counted_def by (metis length_pos_if_in_set)
  qed
  have "\<exists>s1 s2. ?S \<subseteq> {s1, s2}"
  proof (rule two_windows)
    show "x + lm_window l \<le> y" if "x \<in> ?S" "y \<in> ?S" "x < y" for x y
      by (rule window_inv_rest(3) [OF assms(1) pos [OF that(1)] pos [OF that(2)] that(3)])
    show "t - lm_window l < x \<and> x < t + lm_window l" if "x \<in> ?S" for x
      using that window_inv_rest(2) [OF assms(1), of b x] by fastforce
  qed
  then obtain s1 s2 where S: "?S \<subseteq> {s1, s2}" by blast
  have "length (filter ?Q tr) \<le> allowed tr b s1 + allowed tr b s2"
    unfolding allowed_def
  proof (rule length_filter_le_add)
    fix x assume x: "x \<in> set tr" "?Q x"
    obtain b' s a now where xx: "x = (b', s, a, now)" by (metis prod_cases4)
    with x have "s \<in> ?S" by auto
    with S have "s = s1 \<or> s = s2" by blast
    with x xx show "(case x of (b', s', a, _) \<Rightarrow> b' = b \<and> s' = s1 \<and> a) \<or> (case x of (b', s', a, _) \<Rightarrow> b' = b \<and> s' = s2 \<and> a)" by auto
  qed
  moreover have lim: "int (allowed tr b s) \<le> lm_limit l" for s by (simp add: window_inv_rest(1) [OF assms(1)])
  ultimately show ?thesis using lim [of s1] lim [of s2] by linarith
qed

section \<open>Properties\<close>

text \<open>
  C35.  The rate limit, for every sequence of requests on a clock that does not go back: the limiter
  never keeps more than 4097 windows whatever sources appear; in each window of a bucket exactly
  the first \<open>limit\<close> requests are allowed; and in any span of time as long as a window at most
  \<open>2 * limit\<close> requests of one bucket are allowed.
\<close>

theorem rate_limit_bounds:
  assumes "0 < limit" "0 < w" "w < 2 ^ 63" "sorted (map snd rs)" "\<forall>r\<in>set rs. 0 < snd r"
  shows "let n = newFixedWindowLimiter limit w; tr = rate_trace n rs in
    length (lm_entries (rate_run n rs)) \<le> 4097 \<and>
    (\<forall>b s. int (allowed tr b s) = min (int (counted tr b s)) limit) \<and>
    (\<forall>b t. int (length (filter (\<lambda>(b', s, a, now). b' = b \<and> a \<and> t \<le> now \<and> now < t + w) tr)) \<le> 2 * limit)"
proof -
  let ?n = "newFixedWindowLimiter limit w"
  have cfg: "lm_limit (rate_run ?n rs) = limit" "lm_window (rate_run ?n rs) = w" by (simp_all add: newFixedWindowLimiter_def)
  have "length (lm_entries (rate_run ?n rs)) \<le> 4097"
    using rate_run_inv [OF new_limiter_inv, of limit w rs] by (simp add: limiter_inv_def)
  moreover note inv = rate_trace_inv [OF assms]
  ultimately show ?thesis
    using window_inv_rest(1) [OF inv] window_inv_span [OF inv] assms(1) unfolding cfg Let_def by blast
qed

theorem rate_limit_bounds_witness:
  "let tr = rate_trace (newFixedWindowLimiter 2 10) [(''a'', 1), (''a'', 2), (''a'', 3), (''b'', 3), (''a'', 12)] in
    map (\<lambda>(_, _, a, _). a) tr = [True, True, False, True, True] \<and> int (allowed tr ''a'' 1) = min (int (counted tr ''a'' 1)) 2"
proof -
  let ?tr = "rate_trace (newFixedWindowLimiter 2 10) [(''a'', 1), (''a'', 2), (''a'', 3), (''b'', 3), (''a'', 12)]"
  have "map (\<lambda>(_, _, a, _). a) ?tr = [True, True, False, True, True]" by code_simp
  moreover have "int (allowed ?tr ''a'' 1) = min (int (counted ?tr ''a'' 1)) 2"
    using rate_limit_bounds [of 2 10 "[(''a'', 1), (''a'', 2), (''a'', 3), (''b'', 3), (''a'', 12)]"] unfolding Let_def
    by (elim meta_impE) (simp, simp, simp, simp, simp, blast)
  ultimately show ?thesis unfolding Let_def by (intro conjI)
qed

section \<open>A full table\<close>

text \<open>
  Once exactly 4096 windows are kept and the shared one is among them, the table never exceeds 4096
  again, so stale windows are never removed and no new source ever gets a window of its own.
\<close>

lemma full_table_step:
  assumes "length (lm_entries l) = 4096" "ahas (lm_entries l) ''overflow''"
  shows "length (lm_entries (fst (allow l k now))) = 4096 \<and> (\<forall>x. ahas (lm_entries (fst (allow l k now))) x = ahas (lm_entries l) x)"
proof -
  have "ahas (lm_entries l) (rate_key l k)" using assms by (simp add: rate_key_def)
  then have "length (aput (rate_key l k) e (lm_entries l)) = 4096" "ahas (aput (rate_key l k) e (lm_entries l)) x = ahas (lm_entries l) x"
    for e x using assms(1) by (auto simp: length_aput)
  then show ?thesis using assms(1) by (simp add: allow_def Let_def)
qed

lemma full_table:
  "length (lm_entries l) = 4096 \<Longrightarrow> ahas (lm_entries l) ''overflow'' \<Longrightarrow>
     length (lm_entries (rate_run l rs)) = 4096 \<and> (\<forall>x. ahas (lm_entries (rate_run l rs)) x = ahas (lm_entries l) x)"
  by (induction rs arbitrary: l) (auto simp: full_table_step)

lemma fill_table:
  assumes "0 < limit" "0 < w" "w < 2 ^ 63" "0 < t" "lm_limit l = limit" "lm_window l = w"
  shows "distinct ks \<Longrightarrow> \<forall>k\<in>set ks. \<not> ahas (lm_entries l) k \<Longrightarrow> length (lm_entries l) + length ks \<le> 4096 \<Longrightarrow>
    rate_run l (map (\<lambda>k. (k, t)) ks) = l\<lparr>lm_entries := lm_entries l @ map (\<lambda>k. (k, \<lparr>rw_started = t, rw_count = 1\<rparr>)) ks\<rparr>"
  using assms(5,6)
proof (induction ks arbitrary: l)
  case (Cons k ks)
  have fresh: "\<not> ahas (lm_entries l) k" using Cons.prems(2) by simp
  have "rate_key l k = k" using Cons.prems(3) by (simp add: rate_key_def)
  moreover have "entry_of l k = \<lparr>rw_started = 0, rw_count = 0\<rparr>" using fresh by (simp add: entry_of_def ahas_def)
  ultimately have step: "fst (allow l k t) = l\<lparr>lm_entries := lm_entries l @ [(k, \<lparr>rw_started = t, rw_count = 1\<rparr>)]\<rparr>"
    using Cons.prems(3,4) assms(1) aput_fresh [OF fresh] by (simp add: allow_def Let_def fresh_entry_def)
  let ?l = "l\<lparr>lm_entries := lm_entries l @ [(k, \<lparr>rw_started = t, rw_count = 1\<rparr>)]\<rparr>"
  have "\<not> ahas (lm_entries ?l) x" if "x \<in> set ks" for x
    using that Cons.prems(1,2) by (auto simp: ahas_def aget_def map_add_def)
  with Cons.IH [of ?l] Cons.prems step show ?case by simp
qed simp

definition many_sources :: "nat \<Rightarrow> string list" where
  "many_sources n = map (\<lambda>i. replicate (Suc (Suc i)) (CHR ''a'')) [0..<n]"

lemma many_sources: "distinct (many_sources n)" "length (many_sources n) = n"
    "k \<in> set (many_sources n) \<Longrightarrow> k \<noteq> ''a'' \<and> k \<noteq> ''overflow''"
  by (auto simp: many_sources_def distinct_map inj_on_def)

text \<open>
  The first source at time 1, then 4095 others at time 2, then one more when only the first window
  is over: the shared window is added, the first one removed, and the table is full for good.
\<close>

definition filling :: "(string \<times> time) list" where
  "filling = (''a'', 1) # map (\<lambda>k. (k, 2)) (many_sources 4095) @ [(''new'', 11)]"

lemma filled_entries:
  "lm_entries (rate_run (newFixedWindowLimiter 100 10) filling) =
     map (\<lambda>k. (k, \<lparr>rw_started = 2, rw_count = 1\<rparr>)) (many_sources 4095) @ [(''overflow'', \<lparr>rw_started = 11, rw_count = 1\<rparr>)]"
proof -
  let ?n = "newFixedWindowLimiter 100 10" and ?e = "\<lambda>k. (k, \<lparr>rw_started = (2 :: int), rw_count = 1\<rparr>)"
  let ?l1 = "rate_run ?n [(''a'', 1)]"
  have l1: "?l1 = ?n\<lparr>lm_entries := [(''a'', \<lparr>rw_started = 1, rw_count = 1\<rparr>)]\<rparr>"
    by (simp add: newFixedWindowLimiter_def allow_def Let_def rate_key_def fresh_entry_def entry_of_def aput_def)
  let ?m = "(''a'', \<lparr>rw_started = 1, rw_count = 1\<rparr>) # map ?e (many_sources 4095)"
  let ?l2 = "rate_run ?l1 (map (\<lambda>k. (k, 2)) (many_sources 4095))"
  have l2: "?l2 = ?n\<lparr>lm_entries := ?m\<rparr>"
    unfolding l1
    by (subst fill_table [where limit = 100 and w = 10])
       (auto simp: many_sources newFixedWindowLimiter_def ahas_def aget_def dest: many_sources(3))
  have len: "length ?m = 4096" by (simp add: many_sources)
  have "k \<notin> fst ` set ?m" if "k \<notin> set (many_sources 4095)" "k \<noteq> ''a''" for k using that by auto
  moreover have "''new'' \<notin> set (many_sources 4095)" by (auto simp: many_sources_def)
  moreover have "''overflow'' \<notin> set (many_sources 4095)" using many_sources(3) by blast
  ultimately have none: "\<not> ahas ?m ''new''" "\<not> ahas ?m ''overflow''"
    by (simp_all add: ahas_def aget_def map_of_eq_None_iff del: map_of.simps)
  have key: "rate_key ?l2 ''new'' = ''overflow''" using none len unfolding rate_key_def l2 by simp
  have "lm_entries (fst (allow ?l2 ''new'' 11)) =
      drop_stale ?n 11 (?m @ [(''overflow'', \<lparr>rw_started = 11, rw_count = 1\<rparr>)])"
    using none len key [unfolded l2] aput_fresh [OF none(2)] unfolding l2
    by (simp add: allow_def Let_def newFixedWindowLimiter_def fresh_entry_def entry_of_def ahas_def drop_stale_def)
  also have "\<dots> = map ?e (many_sources 4095) @ [(''overflow'', \<lparr>rw_started = 11, rw_count = 1\<rparr>)]"
    by (simp add: drop_stale_def newFixedWindowLimiter_def time_sub_def filter_map o_def)
  finally show ?thesis unfolding filling_def by (simp add: rate_run_snoc)
qed

theorem rate_table_sticks:
  "let l = rate_run (newFixedWindowLimiter 100 10) filling in
     \<forall>rs source. \<not> ahas (lm_entries l) source \<longrightarrow>
       \<not> ahas (lm_entries (rate_run l rs)) source \<and> rate_key (rate_run l rs) source = ''overflow''"
proof -
  let ?l = "rate_run (newFixedWindowLimiter 100 10) filling"
  have full: "length (lm_entries ?l) = 4096" by (simp add: filled_entries many_sources)
  have "(''overflow'', \<lparr>rw_started = 11, rw_count = 1\<rparr>) \<in> set (lm_entries ?l)" by (simp add: filled_entries)
  then have "ahas (lm_entries ?l) ''overflow''" by (force simp: ahas_def aget_def map_of_eq_None_iff)
  from full_table [OF full this] show ?thesis by (simp add: Let_def rate_key_def)
qed

end
