(* ===== verification/RegistryObservation.thy ===== *)
theory RegistryObservation
  imports SchemaCore
begin

text \<open>
  Package \<open>api\<close> of the registry (\<open>registry/api/observation.go\<close>): observations, whose identifier is the
  digest of an immutable projection, with append-only attestations and recomputable registry metadata.
  A \<open>CanonicalObject\<close> is its canonical bytes (empty for the zero object).  Canonical JSON, SHA-256 and the
  JSON encoding of the wire record are parameters; accessors that copy a field are the field.
\<close>

section \<open>Projections\<close>

definition ObservationSchemaV1 :: string where
  "ObservationSchemaV1 = ''urn:agentapi-doctor:observation:v1''"

record projection =
  op_SchemaVersion :: string
  op_Subject :: string
  op_Test :: string
  op_Environment :: string
  op_Result :: string
  op_ManifestDigest :: digest

record attestation =
  an_Digest :: digest
  an_URI :: string

datatype freshness = FreshnessUnset | FreshnessUnknown | FreshnessFresh | FreshnessStale | OtherFreshness string

record derived =
  dv_TrustLabels :: "string list"
  dv_Freshness :: freshness
  dv_PublishedAt :: "time option"
  dv_DisputeIDs :: "string list"
  dv_SupersededBy :: digest
  dv_Tombstoned :: bool

record observation =
  ob_id :: digest
  ob_classID :: digest
  ob_projection :: projection
  ob_attestations :: "attestation list"
  ob_derived :: derived

text \<open>The wire form; a section is \<open>None\<close> when the document has no such member.\<close>

record observation_wire =
  wi_SchemaVersion :: string
  wi_ObservationID :: digest
  wi_ObservationClassID :: digest
  wi_Subject :: "string option"
  wi_Test :: "string option"
  wi_Environment :: "string option"
  wi_Result :: "string option"
  wi_ManifestDigest :: digest
  wi_Provenance :: "attestation list"
  wi_RegistryDerived :: derived

record observation_codec =
  oc_canonicalize :: "string \<Rightarrow> string res"
  oc_projection :: "projection \<Rightarrow> string res"
  oc_sha256 :: "string \<Rightarrow> byte list"
  oc_marshal :: "observation_wire \<Rightarrow> string res"
  oc_unmarshal :: "string \<Rightarrow> observation_wire res"

definition ParseCanonicalObject :: "observation_codec \<Rightarrow> string \<Rightarrow> string res" where
  "ParseCanonicalObject C raw = bind_res (oc_canonicalize C raw) (\<lambda>canonical.
     if canonical = [] \<or> hd canonical \<noteq> CHR ''{'' then Inl (Err ''observation section must be a JSON object'')
     else Inr canonical)"

definition projection_Validate :: "projection \<Rightarrow> err" where
  "projection_Validate p = first_err
     ([fail_if (op_SchemaVersion p \<noteq> ObservationSchemaV1) (Err ''unsupported observation schema'')]
      @ map (\<lambda>s. fail_if (s = []) (Err ''section is required'')) [op_Subject p, op_Test p, op_Environment p, op_Result p]
      @ [wrap_err ''manifest digest'' (digest_Validate (op_ManifestDigest p))])"

definition projection_Digest :: "observation_codec \<Rightarrow> projection \<Rightarrow> digest res" where
  "projection_Digest C p = guard_res (projection_Validate p)
     (bind_res (oc_projection C p) (\<lambda>canonical. Inr (NewDigest (oc_sha256 C) canonical)))"

section \<open>Attestations and registry metadata\<close>

definition attestation_validate :: "attestation \<Rightarrow> err" where
  "attestation_validate a = first_err
     [wrap_err ''attestation digest'' (digest_Validate (an_Digest a)),
      fail_if (\<exists>c\<in>set (an_URI a). code c = 13 \<or> code c = 10 \<or> code c = 0)
        (Err ''attestation URI contains a control character'')]"

fun unique_nonempty :: "string list \<Rightarrow> string list \<Rightarrow> err" where
  "unique_nonempty seen [] = None"
| "unique_nonempty seen (v # vs) =
     (if blank v then Some (Err ''value cannot be empty'')
      else if v \<in> set seen then Some (Err ''duplicate value'')
      else unique_nonempty (v # seen) vs)"

definition validateUniqueNonempty :: "string list \<Rightarrow> err" where
  "validateUniqueNonempty vs = unique_nonempty [] vs"

definition derived_validate :: "derived \<Rightarrow> err" where
  "derived_validate d = first_err
     [fail_if (dv_Freshness d \<notin> set [FreshnessUnset, FreshnessUnknown, FreshnessFresh, FreshnessStale]) (Err ''invalid freshness''),
      fail_if (case dv_PublishedAt d of None \<Rightarrow> False | Some t \<Rightarrow> is_zero t) (Err ''published_at cannot be zero''),
      (if dv_SupersededBy d \<noteq> [] then wrap_err ''superseded_by'' (digest_Validate (dv_SupersededBy d)) else None),
      validateUniqueNonempty (dv_TrustLabels d),
      validateUniqueNonempty (dv_DisputeIDs d)]"

section \<open>Observations\<close>

fun attestations_validate :: "digest list \<Rightarrow> attestation list \<Rightarrow> err" where
  "attestations_validate seen [] = None"
| "attestations_validate seen (a # as) =
     (case attestation_validate a of
        Some e \<Rightarrow> Some e
      | None \<Rightarrow> if an_Digest a \<in> set seen then Some (Err ''duplicate attestation'')
               else attestations_validate (an_Digest a # seen) as)"

definition observation_Validate :: "observation_codec \<Rightarrow> observation \<Rightarrow> err" where
  "observation_Validate C o1 =
     (case digest_Validate (ob_classID o1) of
        Some e \<Rightarrow> Some (Wrap ''observation class ID'' e)
      | None \<Rightarrow>
          (case projection_Digest C (ob_projection o1) of
             Inl e \<Rightarrow> Some e
           | Inr want \<Rightarrow> first_err
               [fail_if (ob_id o1 \<noteq> want) (Err ''observation ID mismatch''),
                attestations_validate [] (ob_attestations o1),
                derived_validate (ob_derived o1)]))"

definition NewObservation :: "observation_codec \<Rightarrow> projection \<Rightarrow> digest \<Rightarrow> attestation list \<Rightarrow> derived \<Rightarrow> observation res" where
  "NewObservation C p classID attestations d =
     bind_res (projection_Digest C p) (\<lambda>i.
       (let o1 = \<lparr>ob_id = i, ob_classID = classID, ob_projection = p, ob_attestations = attestations, ob_derived = d\<rparr>
        in guard_res (observation_Validate C o1) (Inr o1)))"

definition WithAttestation :: "observation_codec \<Rightarrow> observation \<Rightarrow> attestation \<Rightarrow> observation res" where
  "WithAttestation C o1 a = NewObservation C (ob_projection o1) (ob_classID o1) (ob_attestations o1 @ [a]) (ob_derived o1)"

definition WithRegistryDerived :: "observation_codec \<Rightarrow> observation \<Rightarrow> derived \<Rightarrow> observation res" where
  "WithRegistryDerived C o1 d = NewObservation C (ob_projection o1) (ob_classID o1) (ob_attestations o1) d"

definition wire_of :: "observation \<Rightarrow> observation_wire" where
  "wire_of o1 = \<lparr>wi_SchemaVersion = op_SchemaVersion (ob_projection o1), wi_ObservationID = ob_id o1,
     wi_ObservationClassID = ob_classID o1, wi_Subject = Some (op_Subject (ob_projection o1)),
     wi_Test = Some (op_Test (ob_projection o1)), wi_Environment = Some (op_Environment (ob_projection o1)),
     wi_Result = Some (op_Result (ob_projection o1)), wi_ManifestDigest = op_ManifestDigest (ob_projection o1),
     wi_Provenance = ob_attestations o1, wi_RegistryDerived = ob_derived o1\<rparr>"

definition observation_MarshalJSON :: "observation_codec \<Rightarrow> observation \<Rightarrow> string res" where
  "observation_MarshalJSON C o1 = guard_res (observation_Validate C o1) (oc_marshal C (wire_of o1))"

text \<open>A section of the document, as \<open>CanonicalObject.UnmarshalJSON\<close> reads it.\<close>

definition parse_section :: "observation_codec \<Rightarrow> string option \<Rightarrow> string res" where
  "parse_section C s = (case s of None \<Rightarrow> Inr [] | Some raw \<Rightarrow> ParseCanonicalObject C raw)"

definition observation_UnmarshalJSON :: "observation_codec \<Rightarrow> string \<Rightarrow> observation res" where
  "observation_UnmarshalJSON C raw =
     (case oc_canonicalize C raw of
        Inl e \<Rightarrow> Inl (Wrap ''validate observation JSON'' e)
      | Inr canonical \<Rightarrow>
          bind_res (oc_unmarshal C canonical) (\<lambda>wire.
          bind_res (parse_section C (wi_Environment wire)) (\<lambda>environment.
          bind_res (parse_section C (wi_Result wire)) (\<lambda>result.
          bind_res (parse_section C (wi_Subject wire)) (\<lambda>subject.
          bind_res (parse_section C (wi_Test wire)) (\<lambda>test.
          bind_res (NewObservation C \<lparr>op_SchemaVersion = wi_SchemaVersion wire, op_Subject = subject, op_Test = test,
              op_Environment = environment, op_Result = result, op_ManifestDigest = wi_ManifestDigest wire\<rparr>
              (wi_ObservationClassID wire) (wi_Provenance wire) (wi_RegistryDerived wire)) (\<lambda>parsed.
            if wi_ObservationID wire \<noteq> ob_id parsed then Inl (Err ''observation ID mismatch'') else Inr parsed)))))))"

section \<open>Content addressing\<close>

lemma observation_Validate_id: "observation_Validate C o1 = None \<Longrightarrow> projection_Digest C (ob_projection o1) = Inr (ob_id o1)"
  by (auto simp: observation_Validate_def split: option.splits sum.splits)

lemma projection_Digest_pattern:
  "(\<And>s. length (oc_sha256 C s) = 32) \<Longrightarrow> projection_Digest C p = Inr d \<Longrightarrow> digest_pattern d"
  by (auto simp: projection_Digest_def bind_res_Inr NewDigest_pattern)

lemma NewObservation_Inr:
  "NewObservation C p classID as d = Inr o1 \<longleftrightarrow> observation_Validate C o1 = None \<and> ob_classID o1 = classID \<and>
     ob_projection o1 = p \<and> ob_attestations o1 = as \<and> ob_derived o1 = d"
  using observation_Validate_id [of C o1]
  by (cases o1) (auto simp: NewObservation_def bind_res_Inr Let_def)

text \<open>Provenance and metadata never change what an observation is about.\<close>

lemma WithAttestation_keeps:
  "WithAttestation C o1 a = Inr o2 \<Longrightarrow> observation_Validate C o1 = None \<Longrightarrow>
     ob_id o2 = ob_id o1 \<and> ob_projection o2 = ob_projection o1 \<and> ob_attestations o2 = ob_attestations o1 @ [a]"
  by (auto simp: WithAttestation_def NewObservation_Inr dest!: observation_Validate_id)

lemma WithRegistryDerived_keeps:
  "WithRegistryDerived C o1 d = Inr o2 \<Longrightarrow> observation_Validate C o1 = None \<Longrightarrow>
     ob_id o2 = ob_id o1 \<and> ob_projection o2 = ob_projection o1 \<and> ob_attestations o2 = ob_attestations o1"
  by (auto simp: WithRegistryDerived_def NewObservation_Inr dest!: observation_Validate_id)

text \<open>
  Reading back what was written, for a JSON library that decodes the canonical form of what it encoded
  and for sections that are canonical objects, as \<open>ParseCanonicalObject\<close> makes them.
\<close>

theorem observation_json_roundtrip:
  assumes "observation_MarshalJSON C o1 = Inr raw"
    and "\<And>w raw. oc_marshal C w = Inr raw \<Longrightarrow> \<exists>c. oc_canonicalize C raw = Inr c \<and> oc_unmarshal C c = Inr w"
    and "\<And>s. s \<in> {op_Subject (ob_projection o1), op_Test (ob_projection o1), op_Environment (ob_projection o1),
        op_Result (ob_projection o1)} \<Longrightarrow> ParseCanonicalObject C s = Inr s"
  shows "observation_UnmarshalJSON C raw = Inr o1"
proof -
  from assms(1) have v: "observation_Validate C o1 = None" and m: "oc_marshal C (wire_of o1) = Inr raw"
    by (simp_all add: observation_MarshalJSON_def)
  from assms(2) [OF m] obtain c where c: "oc_canonicalize C raw = Inr c" "oc_unmarshal C c = Inr (wire_of o1)" by blast
  have p: "\<lparr>op_SchemaVersion = op_SchemaVersion (ob_projection o1), op_Subject = op_Subject (ob_projection o1),
      op_Test = op_Test (ob_projection o1), op_Environment = op_Environment (ob_projection o1),
      op_Result = op_Result (ob_projection o1), op_ManifestDigest = op_ManifestDigest (ob_projection o1)\<rparr> = ob_projection o1"
    by simp
  have "NewObservation C (ob_projection o1) (ob_classID o1) (ob_attestations o1) (ob_derived o1) = Inr o1"
    using v by (simp add: NewObservation_Inr)
  then show ?thesis using c assms(3)
    by (simp add: observation_UnmarshalJSON_def parse_section_def wire_of_def p)
qed

end
