(* ===== verification/RegistryStore.thy ===== *)
theory RegistryStore
  imports RegistryObservation RegistryDispute
begin

text \<open>
  The in-memory store of the registry (\<open>internal/registry/store/store.go\<close> and \<open>memory.go\<close>).  The maps of
  \<open>Memory\<close> are association lists.  Sessions, challenges, ownerships and disputes are stored as pointers: an
  address here, read in the heap \<open>store_objects\<close> of the moment of the call.  JSON decoding of the indexed
  sections, canonical JSON, SHA-256 and base64 are parameters.
\<close>

section \<open>Records\<close>

definition ErrNotFound :: go_error where "ErrNotFound = Err ''registry store object not found''"
definition ErrAlreadyExists :: go_error where "ErrAlreadyExists = Err ''registry store object already exists''"
definition ErrTokenExpired :: go_error where "ErrTokenExpired = Err ''registry bearer token expired''"
definition ErrInvalidCursor :: go_error where "ErrInvalidCursor = Err ''registry list cursor is invalid''"
definition ErrNotImplemented :: go_error where
  "ErrNotImplemented = Err ''registry persistent hosted capability is not implemented''"

record store_capabilities =
  cp_DurablePersistence :: bool
  cp_HostedVerification :: bool
  cp_OwnershipVerification :: bool

record ingest_record =
  ig_Session :: "nat option"
  ig_DeclaredBytes :: i64
  ig_UploadDigest :: digest
  ig_ChallengeHash :: "byte list"

record observation_filter =
  fl_Subject :: string
  fl_Version :: string
  fl_Pack :: string
  fl_Profile :: string
  fl_Trust :: string
  fl_Fresh :: string

record observation_page =
  pa_Items :: "observation list"
  pa_NextCursor :: string

record observation_index =
  ix_Subject :: string
  ix_Version :: string
  ix_Pack :: string
  ix_PackVersion :: string
  ix_Profile :: string
  ix_TrustLabels :: "string list"
  ix_Freshness :: string

datatype artifact_kind = ArtifactPack | ArtifactProfile | OtherArtifact string

record artifact =
  af_Kind :: artifact_kind
  af_Name :: string
  af_Version :: string
  af_Digest :: digest
  af_Document :: string

record token_record =
  tk_principal :: principal
  tk_expiresAt :: time

record memory_store =
  ms_tokens :: "(byte list, token_record) gomap"
  ms_ingests :: "(instance_id, ingest_record) gomap"
  ms_staged :: "(instance_id, observation) gomap"
  ms_observed :: "(digest, observation) gomap"
  ms_ownerships :: "(subject_namespace, nat) gomap"
  ms_challenges :: "(instance_id, nat) gomap"
  ms_disputes :: "(instance_id, nat) gomap"
  ms_artifacts :: "(string, artifact) gomap"

record store_objects =
  so_ingest :: "nat \<Rightarrow> ingest"
  so_challenge :: "nat \<Rightarrow> challenge"
  so_ownership :: "nat \<Rightarrow> ownership"
  so_dispute :: "nat \<Rightarrow> dispute"

record store_env =
  se_codec :: observation_codec
  se_subject :: "string \<Rightarrow> (string \<times> string) res"
  se_test :: "string \<Rightarrow> (string \<times> string \<times> string) res"
  se_encode :: "string \<Rightarrow> string"
  se_decode :: "string \<Rightarrow> string option"

section \<open>Tokens\<close>

definition NewMemory :: memory_store where
  "NewMemory = \<lparr>ms_tokens = [], ms_ingests = [], ms_staged = [], ms_observed = [], ms_ownerships = [], ms_challenges = [],
     ms_disputes = [], ms_artifacts = []\<rparr>"

definition HashBearerToken :: "store_env \<Rightarrow> string \<Rightarrow> byte list" where
  "HashBearerToken E token = oc_sha256 (se_codec E) token"

definition store_Capabilities :: "memory_store \<Rightarrow> store_capabilities" where
  "store_Capabilities m = \<lparr>cp_DurablePersistence = False, cp_HostedVerification = False, cp_OwnershipVerification = False\<rparr>"

definition validateBearerCredential :: "string \<Rightarrow> principal \<Rightarrow> time \<Rightarrow> err" where
  "validateBearerCredential token p expiresAt = first_err
     [fail_if (length token < 16 \<or> length token > 4096 \<or> \<not> trimmed token)
        (Err ''bearer token must be 16..4096 non-whitespace bytes''),
      fail_if (\<exists>r\<in>set (runes token). is_control r \<or> is_space r) (Err ''bearer token contains whitespace or control characters''),
      fail_if (is_zero expiresAt) (Err ''bearer token expiry is required''),
      principal_id_Validate (pr_id p)]"

definition AddBearerToken :: "store_env \<Rightarrow> memory_store \<Rightarrow> string \<Rightarrow> principal \<Rightarrow> time \<Rightarrow> memory_store \<times> err" where
  "AddBearerToken E m token p expiresAt =
     (case validateBearerCredential token p expiresAt of
        Some e \<Rightarrow> (m, Some e)
      | None \<Rightarrow>
          if ahas (ms_tokens m) (HashBearerToken E token) then (m, Some ErrAlreadyExists)
          else (m\<lparr>ms_tokens := aput (HashBearerToken E token) \<lparr>tk_principal = p, tk_expiresAt = expiresAt\<rparr> (ms_tokens m)\<rparr>, None))"

definition SetBearerToken :: "store_env \<Rightarrow> memory_store \<Rightarrow> string \<Rightarrow> principal \<Rightarrow> time \<Rightarrow> memory_store \<times> err" where
  "SetBearerToken E m token p expiresAt =
     (case validateBearerCredential token p expiresAt of
        Some e \<Rightarrow> (m, Some e)
      | None \<Rightarrow>
          (m\<lparr>ms_tokens := aput (HashBearerToken E token) \<lparr>tk_principal = p, tk_expiresAt = expiresAt\<rparr> (ms_tokens m)\<rparr>, None))"

definition LookupBearerToken :: "memory_store \<Rightarrow> byte list \<Rightarrow> time \<Rightarrow> principal res" where
  "LookupBearerToken m hash now =
     (case aget (ms_tokens m) hash of
        None \<Rightarrow> Inl ErrNotFound
      | Some r \<Rightarrow> if is_zero now \<or> \<not> now < tk_expiresAt r then Inl ErrTokenExpired else Inr (tk_principal r))"

section \<open>Ingest records and staged observations\<close>

definition CreateIngest :: "store_objects \<Rightarrow> memory_store \<Rightarrow> ingest_record \<Rightarrow> memory_store \<times> err" where
  "CreateIngest h m r =
     (case ig_Session r of
        None \<Rightarrow> (m, Some (Err ''ingest session is required''))
      | Some s \<Rightarrow>
          if sint (ig_DeclaredBytes r) < 1 then (m, Some (Err ''declared upload size must be positive''))
          else (case digest_Validate (ig_UploadDigest r) of
              Some e \<Rightarrow> (m, Some (Wrap ''upload digest'' e))
            | None \<Rightarrow>
                if ahas (ms_ingests m) (in_SessionID (so_ingest h s)) then (m, Some ErrAlreadyExists)
                else (m\<lparr>ms_ingests := aput (in_SessionID (so_ingest h s)) r (ms_ingests m)\<rparr>, None)))"

definition GetIngest :: "memory_store \<Rightarrow> instance_id \<Rightarrow> ingest_record res" where
  "GetIngest m i = (case aget (ms_ingests m) i of None \<Rightarrow> Inl ErrNotFound | Some r \<Rightarrow> Inr r)"

definition UpdateIngest :: "store_objects \<Rightarrow> memory_store \<Rightarrow> ingest_record \<Rightarrow> memory_store \<times> err" where
  "UpdateIngest h m r =
     (case ig_Session r of
        None \<Rightarrow> (m, Some (Err ''ingest session is required''))
      | Some s \<Rightarrow>
          if \<not> ahas (ms_ingests m) (in_SessionID (so_ingest h s)) then (m, Some ErrNotFound)
          else (m\<lparr>ms_ingests := aput (in_SessionID (so_ingest h s)) r (ms_ingests m)\<rparr>, None))"

definition PutStagedObservation :: "store_env \<Rightarrow> memory_store \<Rightarrow> instance_id \<Rightarrow> observation \<Rightarrow> memory_store \<times> err" where
  "PutStagedObservation E m i o1 =
     (case observation_Validate (se_codec E) o1 of
        Some e \<Rightarrow> (m, Some e)
      | None \<Rightarrow>
          (case aget (ms_staged m) i of
             Some existing \<Rightarrow> if ob_id existing = ob_id o1 then (m, None) else (m, Some ErrAlreadyExists)
           | None \<Rightarrow> (m\<lparr>ms_staged := aput i o1 (ms_staged m)\<rparr>, None)))"

definition GetStagedObservation :: "memory_store \<Rightarrow> instance_id \<Rightarrow> observation res" where
  "GetStagedObservation m i = (case aget (ms_staged m) i of None \<Rightarrow> Inl ErrNotFound | Some o1 \<Rightarrow> Inr o1)"

definition EnqueueVerification :: "memory_store \<Rightarrow> instance_id \<Rightarrow> err" where
  "EnqueueVerification m i = Some ErrNotImplemented"

section \<open>Published observations\<close>

definition freshness_text :: "freshness \<Rightarrow> string" where
  "freshness_text f = (case f of FreshnessUnset \<Rightarrow> [] | FreshnessUnknown \<Rightarrow> ''unknown'' | FreshnessFresh \<Rightarrow> ''fresh''
     | FreshnessStale \<Rightarrow> ''stale'' | OtherFreshness s \<Rightarrow> s)"

definition IndexObservation :: "store_env \<Rightarrow> observation \<Rightarrow> observation_index res" where
  "IndexObservation E o1 =
     (case se_subject E (op_Subject (ob_projection o1)) of
        Inl e \<Rightarrow> Inl (Wrap ''index observation subject'' e)
      | Inr (project, version) \<Rightarrow>
          (case se_test E (op_Test (ob_projection o1)) of
             Inl e \<Rightarrow> Inl (Wrap ''index observation test'' e)
           | Inr (pack, packVersion, profile) \<Rightarrow>
               if project = [] \<or> version = [] \<or> pack = [] \<or> packVersion = [] \<or> profile = []
               then Inl (Err ''observation lacks subject/test fields required by Registry indexes'')
               else Inr \<lparr>ix_Subject = project, ix_Version = version, ix_Pack = pack, ix_PackVersion = packVersion,
                         ix_Profile = profile, ix_TrustLabels = dv_TrustLabels (ob_derived o1),
                         ix_Freshness = freshness_text (dv_Freshness (ob_derived o1))\<rparr>))"

definition matches :: "observation_filter \<Rightarrow> observation_index \<Rightarrow> bool" where
  "matches f i \<longleftrightarrow> (fl_Subject f = [] \<or> fl_Subject f = ix_Subject i) \<and> (fl_Version f = [] \<or> fl_Version f = ix_Version i) \<and>
     (fl_Pack f = [] \<or> fl_Pack f = ix_Pack i) \<and> (fl_Profile f = [] \<or> fl_Profile f = ix_Profile i) \<and>
     (fl_Trust f = [] \<or> fl_Trust f \<in> set (ix_TrustLabels i)) \<and> (fl_Fresh f = [] \<or> fl_Fresh f = ix_Freshness i)"

definition PutPublishedObservation :: "store_env \<Rightarrow> memory_store \<Rightarrow> observation \<Rightarrow> memory_store \<times> err" where
  "PutPublishedObservation E m o1 =
     (case observation_Validate (se_codec E) o1 of
        Some e \<Rightarrow> (m, Some e)
      | None \<Rightarrow>
          (case IndexObservation E o1 of
             Inl e \<Rightarrow> (m, Some e)
           | Inr _ \<Rightarrow>
               if ahas (ms_observed m) (ob_id o1) then (m, Some ErrAlreadyExists)
               else (m\<lparr>ms_observed := aput (ob_id o1) o1 (ms_observed m)\<rparr>, None)))"

definition GetObservation :: "memory_store \<Rightarrow> digest \<Rightarrow> observation res" where
  "GetObservation m i = (case aget (ms_observed m) i of None \<Rightarrow> Inl ErrNotFound | Some o1 \<Rightarrow> Inr o1)"

text \<open>The loop over the sorted observations; it stops when \<open>bound\<close> of them were collected.\<close>

fun list_scan :: "store_env \<Rightarrow> observation_filter \<Rightarrow> digest \<Rightarrow> int \<Rightarrow> observation list \<Rightarrow> observation list \<Rightarrow> observation list res" where
  "list_scan E f after bound filtered [] = Inr filtered"
| "list_scan E f after bound filtered (o1 # os) =
     (if after \<noteq> [] \<and> ob_id o1 \<le> after then list_scan E f after bound filtered os
      else (case IndexObservation E o1 of
          Inl e \<Rightarrow> Inl e
        | Inr index \<Rightarrow>
            if \<not> matches f index then list_scan E f after bound filtered os
            else if int (length (filtered @ [o1])) = bound then Inr (filtered @ [o1])
            else list_scan E f after bound (filtered @ [o1]) os))"

definition parse_cursor :: "store_env \<Rightarrow> string \<Rightarrow> digest res" where
  "parse_cursor E cursor =
     (if cursor = [] then Inr []
      else (case se_decode E cursor of
          None \<Rightarrow> Inl ErrInvalidCursor
        | Some decoded \<Rightarrow> (case ParseDigest decoded of Inl e \<Rightarrow> Inl ErrInvalidCursor | Inr d \<Rightarrow> Inr d)))"

definition ListObservations ::
  "store_env \<Rightarrow> memory_store \<Rightarrow> observation_filter \<Rightarrow> string \<Rightarrow> int \<Rightarrow> observation_page res" where
  "ListObservations E m f cursor limit =
     guard_res (fail_if (limit < 1 \<or> limit > 100) (Err ''limit must be between 1 and 100''))
       (bind_res (parse_cursor E cursor) (\<lambda>after.
          bind_res (list_scan E f after (limit + 1) [] (sort_key ob_id (map snd (ms_observed m)))) (\<lambda>filtered.
            if int (length filtered) > limit then
              (let items = take (nat limit) filtered
               in Inr \<lparr>pa_Items = items, pa_NextCursor = se_encode E (ob_id (last items))\<rparr>)
            else Inr \<lparr>pa_Items = filtered, pa_NextCursor = []\<rparr>)))"

section \<open>Ownership, disputes, artifacts\<close>

definition PutOwnershipChallenge :: "store_objects \<Rightarrow> memory_store \<Rightarrow> nat option \<Rightarrow> memory_store \<times> err" where
  "PutOwnershipChallenge h m c =
     (case c of
        None \<Rightarrow> (m, Some (Err ''ownership challenge is required''))
      | Some p \<Rightarrow>
          (let i = ch_ID (challenge_Snapshot (so_challenge h p) 0) in
           if ahas (ms_challenges m) i then (m, Some ErrAlreadyExists)
           else (m\<lparr>ms_challenges := aput i p (ms_challenges m)\<rparr>, None)))"

definition PutOwnership :: "store_objects \<Rightarrow> memory_store \<Rightarrow> nat option \<Rightarrow> memory_store \<times> err" where
  "PutOwnership h m p =
     (case p of
        None \<Rightarrow> (m, Some (Err ''ownership is required''))
      | Some a \<Rightarrow> (m\<lparr>ms_ownerships := aput (ow_Subject (so_ownership h a)) a (ms_ownerships m)\<rparr>, None))"

definition CurrentOwnership :: "store_objects \<Rightarrow> memory_store \<Rightarrow> subject_namespace \<Rightarrow> time \<Rightarrow> nat res" where
  "CurrentOwnership h m subject now =
     (case aget (ms_ownerships m) subject of
        None \<Rightarrow> Inl ErrNotFound
      | Some p \<Rightarrow> if \<not> Current (so_ownership h p) now then Inl ErrNotFound else Inr p)"

definition PutDispute :: "store_objects \<Rightarrow> memory_store \<Rightarrow> nat option \<Rightarrow> memory_store \<times> err" where
  "PutDispute h m d =
     (case d of
        None \<Rightarrow> (m, Some (Err ''dispute is required''))
      | Some p \<Rightarrow>
          (let i = di_ID (so_dispute h p) in
           if ahas (ms_disputes m) i then (m, Some ErrAlreadyExists)
           else (m\<lparr>ms_disputes := aput i p (ms_disputes m)\<rparr>, None)))"

definition GetDispute :: "memory_store \<Rightarrow> instance_id \<Rightarrow> nat res" where
  "GetDispute m i = (case aget (ms_disputes m) i of None \<Rightarrow> Inl ErrNotFound | Some p \<Rightarrow> Inr p)"

definition artifact_kind_text :: "artifact_kind \<Rightarrow> string" where
  "artifact_kind_text k = (case k of ArtifactPack \<Rightarrow> ''pack'' | ArtifactProfile \<Rightarrow> ''profile'' | OtherArtifact s \<Rightarrow> s)"

definition artifactKey :: "artifact_kind \<Rightarrow> string \<Rightarrow> string \<Rightarrow> string" where
  "artifactKey k name version = artifact_kind_text k @ [CHR 0x00] @ name @ [CHR 0x00] @ version"

definition PutArtifact :: "store_env \<Rightarrow> memory_store \<Rightarrow> artifact \<Rightarrow> memory_store \<times> err" where
  "PutArtifact E m a =
     (if af_Kind a \<noteq> ArtifactPack \<and> af_Kind a \<noteq> ArtifactProfile then (m, Some (Err ''invalid artifact kind''))
      else if af_Name a = [] \<or> af_Version a = [] then (m, Some (Err ''artifact name and version are required''))
      else (case digest_Validate (af_Digest a) of
          Some e \<Rightarrow> (m, Some e)
        | None \<Rightarrow>
            (case oc_canonicalize (se_codec E) (af_Document a) of
               Inl e \<Rightarrow> (m, Some e)
             | Inr canonical \<Rightarrow>
                 if NewDigest (oc_sha256 (se_codec E)) canonical \<noteq> af_Digest a then (m, Some (Err ''artifact document digest mismatch''))
                 else (let key = artifactKey (af_Kind a) (af_Name a) (af_Version a) in
                   if ahas (ms_artifacts m) key then (m, Some ErrAlreadyExists)
                   else (m\<lparr>ms_artifacts := aput key (a\<lparr>af_Document := canonical\<rparr>) (ms_artifacts m)\<rparr>, None)))))"

definition GetArtifact :: "memory_store \<Rightarrow> artifact_kind \<Rightarrow> string \<Rightarrow> string \<Rightarrow> artifact res" where
  "GetArtifact m k name version =
     (case aget (ms_artifacts m) (artifactKey k name version) of None \<Rightarrow> Inl ErrNotFound | Some a \<Rightarrow> Inr a)"

section \<open>Histories\<close>

datatype store_op = OpAddToken string principal time | OpSetToken string principal time | OpCreateIngest ingest_record
  | OpUpdateIngest ingest_record | OpPutStaged instance_id observation | OpPutPublished observation
  | OpPutChallenge "nat option" | OpPutOwnership "nat option" | OpPutDispute "nat option" | OpPutArtifact artifact

text \<open>One request, with the heap it sees; the mutex of the store serialises the requests.\<close>

definition store_step :: "store_env \<Rightarrow> memory_store \<Rightarrow> store_objects \<times> store_op \<Rightarrow> memory_store \<times> err" where
  "store_step E m r = (case r of (h, op) \<Rightarrow> (case op of
     OpAddToken t p e \<Rightarrow> AddBearerToken E m t p e
   | OpSetToken t p e \<Rightarrow> SetBearerToken E m t p e
   | OpCreateIngest i \<Rightarrow> CreateIngest h m i
   | OpUpdateIngest i \<Rightarrow> UpdateIngest h m i
   | OpPutStaged i o1 \<Rightarrow> PutStagedObservation E m i o1
   | OpPutPublished o1 \<Rightarrow> PutPublishedObservation E m o1
   | OpPutChallenge c \<Rightarrow> PutOwnershipChallenge h m c
   | OpPutOwnership p \<Rightarrow> PutOwnership h m p
   | OpPutDispute d \<Rightarrow> PutDispute h m d
   | OpPutArtifact a \<Rightarrow> PutArtifact E m a))"

named_theorems store_op_defs
lemmas [store_op_defs] = AddBearerToken_def SetBearerToken_def CreateIngest_def UpdateIngest_def PutStagedObservation_def
  PutPublishedObservation_def PutOwnershipChallenge_def PutOwnership_def PutDispute_def PutArtifact_def

lemma store_step_frame:
  "(\<forall>o1. snd r \<noteq> OpPutPublished o1) \<Longrightarrow> ms_observed (fst (store_step E m r)) = ms_observed m"
  "(\<forall>a. snd r \<noteq> OpPutArtifact a) \<Longrightarrow> ms_artifacts (fst (store_step E m r)) = ms_artifacts m"
  "(\<forall>i o1. snd r \<noteq> OpPutStaged i o1) \<Longrightarrow> ms_staged (fst (store_step E m r)) = ms_staged m"
  "(\<forall>c. snd r \<noteq> OpPutChallenge c) \<Longrightarrow> ms_challenges (fst (store_step E m r)) = ms_challenges m"
  "(\<forall>d. snd r \<noteq> OpPutDispute d) \<Longrightarrow> ms_disputes (fst (store_step E m r)) = ms_disputes m"
  by (cases r; cases "snd r"; simp add: store_step_def store_op_defs Let_def split: option.split sum.split)+

text \<open>Published observations, artifacts, staged observations, challenges and disputes are written once.\<close>

interpretation observed: write_once_store "store_step E" "\<lambda>m k. aget (ms_observed m) k" for E
proof
  fix m :: memory_store and k v r
  assume k: "aget (ms_observed m) k = Some v"
  show "aget (ms_observed (fst (store_step E m r))) k = Some v"
  proof (cases "\<exists>o1. snd r = OpPutPublished o1")
    case True
    with k show ?thesis by (cases r) (auto simp: store_step_def PutPublishedObservation_def ahas_def split: option.splits sum.splits)
  qed (use k store_step_frame(1) in simp)
qed

interpretation artifacts: write_once_store "store_step E" "\<lambda>m k. aget (ms_artifacts m) k" for E
proof
  fix m :: memory_store and k v r
  assume k: "aget (ms_artifacts m) k = Some v"
  show "aget (ms_artifacts (fst (store_step E m r))) k = Some v"
  proof (cases "\<exists>a. snd r = OpPutArtifact a")
    case True
    with k show ?thesis by (cases r) (auto simp: store_step_def PutArtifact_def Let_def ahas_def split: option.splits sum.splits)
  qed (use k store_step_frame(2) in simp)
qed

interpretation staged: write_once_store "store_step E" "\<lambda>m k. aget (ms_staged m) k" for E
proof
  fix m :: memory_store and k v r
  assume k: "aget (ms_staged m) k = Some v"
  show "aget (ms_staged (fst (store_step E m r))) k = Some v"
  proof (cases "\<exists>i o1. snd r = OpPutStaged i o1")
    case True
    with k show ?thesis by (cases r) (auto simp: store_step_def PutStagedObservation_def split: option.splits)
  qed (use k store_step_frame(3) in simp)
qed

interpretation challenges: write_once_store "store_step E" "\<lambda>m k. aget (ms_challenges m) k" for E
proof
  fix m :: memory_store and k v r
  assume k: "aget (ms_challenges m) k = Some v"
  show "aget (ms_challenges (fst (store_step E m r))) k = Some v"
  proof (cases "\<exists>c. snd r = OpPutChallenge c")
    case True
    with k show ?thesis by (cases r) (auto simp: store_step_def PutOwnershipChallenge_def Let_def ahas_def split: option.splits)
  qed (use k store_step_frame(4) in simp)
qed

interpretation disputes: write_once_store "store_step E" "\<lambda>m k. aget (ms_disputes m) k" for E
proof
  fix m :: memory_store and k v r
  assume k: "aget (ms_disputes m) k = Some v"
  show "aget (ms_disputes (fst (store_step E m r))) k = Some v"
  proof (cases "\<exists>d. snd r = OpPutDispute d")
    case True
    with k show ?thesis by (cases r) (auto simp: store_step_def PutDispute_def Let_def ahas_def split: option.splits)
  qed (use k store_step_frame(5) in simp)
qed

section \<open>What the store holds\<close>

definition published_ok :: "store_env \<Rightarrow> digest \<Rightarrow> observation \<Rightarrow> bool" where
  "published_ok E k o1 \<longleftrightarrow> ob_id o1 = k \<and> observation_Validate (se_codec E) o1 = None \<and> (\<exists>i. IndexObservation E o1 = Inr i)"

definition artifact_ok :: "store_env \<Rightarrow> string \<Rightarrow> artifact \<Rightarrow> bool" where
  "artifact_ok E k a \<longleftrightarrow> k = artifactKey (af_Kind a) (af_Name a) (af_Version a) \<and>
     NewDigest (oc_sha256 (se_codec E)) (af_Document a) = af_Digest a"

definition store_inv :: "store_env \<Rightarrow> memory_store \<Rightarrow> bool" where
  "store_inv E m \<longleftrightarrow> map_ok (ms_observed m) \<and> (\<forall>k o1. aget (ms_observed m) k = Some o1 \<longrightarrow> published_ok E k o1) \<and>
     (\<forall>k a. aget (ms_artifacts m) k = Some a \<longrightarrow> artifact_ok E k a)"

interpretation registry_store: invariant_machine "store_step E" "store_inv E" for E
proof
  fix m r
  assume inv: "store_inv E m"
  have a: "\<forall>k a. aget (ms_artifacts (fst (store_step E m r))) k = Some a \<longrightarrow> artifact_ok E k a"
  proof (cases "\<exists>a. snd r = OpPutArtifact a")
    case True
    with inv show ?thesis
      by (cases r) (auto simp: store_step_def PutArtifact_def Let_def store_inv_def artifact_ok_def split: option.splits sum.splits if_splits)
  qed (use inv store_step_frame(2) [of r E m] in \<open>simp add: store_inv_def\<close>)
  have o: "map_ok (ms_observed (fst (store_step E m r))) \<and>
      (\<forall>k o1. aget (ms_observed (fst (store_step E m r))) k = Some o1 \<longrightarrow> published_ok E k o1)"
  proof (cases "\<exists>o1. snd r = OpPutPublished o1")
    case True
    with inv show ?thesis
      by (cases r) (auto simp: store_step_def PutPublishedObservation_def store_inv_def published_ok_def split: option.splits sum.splits if_splits)
  qed (use inv store_step_frame(1) [of r E m] in \<open>simp add: store_inv_def\<close>)
  from a o show "store_inv E (fst (store_step E m r))" by (simp add: store_inv_def)
qed

lemma store_inv_New: "store_inv E NewMemory"
  by (simp add: store_inv_def NewMemory_def)

text \<open>
  C37. The registry is append-only.  Over every history of requests, an observation that can be read is
  valid, its identifier is the digest of its projection, and it is read unchanged for ever after, and so
  is every artifact, whose document has the artifact's digest, every staged observation, and the
  challenge and the dispute behind an identifier.
\<close>

theorem store_append_only:
  "let m = run (store_step E) NewMemory earlier; m' = run (store_step E) m later in
    (\<forall>i o1. GetObservation m i = Inr o1 \<longrightarrow> GetObservation m' i = Inr o1 \<and> ob_id o1 = i \<and>
      projection_Digest (se_codec E) (ob_projection o1) = Inr i) \<and>
    (\<forall>k n v a. GetArtifact m k n v = Inr a \<longrightarrow> GetArtifact m' k n v = Inr a \<and>
      NewDigest (oc_sha256 (se_codec E)) (af_Document a) = af_Digest a) \<and>
    (\<forall>i o1. GetStagedObservation m i = Inr o1 \<longrightarrow> GetStagedObservation m' i = Inr o1) \<and>
    (\<forall>i p. aget (ms_challenges m) i = Some p \<longrightarrow> aget (ms_challenges m') i = Some p) \<and>
    (\<forall>i p. GetDispute m i = Inr p \<longrightarrow> GetDispute m' i = Inr p)"
proof -
  define m where "m = run (store_step E) NewMemory earlier"
  define m' where "m' = run (store_step E) m later"
  have inv: "store_inv E m" unfolding m_def by (rule registry_store.run_invar [OF store_inv_New])
  have "GetObservation m' i = Inr o1 \<and> ob_id o1 = i \<and> projection_Digest (se_codec E) (ob_projection o1) = Inr i"
    if "GetObservation m i = Inr o1" for i o1
  proof -
    from that have "aget (ms_observed m) i = Some o1" by (simp add: GetObservation_def split: option.splits)
    with inv observed.look_run [OF this, of E later] observation_Validate_id [of "se_codec E" o1] show ?thesis
      by (auto simp: store_inv_def published_ok_def GetObservation_def m'_def)
  qed
  moreover have "GetArtifact m' k n v = Inr a \<and> NewDigest (oc_sha256 (se_codec E)) (af_Document a) = af_Digest a"
    if "GetArtifact m k n v = Inr a" for k n v a
  proof -
    from that have "aget (ms_artifacts m) (artifactKey k n v) = Some a" by (simp add: GetArtifact_def split: option.splits)
    with inv artifacts.look_run [OF this, of E later] show ?thesis
      by (auto simp: store_inv_def artifact_ok_def GetArtifact_def m'_def)
  qed
  moreover have "GetStagedObservation m' i = Inr o1" if "GetStagedObservation m i = Inr o1" for i o1
    using that staged.look_run [of m i o1 E later] by (simp add: GetStagedObservation_def m'_def split: option.splits)
  moreover have "aget (ms_challenges m') i = Some p" if "aget (ms_challenges m) i = Some p" for i p
    unfolding m'_def by (rule challenges.look_run [OF that])
  moreover have "GetDispute m' i = Inr p" if "GetDispute m i = Inr p" for i p
    using that disputes.look_run [of m i p E later] by (simp add: GetDispute_def m'_def split: option.splits)
  ultimately show ?thesis unfolding Let_def m_def [symmetric] m'_def [symmetric] by blast
qed

section \<open>Listing\<close>

definition selected :: "store_env \<Rightarrow> observation_filter \<Rightarrow> observation \<Rightarrow> bool" where
  "selected E f o1 \<longleftrightarrow> (\<exists>i. IndexObservation E o1 = Inr i \<and> matches f i)"

lemma list_scan_take:
  assumes "\<forall>o1\<in>set os. \<exists>i. IndexObservation E o1 = Inr i" "length filtered < n"
  shows "list_scan E f after (int n) filtered os =
    Inr (take n (filtered @ filter (\<lambda>o1. (after = [] \<or> after < ob_id o1) \<and> selected E f o1) os))"
  using assms
proof (induction os arbitrary: filtered)
  case (Cons o1 os)
  from Cons.prems obtain i where i: "IndexObservation E o1 = Inr i" by auto
  then have sel: "selected E f o1 \<longleftrightarrow> matches f i" by (simp add: selected_def)
  have nle: "\<not> ob_id o1 \<le> after \<longleftrightarrow> after < ob_id o1" by auto
  show ?case
  proof (cases "(after = [] \<or> after < ob_id o1) \<and> matches f i \<and> Suc (length filtered) < n")
    case True
    with Cons i sel show ?thesis by (auto simp: not_less [symmetric] take_Cons')
  next
    case False
    with Cons.prems(2) have "(after = [] \<or> after < ob_id o1) \<and> matches f i \<Longrightarrow> n = Suc (length filtered)" by auto
    with Cons i sel False show ?thesis by (auto simp: not_less [symmetric])
  qed
qed simp

lemma sorted_after_drop:
  fixes f :: "'a \<Rightarrow> 'b::linorder"
  assumes "sorted_wrt (\<lambda>x y. f x < f y) xs" "0 < n" "n \<le> length xs"
  shows "filter (\<lambda>x. f (xs ! (n - 1)) < f x) xs = drop n xs"
proof -
  have "filter (\<lambda>x. f (xs ! (n - 1)) < f x) (take n xs) = []"
  proof -
    have "f (xs ! j) \<le> f (xs ! (n - 1))" if "j < n" for j
      using assms that by (cases "j = n - 1") (auto simp: sorted_wrt_iff_nth_less intro: less_imp_le)
    then show ?thesis by (auto simp: filter_empty_conv in_set_conv_nth not_less)
  qed
  moreover have "filter (\<lambda>x. f (xs ! (n - 1)) < f x) (drop n xs) = drop n xs"
    using assms by (auto simp: filter_id_conv in_set_conv_nth sorted_wrt_iff_nth_less)
  ultimately show ?thesis by (metis append_Nil append_take_drop_id filter_append)
qed

text \<open>The pages that a client gets by following the cursors; \<open>None\<close> when the fuel runs out or a request fails.\<close>

fun list_walk :: "store_env \<Rightarrow> memory_store \<Rightarrow> observation_filter \<Rightarrow> int \<Rightarrow> nat \<Rightarrow> string \<Rightarrow> observation list list option" where
  "list_walk E m f limit 0 cursor = None"
| "list_walk E m f limit (Suc fuel) cursor =
     (case ListObservations E m f cursor limit of
        Inl e \<Rightarrow> None
      | Inr page \<Rightarrow>
          if pa_NextCursor page = [] then Some [pa_Items page]
          else map_option (Cons (pa_Items page)) (list_walk E m f limit fuel (pa_NextCursor page)))"

definition listing :: "store_env \<Rightarrow> memory_store \<Rightarrow> observation_filter \<Rightarrow> observation list" where
  "listing E m f = filter (selected E f) (sort_key ob_id (map snd (ms_observed m)))"

definition cursor_codec :: "store_env \<Rightarrow> bool" where
  "cursor_codec E \<longleftrightarrow> (\<forall>s. se_decode E (se_encode E s) = Some s) \<and> (\<forall>s. s \<noteq> [] \<longrightarrow> se_encode E s \<noteq> []) \<and>
     (\<forall>s. length (oc_sha256 (se_codec E) s) = 32)"

lemma store_inv_observed:
  assumes "store_inv E m" "o1 \<in> snd ` set (ms_observed m)"
  shows "published_ok E (ob_id o1) o1" "(ob_id o1, o1) \<in> set (ms_observed m)"
proof -
  from assms(2) obtain k where k: "(k, o1) \<in> set (ms_observed m)" by auto
  with assms(1) have "published_ok E k o1" using aget_iff [of "ms_observed m" k o1] by (simp add: store_inv_def)
  with k show "published_ok E (ob_id o1) o1" "(ob_id o1, o1) \<in> set (ms_observed m)" by (auto simp: published_ok_def)
qed

lemma listing_sorted: "store_inv E m \<Longrightarrow> sorted_wrt (\<lambda>x y. ob_id x < ob_id y) (listing E m f)"
proof -
  assume inv: "store_inv E m"
  have ids: "map (ob_id \<circ> snd) (ms_observed m) = map fst (ms_observed m)"
    using inv aget_iff [of "ms_observed m"] by (auto simp: store_inv_def published_ok_def)
  have "distinct (map ob_id (map snd (ms_observed m)))"
    unfolding map_map ids using inv by (simp add: store_inv_def map_ok_def akeys_def)
  then have "distinct (map ob_id (sort_key ob_id (map snd (ms_observed m))))"
    by (metis mset_eq_imp_distinct_iff mset_map mset_sort)
  moreover have "sorted (map ob_id (sort_key ob_id (map snd (ms_observed m))))" by simp
  ultimately have "sorted_wrt (<) (map ob_id (sort_key ob_id (map snd (ms_observed m))))"
    by (simp add: strict_sorted_iff)
  then show ?thesis unfolding listing_def sorted_wrt_map by (rule sorted_wrt_filter)
qed

lemma listing_nonempty_ids:
  assumes "store_inv E m" "cursor_codec E" "o1 \<in> set (listing E m f)"
  shows "digest_pattern (ob_id o1)" "ob_id o1 \<noteq> []"
proof -
  from assms(3) have "o1 \<in> snd ` set (ms_observed m)" by (auto simp: listing_def)
  from store_inv_observed(1) [OF assms(1) this] have "projection_Digest (se_codec E) (ob_projection o1) = Inr (ob_id o1)"
    by (auto simp: published_ok_def dest: observation_Validate_id)
  then show p: "digest_pattern (ob_id o1)"
    using assms(2) projection_Digest_pattern [of "se_codec E"] by (simp add: cursor_codec_def)
  from digest_pattern_length [OF p] show "ob_id o1 \<noteq> []" by auto
qed

text \<open>The part of the listing that lies after an identifier.\<close>

definition listing_after :: "store_env \<Rightarrow> memory_store \<Rightarrow> observation_filter \<Rightarrow> digest \<Rightarrow> observation list" where
  "listing_after E m f after = filter (\<lambda>o1. after = [] \<or> after < ob_id o1) (listing E m f)"

lemma ListObservations_page:
  assumes "store_inv E m" "1 \<le> limit" "limit \<le> 100" "parse_cursor E cursor = Inr after"
  shows "ListObservations E m f cursor limit =
    (let rest = listing_after E m f after in
     if length rest > nat limit then Inr \<lparr>pa_Items = take (nat limit) rest, pa_NextCursor = se_encode E (ob_id (rest ! (nat limit - 1)))\<rparr>
     else Inr \<lparr>pa_Items = rest, pa_NextCursor = []\<rparr>)"
proof -
  let ?n = "nat limit" and ?all = "sort_key ob_id (map snd (ms_observed m))" and ?rest = "listing_after E m f after"
  have idx: "\<forall>o1\<in>set ?all. \<exists>i. IndexObservation E o1 = Inr i"
    using store_inv_observed(1) [OF assms(1)] by (auto simp: published_ok_def)
  have n: "int (Suc ?n) = limit + 1" using assms(2) by simp
  have "?rest = filter (\<lambda>o1. (after = [] \<or> after < ob_id o1) \<and> selected E f o1) ?all"
    by (simp add: listing_after_def listing_def conj_commute)
  then have scan: "list_scan E f after (limit + 1) [] ?all = Inr (take (Suc ?n) ?rest)"
    using list_scan_take [OF idx, of "[]" "Suc ?n" f after] by (simp only: n) simp
  have "last (take ?n (take (Suc ?n) ?rest)) = ?rest ! (?n - 1)" if "length ?rest > ?n"
    using that assms(2) by (subst last_conv_nth) (auto simp: min_def)
  then show ?thesis using assms scan by (auto simp: ListObservations_def Let_def min_def)
qed

lemma list_walk_after:
  assumes "store_inv E m" "cursor_codec E" "1 \<le> limit" "limit \<le> 100"
  shows "parse_cursor E cursor = Inr after \<Longrightarrow> length (listing_after E m f after) \<le> fuel \<Longrightarrow>
    \<exists>pages. list_walk E m f limit (Suc fuel) cursor = Some pages \<and> concat pages = listing_after E m f after \<and>
      (\<forall>p\<in>set pages. length p \<le> nat limit)"
proof (induction fuel arbitrary: cursor after)
  case 0
  then show ?case using ListObservations_page [OF assms(1,3,4) 0(1), of f] by (auto simp: Let_def)
next
  case (Suc fuel)
  let ?n = "nat limit" and ?rest = "listing_after E m f after"
  note page = ListObservations_page [OF assms(1,3,4) Suc.prems(1), of f]
  show ?case
  proof (cases "length ?rest > ?n")
    case False
    then show ?thesis using page by (auto simp: Let_def)
  next
    case True
    define a where "a = ob_id (?rest ! (?n - 1))"
    have inr: "?rest ! (?n - 1) \<in> set ?rest" using True assms(3) by (intro nth_mem) linarith
    then have mem: "?rest ! (?n - 1) \<in> set (listing E m f)" by (simp add: listing_after_def)
    note ids = listing_nonempty_ids [OF assms(1,2) mem]
    have cur: "parse_cursor E (se_encode E a) = Inr a"
      using assms(2) ids by (simp add: parse_cursor_def cursor_codec_def a_def ParseDigest_def)
    have sorted: "sorted_wrt (\<lambda>x y. ob_id x < ob_id y) ?rest"
      unfolding listing_after_def by (rule sorted_wrt_filter [OF listing_sorted [OF assms(1)]])
    have "listing_after E m f a = filter (\<lambda>x. ob_id (?rest ! (?n - 1)) < ob_id x) ?rest"
      using ids(2) inr unfolding a_def by (auto simp: listing_after_def intro!: filter_cong dest: less_trans)
    also have "\<dots> = drop ?n ?rest" using True assms(3) by (intro sorted_after_drop [OF sorted]) auto
    finally have next_rest: "listing_after E m f a = drop ?n ?rest" .
    have "length (listing_after E m f a) \<le> fuel" using Suc.prems(2) True assms(3) unfolding next_rest by simp
    from Suc.IH [OF cur this] obtain pages where p: "list_walk E m f limit (Suc fuel) (se_encode E a) = Some pages"
      "concat pages = drop ?n ?rest" "\<forall>p\<in>set pages. length p \<le> ?n" unfolding next_rest by blast
    have nonempty: "se_encode E a \<noteq> []" using assms(2) ids(2) by (simp add: cursor_codec_def a_def)
    have "ListObservations E m f cursor limit = Inr \<lparr>pa_Items = take ?n ?rest, pa_NextCursor = se_encode E a\<rparr>"
      using page True by (simp add: a_def Let_def)
    then have "list_walk E m f limit (Suc (Suc fuel)) cursor = Some (take ?n ?rest # pages)"
      using p(1) nonempty by (simp del: list_walk.simps(2) add: list_walk.simps(2) [of E m f limit "Suc fuel"])
    then show ?thesis using p(2,3) by (intro exI [of _ "take ?n ?rest # pages"]) auto
  qed
qed

text \<open>
  C38. Listing is complete.  In every store that requests can lead to, a client that follows the cursors of
  \<open>ListObservations\<close> from the empty one gets, after finitely many pages of at most \<open>limit\<close> observations,
  every published observation that matches the filter, once, ordered by identifier, and nothing else.
\<close>

theorem store_pages_complete:
  assumes "cursor_codec E" "1 \<le> limit" "limit \<le> 100"
  shows "\<exists>pages. let m = run (store_step E) NewMemory history in
    list_walk E m f limit (Suc (length (ms_observed m))) [] = Some pages \<and>
    concat pages = filter (selected E f) (sort_key ob_id (map snd (ms_observed m))) \<and>
    (\<forall>p\<in>set pages. length p \<le> nat limit)"
proof -
  let ?m = "run (store_step E) NewMemory history"
  have inv: "store_inv E ?m" by (rule registry_store.run_invar [OF store_inv_New])
  have "parse_cursor E [] = Inr []" by (simp add: parse_cursor_def)
  moreover have "listing_after E ?m f [] = listing E ?m f" by (simp add: listing_after_def)
  moreover have "length (listing E ?m f) \<le> length (ms_observed ?m)"
    unfolding listing_def by (rule order_trans [OF length_filter_le]) simp
  ultimately show ?thesis
    using list_walk_after [OF inv assms, of "[]" "[]" f "length (ms_observed ?m)"] by (simp add: listing_def Let_def)
qed

section \<open>A concrete store\<close>

definition sample_store_env :: store_env where
  "sample_store_env = \<lparr>se_codec = \<lparr>oc_canonicalize = Inr, oc_projection = (\<lambda>_. Inr []), oc_sha256 = (\<lambda>_. replicate 32 0),
       oc_marshal = (\<lambda>_. Inr []), oc_unmarshal = (\<lambda>_. Inl (Err []))\<rparr>,
     se_subject = (\<lambda>_. Inr (''project'', ''1'')), se_test = (\<lambda>_. Inr (''pack'', ''1'', ''profile'')),
     se_encode = (\<lambda>s. s), se_decode = Some\<rparr>"

definition sample_published :: observation where
  "sample_published = \<lparr>ob_id = NewDigest (\<lambda>_. replicate 32 0) [], ob_classID = zero_digest,
     ob_projection = \<lparr>op_SchemaVersion = ObservationSchemaV1, op_Subject = ''{}'', op_Test = ''{}'', op_Environment = ''{}'',
       op_Result = ''{}'', op_ManifestDigest = zero_digest\<rparr>,
     ob_attestations = [], ob_derived = \<lparr>dv_TrustLabels = [], dv_Freshness = FreshnessUnset, dv_PublishedAt = None,
       dv_DisputeIDs = [], dv_SupersededBy = [], dv_Tombstoned = False\<rparr>\<rparr>"

definition sample_history :: "store_objects \<Rightarrow> (store_objects \<times> store_op) list" where
  "sample_history h = [(h, OpPutPublished sample_published)]"

lemma sample_published_valid: "observation_Validate (se_codec sample_store_env) sample_published = None"
  by (simp add: observation_Validate_def sample_store_env_def sample_published_def projection_Digest_def projection_Validate_def
      derived_validate_def validateUniqueNonempty_def)

lemma sample_history_published:
  "ms_observed (run (store_step sample_store_env) NewMemory (sample_history h)) = [(ob_id sample_published, sample_published)]"
  using sample_published_valid
  by (simp add: sample_history_def store_step_def PutPublishedObservation_def NewMemory_def aput_def)
     (simp add: IndexObservation_def sample_store_env_def aput_def)

theorem store_append_only_witness:
  "\<forall>h. GetObservation (run (store_step sample_store_env) (run (store_step sample_store_env) NewMemory (sample_history h)) (sample_history h))
     (ob_id sample_published) = Inr sample_published"
proof
  fix h
  have "GetObservation (run (store_step sample_store_env) NewMemory (sample_history h)) (ob_id sample_published) = Inr sample_published"
    by (simp add: GetObservation_def sample_history_published aget_def)
  then show "GetObservation (run (store_step sample_store_env) (run (store_step sample_store_env) NewMemory (sample_history h)) (sample_history h))
      (ob_id sample_published) = Inr sample_published"
    using store_append_only [of sample_store_env "sample_history h" "sample_history h"] unfolding Let_def by blast
qed

theorem store_pages_complete_witness:
  "\<forall>h. \<exists>pages. list_walk sample_store_env (run (store_step sample_store_env) NewMemory (sample_history h))
     \<lparr>fl_Subject = ''project'', fl_Version = [], fl_Pack = [], fl_Profile = [], fl_Trust = [], fl_Fresh = []\<rparr> 1 2 [] = Some pages \<and>
     concat pages = [sample_published]"
proof
  fix h
  let ?f = "\<lparr>fl_Subject = ''project'', fl_Version = [], fl_Pack = [], fl_Profile = [], fl_Trust = [], fl_Fresh = []\<rparr>"
  have codec: "cursor_codec sample_store_env" by (simp add: cursor_codec_def sample_store_env_def)
  have sel: "selected sample_store_env ?f sample_published"
    by (simp add: selected_def IndexObservation_def sample_store_env_def matches_def)
  have two: "Suc (length (ms_observed (run (store_step sample_store_env) NewMemory (sample_history h)))) = 2"
    by (simp only: sample_history_published) simp
  obtain pages where "list_walk sample_store_env (run (store_step sample_store_env) NewMemory (sample_history h)) ?f 1 2 [] = Some pages"
    "concat pages = filter (selected sample_store_env ?f)
       (sort_key ob_id (map snd (ms_observed (run (store_step sample_store_env) NewMemory (sample_history h)))))"
    using store_pages_complete [OF codec order_refl, of "sample_history h" ?f] unfolding Let_def two by auto
  moreover have "filter (selected sample_store_env ?f) [sample_published] = [sample_published]" using sel by simp
  ultimately show "\<exists>pages. list_walk sample_store_env (run (store_step sample_store_env) NewMemory (sample_history h)) ?f 1 2 [] = Some pages \<and>
      concat pages = [sample_published]"
    unfolding sample_history_published by (intro exI [of _ pages] conjI) simp_all
qed

end
