(* ===== verification/Executor.thy ===== *)
theory Executor
  imports BudgetLedger Planner
begin

text \<open>
  Package \<open>executor\<close> (\<open>internal/executor/executor.go\<close>): the run of a resolved plan.  Everything
  outside the package (runners and their resolver, identifier source, clock, context) is an
  environment: a record of functions over a world \<open>'w\<close>, so that each call may depend on all earlier
  ones.  A runner is a value of type \<open>'r\<close>.  A ledger call is given one reading of the clock, also
  where the ledger returns before it reads it; the readings are unconstrained.

  An error of \<open>Run\<close> is described by what the code asks about it: the \<open>RunError\<close> that \<open>errors.As\<close> finds,
  and whether it is a deadline or a cancellation.
\<close>

section \<open>The environment\<close>

datatype ctx_error = CtxCanceled | CtxDeadlineExceeded

datatype run_error_class = ErrorTransient | ErrorAuthentication | ErrorPermission | ErrorDriver | ErrorHarness
  | OtherClass string

record run_error =
  re_Class :: run_error_class
  re_Usage :: usage
  re_UsageKnown :: bool
  re_UnknownUsage :: "string list"
  re_EvidenceRefs :: "object_ref list"

record run_failure =
  rf_typed :: "run_error option"
  rf_deadline :: bool
  rf_canceled :: bool

record invocation =
  iv_RunID :: instance_id
  iv_InvocationID :: instance_id
  iv_AttemptID :: instance_id
  iv_PlanDigest :: digest
  iv_Scenario :: scenario_decision
  iv_AttemptNumber :: i64

record run_outcome =
  oc_Verdict :: verdict
  oc_ReasonCode :: reason_code
  oc_EvidenceRefs :: "object_ref list"
  oc_AssertionResults :: "assertion_result list"
  oc_Findings :: "finding list"
  oc_Usage :: usage
  oc_UnknownUsage :: "string list"

text \<open>\<open>en_ResolveFinalizer\<close> is \<open>None\<close> for a resolver that does not implement \<open>finalizerResolver\<close>.\<close>

record ('w, 'r) exec_env =
  en_NewID :: "'w \<Rightarrow> instance_id \<times> err \<times> 'w"
  en_Now :: "'w \<Rightarrow> time \<times> 'w"
  en_CtxErr :: "'w \<Rightarrow> ctx_error option \<times> 'w"
  en_Resolve :: "artifact_pin \<Rightarrow> 'w \<Rightarrow> 'r res \<times> 'w"
  en_Estimate :: "'r \<Rightarrow> scenario_decision \<Rightarrow> 'w \<Rightarrow> usage res \<times> 'w"
  en_Run :: "'r \<Rightarrow> invocation \<Rightarrow> 'w \<Rightarrow> (run_failure + run_outcome) \<times> 'w"
  en_ResolveFinalizer :: "(finalizer_plan \<Rightarrow> 'w \<Rightarrow> 'r res \<times> 'w) option"
  en_Finalize :: "'r \<Rightarrow> finalizer_plan \<Rightarrow> 'w \<Rightarrow> usage res \<times> 'w"

record exec_result =
  xr_RunID :: instance_id
  xr_ResolvedPlanRef :: object_ref
  xr_Attempts :: "attempt list"
  xr_Cases :: "case_result list"
  xr_Budget :: budget_snapshot
  xr_ResidualLeases :: "string list"
  xr_StartedAt :: time
  xr_FinishedAt :: time

section \<open>Usage accounting and validation of outcomes\<close>

definition no_consumption :: budget_consumption where
  "no_consumption = \<lparr>bc_Requests = 0, bc_RequestBytes = 0, bc_ResponseBytes = 0, bc_ArtifactBytes = 0, bc_InputTokens = None,
     bc_OutputTokens = None, bc_Unknown = []\<rparr>"

definition consumption :: "usage \<Rightarrow> string list \<Rightarrow> budget_consumption" where
  "consumption u unknown = \<lparr>bc_Requests = us_Requests u, bc_RequestBytes = us_RequestBytes u,
     bc_ResponseBytes = us_ResponseBytes u, bc_ArtifactBytes = us_ArtifactBytes u,
     bc_InputTokens = (if ''input_tokens'' \<in> set unknown then None else Some (us_InputTokens u)),
     bc_OutputTokens = (if ''output_tokens'' \<in> set unknown then None else Some (us_OutputTokens u)),
     bc_Unknown = unknown\<rparr>"

definition accountedUsage :: "usage \<Rightarrow> usage \<Rightarrow> string list \<Rightarrow> usage" where
  "accountedUsage observed estimate unknown =
     Usage (us_Requests observed) (us_RequestBytes observed) (us_ResponseBytes observed) (us_ArtifactBytes observed)
       (us_Processes observed)
       (if ''input_tokens'' \<in> set unknown then us_InputTokens estimate else us_InputTokens observed)
       (if ''output_tokens'' \<in> set unknown then us_OutputTokens estimate else us_OutputTokens observed)"

definition aggregateUnknownUsage :: "attempt list \<Rightarrow> string list" where
  "aggregateUnknownUsage attempts =
     filter (\<lambda>f. \<exists>a\<in>set attempts. f \<in> set (bc_Unknown (at_ConsumedBudget a))) [''input_tokens'', ''output_tokens'']"

fun unknown_loop :: "string list \<Rightarrow> string list \<Rightarrow> err" where
  "unknown_loop seen [] = None"
| "unknown_loop seen (f # fs) =
     (if f \<noteq> ''input_tokens'' \<and> f \<noteq> ''output_tokens'' then Some (Err ''invalid unknown usage field'')
      else if f \<in> set seen then Some (Err ''duplicate unknown usage field'')
      else unknown_loop (f # seen) fs)"

definition validateUnknownUsage :: "string list \<Rightarrow> err" where
  "validateUnknownUsage unknown = unknown_loop [] unknown"

definition validateEvidenceRefs :: "object_ref list \<Rightarrow> err" where
  "validateEvidenceRefs refs = first_err (map (\<lambda>r. wrap_err ''evidence ref'' (ref_Validate r)) refs)"

definition validateOutcome :: "run_outcome \<Rightarrow> err" where
  "validateOutcome o1 = first_err
     ([fail_if (oc_Verdict o1 \<notin> set [VerdictPass, VerdictFail, VerdictWarn, VerdictInconclusive])
         (Err ''invalid completed verdict''),
       fail_if (oc_EvidenceRefs o1 = []) (Err ''completed outcome requires evidence''),
       validateEvidenceRefs (oc_EvidenceRefs o1)]
      @ map assertion_Validate (oc_AssertionResults o1)
      @ [validateUnknownUsage (oc_UnknownUsage o1)])"

fun appendUniqueEvidenceRefs :: "object_ref list \<Rightarrow> object_ref list \<Rightarrow> object_ref list" where
  "appendUniqueEvidenceRefs dest [] = dest"
| "appendUniqueEvidenceRefs dest (r # rs) =
     (if r \<in> set dest then appendUniqueEvidenceRefs dest rs else appendUniqueEvidenceRefs (dest @ [r]) rs)"

section \<open>Cases and attempts\<close>

definition caseForAttempts ::
  "scenario_decision \<Rightarrow> instance_id list \<Rightarrow> execution_status \<Rightarrow> verdict option \<Rightarrow> reason_code \<Rightarrow> assertion_result list \<Rightarrow>
     finding list \<Rightarrow> case_result" where
  "caseForAttempts d ids status v reason assertions findings =
     \<lparr>cr_ScenarioID = sd_ScenarioID d, cr_PlanDisposition = sd_Disposition d, cr_AttemptIDs = ids, cr_ExecutionStatus = status,
      cr_Verdict = v, cr_ReasonCode = reason, cr_EvidenceRefs = [], cr_AssertionResults = assertions, cr_Findings = findings,
      cr_CandidateMember = True, cr_ApplicableMember = True, cr_ExecutedMember = (status = ExecutionCompleted),
      cr_AttemptAggregation = ''last_completed''\<rparr>"

text \<open>The conversion \<open>schema.ReasonCode(decision.ReasonCode)\<close> of a text to a reason code.\<close>

definition reason_of_text :: "string \<Rightarrow> reason_code" where
  "reason_of_text t = (case map_of
     [(''unsupported_capability'', ReasonUnsupportedCapability), (''authentication_failed'', ReasonAuthenticationFailed),
      (''permission_denied'', ReasonPermissionDenied), (''transient_error'', ReasonTransientError),
      (''spec_ambiguity'', ReasonSpecAmbiguity), (''budget_exhausted'', ReasonBudgetExhausted),
      (''cost_limit'', ReasonCostLimit), (''unsafe_operation'', ReasonUnsafeOperation), (''harness_error'', ReasonHarnessError),
      (''driver_error'', ReasonDriverError), (''cancelled_by_user'', ReasonCancelledByUser),
      (''flaky_detected'', ReasonFlakyDetected), (''insufficient_samples'', ReasonInsufficientSamples),
      (''not_observed'', ReasonNotObserved)] t of Some r \<Rightarrow> r | None \<Rightarrow> OtherReason t)"

definition plannedOnlyCase :: "scenario_decision \<Rightarrow> case_result" where
  "plannedOnlyCase d =
     \<lparr>cr_ScenarioID = sd_ScenarioID d, cr_PlanDisposition = sd_Disposition d, cr_AttemptIDs = [],
      cr_ExecutionStatus = ExecutionSkipped, cr_Verdict = None, cr_ReasonCode = reason_of_text (sd_ReasonCode d),
      cr_EvidenceRefs = [], cr_AssertionResults = [], cr_Findings = [], cr_CandidateMember = True,
      cr_ApplicableMember = (sd_Disposition d = DispositionSkip), cr_ExecutedMember = False, cr_AttemptAggregation = ''none''\<rparr>"

definition bare_attempt :: "instance_id \<Rightarrow> instance_id \<Rightarrow> artifact_pin \<Rightarrow> execution_status \<Rightarrow> reason_code \<Rightarrow> attempt" where
  "bare_attempt invocationID attemptID driver status reason =
     \<lparr>at_AttemptID = attemptID, at_InvocationID = invocationID, at_ExecutionStatus = status, at_ReasonCode = reason,
      at_RequestRef = None, at_EvidenceRefs = [], at_Driver = driver, at_ClientObservationRefs = [],
      at_ConsumedBudget = no_consumption, at_ResidualLeaseRefs = []\<rparr>"

definition erroredAttempt :: "instance_id \<Rightarrow> instance_id \<Rightarrow> artifact_pin \<Rightarrow> reason_code \<Rightarrow> attempt" where
  "erroredAttempt invocationID attemptID driver reason = bare_attempt invocationID attemptID driver ExecutionErrored reason"

definition skippedAttempt :: "instance_id \<Rightarrow> instance_id \<Rightarrow> artifact_pin \<Rightarrow> reason_code \<Rightarrow> attempt" where
  "skippedAttempt invocationID attemptID driver reason = bare_attempt invocationID attemptID driver ExecutionSkipped reason"

definition nonRunAttempt ::
  "('w, 'r) exec_env \<Rightarrow> scenario_decision \<Rightarrow> execution_status \<Rightarrow> reason_code \<Rightarrow> 'w \<Rightarrow> (case_result \<times> attempt) \<times> 'w" where
  "nonRunAttempt env d status reason w =
     (case en_NewID env w of (invocationID, _, w1) \<Rightarrow>
        (case en_NewID env w1 of (attemptID, _, w2) \<Rightarrow>
           ((caseForAttempts d [attemptID] status None reason [] [],
             bare_attempt invocationID attemptID (sd_Driver d) status reason), w2)))"

definition failedDependency :: "scenario_decision \<Rightarrow> (string, case_result) gomap \<Rightarrow> string" where
  "failedDependency d states =
     (case find (\<lambda>dep. case aget states dep of None \<Rightarrow> True
        | Some s \<Rightarrow> cr_ExecutionStatus s \<noteq> ExecutionCompleted \<or> cr_Verdict s = None \<or> cr_Verdict s = Some VerdictFail
            \<or> cr_Verdict s = Some VerdictInconclusive) (sd_DependsOn d) of
        None \<Rightarrow> [] | Some dep \<Rightarrow> dep)"

definition contextReason :: "ctx_error \<Rightarrow> reason_code" where
  "contextReason e = (case e of CtxDeadlineExceeded \<Rightarrow> ReasonBudgetExhausted | CtxCanceled \<Rightarrow> ReasonCancelledByUser)"

definition reasonForError :: "ctx_error option \<Rightarrow> run_failure \<Rightarrow> reason_code \<times> run_error_class" where
  "reasonForError ctx f =
     (case ctx of
        Some e \<Rightarrow> (contextReason e, ErrorHarness)
      | None \<Rightarrow>
          if rf_deadline f then (ReasonBudgetExhausted, ErrorHarness)
          else if rf_canceled f then (ReasonCancelledByUser, ErrorHarness)
          else (case rf_typed f of
             None \<Rightarrow> (ReasonHarnessError, ErrorHarness)
           | Some e \<Rightarrow>
               ((case re_Class e of ErrorAuthentication \<Rightarrow> ReasonAuthenticationFailed
                  | ErrorPermission \<Rightarrow> ReasonPermissionDenied | ErrorTransient \<Rightarrow> ReasonTransientError
                  | ErrorDriver \<Rightarrow> ReasonDriverError | _ \<Rightarrow> ReasonHarnessError), re_Class e)))"

section \<open>One scenario\<close>

text \<open>What stays the same over the attempts of a scenario.\<close>

record 'r scenario_run =
  sr_runID :: instance_id
  sr_planDigest :: digest
  sr_decision :: scenario_decision
  sr_runner :: 'r
  sr_invocationID :: instance_id
  sr_maxAttempts :: i64

text \<open>What the attempts so far have left: attempts, their identifiers, and the evidence of the case.\<close>

record progress =
  pg_attempts :: "attempt list"
  pg_ids :: "instance_id list"
  pg_evidence :: "object_ref list"

text \<open>\<open>AttemptNoID\<close> leaves the loop; \<open>AttemptRetry\<close> is a failure of class transient, with the case to return if there is no retry.\<close>

datatype attempt_result = AttemptNoID | AttemptDone case_result "attempt list"
  | AttemptRetry case_result progress

definition both_tokens :: "string list" where
  "both_tokens = [''input_tokens'', ''output_tokens'']"

definition harness_failure :: run_failure where
  "harness_failure = \<lparr>rf_typed = Some \<lparr>re_Class = ErrorHarness, re_Usage = 0, re_UsageKnown = False, re_UnknownUsage = [],
     re_EvidenceRefs = []\<rparr>, rf_deadline = False, rf_canceled = False\<rparr>"

text \<open>
  The accounting of a failed run: the failure after the checks on what the runner reported, the
  observed usage, the usage to commit, the unknown fields and the evidence of the attempt.
\<close>

definition failure_account :: "run_failure \<Rightarrow> usage \<Rightarrow> run_failure \<times> usage \<times> usage \<times> string list \<times> object_ref list" where
  "failure_account f estimate =
     (case rf_typed f of
        None \<Rightarrow> (f, 0, estimate, both_tokens, [])
      | Some typed \<Rightarrow>
          (let actual = (if re_UsageKnown typed then re_Usage typed else 0);
               unknownOk = validateUnknownUsage (re_UnknownUsage typed) = None;
               f1 = (if unknownOk then f else harness_failure);
               unknown = (if unknownOk \<and> re_UsageKnown typed then re_UnknownUsage typed else both_tokens);
               evidenceOk = validateEvidenceRefs (re_EvidenceRefs typed) = None;
               f2 = (if evidenceOk then f1 else harness_failure)
           in (f2, actual, if re_UsageKnown typed then accountedUsage actual estimate unknown else estimate, unknown,
               if evidenceOk then re_EvidenceRefs typed else [])))"

text \<open>The two readings of the context that decide between errored and cancelled.\<close>

definition failure_status :: "('w, 'r) exec_env \<Rightarrow> 'w \<Rightarrow> execution_status \<times> 'w" where
  "failure_status env w =
     (case en_CtxErr env w of (c1, w1) \<Rightarrow>
        if c1 = Some CtxCanceled then (ExecutionCancelled, w1)
        else (case en_CtxErr env w1 of (c2, w2) \<Rightarrow>
                (if c2 = Some CtxDeadlineExceeded then ExecutionCancelled else ExecutionErrored, w2)))"

definition failed_run ::
  "('w, 'r) exec_env \<Rightarrow> 'r scenario_run \<Rightarrow> i64 \<Rightarrow> progress \<Rightarrow> instance_id \<Rightarrow> usage \<Rightarrow> nat \<Rightarrow> run_failure \<Rightarrow>
     ledger \<Rightarrow> 'w \<Rightarrow> attempt_result \<times> ledger \<times> 'w" where
  "failed_run env sr number pg attemptID estimate reservation f l w =
     (case failure_account f estimate of (f', actual, accounted, unknown, evidence) \<Rightarrow>
        (case en_Now env w of (now, w1) \<Rightarrow>
           (let l1 = fst (Commit l reservation accounted now)
            in case en_CtxErr env w1 of (ctx, w2) \<Rightarrow>
              (case reasonForError ctx f' of (reason, cls) \<Rightarrow>
                (case failure_status env w2 of (status, w3) \<Rightarrow>
                   (let attempt = (bare_attempt (sr_invocationID sr) attemptID (sd_Driver (sr_decision sr)) status reason)
                          \<lparr>at_EvidenceRefs := evidence, at_ConsumedBudget := consumption actual unknown\<rparr>;
                        caseEvidence = appendUniqueEvidenceRefs (pg_evidence pg) evidence;
                        attempts = pg_attempts pg @ [attempt];
                        result = (caseForAttempts (sr_decision sr) (pg_ids pg) status None reason [] [])
                          \<lparr>cr_EvidenceRefs := caseEvidence\<rparr>
                    in (if cls = ErrorTransient \<and> sint number < sint (sr_maxAttempts sr)
                        then AttemptRetry result \<lparr>pg_attempts = attempts, pg_ids = pg_ids pg, pg_evidence = caseEvidence\<rparr>
                        else AttemptDone result attempts, l1, w3)))))))"

definition completed_run ::
  "('w, 'r) exec_env \<Rightarrow> 'r scenario_run \<Rightarrow> progress \<Rightarrow> instance_id \<Rightarrow> usage \<Rightarrow> nat \<Rightarrow> run_outcome \<Rightarrow>
     ledger \<Rightarrow> 'w \<Rightarrow> attempt_result \<times> ledger \<times> 'w" where
  "completed_run env sr pg attemptID estimate reservation o1 l w =
     (case en_Now env w of (now, w1) \<Rightarrow>
        if validateOutcome o1 \<noteq> None then
          (let l1 = fst (Commit l reservation estimate now);
               refs = (if validateEvidenceRefs (oc_EvidenceRefs o1) = None then oc_EvidenceRefs o1 else []);
               attempt = (erroredAttempt (sr_invocationID sr) attemptID (sd_Driver (sr_decision sr)) ReasonHarnessError)
                 \<lparr>at_EvidenceRefs := refs, at_ConsumedBudget := consumption 0 both_tokens\<rparr>
           in (AttemptDone
                 ((caseForAttempts (sr_decision sr) (pg_ids pg) ExecutionErrored None ReasonHarnessError [] [])
                    \<lparr>cr_EvidenceRefs := appendUniqueEvidenceRefs (pg_evidence pg) refs\<rparr>)
                 (pg_attempts pg @ [attempt]), l1, w1))
        else
          (case Commit l reservation (accountedUsage (oc_Usage o1) estimate (oc_UnknownUsage o1)) now of (l1, commitErr) \<Rightarrow>
             (let attempt = (bare_attempt (sr_invocationID sr) attemptID (sd_Driver (sr_decision sr)) ExecutionCompleted
                    (oc_ReasonCode o1)) \<lparr>at_EvidenceRefs := oc_EvidenceRefs o1,
                      at_ConsumedBudget := consumption (oc_Usage o1) (oc_UnknownUsage o1)\<rparr>;
                  reason = (if commitErr \<noteq> None then ReasonBudgetExhausted else oc_ReasonCode o1)
              in (AttemptDone
                    ((caseForAttempts (sr_decision sr) (pg_ids pg) ExecutionCompleted (Some (oc_Verdict o1)) reason
                        (oc_AssertionResults o1) (oc_Findings o1))
                       \<lparr>cr_EvidenceRefs := appendUniqueEvidenceRefs (pg_evidence pg) (oc_EvidenceRefs o1)\<rparr>)
                    (pg_attempts pg @ [attempt]), l1, w1))))"

text \<open>The body of the attempt loop.\<close>

definition run_attempt ::
  "('w, 'r) exec_env \<Rightarrow> 'r scenario_run \<Rightarrow> i64 \<Rightarrow> progress \<Rightarrow> ledger \<Rightarrow> 'w \<Rightarrow> attempt_result \<times> ledger \<times> 'w" where
  "run_attempt env sr number pg0 l w =
     (case en_NewID env w of
        (_, Some e, w1) \<Rightarrow> (AttemptNoID, l, w1)
      | (attemptID, None, w1) \<Rightarrow>
          (let pg = pg0\<lparr>pg_ids := pg_ids pg0 @ [attemptID]\<rparr>; d = sr_decision sr
           in case en_Estimate env (sr_runner sr) d w1 of
             (Inl e, w2) \<Rightarrow>
               (AttemptDone (caseForAttempts d (pg_ids pg) ExecutionErrored None ReasonHarnessError [] [])
                  (pg_attempts pg @ [erroredAttempt (sr_invocationID sr) attemptID (sd_Driver d) ReasonHarnessError]), l, w2)
           | (Inr estimate, w2) \<Rightarrow>
               (case en_Now env w2 of (now, w3) \<Rightarrow>
                  (case Reserve l estimate now of
                     (l1, Inl e) \<Rightarrow>
                       (AttemptDone (caseForAttempts d (pg_ids pg) ExecutionSkipped None ReasonBudgetExhausted [] [])
                          (pg_attempts pg @ [skippedAttempt (sr_invocationID sr) attemptID (sd_Driver d) ReasonBudgetExhausted]),
                        l1, w3)
                   | (l1, Inr reservation) \<Rightarrow>
                       (case en_Run env (sr_runner sr) \<lparr>iv_RunID = sr_runID sr, iv_InvocationID = sr_invocationID sr,
                            iv_AttemptID = attemptID, iv_PlanDigest = sr_planDigest sr, iv_Scenario = d,
                            iv_AttemptNumber = number\<rparr> w3 of
                          (Inl f, w4) \<Rightarrow> failed_run env sr number pg attemptID estimate reservation f l1 w4
                        | (Inr o1, w4) \<Rightarrow> completed_run env sr pg attemptID estimate reservation o1 l1 w4)))))"

function attempt_loop ::
  "('w, 'r) exec_env \<Rightarrow> 'r scenario_run \<Rightarrow> i64 \<Rightarrow> progress \<Rightarrow> ledger \<Rightarrow> 'w \<Rightarrow> (case_result \<times> attempt list) \<times> ledger \<times> 'w" where
  "attempt_loop env sr number pg l w =
     (if sint number \<le> sint (sr_maxAttempts sr) then
        (case run_attempt env sr number pg l w of
           (AttemptDone result attempts, l1, w1) \<Rightarrow> ((result, attempts), l1, w1)
         | (AttemptRetry result pg1, l1, w1) \<Rightarrow>
             (if sint number < sint (sr_maxAttempts sr) then attempt_loop env sr (number + 1) pg1 l1 w1
              else ((result, pg_attempts pg1), l1, w1))
         | (AttemptNoID, l1, w1) \<Rightarrow>
             ((caseForAttempts (sr_decision sr) (pg_ids pg) ExecutionErrored None ReasonHarnessError [] [], pg_attempts pg), l1, w1))
      else ((caseForAttempts (sr_decision sr) (pg_ids pg) ExecutionErrored None ReasonHarnessError [] [], pg_attempts pg), l, w))"
  by pat_completeness auto

lemma sint_suc_below: "sint (n :: i64) < sint (m :: i64) \<Longrightarrow> sint (n + 1) = sint n + 1"
proof -
  assume "sint n < sint m"
  moreover have "sint m < 2 ^ 63" "- (2 ^ 63) \<le> sint n"
    using sint_i64_range [of m] sint_i64_range [of n] by (auto simp: i64_range_def)
  ultimately have "i64_range (sint n + sint (1 :: i64))" by (simp add: i64_range_def)
  from sint_add_i64 [OF this] show ?thesis by simp
qed

termination attempt_loop
  by (relation "measure (\<lambda>(_, sr, number, _). nat (sint (sr_maxAttempts sr) - sint number))")
     (auto simp: sint_suc_below)

declare attempt_loop.simps [simp del]

definition runScenario ::
  "('w, 'r) exec_env \<Rightarrow> instance_id \<Rightarrow> resolved_plan \<Rightarrow> scenario_decision \<Rightarrow> 'r \<Rightarrow> ledger \<Rightarrow> 'w \<Rightarrow>
     (case_result \<times> attempt list) \<times> ledger \<times> 'w" where
  "runScenario env runID plan d runner l w =
     (case en_NewID env w of
        (_, Some e, w1) \<Rightarrow>
          (case nonRunAttempt env d ExecutionErrored ReasonHarnessError w1 of ((result, attempt), w2) \<Rightarrow> ((result, [attempt]), l, w2))
      | (invocationID, None, w1) \<Rightarrow>
          attempt_loop env \<lparr>sr_runID = runID, sr_planDigest = em_ContentDigest (rp_meta plan), sr_decision = d,
              sr_runner = runner, sr_invocationID = invocationID, sr_maxAttempts = rt_Retries (rp_Runtime plan) + 1\<rparr>
            1 \<lparr>pg_attempts = [], pg_ids = [], pg_evidence = []\<rparr> l w1)"

section \<open>The run\<close>

record 'w run_state =
  ru_attempts :: "attempt list"
  ru_cases :: "case_result list"
  ru_states :: "(string, case_result) gomap"
  ru_error :: "ctx_error option"
  ru_ledger :: ledger
  ru_world :: 'w

text \<open>The three statements that every branch of the loop ends with.\<close>

definition record_case :: "case_result \<Rightarrow> attempt list \<Rightarrow> 'w \<Rightarrow> 'w run_state \<Rightarrow> 'w run_state" where
  "record_case c attempts w st = st\<lparr>ru_attempts := ru_attempts st @ attempts, ru_cases := ru_cases st @ [c],
     ru_states := aput (cr_ScenarioID c) c (ru_states st), ru_world := w\<rparr>"

definition record_nonrun ::
  "('w, 'r) exec_env \<Rightarrow> scenario_decision \<Rightarrow> execution_status \<Rightarrow> reason_code \<Rightarrow> 'w \<Rightarrow> 'w run_state \<Rightarrow> 'w run_state" where
  "record_nonrun env d status reason w st =
     (case nonRunAttempt env d status reason w of ((c, a), w') \<Rightarrow> record_case c [a] w' st)"

definition execute_scenario ::
  "('w, 'r) exec_env \<Rightarrow> instance_id \<Rightarrow> resolved_plan \<Rightarrow> scenario_decision \<Rightarrow> 'w run_state \<Rightarrow> 'w run_state" where
  "execute_scenario env runID plan d st =
     (case en_CtxErr env (ru_world st) of
        (Some e, w1) \<Rightarrow>
          (let st1 = st\<lparr>ru_error := Some e\<rparr>
           in if sd_Disposition d = DispositionExecute
              then record_nonrun env d ExecutionCancelled (contextReason e) w1 st1
              else record_case (plannedOnlyCase d) [] w1 st1)
      | (None, w1) \<Rightarrow>
          if sd_Disposition d \<noteq> DispositionExecute then record_case (plannedOnlyCase d) [] w1 st
          else if failedDependency d (ru_states st) \<noteq> [] then
            record_nonrun env d ExecutionSkipped ReasonHarnessError w1 st
          else (case en_Resolve env (sd_Driver d) w1 of
             (Inl e, w2) \<Rightarrow> record_nonrun env d ExecutionErrored ReasonDriverError w2 st
           | (Inr runner, w2) \<Rightarrow>
               (case runScenario env runID plan d runner (ru_ledger st) w2 of ((c, attempts), l, w3) \<Rightarrow>
                  (let st1 = record_case c attempts w3 (st\<lparr>ru_ledger := l\<rparr>)
                   in if cr_ExecutionStatus c = ExecutionCancelled then
                        (case en_CtxErr env w3 of
                           (Some e, w4) \<Rightarrow> st1\<lparr>ru_error := Some e, ru_world := w4\<rparr>
                         | (None, w4) \<Rightarrow> st1\<lparr>ru_world := w4\<rparr>)
                      else st1))))"

fun finalize_loop ::
  "('w, 'r) exec_env \<Rightarrow> finalizer_plan list \<Rightarrow> string list \<Rightarrow> ledger \<Rightarrow> 'w \<Rightarrow> string list \<times> ledger \<times> 'w" where
  "finalize_loop env [] residual l w = (residual, l, w)"
| "finalize_loop env (p # ps) residual l w =
     (case en_ResolveFinalizer env of
        None \<Rightarrow> finalize_loop env ps (residual @ [fp_LeaseID p]) l w
      | Some resolve \<Rightarrow>
          (case resolve p w of
             (Inl e, w1) \<Rightarrow> finalize_loop env ps (residual @ [fp_LeaseID p]) l w1
           | (Inr runner, w1) \<Rightarrow>
               (case en_Finalize env runner p w1 of
                  (Inl e, w2) \<Rightarrow> finalize_loop env ps (residual @ [fp_LeaseID p]) l w2
                | (Inr u, w2) \<Rightarrow>
                    (case ConsumeCleanup l u of
                       (l1, Some e) \<Rightarrow> finalize_loop env ps (residual @ [fp_LeaseID p]) l1 w2
                     | (l1, None) \<Rightarrow> finalize_loop env ps residual l1 w2))))"

definition finalize ::
  "('w, 'r) exec_env \<Rightarrow> finalizer_plan list \<Rightarrow> ledger \<Rightarrow> 'w \<Rightarrow> string list \<times> ledger \<times> 'w" where
  "finalize env plans l w = finalize_loop env (rev plans) [] l w"

text \<open>The run itself, after the checks on the plan and its digest; the final ledger and world are returned too.\<close>

definition Execute ::
  "(string \<Rightarrow> bool) \<Rightarrow> ('w, 'r) exec_env \<Rightarrow> resolved_plan \<Rightarrow> digest \<Rightarrow> 'w \<Rightarrow>
     (exec_result \<times> ctx_error option \<times> ledger) res" where
  "Execute json_valid env plan expectedDigest w =
     guard_res (first_err
       [wrap_err ''resolved plan'' (resolved_Validate json_valid plan),
        fail_if (expectedDigest \<noteq> em_ContentDigest (rp_meta plan))
          (Err ''resolved plan digest does not match the approved digest'')])
       (case en_NewID env w of
          (_, Some e, w1) \<Rightarrow> Inl e
        | (runID, None, w1) \<Rightarrow>
            (case en_Now env w1 of (t0, w2) \<Rightarrow>
               bind_res (ledger_New (rp_Budget plan) t0) (\<lambda>l0.
                 (case en_Now env w2 of (started, w3) \<Rightarrow>
                    (let st = fold (execute_scenario env runID plan) (rp_Scenarios plan)
                           \<lparr>ru_attempts = [], ru_cases = [], ru_states = [], ru_error = None, ru_ledger = l0, ru_world = w3\<rparr>
                     in case finalize env (rp_Finalizers plan) (ru_ledger st) (ru_world st) of (residual, l1, w4) \<Rightarrow>
                       (case en_Now env w4 of (t1, w5) \<Rightarrow>
                          (case ledger_Snapshot l1 t1 of (l2, snapshot) \<Rightarrow>
                             (case en_Now env w5 of (finished, w6) \<Rightarrow>
                                Inr (\<lparr>xr_RunID = runID, xr_ResolvedPlanRef = em_ObjectRef (rp_meta plan), xr_Attempts = ru_attempts st,
                                      xr_Cases = ru_cases st,
                                      xr_Budget = snapshot\<lparr>sn_Unknown := aggregateUnknownUsage (ru_attempts st)\<rparr>,
                                      xr_ResidualLeases = residual, xr_StartedAt = started, xr_FinishedAt = finished\<rparr>,
                                     ru_error st, l2)))))))))"

section \<open>Attempts and the case they make\<close>

definition case_for :: "scenario_decision \<Rightarrow> case_result \<Rightarrow> attempt list \<Rightarrow> bool" where
  "case_for d c attempts \<longleftrightarrow> cr_ScenarioID c = sd_ScenarioID d \<and> cr_PlanDisposition c = sd_Disposition d \<and>
     cr_AttemptIDs c = map at_AttemptID attempts \<and>
     (cr_ExecutionStatus c = ExecutionCompleted \<longleftrightarrow> cr_Verdict c \<noteq> None) \<and>
     cr_Verdict c \<in> {None, Some VerdictPass, Some VerdictFail, Some VerdictWarn, Some VerdictInconclusive} \<and>
     (cr_ExecutionStatus c = ExecutionCompleted \<longrightarrow> cr_EvidenceRefs c \<noteq> [])"

definition progress_ok :: "progress \<Rightarrow> bool" where
  "progress_ok pg \<longleftrightarrow> pg_ids pg = map at_AttemptID (pg_attempts pg)"

lemma appendUnique_prefix: "prefix dest (appendUniqueEvidenceRefs dest rs)"
proof (induction rs arbitrary: dest)
  case (Cons r rs)
  then show ?case using Cons.IH [of "dest @ [r]"] by (auto dest: append_prefixD)
qed simp

lemma appendUnique_set: "set (appendUniqueEvidenceRefs dest rs) = set dest \<union> set rs"
  by (induction rs arbitrary: dest) auto

lemma appendUnique_nonempty: "rs \<noteq> [] \<Longrightarrow> appendUniqueEvidenceRefs dest rs \<noteq> []"
  by (metis appendUnique_set set_empty sup_eq_bot_iff)

lemma bare_attempt_simps [simp]: "at_AttemptID (bare_attempt i a d st r) = a" "at_EvidenceRefs (bare_attempt i a d st r) = []"
  by (simp_all add: bare_attempt_def)

lemma caseForAttempts_simps [simp]:
  "cr_ScenarioID (caseForAttempts d ids st v r as fs) = sd_ScenarioID d"
  "cr_PlanDisposition (caseForAttempts d ids st v r as fs) = sd_Disposition d"
  "cr_AttemptIDs (caseForAttempts d ids st v r as fs) = ids" "cr_ExecutionStatus (caseForAttempts d ids st v r as fs) = st"
  "cr_Verdict (caseForAttempts d ids st v r as fs) = v" "cr_EvidenceRefs (caseForAttempts d ids st v r as fs) = []"
  by (simp_all add: caseForAttempts_def)

lemma failure_status_cases: "failure_status env w = (st, w') \<Longrightarrow> st = ExecutionCancelled \<or> st = ExecutionErrored"
  by (auto simp: failure_status_def split: prod.splits if_splits)

text \<open>What one pass of the loop adds to the progress.\<close>

definition attempt_shape :: "scenario_decision \<Rightarrow> progress \<Rightarrow> attempt_result \<Rightarrow> bool" where
  "attempt_shape d pg r = (case r of
     AttemptNoID \<Rightarrow> True
   | AttemptDone c attempts \<Rightarrow> case_for d c attempts \<and> length attempts = Suc (length (pg_attempts pg))
   | AttemptRetry c pg' \<Rightarrow> progress_ok pg' \<and> case_for d c (pg_attempts pg') \<and>
       length (pg_attempts pg') = Suc (length (pg_attempts pg)))"

lemma failed_run_shape:
  assumes "pg_ids pg = map at_AttemptID (pg_attempts pg) @ [attemptID]"
  shows "attempt_shape (sr_decision sr) pg (fst (failed_run env sr n pg attemptID est h f l w))"
proof -
  obtain f' actual accounted unknown evidence where a: "failure_account f est = (f', actual, accounted, unknown, evidence)"
    by (metis prod_cases5)
  obtain now w1 where n: "en_Now env w = (now, w1)" by fastforce
  obtain ctx w2 where c: "en_CtxErr env w1 = (ctx, w2)" by fastforce
  obtain reason cls where r: "reasonForError ctx f' = (reason, cls)" by fastforce
  obtain st w3 where s: "failure_status env w2 = (st, w3)" by fastforce
  from failure_status_cases [OF s] show ?thesis
    by (auto simp: failed_run_def a n c r s Let_def attempt_shape_def case_for_def progress_ok_def assms)
qed

lemma completed_run_shape:
  assumes "pg_ids pg = map at_AttemptID (pg_attempts pg) @ [attemptID]"
  shows "attempt_shape (sr_decision sr) pg (fst (completed_run env sr pg attemptID est h o1 l w))"
proof -
  obtain now w1 where n: "en_Now env w = (now, w1)" by fastforce
  show ?thesis
  proof (cases "validateOutcome o1 = None")
    case True
    then have "oc_EvidenceRefs o1 \<noteq> []"
      and "oc_Verdict o1 \<in> {VerdictPass, VerdictFail, VerdictWarn, VerdictInconclusive}" by (simp_all add: validateOutcome_def)
    from appendUnique_nonempty [OF this(1)] this(2) True show ?thesis
      by (auto simp: completed_run_def n Let_def attempt_shape_def case_for_def assms split: prod.splits)
  next
    case False
    then show ?thesis
      by (auto simp: completed_run_def n Let_def attempt_shape_def case_for_def assms erroredAttempt_def)
  qed
qed

text \<open>The four ways in which a pass of the loop can go.\<close>

lemma run_attempt_cases:
  obtains (noid) w1 where "run_attempt env sr n pg l w = (AttemptNoID, l, w1)"
  | (early) i st reason l1 w1 where "run_attempt env sr n pg l w =
        (AttemptDone (caseForAttempts (sr_decision sr) (pg_ids pg @ [i]) st None reason [] [])
           (pg_attempts pg @ [bare_attempt (sr_invocationID sr) i (sd_Driver (sr_decision sr)) st reason]), l1, w1)"
      "st \<noteq> ExecutionCompleted" "l1 = l \<or> (\<exists>est now e. Reserve l est now = (l1, Inl e))"
  | (failed) i est now l1 h f iv w3 w4 where "Reserve l est now = (l1, Inr h)" "en_Run env (sr_runner sr) iv w3 = (Inl f, w4)"
      "run_attempt env sr n pg l w = failed_run env sr n (pg\<lparr>pg_ids := pg_ids pg @ [i]\<rparr>) i est h f l1 w4"
  | (completed) i est now l1 h o1 iv w3 w4 where "Reserve l est now = (l1, Inr h)" "en_Run env (sr_runner sr) iv w3 = (Inr o1, w4)"
      "run_attempt env sr n pg l w = completed_run env sr (pg\<lparr>pg_ids := pg_ids pg @ [i]\<rparr>) i est h o1 l1 w4"
proof -
  obtain i e w1 where id: "en_NewID env w = (i, e, w1)" by (metis prod_cases3)
  show ?thesis
  proof (cases e)
    case (Some x)
    with id show ?thesis by (intro noid [of w1]) (simp add: run_attempt_def)
  next
    case None
    obtain re w2 where est: "en_Estimate env (sr_runner sr) (sr_decision sr) w1 = (re, w2)" by fastforce
    show ?thesis
    proof (cases re)
      case (Inl x)
      with id None est show ?thesis
        by (intro early [of i ExecutionErrored ReasonHarnessError l w2])
           (simp_all add: run_attempt_def Let_def erroredAttempt_def)
    next
      case (Inr estimate)
      obtain now w3 where now: "en_Now env w2 = (now, w3)" by fastforce
      obtain l1 rr where res: "Reserve l estimate now = (l1, rr)" by fastforce
      show ?thesis
      proof (cases rr)
        case inl: (Inl x)
        then show ?thesis using id None est Inr now res
          by (intro early [of i ExecutionSkipped ReasonBudgetExhausted l1 w3])
             (auto simp: run_attempt_def Let_def skippedAttempt_def)
      next
        case inr: (Inr h)
        let ?iv = "\<lparr>iv_RunID = sr_runID sr, iv_InvocationID = sr_invocationID sr, iv_AttemptID = i,
            iv_PlanDigest = sr_planDigest sr, iv_Scenario = sr_decision sr, iv_AttemptNumber = n\<rparr>"
        obtain out w4 where out: "en_Run env (sr_runner sr) ?iv w3 = (out, w4)" by fastforce
        have r: "Reserve l estimate now = (l1, Inr h)" using res inr by simp
        show ?thesis
        proof (cases out)
          case (Inl f)
          show ?thesis
            by (rule failed [OF r, of ?iv w3 f w4 i]) (use id None est Inr now r out Inl in \<open>simp_all add: run_attempt_def Let_def\<close>)
        next
          case Inr': (Inr o1)
          show ?thesis
            by (rule completed [OF r, of ?iv w3 o1 w4 i])
               (use id None est Inr now r out Inr' in \<open>simp_all add: run_attempt_def Let_def\<close>)
        qed
      qed
    qed
  qed
qed

lemma run_attempt_shape:
  assumes "progress_ok pg"
  shows "attempt_shape (sr_decision sr) pg (fst (run_attempt env sr n pg l w))"
proof -
  have ids: "pg_ids (pg\<lparr>pg_ids := pg_ids pg @ [i]\<rparr>) = map at_AttemptID (pg_attempts (pg\<lparr>pg_ids := pg_ids pg @ [i]\<rparr>)) @ [i]" for i
    using assms by (simp add: progress_ok_def)
  have sh: "attempt_shape d (pg\<lparr>pg_ids := x\<rparr>) r = attempt_shape d pg r" for d x r
    by (cases r) (simp_all add: attempt_shape_def)
  show ?thesis
  proof (cases rule: run_attempt_cases [of env sr n pg l w, case_names noid early failed completed])
    case (failed i est now l1 h f iv w3 w4)
    with failed_run_shape [OF ids [of i], of sr env n est h f l1 w4] sh show ?thesis by simp
  next
    case (completed i est now l1 h o1 iv w3 w4)
    with completed_run_shape [OF ids [of i], of sr env est h o1 l1 w4] sh show ?thesis by simp
  qed (use assms in \<open>auto simp: attempt_shape_def case_for_def progress_ok_def\<close>)
qed

lemma attempt_loop_case:
  "progress_ok pg \<Longrightarrow> attempt_loop env sr n pg l w = ((c, attempts), l', w') \<Longrightarrow>
     case_for (sr_decision sr) c attempts \<and>
     int (length attempts) \<le> int (length (pg_attempts pg)) + max 0 (sint (sr_maxAttempts sr) - sint n + 1)"
proof (induction env sr n pg l w rule: attempt_loop.induct)
  case (1 env sr n pg l w)
  show ?case
  proof (cases "sint n \<le> sint (sr_maxAttempts sr)")
    case False
    with 1(2,3) show ?thesis
      by (auto simp: attempt_loop.simps [of env sr n] case_for_def progress_ok_def)
  next
    case True
    obtain r l1 w1 where ra: "run_attempt env sr n pg l w = (r, l1, w1)" by (metis prod_cases3)
    from run_attempt_shape [OF 1(2), of sr env n l w] ra have shape: "attempt_shape (sr_decision sr) pg r" by simp
    show ?thesis
    proof (cases r)
      case AttemptNoID
      with 1(2,3) True ra show ?thesis
        by (auto simp: attempt_loop.simps [of env sr n] case_for_def progress_ok_def)
    next
      case (AttemptDone c' attempts')
      with 1(3) True ra shape show ?thesis by (auto simp: attempt_loop.simps [of env sr n] attempt_shape_def)
    next
      case (AttemptRetry c' pg')
      note sh = shape [unfolded AttemptRetry attempt_shape_def, simplified]
      show ?thesis
      proof (cases "sint n < sint (sr_maxAttempts sr)")
        case less: True
        then have rec: "attempt_loop env sr (n + 1) pg' l1 w1 = ((c, attempts), l', w')"
          using 1(3) True ra AttemptRetry by (simp add: attempt_loop.simps [of env sr n])
        have IH: "case_for (sr_decision sr) c attempts \<and>
            int (length attempts) \<le> int (length (pg_attempts pg')) + max 0 (sint (sr_maxAttempts sr) - sint (n + 1) + 1)"
          using 1(1) [OF True ra [symmetric, unfolded AttemptRetry]] AttemptRetry less sh rec by auto
        then show ?thesis using sh sint_suc_below [OF less] less by auto
      next
        case False
        then show ?thesis using 1(3) True ra AttemptRetry sh by (auto simp: attempt_loop.simps [of env sr n])
      qed
    qed
  qed
qed

section \<open>Reservations are settled\<close>

text \<open>A runner that reports no negative consumption.\<close>

definition honest :: "('w, 'r) exec_env \<Rightarrow> bool" where
  "honest env \<longleftrightarrow> (\<forall>r iv w. case fst (en_Run env r iv w) of
     Inl f \<Rightarrow> (\<forall>e. rf_typed f = Some e \<and> re_UsageKnown e \<longrightarrow> usage_Validate (re_Usage e) = None)
   | Inr o1 \<Rightarrow> usage_Validate (oc_Usage o1) = None)"

definition settled :: "ledger \<Rightarrow> ledger \<Rightarrow> bool" where
  "settled l l' \<longleftrightarrow> ledger_inv l' \<and> lg_reserved l' = lg_reserved l \<and> lg_policy l' = lg_policy l"

lemma ledger_policy_kept:
  "Reserve l u t = (l1, r) \<Longrightarrow> lg_policy l1 = lg_policy l" "lg_policy (fst (Commit l h u t)) = lg_policy l"
  "lg_policy (fst (ConsumeCleanup l u)) = lg_policy l"
  by (auto simp: Reserve_def Commit_def ConsumeCleanup_def checkTimeLocked_def Let_def split: option.splits if_splits)

lemma settled_trans: "settled l l1 \<Longrightarrow> settled l1 l2 \<Longrightarrow> settled l l2"
  by (simp add: settled_def)

lemma accountedUsage_valid:
  "usage_Validate u = None \<Longrightarrow> usage_Validate est = None \<Longrightarrow> usage_Validate (accountedUsage u est unknown) = None"
  by (simp add: usage_Validate_def accountedUsage_def)

lemma failure_account_valid:
  assumes "failure_account f est = (f', actual, accounted, unknown, evidence)" "usage_Validate est = None"
    "\<And>e. rf_typed f = Some e \<Longrightarrow> re_UsageKnown e \<Longrightarrow> usage_Validate (re_Usage e) = None"
  shows "usage_Validate accounted = None"
  using assms by (auto simp: failure_account_def Let_def accountedUsage_valid split: option.splits if_splits)

lemma failed_run_ledger:
  "\<exists>f' actual accounted unknown evidence now. failure_account f est = (f', actual, accounted, unknown, evidence) \<and>
     fst (snd (failed_run env sr n pg i est h f l w)) = fst (Commit l h accounted now)"
  by (auto simp: failed_run_def Let_def split: prod.splits)

lemma completed_run_ledger:
  "\<exists>v now. fst (snd (completed_run env sr pg i est h o1 l w)) = fst (Commit l h v now) \<and>
     (v = est \<or> v = accountedUsage (oc_Usage o1) est (oc_UnknownUsage o1))"
proof -
  obtain now w1 where n: "en_Now env w = (now, w1)" by fastforce
  show ?thesis
  proof (cases "validateOutcome o1 = None")
    case True
    then show ?thesis
      by (intro exI [of _ "accountedUsage (oc_Usage o1) est (oc_UnknownUsage o1)"] exI [of _ now])
         (simp add: completed_run_def n Let_def split: prod.splits)
  next
    case False
    then show ?thesis by (intro exI [of _ est] exI [of _ now]) (simp add: completed_run_def n Let_def)
  qed
qed

lemma run_attempt_settles:
  assumes "honest env" "ledger_inv l"
  shows "settled l (fst (snd (run_attempt env sr n pg l w)))"
proof (cases rule: run_attempt_cases [of env sr n pg l w, case_names noid early failed completed])
  case (noid w1)
  then show ?thesis using assms(2) by (simp add: settled_def)
next
  case (early i st reason l1 w1)
  then show ?thesis using assms(2) budget.reserve_refused ledger_policy_kept(1) by (fastforce simp: settled_def)
next
  case (failed i est now l1 h f iv w3 w4)
  have typed: "usage_Validate (re_Usage e) = None" if "rf_typed f = Some e" "re_UsageKnown e" for e
  proof -
    have "case fst (en_Run env (sr_runner sr) iv w3) of
        Inl f \<Rightarrow> (\<forall>e. rf_typed f = Some e \<and> re_UsageKnown e \<longrightarrow> usage_Validate (re_Usage e) = None)
      | Inr o1 \<Rightarrow> usage_Validate (oc_Usage o1) = None" using assms(1) unfolding honest_def by blast
    with failed(2) that show ?thesis by simp
  qed
  obtain f' actual accounted unknown evidence t where
    a: "failure_account f est = (f', actual, accounted, unknown, evidence)"
    "fst (snd (run_attempt env sr n pg l w)) = fst (Commit l1 h accounted t)"
    using failed_run_ledger [of f est env sr n "pg\<lparr>pg_ids := pg_ids pg @ [i]\<rparr>" i h l1 w4] unfolding failed(3) by blast
  have "usage_Validate accounted = None"
    by (rule failure_account_valid [OF a(1) budget.reserve_admissible [OF failed(1)] typed])
  from budget.reserve_commit [OF assms(2) failed(1) this] a(2) failed(1) show ?thesis by (simp add: settled_def ledger_policy_kept)
next
  case (completed i est now l1 h o1 iv w3 w4)
  have "case fst (en_Run env (sr_runner sr) iv w3) of
      Inl f \<Rightarrow> (\<forall>e. rf_typed f = Some e \<and> re_UsageKnown e \<longrightarrow> usage_Validate (re_Usage e) = None)
    | Inr o1 \<Rightarrow> usage_Validate (oc_Usage o1) = None" using assms(1) unfolding honest_def by blast
  with completed(2) have u: "usage_Validate (oc_Usage o1) = None" by simp
  note est = budget.reserve_admissible [OF completed(1)]
  obtain v t where v: "fst (snd (run_attempt env sr n pg l w)) = fst (Commit l1 h v t)"
    "v = est \<or> v = accountedUsage (oc_Usage o1) est (oc_UnknownUsage o1)"
    using completed_run_ledger [of env sr "pg\<lparr>pg_ids := pg_ids pg @ [i]\<rparr>" i est h o1 l1 w4] unfolding completed(3) by blast
  have "usage_Validate v = None" using v(2) est accountedUsage_valid [OF u est] by auto
  from budget.reserve_commit [OF assms(2) completed(1) this] v(1) completed(1) show ?thesis by (simp add: settled_def ledger_policy_kept)
qed

lemma attempt_loop_settles:
  "honest env \<Longrightarrow> ledger_inv l \<Longrightarrow> settled l (fst (snd (attempt_loop env sr n pg l w)))"
proof (induction env sr n pg l w rule: attempt_loop.induct)
  case (1 env sr n pg l w)
  obtain r l1 w1 where ra: "run_attempt env sr n pg l w = (r, l1, w1)" by (metis prod_cases3)
  from run_attempt_settles [OF 1(2,3), of sr n pg w] ra have st: "settled l l1" by simp
  show ?case
  proof (cases "sint n \<le> sint (sr_maxAttempts sr)")
    case False
    then show ?thesis using 1(3) by (simp add: attempt_loop.simps [of env sr n] settled_def)
  next
    case True
    show ?thesis
    proof (cases r)
      case (AttemptRetry c pg')
      show ?thesis
      proof (cases "sint n < sint (sr_maxAttempts sr)")
        case less: True
        have "settled l1 (fst (snd (attempt_loop env sr (n + 1) pg' l1 w1)))"
          using 1(1) [OF True ra [symmetric, unfolded AttemptRetry]] AttemptRetry less 1(2) st by (auto simp: settled_def)
        then show ?thesis using settled_trans [OF st] True less ra AttemptRetry by (simp add: attempt_loop.simps [of env sr n])
      qed (use True ra AttemptRetry st in \<open>simp add: attempt_loop.simps [of env sr n]\<close>)
    qed (use True ra st in \<open>simp_all add: attempt_loop.simps [of env sr n]\<close>)
  qed
qed

lemma runScenario_settles:
  "honest env \<Longrightarrow> ledger_inv l \<Longrightarrow> settled l (fst (snd (runScenario env runID plan d runner l w)))"
  using attempt_loop_settles [of env l] by (auto simp: runScenario_def settled_def split: prod.splits option.splits)

lemma record_case_ledger [simp]: "ru_ledger (record_case c as w st) = ru_ledger st"
  by (simp add: record_case_def)

lemma record_nonrun_ledger [simp]: "ru_ledger (record_nonrun env d s r w st) = ru_ledger st"
  by (simp add: record_nonrun_def split: prod.splits)

text \<open>The ways in which a scenario is recorded.\<close>

lemma execute_scenario_cases:
  obtains (planned) w e where "execute_scenario env runID plan d st = record_case (plannedOnlyCase d) [] w (st\<lparr>ru_error := e\<rparr>)"
      "sd_Disposition d \<noteq> DispositionExecute"
  | (nonrun) w e status reason where
      "execute_scenario env runID plan d st = record_nonrun env d status reason w (st\<lparr>ru_error := e\<rparr>)"
      "status \<noteq> ExecutionCompleted"
  | (run) runner w c attempts l w' w'' e where "failedDependency d (ru_states st) = []" "sd_Disposition d = DispositionExecute"
      "runScenario env runID plan d runner (ru_ledger st) w = ((c, attempts), l, w')"
      "execute_scenario env runID plan d st = (record_case c attempts w'' (st\<lparr>ru_ledger := l\<rparr>))\<lparr>ru_error := e\<rparr>"
proof -
  have self: "st = st\<lparr>ru_error := ru_error st\<rparr>" by simp
  obtain c1 w1 where ctx: "en_CtxErr env (ru_world st) = (c1, w1)" by fastforce
  show ?thesis
  proof (cases c1)
    case (Some e)
    show ?thesis
    proof (cases "sd_Disposition d = DispositionExecute")
      case True
      with ctx Some show ?thesis by (intro nonrun [of ExecutionCancelled "contextReason e" w1 "Some e"]) (simp_all add: execute_scenario_def)
    next
      case False
      with ctx Some show ?thesis by (intro planned [of w1 "Some e"]) (simp_all add: execute_scenario_def)
    qed
  next
    case None
    obtain rr w2 where rr: "en_Resolve env (sd_Driver d) w1 = (rr, w2)" by fastforce
    consider (skip) "sd_Disposition d \<noteq> DispositionExecute"
      | (dep) "sd_Disposition d = DispositionExecute" "failedDependency d (ru_states st) \<noteq> []"
      | (unresolved) e where "sd_Disposition d = DispositionExecute" "failedDependency d (ru_states st) = []" "rr = Inl e"
      | (resolved) runner where "sd_Disposition d = DispositionExecute" "failedDependency d (ru_states st) = []" "rr = Inr runner"
      by (cases rr) blast+
    then show ?thesis
    proof cases
      case skip
      with ctx None show ?thesis by (intro planned [of w1 "ru_error st"]) (simp_all add: execute_scenario_def)
    next
      case dep
      with ctx None show ?thesis
        by (intro nonrun [of ExecutionSkipped ReasonHarnessError w1 "ru_error st"]) (simp_all add: execute_scenario_def)
    next
      case unresolved
      with ctx None rr show ?thesis
        by (intro nonrun [of ExecutionErrored ReasonDriverError w2 "ru_error st"]) (simp_all add: execute_scenario_def)
    next
      case resolved
      obtain c attempts l w3 where rs: "runScenario env runID plan d runner (ru_ledger st) w2 = ((c, attempts), l, w3)"
        by (metis surj_pair)
      obtain c2 w4 where ctx2: "en_CtxErr env w3 = (c2, w4)" by fastforce
      have eq: "execute_scenario env runID plan d st =
          (let st1 = record_case c attempts w3 (st\<lparr>ru_ledger := l\<rparr>)
           in if cr_ExecutionStatus c = ExecutionCancelled then
                (case c2 of Some e \<Rightarrow> st1\<lparr>ru_error := Some e, ru_world := w4\<rparr> | None \<Rightarrow> st1\<lparr>ru_world := w4\<rparr>)
              else st1)"
        by (simp add: execute_scenario_def ctx None resolved rr rs ctx2 cong: if_cong option.case_cong)
      show ?thesis
        by (rule run [OF resolved(2,1) rs, of
              "if cr_ExecutionStatus c = ExecutionCancelled \<and> c2 \<noteq> None then c2 else ru_error st"
              "if cr_ExecutionStatus c = ExecutionCancelled then w4 else w3"])
           (simp add: eq Let_def record_case_def split: option.splits)
    qed
  qed
qed

lemma execute_scenario_settles:
  assumes "honest env" "ledger_inv (ru_ledger st)"
  shows "settled (ru_ledger st) (ru_ledger (execute_scenario env runID plan d st))"
proof (cases rule: execute_scenario_cases [of env runID plan d st, case_names planned nonrun run])
  case (run runner w c attempts l w' w'' e)
  with runScenario_settles [OF assms, of runID plan d runner w] show ?thesis by simp
qed (use assms(2) in \<open>simp_all add: settled_def\<close>)

lemma execute_scenarios_settle:
  "honest env \<Longrightarrow> ledger_inv (ru_ledger st) \<Longrightarrow> settled (ru_ledger st) (ru_ledger (fold (execute_scenario env runID plan) ds st))"
proof (induction ds arbitrary: st)
  case (Cons d ds)
  have s: "settled (ru_ledger st) (ru_ledger (execute_scenario env runID plan d st))"
    by (rule execute_scenario_settles [OF Cons.prems])
  then have "ledger_inv (ru_ledger (execute_scenario env runID plan d st))" by (simp add: settled_def)
  from settled_trans [OF s Cons.IH [OF Cons.prems(1) this]] show ?case by simp
qed (simp add: settled_def)

lemma finalize_settles: "ledger_inv l \<Longrightarrow> settled l (fst (snd (finalize_loop env ps residual l w)))"
proof (induction ps arbitrary: residual l w)
  case (Cons p ps)
  have cleanup: "settled l (fst (ConsumeCleanup l u))" for u
    using ConsumeCleanup_inv [OF Cons.prems, of u] by (auto simp: settled_def ConsumeCleanup_def Let_def ledger_policy_kept split: option.splits)
  have same: "settled l (fst (snd (finalize_loop env ps r l v)))" for r v by (rule Cons.IH [OF Cons.prems])
  have after: "settled l (fst (snd (finalize_loop env ps r (fst (ConsumeCleanup l u)) v)))" for r u v
    using cleanup [of u] Cons.IH [of "fst (ConsumeCleanup l u)" r v] by (auto simp: settled_def)
  have "settled l (fst (snd (finalize_loop env ps r l1 v)))" if "ConsumeCleanup l u = (l1, e)" for r u v l1 e
    using after [of r u v] that by simp
  with same show ?case by (auto split: option.splits prod.splits sum.splits)
qed (simp add: settled_def)

lemma Execute_Inr_iff:
  "(\<exists>r e l. Execute json_valid env plan expected w = Inr (r, e, l)) \<longleftrightarrow>
     resolved_Validate json_valid plan = None \<and> expected = em_ContentDigest (rp_meta plan) \<and> fst (snd (en_NewID env w)) = None"
proof (cases "resolved_Validate json_valid plan = None")
  case True
  then have "policy_Validate (rp_Budget plan) = None" by (simp add: resolved_Validate_def)
  with True show ?thesis by (auto simp: Execute_def ledger_New_def Let_def split: prod.splits option.splits)
qed (simp add: Execute_def del: not_None_eq)

lemma Execute_Inr:
  assumes "Execute json_valid env plan expected w = Inr (r, e, l)"
  obtains l0 runID w1 t0 residual l1 w2 w3 t1 st where "ledger_New (rp_Budget plan) t0 = Inr l0"
    "st = fold (execute_scenario env runID plan) (rp_Scenarios plan)
       \<lparr>ru_attempts = [], ru_cases = [], ru_states = [], ru_error = None, ru_ledger = l0, ru_world = w1\<rparr>"
    "finalize env (rp_Finalizers plan) (ru_ledger st) w2 = (residual, l1, w3)"
    "l = fst (ledger_Snapshot l1 t1)" "xr_Cases r = ru_cases st" "xr_Attempts r = ru_attempts st" "e = ru_error st"
    "xr_ResidualLeases r = residual"
    "xr_Budget r = (snd (ledger_Snapshot l1 t1))\<lparr>sn_Unknown := aggregateUnknownUsage (ru_attempts st)\<rparr>"
proof -
  obtain runID ie w1 t0 w2 started w3 where i: "en_NewID env w = (runID, ie, w1)" "en_Now env w1 = (t0, w2)"
    "en_Now env w2 = (started, w3)" by (metis surj_pair)
  from assms i obtain l0 where l0: "ie = None" "ledger_New (rp_Budget plan) t0 = Inr l0"
    by (auto simp: Execute_def bind_res_Inr split: option.splits if_splits)
  define st where "st = fold (execute_scenario env runID plan) (rp_Scenarios plan)
       \<lparr>ru_attempts = [], ru_cases = [], ru_states = [], ru_error = None, ru_ledger = l0, ru_world = w3\<rparr>"
  obtain residual l1 w4 t1 w5 finished w6 where f: "finalize env (rp_Finalizers plan) (ru_ledger st) (ru_world st) = (residual, l1, w4)"
    "en_Now env w4 = (t1, w5)" "en_Now env w5 = (finished, w6)" by (metis surj_pair)
  obtain l2 sn where sn: "ledger_Snapshot l1 t1 = (l2, sn)" by fastforce
  from assms have r: "r = \<lparr>xr_RunID = runID, xr_ResolvedPlanRef = em_ObjectRef (rp_meta plan), xr_Attempts = ru_attempts st,
      xr_Cases = ru_cases st, xr_Budget = sn\<lparr>sn_Unknown := aggregateUnknownUsage (ru_attempts st)\<rparr>,
      xr_ResidualLeases = residual, xr_StartedAt = started, xr_FinishedAt = finished\<rparr>" "e = ru_error st" "l = l2"
    by (simp_all add: Execute_def i l0 f sn Let_def st_def [symmetric])
  show ?thesis by (rule that [OF l0(2) st_def f(1), of t1]) (simp_all add: r sn)
qed


section \<open>One case per scenario\<close>

lemma runScenario_case:
  assumes "runScenario env runID plan d runner l w = ((c, attempts), l', w')" "0 \<le> sint (rt_Retries (rp_Runtime plan))"
  shows "case_for d c attempts \<and> int (length attempts) \<le> sint (rt_Retries (rp_Runtime plan)) + 1"
proof -
  let ?n = "rt_Retries (rp_Runtime plan)"
  obtain i ie w1 where i: "en_NewID env w = (i, ie, w1)" by (metis surj_pair)
  show ?thesis
  proof (cases ie)
    case (Some x)
    with assms i show ?thesis
      by (auto simp: runScenario_def nonRunAttempt_def case_for_def split: prod.splits)
  next
    case None
    let ?sr = "\<lparr>sr_runID = runID, sr_planDigest = em_ContentDigest (rp_meta plan), sr_decision = d,
        sr_runner = runner, sr_invocationID = i, sr_maxAttempts = ?n + 1\<rparr>"
    from assms(1) i None have "attempt_loop env ?sr 1 \<lparr>pg_attempts = [], pg_ids = [], pg_evidence = []\<rparr> l w1 = ((c, attempts), l', w')"
      by (simp add: runScenario_def)
    from attempt_loop_case [OF _ this] have "case_for d c attempts" "int (length attempts) \<le> max 0 (sint (?n + 1))"
      by (auto simp: progress_ok_def)
    moreover have "sint (?n + 1) \<le> sint ?n + 1" using assms(2) by (simp add: sint_word_ariths(1) signed_take_bit_int_less_eq_self_iff)
    ultimately show ?thesis using assms(2) by auto
  qed
qed

text \<open>A dependency is met when it is one of the first \<open>k\<close> scenarios and was completed with a verdict pass or warn.\<close>

definition dependency_met :: "scenario_decision list \<Rightarrow> case_result list \<Rightarrow> nat \<Rightarrow> string \<Rightarrow> bool" where
  "dependency_met ds cs k s \<longleftrightarrow> (\<exists>j<k. sd_ScenarioID (ds ! j) = s \<and> cr_ExecutionStatus (cs ! j) = ExecutionCompleted \<and>
     cr_Verdict (cs ! j) \<in> {Some VerdictPass, Some VerdictWarn})"

text \<open>The case at position \<open>k\<close>, given the scenarios and the cases so far.\<close>

definition case_at :: "int \<Rightarrow> scenario_decision list \<Rightarrow> case_result list \<Rightarrow> nat \<Rightarrow> bool" where
  "case_at retries ds cs k \<longleftrightarrow> cr_ScenarioID (cs ! k) = sd_ScenarioID (ds ! k) \<and> cr_PlanDisposition (cs ! k) = sd_Disposition (ds ! k) \<and>
     int (length (cr_AttemptIDs (cs ! k))) \<le> retries + 1 \<and>
     (cr_ExecutionStatus (cs ! k) = ExecutionCompleted \<longleftrightarrow> cr_Verdict (cs ! k) \<noteq> None) \<and>
     (cr_ExecutionStatus (cs ! k) = ExecutionCompleted \<longrightarrow>
        cr_EvidenceRefs (cs ! k) \<noteq> [] \<and> sd_Disposition (ds ! k) = DispositionExecute \<and>
        list_all (dependency_met ds cs k) (sd_DependsOn (ds ! k)))"

definition run_ok :: "int \<Rightarrow> scenario_decision list \<Rightarrow> 'w run_state \<Rightarrow> bool" where
  "run_ok retries ds st \<longleftrightarrow> length (ru_cases st) = length ds \<and> (\<forall>k<length ds. case_at retries ds (ru_cases st) k) \<and>
     concat (map cr_AttemptIDs (ru_cases st)) = map at_AttemptID (ru_attempts st) \<and>
     (\<forall>c\<in>set (ru_cases st). cr_Verdict c \<in> {None, Some VerdictPass, Some VerdictFail, Some VerdictWarn, Some VerdictInconclusive}) \<and>
     (\<forall>s c. aget (ru_states st) s = Some c \<longrightarrow> (\<exists>j<length ds. sd_ScenarioID (ds ! j) = s \<and> ru_cases st ! j = c))"

lemma dependency_met_append:
  "k \<le> length ds \<Longrightarrow> length cs = length ds \<Longrightarrow> dependency_met (ds @ ds') (cs @ cs') k = dependency_met ds cs k"
  by (rule ext) (fastforce simp: dependency_met_def nth_append)

lemma case_at_append: "k < length ds \<Longrightarrow> length cs = length ds \<Longrightarrow> case_at n (ds @ ds') (cs @ cs') k = case_at n ds cs k"
  by (simp add: case_at_def nth_append dependency_met_append)

lemma record_case_ok:
  assumes ok: "run_ok n ds st" and c: "case_for d c attempts" "int (length attempts) \<le> n + 1"
    and dep: "cr_ExecutionStatus c = ExecutionCompleted \<Longrightarrow> sd_Disposition d = DispositionExecute \<and>
      list_all (dependency_met ds (ru_cases st) (length ds)) (sd_DependsOn d)"
  shows "run_ok n (ds @ [d]) (record_case c attempts w st)"
proof -
  have len: "length (ru_cases st) = length ds" using ok by (simp add: run_ok_def)
  have last: "case_at n (ds @ [d]) (ru_cases st @ [c]) (length ds)"
    using c dep len by (auto simp: case_at_def case_for_def nth_append dependency_met_append)
  have "case_at n (ds @ [d]) (ru_cases st @ [c]) k" if "k < Suc (length ds)" for k
    using that last ok case_at_append [OF _ len] by (cases "k = length ds") (auto simp: run_ok_def)
  moreover have "\<exists>j<Suc (length ds). sd_ScenarioID ((ds @ [d]) ! j) = s \<and> (ru_cases st @ [c]) ! j = c'"
    if a: "aget (aput (cr_ScenarioID c) c (ru_states st)) s = Some c'" for s c'
  proof (cases "s = cr_ScenarioID c")
    case True
    with a c(1) len show ?thesis by (intro exI [of _ "length ds"]) (simp add: case_for_def nth_append)
  next
    case False
    then have "aget (ru_states st) s = Some c'" using a by simp
    with ok obtain j where "j < length ds" "sd_ScenarioID (ds ! j) = s" "ru_cases st ! j = c'" unfolding run_ok_def by blast
    then show ?thesis using len by (intro exI [of _ j]) (simp add: nth_append)
  qed
  moreover have "cr_AttemptIDs c = map at_AttemptID attempts"
    "cr_Verdict c \<in> {None, Some VerdictPass, Some VerdictFail, Some VerdictWarn, Some VerdictInconclusive}"
    using c(1) unfolding case_for_def by blast+
  ultimately show ?thesis using ok unfolding run_ok_def record_case_def by simp
qed

lemma run_ok_other [simp]: "run_ok n ds (st\<lparr>ru_error := e\<rparr>) = run_ok n ds st" "run_ok n ds (st\<lparr>ru_ledger := l\<rparr>) = run_ok n ds st"
  by (simp_all add: run_ok_def)

text \<open>What the dependency check lets through.\<close>

lemma failedDependency_empty:
  assumes "failedDependency d (ru_states st) = []" "[] \<notin> set (sd_DependsOn d)" "run_ok n ds st" "s \<in> set (sd_DependsOn d)"
  shows "dependency_met ds (ru_cases st) (length ds) s"
proof -
  from assms(1,2,4) obtain c where c: "aget (ru_states st) s = Some c" "cr_ExecutionStatus c = ExecutionCompleted"
    "cr_Verdict c \<notin> {None, Some VerdictFail, Some VerdictInconclusive}"
    by (fastforce simp: failedDependency_def find_None_iff find_Some_iff in_set_conv_nth split: option.splits)
  from c(1) assms(3) obtain j where j: "j < length ds" "sd_ScenarioID (ds ! j) = s" "ru_cases st ! j = c"
    unfolding run_ok_def by blast
  moreover have "c \<in> set (ru_cases st)" using j assms(3) by (auto simp: run_ok_def)
  then have "cr_Verdict c \<in> {None, Some VerdictPass, Some VerdictFail, Some VerdictWarn, Some VerdictInconclusive}"
    using assms(3) unfolding run_ok_def by blast
  ultimately show ?thesis using c unfolding dependency_met_def by blast
qed

lemma execute_scenario_ok:
  assumes ok: "run_ok (sint (rt_Retries (rp_Runtime plan))) ds st" and n: "0 \<le> sint (rt_Retries (rp_Runtime plan))"
    and dep: "[] \<notin> set (sd_DependsOn d)"
  shows "run_ok (sint (rt_Retries (rp_Runtime plan))) (ds @ [d]) (execute_scenario env runID plan d st)"
proof (cases rule: execute_scenario_cases [of env runID plan d st, case_names planned nonrun run])
  case (planned w e)
  have "case_for d (plannedOnlyCase d) []" by (simp add: case_for_def plannedOnlyCase_def)
  then show ?thesis unfolding planned(1) using ok n by (intro record_case_ok) (simp_all add: plannedOnlyCase_def)
next
  case (nonrun w e status reason)
  obtain c a w' where nr: "nonRunAttempt env d status reason w = ((c, a), w')" by (metis surj_pair)
  then have "case_for d c [a]" "cr_ExecutionStatus c = status"
    using nonrun(2) by (auto simp: nonRunAttempt_def case_for_def split: prod.splits)
  then show ?thesis unfolding nonrun(1) record_nonrun_def nr using ok n nonrun(2)
    by (simp, intro record_case_ok) simp_all
next
  case (run runner w c attempts l w' w'' e)
  from failedDependency_empty [OF run(1) dep ok] run(2) runScenario_case [OF run(3) n] ok
  show ?thesis unfolding run(4) run_ok_other by (intro record_case_ok) (simp_all add: list_all_iff)
qed

lemma execute_scenarios_ok:
  assumes "0 \<le> sint (rt_Retries (rp_Runtime plan))" "\<forall>d\<in>set ds. [] \<notin> set (sd_DependsOn d)"
    "run_ok (sint (rt_Retries (rp_Runtime plan))) [] st"
  shows "run_ok (sint (rt_Retries (rp_Runtime plan))) ds (fold (execute_scenario env runID plan) ds st)"
  using assms by (induction ds rule: rev_induct) (auto intro: execute_scenario_ok)

lemma resolved_no_empty_dependency:
  assumes "resolved_Validate json_valid plan = None" "d \<in> set (rp_Scenarios plan)"
  shows "[] \<notin> set (sd_DependsOn d)"
proof
  assume "[] \<in> set (sd_DependsOn d)"
  moreover from assms(2) obtain k where "k < length (rp_Scenarios plan)" "rp_Scenarios plan ! k = d" by (auto simp: in_set_conv_nth)
  moreover from assms(1) have dag: "\<forall>d\<in>set (rp_Scenarios plan). namePattern (sd_ScenarioID d)" "ordered_dag (rp_Scenarios plan)"
    by (simp_all add: resolved_Validate_def validateScenarioDAG_None)
  ultimately obtain j where "j < k" "sd_ScenarioID (rp_Scenarios plan ! j) = []" unfolding ordered_dag_def by blast
  with dag(1) \<open>k < length (rp_Scenarios plan)\<close> namePattern_nonempty show False by (metis less_trans nth_mem)
qed

text \<open>
  C6. The cases of a run answer the plan: there is one per scenario, in the plan's order, with the
  scenario's identifier and disposition; its attempts are the run's attempts, in order, and there are
  at most as many as the plan's retries allow.  A case has a verdict exactly when it was completed, and
  then it has evidence, its scenario was to be executed, and every dependency was completed before with
  a verdict pass or warn.
\<close>

theorem execute_cases:
  assumes "Execute json_valid env plan expected w = Inr (r, e, l)"
  shows "length (xr_Cases r) = length (rp_Scenarios plan) \<and>
    concat (map cr_AttemptIDs (xr_Cases r)) = map at_AttemptID (xr_Attempts r) \<and>
    (\<forall>k<length (rp_Scenarios plan). case_at (sint (rt_Retries (rp_Runtime plan))) (rp_Scenarios plan) (xr_Cases r) k)"
proof -
  have valid: "resolved_Validate json_valid plan = None"
    using Execute_Inr_iff [of json_valid env plan expected w] assms by blast
  then have n: "0 \<le> sint (rt_Retries (rp_Runtime plan))" by (simp add: resolved_Validate_def)
  from Execute_Inr [OF assms] obtain l0 runID w1 st where run:
    "st = fold (execute_scenario env runID plan) (rp_Scenarios plan)
       \<lparr>ru_attempts = [], ru_cases = [], ru_states = [], ru_error = None, ru_ledger = l0, ru_world = w1\<rparr>"
    "xr_Cases r = ru_cases st" "xr_Attempts r = ru_attempts st"
    by metis
  have "run_ok (sint (rt_Retries (rp_Runtime plan))) (rp_Scenarios plan) st"
    unfolding run(1) using resolved_no_empty_dependency [OF valid]
    by (intro execute_scenarios_ok [OF n]) (auto simp: run_ok_def)
  then show ?thesis by (simp add: run_ok_def run(2,3))
qed

section \<open>A concrete run\<close>

text \<open>A run of a resolved plan whose runners all pass after one request.\<close>

definition sample_outcome :: "usage \<Rightarrow> run_outcome" where
  "sample_outcome u = \<lparr>oc_Verdict = VerdictPass, oc_ReasonCode = OtherReason [],
     oc_EvidenceRefs = [\<lparr>ref_Kind = ''Driver'', ref_InstanceID = uuid_a, ref_ContentDigest = zero_digest\<rparr>],
     oc_AssertionResults = [], oc_Findings = [], oc_Usage = u, oc_UnknownUsage = []\<rparr>"

definition steady_env :: "(nat, unit) exec_env" where
  "steady_env = \<lparr>en_NewID = (\<lambda>w. (uuid_a, None, Suc w)), en_Now = (\<lambda>w. (0, w)), en_CtxErr = (\<lambda>w. (None, w)),
     en_Resolve = (\<lambda>_ w. (Inr (), w)), en_Estimate = (\<lambda>_ _ w. (Inr (Usage 1 0 0 0 0 0 0), w)),
     en_Run = (\<lambda>_ _ w. (Inr (sample_outcome (Usage 1 0 0 0 0 0 0)), w)), en_ResolveFinalizer = None,
     en_Finalize = (\<lambda>_ _ w. (Inr 0, w))\<rparr>"

lemma steady_honest: "honest steady_env"
  by (simp add: honest_def steady_env_def sample_outcome_def usage_Validate_def)

lemma sample_plan_obtain:
  obtains plan where "resolved_Validate (\<lambda>_. True) plan = None"
    "map sd_Disposition (rp_Scenarios plan) = [DispositionExecute, DispositionExecute]"
proof -
  from sample_Resolve obtain plan where plan: "Resolve sample_env sample_intent
      (sample_resolution [sample_candidate ''s1'' [''tools''], sample_candidate ''extra'' []]) = Inr plan"
    "map sd_Disposition (rp_Scenarios plan) = [DispositionExecute, DispositionExecute]" by (elim exE conjE)
  from Resolve_Inr [OF plan(1)] have "resolved_Validate (pe_json_valid sample_env) plan = None" by metis
  then have "resolved_Validate (\<lambda>_. True) plan = None" by (simp add: sample_env_def)
  with plan(2) show ?thesis by (rule that [rotated])
qed


theorem execute_cases_witness:
  "\<exists>plan r e l. Execute (\<lambda>_. True) steady_env plan (em_ContentDigest (rp_meta plan)) 0 = Inr (r, e, l) \<and>
     length (xr_Cases r) = 2 \<and> (\<forall>k<2. cr_PlanDisposition (xr_Cases r ! k) = DispositionExecute)"
proof -
  obtain plan where plan: "resolved_Validate (\<lambda>_. True) plan = None"
    "map sd_Disposition (rp_Scenarios plan) = [DispositionExecute, DispositionExecute]" using sample_plan_obtain by metis
  then have len: "length (rp_Scenarios plan) = 2" by (metis length_map length_Cons list.size(3) numeral_2_eq_2)
  have d: "sd_Disposition (rp_Scenarios plan ! k) = DispositionExecute" if "k < 2" for k
    using nth_map [of k "rp_Scenarios plan" sd_Disposition] that len plan(2) by (cases k) (auto simp: less_Suc_eq)
  have "fst (snd (en_NewID steady_env 0)) = None" by (simp add: steady_env_def)
  then obtain r e l where ex: "Execute (\<lambda>_. True) steady_env plan (em_ContentDigest (rp_meta plan)) 0 = Inr (r, e, l)"
    using Execute_Inr_iff [of "\<lambda>_. True" steady_env plan "em_ContentDigest (rp_meta plan)" 0] plan(1) by blast
  from execute_cases [OF ex] len d have "length (xr_Cases r) = 2 \<and> (\<forall>k<2. cr_PlanDisposition (xr_Cases r ! k) = DispositionExecute)"
    by (simp add: case_at_def)
  with ex show ?thesis by blast
qed

section \<open>What the executor loses\<close>

text \<open>
  The errors of \<open>Commit\<close> are not acted on: when a completed outcome reports a negative usage, the
  reservation stays open for the rest of the run, and the case is reported as budget exhausted although
  nothing was consumed.
\<close>

theorem negative_usage_leaks:
  assumes "Reserve l est now = (l1, Inr h)" "validateOutcome o1 = None"
    "usage_Validate (accountedUsage (oc_Usage o1) est (oc_UnknownUsage o1)) \<noteq> None"
  shows "\<exists>c attempts w'. completed_run env sr pg i est h o1 l1 w = (AttemptDone c attempts, l1, w') \<and>
    cr_ReasonCode c = ReasonBudgetExhausted \<and> lg_reserved l1 = lg_reserved l + est \<and> lg_exhausted l1 = lg_exhausted l"
proof -
  obtain t w1 where n: "en_Now env w = (t, w1)" by fastforce
  have l1: "lg_reserved l1 = lg_reserved l + est" "lg_exhausted l1 = lg_exhausted l"
    using Reserve_Inr(7) [OF assms(1)] by simp_all
  obtain e where "Commit l1 h (accountedUsage (oc_Usage o1) est (oc_UnknownUsage o1)) t = (l1, Some e)"
    using assms(3) by (auto simp: Commit_def)
  then show ?thesis using l1 assms(2) by (simp add: completed_run_def n caseForAttempts_def)
qed

text \<open>
  Evidence of transient failures reaches the case only through an attempt that runs: when the estimate
  of the retry fails, or its reservation is refused, the case has no evidence, whatever the earlier
  attempts had collected.
\<close>

theorem retry_drops_evidence:
  assumes "en_NewID env w = (i, None, w1)" "en_Estimate env (sr_runner sr) (sr_decision sr) w1 = (re, w2)" "en_Now env w2 = (now, w3)"
    "\<And>est. re = Inr est \<Longrightarrow> \<exists>l1 e. Reserve l est now = (l1, Inl e)"
  shows "\<exists>c attempts l' w'. run_attempt env sr n pg l w = (AttemptDone c attempts, l', w') \<and> cr_EvidenceRefs c = []"
  using assms by (cases re) (fastforce simp: run_attempt_def Let_def)+

end
