(* ===== verification/Oracle.thy ===== *)
theory Oracle
  imports ResponseMachine SchemaResult
begin

text \<open>
  Package \<open>oracle\<close> (\<open>internal/oracle\<close>): the schema, relational and state-machine oracles.  An outcome
  carries the verdict, reason, code and evidence of \<open>Outcome\<close>; \<open>Expected\<close> and \<open>Observed\<close> are diagnostic
  texts and are left out.  A Go map is an association list in the order in which that run enumerates it:
  the code of a violation can depend on the order, the verdict cannot.

  Canonicalization (\<open>schema.CanonicalizeJSON\<close>, over the JCS package) and JSON decoding are parameters.
\<close>

section \<open>Inputs and outcomes\<close>

record 'a oracle_input =
  oi_Value :: 'a
  oi_EvidenceRefs :: "object_ref list"
  oi_Complete :: bool
  oi_HarnessError :: err

record oracle_outcome =
  oo_Verdict :: verdict
  oo_ReasonCode :: reason_code
  oo_Code :: string
  oo_EvidenceRefs :: "object_ref list"
  oo_TargetFailure :: bool

definition inconclusive :: "reason_code \<Rightarrow> string \<Rightarrow> object_ref list \<Rightarrow> oracle_outcome" where
  "inconclusive reason c refs = \<lparr>oo_Verdict = VerdictInconclusive, oo_ReasonCode = reason, oo_Code = c,
     oo_EvidenceRefs = refs, oo_TargetFailure = False\<rparr>"

definition preflight :: "'a oracle_input \<Rightarrow> oracle_outcome option" where
  "preflight input =
     (let refs = oi_EvidenceRefs input in
      if oi_HarnessError input \<noteq> None then Some (inconclusive ReasonHarnessError ''harness_precondition_failed'' refs)
      else if refs = [] then Some (inconclusive ReasonNotObserved ''missing_evidence'' [])
      else if list_ex (\<lambda>r. ref_Validate r \<noteq> None) refs
      then Some (inconclusive ReasonHarnessError ''invalid_evidence_reference'' refs)
      else None)"

definition oracle_pass :: "object_ref list \<Rightarrow> oracle_outcome" where
  "oracle_pass refs = \<lparr>oo_Verdict = VerdictPass, oo_ReasonCode = no_reason, oo_Code = ''assertion_satisfied'',
     oo_EvidenceRefs = refs, oo_TargetFailure = False\<rparr>"

definition targetFail :: "object_ref list \<Rightarrow> string \<Rightarrow> oracle_outcome" where
  "targetFail refs c = \<lparr>oo_Verdict = VerdictFail, oo_ReasonCode = no_reason, oo_Code = c, oo_EvidenceRefs = refs,
     oo_TargetFailure = True\<rparr>"

definition insufficient :: "object_ref list \<Rightarrow> string \<Rightarrow> oracle_outcome" where
  "insufficient refs c = inconclusive ReasonInsufficientSamples c refs"

definition oracle_harness :: "object_ref list \<Rightarrow> string \<Rightarrow> oracle_outcome" where
  "oracle_harness refs c = inconclusive ReasonHarnessError c refs"

section \<open>The schema oracle\<close>

datatype json_type = TypeObject | TypeArray | TypeString | TypeNumber | TypeBoolean | TypeNull | OtherType string

datatype json_value = JObject "(string \<times> json_value) list" | JArray "json_value list" | JString string
  | JNumber string | JBool bool | JNull

datatype oracle_schema = Schema (os_Types: "json_type list") (os_Properties: "(string \<times> oracle_schema) list")
  (os_Required: "string list") (os_Items: "oracle_schema option") (os_AllowUnknown: bool)

definition valueType :: "json_value \<Rightarrow> json_type" where
  "valueType v = (case v of JObject _ \<Rightarrow> TypeObject | JArray _ \<Rightarrow> TypeArray | JString _ \<Rightarrow> TypeString
     | JNumber _ \<Rightarrow> TypeNumber | JBool _ \<Rightarrow> TypeBoolean | JNull \<Rightarrow> TypeNull)"

fun validateSchemaDefinition :: "oracle_schema \<Rightarrow> nat \<Rightarrow> err" where
  "validateSchemaDefinition (Schema types properties required items unknown) depth =
     (if depth > 64 then Some (Err ''oracle schema nesting exceeds 64'')
      else first_err
        ([fail_if (types = []) (Err ''no allowed types'')]
         @ map (\<lambda>t. fail_if (t \<notin> set [TypeObject, TypeArray, TypeString, TypeNumber, TypeBoolean, TypeNull])
             (Err ''unsupported type'')) types
         @ map (\<lambda>(name, p). if name = [] then Some (Err ''empty property name'') else validateSchemaDefinition p (Suc depth))
             properties
         @ map (\<lambda>r. fail_if (\<not> ahas properties r) (Err ''requires undefined property'')) required
         @ [case items of None \<Rightarrow> None | Some i \<Rightarrow> validateSchemaDefinition i (Suc depth)]))"

fun validateValue :: "json_value \<Rightarrow> oracle_schema \<Rightarrow> nat \<Rightarrow> string option" where
  "validateValue v expected depth =
     (if depth > 64 then Some ''value_too_deep''
      else if valueType v \<notin> set (os_Types expected) then Some ''json_type_mismatch''
      else case v of
        JObject m \<Rightarrow> first_err
          (map (\<lambda>r. fail_if (\<not> ahas m r) ''missing_required_field'') (os_Required expected)
           @ map (\<lambda>(name, child). case aget (os_Properties expected) name of
                 None \<Rightarrow> fail_if (\<not> os_AllowUnknown expected) ''unknown_field''
               | Some p \<Rightarrow> validateValue child p (Suc depth)) m)
      | JArray xs \<Rightarrow>
          (case os_Items expected of None \<Rightarrow> None | Some i \<Rightarrow> first_err (map (\<lambda>c. validateValue c i (Suc depth)) xs))
      | _ \<Rightarrow> None)"

declare validateValue.simps [simp del]

definition EvaluateSchema ::
  "(string \<Rightarrow> string res) \<Rightarrow> (string \<Rightarrow> json_value res) \<Rightarrow> string oracle_input \<Rightarrow> oracle_schema \<Rightarrow> oracle_outcome" where
  "EvaluateSchema canonicalize decode input expected =
     (case preflight input of
        Some result \<Rightarrow> result
      | None \<Rightarrow>
          (let refs = oi_EvidenceRefs input in
           if validateSchemaDefinition expected 0 \<noteq> None then oracle_harness refs ''invalid_oracle_schema''
           else if \<not> oi_Complete input then insufficient refs ''incomplete_schema_evidence''
           else (case canonicalize (oi_Value input) of
                   Inl e \<Rightarrow> targetFail refs ''invalid_json''
                 | Inr canonical \<Rightarrow>
                     (case decode canonical of
                        Inl e \<Rightarrow> targetFail refs ''invalid_json''
                      | Inr value \<Rightarrow>
                          (case validateValue value expected 0 of
                             Some c \<Rightarrow> targetFail refs c
                           | None \<Rightarrow> oracle_pass refs)))))"

section \<open>The relational oracle\<close>

record relation_state =
  rs_items :: "(string, ir_item) gomap"
  rs_calls :: "(string, string) gomap"
  rs_results :: "(string, unit) gomap"
  rs_interactionID :: string

text \<open>The checks of an item against the items before it, and the state after an item that passes them.\<close>

definition relation_violation :: "relation_state \<Rightarrow> ir_item \<Rightarrow> string option" where
  "relation_violation st i = first_err
     [fail_if (rs_interactionID st \<noteq> [] \<and> ir_InteractionID i \<noteq> rs_interactionID st) ''cross_interaction_reference'',
      fail_if (ahas (rs_items st) (ir_ItemID i)) ''duplicate_item_id'',
      fail_if (ir_ParentItemID i \<noteq> [] \<and> \<not> ahas (rs_items st) (ir_ParentItemID i)) ''unknown_parent_item'',
      (case ir_IRType i of
         IRToolCall \<Rightarrow> first_err
           [fail_if (ir_CallID i = []) ''missing_call_id'',
            fail_if (ahas (rs_calls st) (ir_CallID i)) ''duplicate_call_id'']
       | IRToolResult \<Rightarrow> first_err
           [fail_if (ir_CallID i = []) ''missing_tool_result_call_id'',
            fail_if (\<not> ahas (rs_calls st) (ir_CallID i)) ''tool_result_unknown_call'',
            fail_if (ahas (rs_results st) (ir_CallID i)) ''duplicate_tool_result'']
       | _ \<Rightarrow> None)]"

definition relation_next :: "relation_state \<Rightarrow> ir_item \<Rightarrow> relation_state" where
  "relation_next st i =
     \<lparr>rs_items = aput (ir_ItemID i) i (rs_items st),
      rs_calls = (if ir_IRType i = IRToolCall then aput (ir_CallID i) (ir_ItemID i) (rs_calls st) else rs_calls st),
      rs_results = (if ir_IRType i = IRToolResult then aput (ir_CallID i) () (rs_results st) else rs_results st),
      rs_interactionID = (if rs_interactionID st = [] then ir_InteractionID i else rs_interactionID st)\<rparr>"

text \<open>The body of the loop: an outcome that ends it, or the state for the next item.\<close>

definition relation_item ::
  "(string \<Rightarrow> bool) \<Rightarrow> object_ref list \<Rightarrow> relation_state \<Rightarrow> ir_item \<Rightarrow> oracle_outcome + relation_state" where
  "relation_item json_valid refs st i =
     (if ir_Validate json_valid i \<noteq> None then Inl (oracle_harness refs ''invalid_normalized_ir'')
      else if ir_NormalizedValue i \<noteq> [] \<and> \<not> json_valid (ir_NormalizedValue i)
        then Inl (oracle_harness refs ''invalid_normalized_ir'')
      else if ir_LossMarkers i \<noteq> [] \<or> ir_Unavailable i \<noteq> [] then Inl (insufficient refs ''normalization_loss'')
      else case relation_violation st i of
        Some c \<Rightarrow> Inl (targetFail refs c)
      | None \<Rightarrow> Inr (relation_next st i))"

fun relation_loop ::
  "(string \<Rightarrow> bool) \<Rightarrow> object_ref list \<Rightarrow> relation_state \<Rightarrow> ir_item list \<Rightarrow> oracle_outcome" where
  "relation_loop json_valid refs st [] = oracle_pass refs"
| "relation_loop json_valid refs st (i # items) =
     (case relation_item json_valid refs st i of Inl result \<Rightarrow> result | Inr st1 \<Rightarrow> relation_loop json_valid refs st1 items)"

definition EvaluateRelations :: "(string \<Rightarrow> bool) \<Rightarrow> ir_item list oracle_input \<Rightarrow> oracle_outcome" where
  "EvaluateRelations json_valid input =
     (case preflight input of
        Some result \<Rightarrow> result
      | None \<Rightarrow>
          if \<not> oi_Complete input then insufficient (oi_EvidenceRefs input) ''incomplete_relational_evidence''
          else if oi_Value input = [] then insufficient (oi_EvidenceRefs input) ''empty_interaction''
          else relation_loop json_valid (oi_EvidenceRefs input)
                 \<lparr>rs_items = [], rs_calls = [], rs_results = [], rs_interactionID = []\<rparr> (oi_Value input))"

section \<open>The state-machine oracle\<close>

text \<open>
  \<open>Apply\<close> and \<open>Finish\<close> return no error but violations, so the branch for other errors is never taken.
  \<open>None\<close> is a crash of \<open>Apply\<close>.
\<close>

fun machine_loop :: "object_ref list \<Rightarrow> response_machine \<Rightarrow> event list \<Rightarrow> (oracle_outcome + response_machine) option" where
  "machine_loop refs m [] = Some (Inr m)"
| "machine_loop refs m (e # es) =
     (case response_Apply m e of
        (m', None) \<Rightarrow> machine_loop refs m' es
      | (m', Some (Violation c)) \<Rightarrow> Some (Inl (targetFail refs c))
      | (m', Some Panic) \<Rightarrow> None)"

definition EvaluateStateMachine :: "event list oracle_input \<Rightarrow> oracle_outcome option" where
  "EvaluateStateMachine input =
     (case preflight input of
        Some result \<Rightarrow> Some result
      | None \<Rightarrow>
          (let refs = oi_EvidenceRefs input in
           case machine_loop refs response_New (oi_Value input) of
             None \<Rightarrow> None
           | Some (Inl result) \<Rightarrow> Some result
           | Some (Inr m) \<Rightarrow>
               if \<not> oi_Complete input then Some (insufficient refs ''incomplete_stream_evidence'')
               else (case response_Finish m of
                       Some (Violation c) \<Rightarrow> Some (targetFail refs c)
                     | Some Panic \<Rightarrow> None
                     | None \<Rightarrow> Some (oracle_pass refs))))"

section \<open>What every oracle promises\<close>

definition evidence_ready :: "'a oracle_input \<Rightarrow> bool" where
  "evidence_ready input \<longleftrightarrow> oi_HarnessError input = None \<and> oi_EvidenceRefs input \<noteq> [] \<and>
     (\<forall>r\<in>set (oi_EvidenceRefs input). ref_Validate r = None)"

lemma outcome_verdicts [simp]:
  "oo_Verdict (oracle_pass refs) = VerdictPass" "oo_Verdict (targetFail refs c) = VerdictFail"
  "oo_Verdict (insufficient refs c) = VerdictInconclusive" "oo_Verdict (oracle_harness refs c) = VerdictInconclusive"
  "\<not> oo_TargetFailure (oracle_pass refs)" "oo_TargetFailure (targetFail refs c)"
  "\<not> oo_TargetFailure (insufficient refs c)" "\<not> oo_TargetFailure (oracle_harness refs c)"
  "oo_EvidenceRefs (oracle_pass refs) = refs" "oo_EvidenceRefs (targetFail refs c) = refs"
  by (simp_all add: oracle_pass_def targetFail_def insufficient_def oracle_harness_def inconclusive_def)

lemma preflight_None: "preflight input = None \<longleftrightarrow> evidence_ready input"
  by (auto simp: preflight_def evidence_ready_def list_ex_iff Let_def)

lemma preflight_Some: "preflight input = Some r \<Longrightarrow> \<not> evidence_ready input \<and> oo_Verdict r = VerdictInconclusive \<and> \<not> oo_TargetFailure r"
  using preflight_None [of input] by (auto simp: preflight_def Let_def inconclusive_def split: if_splits)

text \<open>
  The contract of an oracle: a verdict pass or fail rests on referenced evidence, a pass on complete
  evidence, and a failure of the target is exactly a verdict fail.
\<close>

locale conservative_oracle =
  fixes evaluate :: "'a oracle_input \<Rightarrow> oracle_outcome"
  assumes decided_ready: "oo_Verdict (evaluate input) \<noteq> VerdictInconclusive \<Longrightarrow> evidence_ready input"
    and decided_refs: "oo_Verdict (evaluate input) \<noteq> VerdictInconclusive \<Longrightarrow> oo_EvidenceRefs (evaluate input) = oi_EvidenceRefs input"
    and verdict_cases: "oo_Verdict (evaluate input) \<in> {VerdictPass, VerdictFail, VerdictInconclusive}"
    and pass_complete: "oo_Verdict (evaluate input) = VerdictPass \<Longrightarrow> oi_Complete input"
    and target_failure: "oo_TargetFailure (evaluate input) \<longleftrightarrow> oo_Verdict (evaluate input) = VerdictFail"
begin

lemma harness_never_fails: "oi_HarnessError input \<noteq> None \<Longrightarrow> oo_Verdict (evaluate input) = VerdictInconclusive"
  using decided_ready [of input] by (cases "oo_Verdict (evaluate input) = VerdictInconclusive") (auto simp: evidence_ready_def)

lemma target_failure_evidence: "oo_TargetFailure (evaluate input) \<Longrightarrow> oo_EvidenceRefs (evaluate input) \<noteq> []"
  using decided_ready [of input] decided_refs [of input] target_failure [of input] by (auto simp: evidence_ready_def)

end

lemma EvaluateSchema_cases:
  obtains (unready) "\<not> evidence_ready input" "oo_Verdict (EvaluateSchema canonicalize decode input s) = VerdictInconclusive"
      "\<not> oo_TargetFailure (EvaluateSchema canonicalize decode input s)"
  | (unusable) "evidence_ready input" "validateSchemaDefinition s 0 \<noteq> None \<or> \<not> oi_Complete input"
      "oo_Verdict (EvaluateSchema canonicalize decode input s) = VerdictInconclusive"
      "\<not> oo_TargetFailure (EvaluateSchema canonicalize decode input s)"
  | (undecodable) "evidence_ready input" "validateSchemaDefinition s 0 = None" "oi_Complete input"
      "\<nexists>c v. canonicalize (oi_Value input) = Inr c \<and> decode c = Inr v"
      "EvaluateSchema canonicalize decode input s = targetFail (oi_EvidenceRefs input) ''invalid_json''"
  | (decoded) c v where "evidence_ready input" "validateSchemaDefinition s 0 = None" "oi_Complete input"
      "canonicalize (oi_Value input) = Inr c" "decode c = Inr v"
      "EvaluateSchema canonicalize decode input s =
         (case validateValue v s 0 of Some x \<Rightarrow> targetFail (oi_EvidenceRefs input) x | None \<Rightarrow> oracle_pass (oi_EvidenceRefs input))"
proof (cases "preflight input")
  case (Some r)
  with preflight_Some [OF Some] show ?thesis by (intro unready) (simp_all add: EvaluateSchema_def)
next
  case None
  then have ready: "evidence_ready input" by (simp add: preflight_None)
  show ?thesis
  proof (cases "validateSchemaDefinition s 0 \<noteq> None \<or> \<not> oi_Complete input")
    case True
    with None ready show ?thesis by (intro unusable) (auto simp: EvaluateSchema_def Let_def)
  next
    case False
    show ?thesis
    proof (cases "\<exists>c v. canonicalize (oi_Value input) = Inr c \<and> decode c = Inr v")
      case True
      then obtain c v where "canonicalize (oi_Value input) = Inr c" "decode c = Inr v" by blast
      with False None ready show ?thesis by (intro decoded [of c v]) (auto simp: EvaluateSchema_def Let_def)
    next
      case undec: False
      with False None ready show ?thesis
        by (intro undecodable) (auto simp: EvaluateSchema_def Let_def split: sum.splits)
    qed
  qed
qed

interpretation schema_oracle: conservative_oracle "\<lambda>input. EvaluateSchema canonicalize decode input s" for canonicalize decode s
proof
  fix input
  let ?o = "EvaluateSchema canonicalize decode input s"
  show "evidence_ready input" if "oo_Verdict ?o \<noteq> VerdictInconclusive"
    by (rule EvaluateSchema_cases [of input canonicalize decode s]) (use that in auto)
  show "oo_EvidenceRefs ?o = oi_EvidenceRefs input" if "oo_Verdict ?o \<noteq> VerdictInconclusive"
    by (rule EvaluateSchema_cases [of input canonicalize decode s]) (use that in \<open>auto split: option.splits\<close>)
  show "oo_Verdict ?o \<in> {VerdictPass, VerdictFail, VerdictInconclusive}"
    by (rule EvaluateSchema_cases [of input canonicalize decode s]) (auto split: option.splits)
  show "oi_Complete input" if "oo_Verdict ?o = VerdictPass"
    by (rule EvaluateSchema_cases [of input canonicalize decode s]) (use that in auto)
  show "oo_TargetFailure ?o = (oo_Verdict ?o = VerdictFail)"
    by (rule EvaluateSchema_cases [of input canonicalize decode s]) (auto split: option.splits)
qed

section \<open>Conformance to a schema\<close>

text \<open>What a schema demands of a value, without depth limits and without an order of the checks.\<close>

inductive conforms :: "json_value \<Rightarrow> oracle_schema \<Rightarrow> bool" where
  conforms_object: "TypeObject \<in> set (os_Types s) \<Longrightarrow> (\<And>r. r \<in> set (os_Required s) \<Longrightarrow> ahas m r) \<Longrightarrow>
     (\<And>k x. (k, x) \<in> set m \<Longrightarrow> aget (os_Properties s) k = None \<Longrightarrow> os_AllowUnknown s) \<Longrightarrow>
     (\<And>k x p. (k, x) \<in> set m \<Longrightarrow> aget (os_Properties s) k = Some p \<Longrightarrow> conforms x p) \<Longrightarrow> conforms (JObject m) s"
| conforms_array: "TypeArray \<in> set (os_Types s) \<Longrightarrow>
     (\<And>x i. x \<in> set xs \<Longrightarrow> os_Items s = Some i \<Longrightarrow> conforms x i) \<Longrightarrow> conforms (JArray xs) s"
| conforms_scalar: "valueType v \<in> set (os_Types s) \<Longrightarrow> valueType v \<notin> {TypeObject, TypeArray} \<Longrightarrow> conforms v s"

inductive_simps conforms_JObject: "conforms (JObject m) s"
inductive_simps conforms_JArray: "conforms (JArray xs) s"

lemma conforms_other: "valueType v \<notin> {TypeObject, TypeArray} \<Longrightarrow> conforms v s \<longleftrightarrow> valueType v \<in> set (os_Types s)"
  by (auto intro: conforms_scalar elim: conforms.cases simp: valueType_def)

lemma conforms_type: "conforms v s \<Longrightarrow> valueType v \<in> set (os_Types s)"
  by (auto elim: conforms.cases simp: valueType_def)

lemma definition_parts:
  assumes "validateSchemaDefinition s d = None"
  shows "d \<le> 64" "aget (os_Properties s) k = Some p \<Longrightarrow> validateSchemaDefinition p (Suc d) = None"
    "os_Items s = Some i \<Longrightarrow> validateSchemaDefinition i (Suc d) = None"
proof -
  obtain types properties required items unknown where s: "s = Schema types properties required items unknown" by (cases s)
  note v = assms [unfolded s validateSchemaDefinition.simps]
  show le: "d \<le> 64" using v by (simp split: if_splits)
  have all: "\<forall>(name, p)\<in>set properties. (if name = [] then Some (Err ''empty property name'') else validateSchemaDefinition p (Suc d)) = None"
    "(case items of None \<Rightarrow> None | Some i \<Rightarrow> validateSchemaDefinition i (Suc d)) = None"
    using v le by (auto simp: image_iff ball_Un)
  show "validateSchemaDefinition p (Suc d) = None" if "aget (os_Properties s) k = Some p"
  proof -
    from that have "(k, p) \<in> set properties" using aget_SomeD [of properties k p] by (simp add: s)
    with all(1) have "(if k = [] then Some (Err ''empty property name'') else validateSchemaDefinition p (Suc d)) = None" by blast
    then show ?thesis by (simp split: if_splits)
  qed
  show "validateSchemaDefinition i (Suc d) = None" if "os_Items s = Some i" using that all(2) by (simp add: s)
qed

lemma validateValue_conforms: "validateSchemaDefinition s d = None \<Longrightarrow> validateValue v s d = None \<longleftrightarrow> conforms v s"
proof (induction v s d rule: validateValue.induct)
  case (1 v s d)
  have d: "d \<le> 64" by (rule definition_parts(1) [OF "1.prems"])
  show ?case
  proof (cases "valueType v \<in> set (os_Types s)")
    case False
    then have "validateValue v s d \<noteq> None" using d by (simp add: validateValue.simps [of v])
    with False conforms_type show ?thesis by blast
  next
    case t: True
    show ?thesis
    proof (cases v)
      case (JObject m)
      have IH: "validateValue x p (Suc d) = None \<longleftrightarrow> conforms x p" if "(k, x) \<in> set m" "aget (os_Properties s) k = Some p" for k x p
        using "1.IH"(1) [OF _ _ JObject that(1) refl that(2)] d t definition_parts(2) [OF "1.prems" that(2)] by simp
      have "validateValue v s d = None \<longleftrightarrow> (\<forall>r\<in>set (os_Required s). ahas m r) \<and>
          (\<forall>k x. (k, x) \<in> set m \<longrightarrow> (case aget (os_Properties s) k of None \<Rightarrow> os_AllowUnknown s
             | Some p \<Rightarrow> validateValue x p (Suc d) = None))"
        using d t unfolding JObject by (fastforce simp: validateValue.simps [of "JObject m"] ball_Un split: option.splits)
      also have "\<dots> \<longleftrightarrow> conforms v s"
        using t IH unfolding JObject conforms_JObject by (auto simp: valueType_def split: option.splits)
      finally show ?thesis .
    next
      case (JArray xs)
      have "validateValue x i (Suc d) = None \<longleftrightarrow> conforms x i" if "os_Items s = Some i" "x \<in> set xs" for x i
        using "1.IH"(2) [OF _ _ JArray that] d t definition_parts(3) [OF "1.prems" that(1)] by simp
      then show ?thesis using d t unfolding JArray conforms_JArray
        by (auto simp: validateValue.simps [of "JArray xs"] valueType_def split: option.splits)
    qed (use d t in \<open>auto simp: validateValue.simps conforms_other valueType_def\<close>)
  qed
qed


section \<open>Relations between the items of an interaction\<close>

definition usable :: "(string \<Rightarrow> bool) \<Rightarrow> ir_item \<Rightarrow> bool" where
  "usable json_valid i \<longleftrightarrow> ir_Validate json_valid i = None \<and> (ir_NormalizedValue i = [] \<or> json_valid (ir_NormalizedValue i)) \<and>
     ir_LossMarkers i = [] \<and> ir_Unavailable i = []"

definition call_ids :: "ir_type \<Rightarrow> ir_item list \<Rightarrow> string set" where
  "call_ids t items = {ir_CallID i | i. i \<in> set items \<and> ir_IRType i = t}"

text \<open>How an item must relate to the items before it.\<close>

definition related :: "ir_item list \<Rightarrow> ir_item \<Rightarrow> bool" where
  "related before i \<longleftrightarrow> (before \<noteq> [] \<longrightarrow> ir_InteractionID i = ir_InteractionID (hd before)) \<and>
     ir_ItemID i \<notin> ir_ItemID ` set before \<and> (ir_ParentItemID i \<noteq> [] \<longrightarrow> ir_ParentItemID i \<in> ir_ItemID ` set before) \<and>
     (ir_IRType i = IRToolCall \<longrightarrow> ir_CallID i \<noteq> [] \<and> ir_CallID i \<notin> call_ids IRToolCall before) \<and>
     (ir_IRType i = IRToolResult \<longrightarrow> ir_CallID i \<noteq> [] \<and> ir_CallID i \<in> call_ids IRToolCall before \<and>
        ir_CallID i \<notin> call_ids IRToolResult before)"

definition relation_inv :: "ir_item list \<Rightarrow> relation_state \<Rightarrow> bool" where
  "relation_inv before st \<longleftrightarrow> (\<forall>k. ahas (rs_items st) k \<longleftrightarrow> k \<in> ir_ItemID ` set before) \<and>
     (\<forall>c. ahas (rs_calls st) c \<longleftrightarrow> c \<in> call_ids IRToolCall before) \<and>
     (\<forall>c. ahas (rs_results st) c \<longleftrightarrow> c \<in> call_ids IRToolResult before) \<and>
     rs_interactionID st = (if before = [] then [] else ir_InteractionID (hd before)) \<and>
     (\<forall>i\<in>set before. ir_InteractionID i \<noteq> [])"

lemma call_ids_snoc [simp]: "call_ids t (items @ [i]) = (if ir_IRType i = t then insert (ir_CallID i) (call_ids t items) else call_ids t items)"
  by (auto simp: call_ids_def)

lemma usable_interaction: "usable json_valid i \<Longrightarrow> ir_InteractionID i \<noteq> []"
  by (simp add: usable_def ir_Validate_def)

lemma relation_item_unusable:
  "\<not> usable json_valid i \<Longrightarrow> \<exists>r. relation_item json_valid refs st i = Inl r \<and> oo_Verdict r = VerdictInconclusive \<and> \<not> oo_TargetFailure r"
  by (auto simp: relation_item_def usable_def)

lemma relation_item_usable:
  "usable json_valid i \<Longrightarrow> relation_item json_valid refs st i =
     (case relation_violation st i of Some c \<Rightarrow> Inl (targetFail refs c) | None \<Rightarrow> Inr (relation_next st i))"
  by (auto simp: relation_item_def usable_def)

lemma relation_violation_None: "relation_inv before st \<Longrightarrow> relation_violation st i = None \<longleftrightarrow> related before i"
  by (cases "ir_IRType i") (auto simp: relation_inv_def relation_violation_def related_def split: if_splits)

lemma relation_next_inv: "relation_inv before st \<Longrightarrow> usable json_valid i \<Longrightarrow> relation_inv (before @ [i]) (relation_next st i)"
  using usable_interaction [of json_valid i]
  by (auto simp: relation_inv_def relation_next_def hd_append split: if_splits)

lemma relation_loop_shape:
  "oo_TargetFailure (relation_loop json_valid refs st items) = (oo_Verdict (relation_loop json_valid refs st items) = VerdictFail)"
  "oo_Verdict (relation_loop json_valid refs st items) \<in> {VerdictPass, VerdictFail, VerdictInconclusive}"
  "oo_Verdict (relation_loop json_valid refs st items) \<noteq> VerdictInconclusive \<Longrightarrow>
     oo_EvidenceRefs (relation_loop json_valid refs st items) = refs"
  by (induction items arbitrary: st) (auto simp: relation_item_def split: option.splits sum.splits if_splits)

text \<open>The first item that cannot be used, or does not relate, decides; \<open>n\<close> counts the items that did.\<close>

lemma relation_loop_verdict:
  assumes "relation_inv before st"
  shows "(oo_Verdict (relation_loop json_valid refs st items) = VerdictPass \<longleftrightarrow>
      (\<forall>n<length items. usable json_valid (items ! n) \<and> related (before @ take n items) (items ! n))) \<and>
    (oo_Verdict (relation_loop json_valid refs st items) = VerdictFail \<longleftrightarrow>
      (\<exists>n<length items. (\<forall>k<n. usable json_valid (items ! k) \<and> related (before @ take k items) (items ! k)) \<and>
         usable json_valid (items ! n) \<and> \<not> related (before @ take n items) (items ! n)))"
  using assms
proof (induction items arbitrary: before st)
  case (Cons i items)
  show ?case
  proof (cases "usable json_valid i")
    case False
    with relation_item_unusable [OF this, of refs st] show ?thesis by (auto simp: All_less_Suc2 Ex_less_Suc2)
  next
    case True
    show ?thesis
    proof (cases "related before i")
      case False
      with True relation_violation_None [OF Cons.prems, of i] show ?thesis
        by (auto simp: relation_item_usable All_less_Suc2 Ex_less_Suc2 split: option.splits)
    next
      case rel: True
      from relation_next_inv [OF Cons.prems True] have inv: "relation_inv (before @ [i]) (relation_next st i)" .
      have step: "relation_loop json_valid refs st (i # items) = relation_loop json_valid refs (relation_next st i) items"
        using True rel relation_violation_None [OF Cons.prems, of i] by (simp add: relation_item_usable)
      show ?thesis using Cons.IH [OF inv] True rel unfolding step by (simp add: All_less_Suc2 Ex_less_Suc2)
    qed
  qed
qed simp

abbreviation no_relations :: relation_state where
  "no_relations \<equiv> \<lparr>rs_items = [], rs_calls = [], rs_results = [], rs_interactionID = []\<rparr>"

lemma relation_inv_empty: "relation_inv [] no_relations"
  by (simp add: relation_inv_def call_ids_def)

lemmas relation_loop_start = relation_loop_verdict [OF relation_inv_empty, unfolded append_Nil]

lemma EvaluateRelations_cases:
  obtains (undecided) "\<not> (evidence_ready input \<and> oi_Complete input \<and> oi_Value input \<noteq> [])"
      "oo_Verdict (EvaluateRelations json_valid input) = VerdictInconclusive"
      "\<not> oo_TargetFailure (EvaluateRelations json_valid input)"
  | (scan) "evidence_ready input" "oi_Complete input" "oi_Value input \<noteq> []"
      "EvaluateRelations json_valid input = relation_loop json_valid (oi_EvidenceRefs input) no_relations (oi_Value input)"
proof (cases "preflight input")
  case (Some r)
  with preflight_Some [OF Some] show ?thesis by (intro undecided) (simp_all add: EvaluateRelations_def)
next
  case None
  then have "evidence_ready input" by (simp add: preflight_None)
  show ?thesis
  proof (cases "oi_Complete input \<and> oi_Value input \<noteq> []")
    case True
    with None \<open>evidence_ready input\<close> show ?thesis by (intro scan) (simp_all add: EvaluateRelations_def)
  next
    case False
    with None show ?thesis by (intro undecided) (auto simp: EvaluateRelations_def)
  qed
qed

interpretation relational_oracle: conservative_oracle "EvaluateRelations json_valid" for json_valid
proof
  fix input
  note cases = EvaluateRelations_cases [of input json_valid]
    and shape = relation_loop_shape [of json_valid "oi_EvidenceRefs input" no_relations "oi_Value input"]
  show "evidence_ready input" if "oo_Verdict (EvaluateRelations json_valid input) \<noteq> VerdictInconclusive"
    by (rule cases) (use that in auto)
  show "oi_Complete input" if "oo_Verdict (EvaluateRelations json_valid input) = VerdictPass"
    by (rule cases) (use that in auto)
  show "oo_EvidenceRefs (EvaluateRelations json_valid input) = oi_EvidenceRefs input"
    if "oo_Verdict (EvaluateRelations json_valid input) \<noteq> VerdictInconclusive"
    by (rule cases) (use that shape(3) in auto)
  show "oo_Verdict (EvaluateRelations json_valid input) \<in> {VerdictPass, VerdictFail, VerdictInconclusive}"
    by (rule cases) (use shape(1,2) in auto)
  show "oo_TargetFailure (EvaluateRelations json_valid input) = (oo_Verdict (EvaluateRelations json_valid input) = VerdictFail)"
    by (rule cases) (use shape(1,2) in auto)
qed

text \<open>
  The relational oracle.  On referenced, complete, nonempty evidence it passes exactly when every
  item is valid, normalized without loss, and related to the items before it: one interaction, unique
  item identifiers, parents that came before, unique call identifiers, and results that answer an earlier
  call once.  It fails the target exactly when the first item that is not in order is itself valid and
  lossless; an item that is invalid or lossy before that makes it inconclusive.
\<close>

theorem EvaluateRelations_verdict:
  "(oo_Verdict (EvaluateRelations json_valid input) = VerdictPass) =
     (evidence_ready input \<and> oi_Complete input \<and> oi_Value input \<noteq> [] \<and>
      (\<forall>n<length (oi_Value input). usable json_valid (oi_Value input ! n) \<and>
         related (take n (oi_Value input)) (oi_Value input ! n))) \<and>
   (oo_Verdict (EvaluateRelations json_valid input) = VerdictFail) =
     (evidence_ready input \<and> oi_Complete input \<and>
      (\<exists>n<length (oi_Value input).
         (\<forall>k<n. usable json_valid (oi_Value input ! k) \<and> related (take k (oi_Value input)) (oi_Value input ! k)) \<and>
         usable json_valid (oi_Value input ! n) \<and> \<not> related (take n (oi_Value input)) (oi_Value input ! n))) \<and>
   oo_TargetFailure (EvaluateRelations json_valid input) = (oo_Verdict (EvaluateRelations json_valid input) = VerdictFail)"
proof (cases rule: EvaluateRelations_cases [of input json_valid, case_names undecided scan])
  case undecided
  then show ?thesis by auto
next
  case scan
  then show ?thesis using relation_loop_start [of json_valid "oi_EvidenceRefs input" "oi_Value input"]
    by (simp add: relation_loop_shape(1))
qed

definition sample_item :: ir_item where
  "sample_item = \<lparr>ir_ItemID = ''i'', ir_IRType = IRToolResult, ir_SourceProtocol = ''p'', ir_SourceType = ''object'',
     ir_InteractionID = ''x'', ir_ParentItemID = [], ir_CallID = ''c'', ir_NativeValue = ''{}'', ir_NormalizedValue = ''{}'',
     ir_EvidenceRefs = [\<lparr>ref_Kind = ''Evidence'', ref_InstanceID = uuid_a, ref_ContentDigest = zero_digest\<rparr>],
     ir_Extension = [], ir_TransformID = ''identity'', ir_TransformVersion = ''1'', ir_LossMarkers = [], ir_Unavailable = []\<rparr>"

definition sample_oracle_input :: "ir_item list \<Rightarrow> ir_item list oracle_input" where
  "sample_oracle_input items = \<lparr>oi_Value = items, oi_EvidenceRefs = ir_EvidenceRefs sample_item, oi_Complete = True,
     oi_HarnessError = None\<rparr>"

text \<open>A result without a call fails; after its call it passes.\<close>

theorem EvaluateRelations_verdict_witness:
  "oo_Verdict (EvaluateRelations (\<lambda>_. True) (sample_oracle_input [sample_item])) = VerdictFail \<and>
   oo_Verdict (EvaluateRelations (\<lambda>_. True)
     (sample_oracle_input [sample_item\<lparr>ir_ItemID := ''k'', ir_IRType := IRToolCall\<rparr>, sample_item])) = VerdictPass"
proof -
  have ref: "ref_Validate \<lparr>ref_Kind = ''Evidence'', ref_InstanceID = uuid_a, ref_ContentDigest = zero_digest\<rparr> = None"
    by (simp add: ref_Validate_def kindPattern_def class_match_def char_class_defs)
  have u: "usable (\<lambda>_. True) sample_item" "usable (\<lambda>_. True) (sample_item\<lparr>ir_ItemID := ''k'', ir_IRType := IRToolCall\<rparr>)"
    using ref by (simp_all add: usable_def ir_Validate_def sample_item_def)
  have ready: "evidence_ready (sample_oracle_input items)" for items
    using ref by (simp add: evidence_ready_def sample_oracle_input_def sample_item_def)
  have r: "\<not> related [] sample_item" "related [] (sample_item\<lparr>ir_ItemID := ''k'', ir_IRType := IRToolCall\<rparr>)"
    "related [sample_item\<lparr>ir_ItemID := ''k'', ir_IRType := IRToolCall\<rparr>] sample_item"
    by (auto simp: related_def call_ids_def sample_item_def)
  show ?thesis
    using EvaluateRelations_verdict [of "\<lambda>_. True" "sample_oracle_input [sample_item]"]
      EvaluateRelations_verdict [of "\<lambda>_. True" "sample_oracle_input [sample_item\<lparr>ir_ItemID := ''k'', ir_IRType := IRToolCall\<rparr>, sample_item]"]
      ready [of "[sample_item]"] ready [of "[sample_item\<lparr>ir_ItemID := ''k'', ir_IRType := IRToolCall\<rparr>, sample_item]"] u r
    by (simp add: sample_oracle_input_def All_less_Suc2 Ex_less_Suc2)
qed

section \<open>The stream as a state machine\<close>

lemma machine_loop_run_all:
  "response_inv m \<Longrightarrow> (case run_all response_Apply m es of
     Some m' \<Rightarrow> machine_loop refs m es = Some (Inr m')
   | None \<Rightarrow> (\<exists>c. machine_loop refs m es = Some (Inl (targetFail refs c))))"
proof (induction es arbitrary: m)
  case (Cons e es)
  obtain m' f where a: "response_Apply m e = (m', f)" by fastforce
  have inv: "response_inv m'" using response.invar_step [OF Cons.prems, of e] a by simp
  have "f \<noteq> Some Panic" using response_no_panic [OF Cons.prems, of e] a by simp
  then show ?case using a Cons.IH [OF inv] by (cases f) (auto split: fault.splits option.splits)
qed simp

lemma EvaluateStateMachine_cases:
  obtains (unready) r where "\<not> evidence_ready input" "EvaluateStateMachine input = Some r" "oo_Verdict r = VerdictInconclusive"
      "\<not> oo_TargetFailure r"
  | (refused) c where "evidence_ready input" "run_all response_Apply response_New (oi_Value input) = None"
      "EvaluateStateMachine input = Some (targetFail (oi_EvidenceRefs input) c)"
  | (accepted) m where "evidence_ready input" "run_all response_Apply response_New (oi_Value input) = Some m"
      "EvaluateStateMachine input = Some (if \<not> oi_Complete input then insufficient (oi_EvidenceRefs input) ''incomplete_stream_evidence''
         else if response_Finish m = None then oracle_pass (oi_EvidenceRefs input)
         else targetFail (oi_EvidenceRefs input) ''missing_terminal_event'')"
proof (cases "preflight input")
  case (Some r)
  with preflight_Some [OF Some] show ?thesis by (intro unready [of r]) (simp_all add: EvaluateStateMachine_def)
next
  case None
  note loop = machine_loop_run_all [OF response_inv_New, of "oi_EvidenceRefs input" "oi_Value input"]
  from None have ready: "evidence_ready input" by (simp add: preflight_None)
  show ?thesis
  proof (cases "run_all response_Apply response_New (oi_Value input)")
    case refused': None
    with loop obtain c where "machine_loop (oi_EvidenceRefs input) response_New (oi_Value input)
        = Some (Inl (targetFail (oi_EvidenceRefs input) c))" by auto
    with refused' ready None show ?thesis by (intro refused [of c]) (simp_all add: EvaluateStateMachine_def)
  next
    case (Some m)
    with loop ready None show ?thesis
      by (intro accepted [of m]) (auto simp: EvaluateStateMachine_def Let_def response_Finish_def)
  qed
qed

interpretation stream_oracle: conservative_oracle "\<lambda>input. the (EvaluateStateMachine input)"
proof
  fix input
  note cases = EvaluateStateMachine_cases [of input]
  show "evidence_ready input" if "oo_Verdict (the (EvaluateStateMachine input)) \<noteq> VerdictInconclusive"
    by (rule cases) (use that in auto)
  show "oo_EvidenceRefs (the (EvaluateStateMachine input)) = oi_EvidenceRefs input"
    if "oo_Verdict (the (EvaluateStateMachine input)) \<noteq> VerdictInconclusive"
    by (rule cases) (use that in \<open>auto split: if_splits\<close>)
  show "oo_Verdict (the (EvaluateStateMachine input)) \<in> {VerdictPass, VerdictFail, VerdictInconclusive}"
    by (rule cases) (auto split: if_splits)
  show "oi_Complete input" if "oo_Verdict (the (EvaluateStateMachine input)) = VerdictPass"
    by (rule cases) (use that in \<open>auto split: if_splits\<close>)
  show "oo_TargetFailure (the (EvaluateStateMachine input)) = (oo_Verdict (the (EvaluateStateMachine input)) = VerdictFail)"
    by (rule cases) (auto split: if_splits)
qed

text \<open>
  The state-machine oracle never crashes.  On referenced evidence it passes exactly when the evidence
  is complete and the stream is accepted event by event and ends in a terminal event; it fails the target
  exactly when the machine refuses some event, or the evidence is complete and the terminal event is
  missing; otherwise, in particular for a stream that is accepted so far but not complete, it is
  inconclusive.
\<close>

theorem EvaluateStateMachine_verdict:
  "\<exists>r. EvaluateStateMachine input = Some r \<and>
     (oo_Verdict r = VerdictPass) = (evidence_ready input \<and> oi_Complete input \<and>
        (\<exists>m. run_all response_Apply response_New (oi_Value input) = Some m \<and> response_Finish m = None)) \<and>
     (oo_Verdict r = VerdictFail) = (evidence_ready input \<and>
        (run_all response_Apply response_New (oi_Value input) = None \<or>
         oi_Complete input \<and>
           (\<exists>m. run_all response_Apply response_New (oi_Value input) = Some m \<and> response_Finish m \<noteq> None))) \<and>
     oo_TargetFailure r = (oo_Verdict r = VerdictFail)"
proof (cases rule: EvaluateStateMachine_cases [of input, case_names unready refused accepted])
  case (accepted m)
  then show ?thesis by (cases "oi_Complete input"; cases "response_Finish m") auto
qed auto

end
