(* ===== verification/Normalizer.thy ===== *)
theory Normalizer
  imports Oracle
begin

text \<open>
  Package \<open>normalizer\<close> (\<open>internal/normalizer/normalizer.go\<close>): provider-neutral items from native JSON.
  The JSON library is a parameter: canonicalization, validity, the decoding of a JSON string and of a
  JSON number.
\<close>

datatype transform = TransformIdentity | TransformDecodeJSONString | OtherTransform string

definition transform_text :: "transform \<Rightarrow> string" where
  "transform_text t = (case t of TransformIdentity \<Rightarrow> ''identity'' | TransformDecodeJSONString \<Rightarrow> ''decode_json_string''
     | OtherTransform s \<Rightarrow> s)"

record normalize_request =
  nr_ItemID :: string
  nr_IRType :: ir_type
  nr_SourceProtocol :: string
  nr_InteractionID :: string
  nr_ParentItemID :: string
  nr_CallID :: string
  nr_NativeValue :: string
  nr_EvidenceRefs :: "object_ref list"
  nr_Extension :: string
  nr_Transform :: transform
  nr_Version :: string

record native_json =
  nj_canonicalize :: "string \<Rightarrow> string res"
  nj_valid :: "string \<Rightarrow> bool"
  nj_string :: "string \<Rightarrow> string res"
  nj_number :: "string \<Rightarrow> err"

definition JSONType :: "native_json \<Rightarrow> string \<Rightarrow> string res" where
  "JSONType J raw =
     (let t = trim_space raw in
      if t = [] \<or> \<not> nj_valid J t then Inl (Err ''value is not valid JSON'')
      else if hd t = CHR ''{'' then Inr ''object''
      else if hd t = CHR ''['' then Inr ''array''
      else if hd t = CHR 0x22 then Inr ''string''
      else if hd t = CHR ''t'' \<or> hd t = CHR ''f'' then Inr ''boolean''
      else if hd t = CHR ''n'' then Inr ''null''
      else guard_res (wrap_err ''decode JSON number'' (nj_number J t)) (Inr ''number''))"

text \<open>The effect of the transform on the item: the value, or the markers of its loss.\<close>

definition transform_item :: "native_json \<Rightarrow> transform \<Rightarrow> string \<Rightarrow> string \<Rightarrow> ir_item \<Rightarrow> ir_item res" where
  "transform_item J t sourceType canonicalNative item =
     (case t of
        TransformIdentity \<Rightarrow> Inr (item\<lparr>ir_NormalizedValue := canonicalNative\<rparr>)
      | TransformDecodeJSONString \<Rightarrow>
          if sourceType \<noteq> ''string'' then Inl (Err ''decode_json_string requires native string'')
          else (case nj_string J canonicalNative of
              Inl e \<Rightarrow> Inl (Wrap ''decode native JSON string'' e)
            | Inr encoded \<Rightarrow>
                (case nj_canonicalize J encoded of
                   Inl e \<Rightarrow> Inr (item\<lparr>ir_LossMarkers := [\<lparr>lm_TransformID = transform_text t,
                       lm_Reason = ''provider-native string does not contain valid JSON''\<rparr>],
                     ir_Unavailable := [''normalized_value'']\<rparr>)
                 | Inr canonicalInner \<Rightarrow> Inr (item\<lparr>ir_NormalizedValue := canonicalInner\<rparr>)))
      | OtherTransform _ \<Rightarrow> Inl (Err ''unsupported normalization transform''))"

definition Normalize :: "native_json \<Rightarrow> normalize_request \<Rightarrow> ir_item res" where
  "Normalize J q =
     guard_res (fail_if (nr_Version q = []) (Err ''normalization transform version is required''))
       (case nj_canonicalize J (nr_NativeValue q) of
          Inl e \<Rightarrow> Inl (Wrap ''provider-native value'' e)
        | Inr canonicalNative \<Rightarrow>
            bind_res (JSONType J canonicalNative) (\<lambda>sourceType.
              bind_res (transform_item J (nr_Transform q) sourceType canonicalNative
                  \<lparr>ir_ItemID = nr_ItemID q, ir_IRType = nr_IRType q, ir_SourceProtocol = nr_SourceProtocol q,
                   ir_SourceType = sourceType, ir_InteractionID = nr_InteractionID q, ir_ParentItemID = nr_ParentItemID q,
                   ir_CallID = nr_CallID q, ir_NativeValue = canonicalNative, ir_NormalizedValue = [],
                   ir_EvidenceRefs = nr_EvidenceRefs q, ir_Extension = nr_Extension q,
                   ir_TransformID = transform_text (nr_Transform q), ir_TransformVersion = nr_Version q,
                   ir_LossMarkers = [], ir_Unavailable = []\<rparr>) (\<lambda>item.
                guard_res (first_err
                  [fail_if (ir_Extension item \<noteq> [] \<and>
                      (\<not> has_prefix (ir_Extension item) ExtensionPrefix \<or> length (ir_Extension item) = length ExtensionPrefix))
                     (Err ''extension namespace must start with x- and include a name''),
                   fail_if (ir_NormalizedValue item \<noteq> [] \<and> \<not> nj_valid J (ir_NormalizedValue item))
                     (Err ''normalized value is not valid JSON''),
                   wrap_err ''validate IR item'' (ir_Validate (nj_valid J) item)])
                  (Inr item))))"

text \<open>
  A normalized item is usable by the relational oracle unless the transform lost the value, which it
  does only for a native string that holds no JSON, and then says so in both markers.
\<close>

theorem Normalize_usable_or_marked:
  assumes "Normalize J q = Inr item"
  shows "ir_Validate (nj_valid J) item = None \<and> nj_canonicalize J (nr_NativeValue q) = Inr (ir_NativeValue item) \<and>
    (ir_LossMarkers item = [] \<and> ir_Unavailable item = [] \<and> usable (nj_valid J) item \<and>
       (nr_Transform q = TransformIdentity \<and> ir_NormalizedValue item = ir_NativeValue item \<or>
        nr_Transform q = TransformDecodeJSONString \<and> (\<exists>encoded. nj_string J (ir_NativeValue item) = Inr encoded \<and>
          nj_canonicalize J encoded = Inr (ir_NormalizedValue item)))
     \<or> nr_Transform q = TransformDecodeJSONString \<and> length (ir_LossMarkers item) = 1 \<and> ir_Unavailable item = [''normalized_value''] \<and>
       ir_NormalizedValue item = [] \<and>
       (\<exists>encoded e. nj_string J (ir_NativeValue item) = Inr encoded \<and> nj_canonicalize J encoded = Inl e))"
proof -
  obtain native sourceType item0 where n: "nj_canonicalize J (nr_NativeValue q) = Inr native"
    and t: "transform_item J (nr_Transform q) sourceType native item0 = Inr item"
    and i0: "ir_NativeValue item0 = native" "ir_NormalizedValue item0 = []" "ir_LossMarkers item0 = []" "ir_Unavailable item0 = []"
    and v: "ir_NormalizedValue item = [] \<or> nj_valid J (ir_NormalizedValue item)" "ir_Validate (nj_valid J) item = None"
    using assms unfolding Normalize_def by (auto simp: bind_res_Inr split: sum.splits)
  show ?thesis
  proof (cases "nr_Transform q")
    case TransformIdentity
    with t i0 n v show ?thesis by (auto simp: transform_item_def usable_def)
  next
    case TransformDecodeJSONString
    with t obtain encoded where e: "nj_string J native = Inr encoded"
      "(case nj_canonicalize J encoded of
          Inl e \<Rightarrow> item0\<lparr>ir_LossMarkers := [\<lparr>lm_TransformID = transform_text (nr_Transform q),
              lm_Reason = ''provider-native string does not contain valid JSON''\<rparr>], ir_Unavailable := [''normalized_value'']\<rparr>
        | Inr inner \<Rightarrow> item0\<lparr>ir_NormalizedValue := inner\<rparr>) = item"
      by (auto simp: transform_item_def split: if_splits sum.splits)
    show ?thesis
    proof (cases "nj_canonicalize J encoded")
      case (Inl x)
      with e i0 n v TransformDecodeJSONString show ?thesis by (auto simp: usable_def)
    next
      case (Inr inner)
      with e i0 n v TransformDecodeJSONString show ?thesis by (auto simp: usable_def)
    qed
  qed (use t in \<open>simp add: transform_item_def\<close>)
qed

end
