(* ===== verification/SseAssembler.thy ===== *)
theory SseAssembler
  imports GoStd
begin

text \<open>
  The assembler of server-sent events (\<open>internal/recorder/sse.go\<close>).  Transport reads arrive as
  numbered chunks; \<open>Feed\<close> buffers them, cuts complete lines, collects fields and dispatches a
  logical event at each empty line.  A Go \<open>int\<close> that counts buffered bytes is a \<open>nat\<close> (it is bounded
  by the buffer limit); sequence numbers and offsets are 64-bit words.  A failing \<open>Feed\<close> drops the
  events of that call, as the code does.
\<close>

section \<open>Data\<close>

definition DefaultMaxSSEBufferBytes :: int where "DefaultMaxSSEBufferBytes = 1048576"
definition maxSSEFieldsPerEvent :: nat where "maxSSEFieldsPerEvent = 1024"

definition newline :: char where "newline = CHR 0x0A"

record read_chunk =
  rk_Sequence :: u64
  rk_ByteOffset :: i64
  rk_Data :: string

record sse_field =
  sf_Name :: string
  sf_Value :: string

record sse_event =
  ev_Sequence :: u64
  ev_EventOffset :: i64
  ev_Event :: string
  ev_Data :: string
  ev_ID :: string
  ev_RetryMillis :: "int option"
  ev_Fields :: "sse_field list"
  ev_Issues :: "string list"
  ev_SourceChunkSequences :: "u64 list"

record stream_tail =
  st_BufferedBytes :: nat
  st_PendingFieldCount :: nat
  st_SourceChunkSequences :: "u64 list"

record sse_assembler =
  sa_maxBufferBytes :: nat
  sa_buffer :: string
  sa_nextChunkSequence :: u64
  sa_nextByteOffset :: i64
  sa_started :: bool
  sa_processedOffset :: i64
  sa_nextEventSequence :: u64
  sa_currentOffset :: i64
  sa_currentBytes :: nat
  sa_currentFields :: "sse_field list"
  sa_currentChunks :: "u64 list"

section \<open>Operations\<close>

definition NewSSEAssembler :: "int \<Rightarrow> sse_assembler" where
  "NewSSEAssembler maxBufferBytes =
     \<lparr>sa_maxBufferBytes = nat (if maxBufferBytes \<le> 0 then DefaultMaxSSEBufferBytes else maxBufferBytes),
      sa_buffer = [], sa_nextChunkSequence = 1, sa_nextByteOffset = 0, sa_started = False, sa_processedOffset = 0,
      sa_nextEventSequence = 1, sa_currentOffset = 0, sa_currentBytes = 0, sa_currentFields = [], sa_currentChunks = []\<rparr>"

text \<open>\<open>strings.Cut(line, ":")\<close>: the text before the first colon, and the text after it if there is one.\<close>

definition cut_colon :: "string \<Rightarrow> string \<times> string option" where
  "cut_colon line =
     (let name = takeWhile (\<lambda>c. c \<noteq> CHR '':'') line
      in (name, if length name < length line then Some (drop (length name + 1) line) else None))"

definition parse_field :: "string \<Rightarrow> sse_field" where
  "parse_field line =
     (case cut_colon line of
        (name, None) \<Rightarrow> \<lparr>sf_Name = name, sf_Value = []\<rparr>
      | (name, Some value) \<Rightarrow>
          \<lparr>sf_Name = name, sf_Value = (if has_prefix value '' '' then drop 1 value else value)\<rparr>)"

definition apply_field :: "sse_field \<Rightarrow> sse_event \<times> string list \<Rightarrow> sse_event \<times> string list" where
  "apply_field f acc =
     (case acc of (event, data) \<Rightarrow>
        if sf_Name f = ''event'' then (event\<lparr>ev_Event := sf_Value f\<rparr>, data)
        else if sf_Name f = ''data'' then (event, data @ [sf_Value f])
        else if sf_Name f = ''id'' then
          (if CHR 0x00 \<in> set (sf_Value f) then (event\<lparr>ev_Issues := ev_Issues event @ [''id_contains_nul'']\<rparr>, data)
           else (event\<lparr>ev_ID := sf_Value f\<rparr>, data))
        else if sf_Name f = ''retry'' then
          (case ParseInt64 (sf_Value f) of
             None \<Rightarrow> (event\<lparr>ev_Issues := ev_Issues event @ [''invalid_retry'']\<rparr>, data)
           | Some value \<Rightarrow>
               if value < 0 then (event\<lparr>ev_Issues := ev_Issues event @ [''invalid_retry'']\<rparr>, data)
               else (event\<lparr>ev_RetryMillis := Some value\<rparr>, data))
        else acc)"

text \<open>\<open>strings.Join(data, "\n")\<close>.\<close>

fun join_lines :: "string list \<Rightarrow> string" where
  "join_lines [] = []"
| "join_lines [d] = d"
| "join_lines (d # ds) = d @ newline # join_lines ds"

definition make_event :: "u64 \<Rightarrow> i64 \<Rightarrow> sse_field list \<Rightarrow> u64 list \<Rightarrow> sse_event" where
  "make_event sequence offset fs chunks =
     (case fold apply_field fs
        (\<lparr>ev_Sequence = sequence, ev_EventOffset = offset, ev_Event = [], ev_Data = [], ev_ID = [], ev_RetryMillis = None,
          ev_Fields = fs, ev_Issues = [], ev_SourceChunkSequences = chunks\<rparr>, [])
      of (event, data) \<Rightarrow> event\<lparr>ev_Data := join_lines data\<rparr>)"

definition dispatch :: "sse_assembler \<Rightarrow> sse_assembler \<times> sse_event option" where
  "dispatch a =
     (if sa_currentFields a = [] then (a\<lparr>sa_currentBytes := 0, sa_currentChunks := []\<rparr>, None)
      else (a\<lparr>sa_nextEventSequence := sa_nextEventSequence a + 1, sa_currentBytes := 0, sa_currentFields := [],
              sa_currentChunks := []\<rparr>,
            Some (make_event (sa_nextEventSequence a) (sa_currentOffset a) (sa_currentFields a) (sa_currentChunks a))))"

definition consumeLine :: "sse_assembler \<Rightarrow> string \<Rightarrow> i64 \<Rightarrow> sse_assembler \<times> sse_event option" where
  "consumeLine a line lineStart =
     (if line = [] then dispatch a
      else if has_prefix line '':'' then (a, None)
      else (a\<lparr>sa_currentOffset := (if sa_currentFields a = [] then lineStart else sa_currentOffset a),
              sa_currentFields := sa_currentFields a @ [parse_field line]\<rparr>, None))"

definition addCurrentChunk :: "u64 \<Rightarrow> sse_assembler \<Rightarrow> sse_assembler" where
  "addCurrentChunk sequence a =
     (if sa_currentChunks a = [] \<or> last (sa_currentChunks a) \<noteq> sequence
      then a\<lparr>sa_currentChunks := sa_currentChunks a @ [sequence]\<rparr> else a)"

definition strip_cr :: "string \<Rightarrow> string" where
  "strip_cr line = (if line \<noteq> [] \<and> last line = CHR 0x0D then butlast line else line)"

text \<open>The limits that \<open>Feed\<close> checks on a nonempty line; the byte count is advanced before the check.\<close>

definition line_limits :: "sse_assembler \<Rightarrow> string \<Rightarrow> sse_assembler \<times> err" where
  "line_limits a line =
     (if line = [] then (a, None)
      else (let a1 = a\<lparr>sa_currentBytes := sa_currentBytes a + length line + 1\<rparr>
            in if sa_currentBytes a1 > sa_maxBufferBytes a1 then (a1, Some (Err ''SSE logical event exceeds bytes''))
               else if \<not> has_prefix line '':'' \<and> length (sa_currentFields a1) \<ge> maxSSEFieldsPerEvent
               then (a1, Some (Err ''SSE logical event exceeds fields''))
               else (a1, None)))"

text \<open>The removal of the first line from the buffer: its text (without the newline) and its offset.\<close>

definition next_line :: "sse_assembler \<Rightarrow> sse_assembler \<times> string \<times> i64" where
  "next_line a =
     (let raw = takeWhile (\<lambda>c. c \<noteq> newline) (sa_buffer a)
      in (a\<lparr>sa_buffer := drop (length raw + 1) (sa_buffer a),
            sa_processedOffset := sa_processedOffset a + of_nat (length raw + 1)\<rparr>,
          strip_cr raw, sa_processedOffset a))"

function feed_loop :: "u64 \<Rightarrow> sse_assembler \<Rightarrow> sse_event list \<Rightarrow> sse_assembler \<times> sse_event list res" where
  "feed_loop sequence a events =
     (if newline \<notin> set (sa_buffer a) then
        (if sa_currentBytes a + length (sa_buffer a) > sa_maxBufferBytes a
         then (a, Inl (Err ''SSE logical event exceeds bytes''))
         else (addCurrentChunk sequence a, Inr events))
      else
        (case next_line (addCurrentChunk sequence a) of (a1, line, lineStart) \<Rightarrow>
           (case line_limits a1 line of
              (a2, Some e) \<Rightarrow> (a2, Inl e)
            | (a2, None) \<Rightarrow>
                (case consumeLine a2 line lineStart of (a3, emitted) \<Rightarrow>
                   feed_loop sequence a3 (events @ (case emitted of None \<Rightarrow> [] | Some e \<Rightarrow> [e]))))))"
  by pat_completeness auto

lemma consumeLine_buffer [simp]: "sa_buffer (fst (consumeLine a line start)) = sa_buffer a"
  by (simp add: consumeLine_def dispatch_def)

lemma line_limits_buffer [simp]: "sa_buffer (fst (line_limits a line)) = sa_buffer a"
  by (simp add: line_limits_def Let_def)

lemma addCurrentChunk_buffer [simp]: "sa_buffer (addCurrentChunk sequence a) = sa_buffer a"
  by (simp add: addCurrentChunk_def)

lemma next_line_shorter: "newline \<in> set (sa_buffer a) \<Longrightarrow> length (sa_buffer (fst (next_line a))) < length (sa_buffer a)"
  by (cases "sa_buffer a") (auto simp: next_line_def Let_def)

termination feed_loop
proof (relation "measure (\<lambda>(_, a, _). length (sa_buffer a))")
  fix sequence a events a1 y line lineStart a2 e a3 emitted
  assume "\<not> newline \<notin> set (sa_buffer a)" "(a1, y) = next_line (addCurrentChunk sequence a)" "(line, lineStart) = y"
    "(a2, e) = line_limits a1 line" "e = (None :: err)" "(a3, emitted) = consumeLine a2 line lineStart"
  then have "length (sa_buffer a3) < length (sa_buffer a)"
    using next_line_shorter [of "addCurrentChunk sequence a"] consumeLine_buffer [of a2 line lineStart]
      line_limits_buffer [of a1 line] by (metis addCurrentChunk_buffer fst_conv)
  then show "((sequence, a3, events @ (case emitted of None \<Rightarrow> [] | Some e \<Rightarrow> [e])), sequence, a, events)
      \<in> measure (\<lambda>(_, a, _). length (sa_buffer a))" by simp
qed simp

declare feed_loop.simps [simp del]

definition Feed :: "sse_assembler \<Rightarrow> read_chunk \<Rightarrow> sse_assembler \<times> sse_event list res" where
  "Feed a chunk =
     (if rk_Sequence chunk \<noteq> sa_nextChunkSequence a then (a, Inl (Err ''read chunk sequence''))
      else if sint (rk_ByteOffset chunk) < 0 \<or> rk_Data chunk = [] then
        (a, Inl (Err ''read chunk requires nonnegative offset and nonempty data''))
      else
        (let a1 = (if sa_started a then a
                   else a\<lparr>sa_started := True, sa_nextByteOffset := rk_ByteOffset chunk,
                          sa_processedOffset := rk_ByteOffset chunk\<rparr>)
         in if rk_ByteOffset chunk \<noteq> sa_nextByteOffset a1 then (a1, Inl (Err ''read chunk byte offset''))
            else if length (sa_buffer a1) + length (rk_Data chunk) > sa_maxBufferBytes a1 then
              (a1, Inl (Err ''SSE buffered bytes exceed''))
            else feed_loop (rk_Sequence chunk)
                   (a1\<lparr>sa_buffer := sa_buffer a1 @ rk_Data chunk, sa_nextChunkSequence := sa_nextChunkSequence a1 + 1,
                       sa_nextByteOffset := sa_nextByteOffset a1 + of_nat (length (rk_Data chunk))\<rparr>) []))"

definition Finish :: "sse_assembler \<Rightarrow> stream_tail" where
  "Finish a = \<lparr>st_BufferedBytes = length (sa_buffer a), st_PendingFieldCount = length (sa_currentFields a),
     st_SourceChunkSequences = sa_currentChunks a\<rparr>"

section \<open>Reference definition\<close>

text \<open>
  What the stream means, without buffers: cut it at newlines, cut the list of lines at empty lines,
  drop comments, and turn each nonempty complete block into an event.
\<close>

fun split_sep :: "('a \<Rightarrow> bool) \<Rightarrow> 'a list \<Rightarrow> 'a list list \<times> 'a list" where
  "split_sep P [] = ([], [])"
| "split_sep P (x # xs) =
     (case split_sep P xs of (bs, rest) \<Rightarrow>
        if P x then ([] # bs, rest) else (case bs of [] \<Rightarrow> ([], x # rest) | b # bs' \<Rightarrow> ((x # b) # bs', rest)))"

fun with_offsets :: "i64 \<Rightarrow> string list \<Rightarrow> (i64 \<times> string) list" where
  "with_offsets start [] = []"
| "with_offsets start (l # ls) = (start, strip_cr l) # with_offsets (start + of_nat (length l + 1)) ls"

definition content :: "(i64 \<times> string) list \<Rightarrow> (i64 \<times> string) list" where
  "content b = filter (\<lambda>(_, l). \<not> has_prefix l '':'') b"

definition block_event :: "u64 \<Rightarrow> (i64 \<times> string) list \<Rightarrow> sse_event" where
  "block_event n b = make_event n (fst (hd b)) (map (parse_field \<circ> snd) b) []"

fun block_events :: "u64 \<Rightarrow> (i64 \<times> string) list list \<Rightarrow> sse_event list" where
  "block_events n [] = []"
| "block_events n (b # bs) = block_event n b # block_events (n + 1) bs"

definition stream_lines :: "string \<Rightarrow> string list" where
  "stream_lines bytes = fst (split_sep (\<lambda>c. c = newline) bytes)"

definition stream_rest :: "string \<Rightarrow> string" where
  "stream_rest bytes = snd (split_sep (\<lambda>c. c = newline) bytes)"

definition line_blocks :: "i64 \<Rightarrow> string list \<Rightarrow> (i64 \<times> string) list list \<times> (i64 \<times> string) list" where
  "line_blocks start ls = split_sep (\<lambda>(_, l). l = []) (with_offsets start ls)"

definition reference_events :: "i64 \<Rightarrow> string list \<Rightarrow> sse_event list" where
  "reference_events start ls = block_events 1 (filter (\<lambda>b. b \<noteq> []) (map content (fst (line_blocks start ls))))"

definition pending_block :: "i64 \<Rightarrow> string list \<Rightarrow> (i64 \<times> string) list" where
  "pending_block start ls = content (snd (line_blocks start ls))"

text \<open>An event without the provenance that depends on how the stream was cut into reads.\<close>

definition event_view :: "sse_event \<Rightarrow> sse_event" where
  "event_view e = e\<lparr>ev_SourceChunkSequences := []\<rparr>"

lemma split_sep_append:
  "split_sep P (xs @ ys) =
     (fst (split_sep P xs) @ fst (split_sep P (snd (split_sep P xs) @ ys)), snd (split_sep P (snd (split_sep P xs) @ ys)))"
proof (induction xs)
  case (Cons x xs)
  show ?case
  proof (cases "split_sep P xs")
    case (Pair bs r)
    then show ?thesis using Cons
      by (cases "split_sep P (r @ ys)") (auto split: list.splits)
  qed
qed simp

lemma split_sep_snoc:
  "split_sep P (xs @ [x]) = (if P x then (fst (split_sep P xs) @ [snd (split_sep P xs)], [])
     else (fst (split_sep P xs), snd (split_sep P xs) @ [x]))"
  by (induction xs) (auto split: prod.splits list.splits)

lemma split_sep_none: "\<forall>x\<in>set xs. \<not> P x \<Longrightarrow> split_sep P xs = ([], xs)"
  by (induction xs) auto

lemma stream_lines_cut:
  assumes "newline \<in> set buf"
  shows "stream_lines buf = takeWhile (\<lambda>c. c \<noteq> newline) buf #
      stream_lines (drop (length (takeWhile (\<lambda>c. c \<noteq> newline) buf) + 1) buf)"
    and "stream_rest buf = stream_rest (drop (length (takeWhile (\<lambda>c. c \<noteq> newline) buf) + 1) buf)"
  using assms by (induction buf) (auto simp: stream_lines_def stream_rest_def split: prod.splits list.splits)

lemma stream_no_line: "newline \<notin> set buf \<Longrightarrow> stream_lines buf = [] \<and> stream_rest buf = buf"
  by (subst stream_lines_def, subst stream_rest_def, subst (1 2) split_sep_none) auto

lemma stream_append:
  "stream_lines (xs @ ys) = stream_lines xs @ stream_lines (stream_rest xs @ ys)"
  "stream_rest (xs @ ys) = stream_rest (stream_rest xs @ ys)"
  by (simp_all add: stream_lines_def stream_rest_def split_sep_append [of _ xs ys])

lemma with_offsets_snoc:
  "with_offsets start (ls @ [l]) =
     with_offsets start ls @ [(start + of_nat (sum_list (map (\<lambda>l. length l + 1) ls)), strip_cr l)]"
  by (induction ls arbitrary: start) (simp_all add: algebra_simps)

lemma block_events_snoc: "block_events n (bs @ [b]) = block_events n bs @ [block_event (n + of_nat (length bs)) b]"
  by (induction bs arbitrary: n) (simp_all add: algebra_simps)

lemma length_block_events [simp]: "length (block_events n bs) = length bs"
  by (induction bs arbitrary: n) simp_all

lemma fold_apply_field_view:
  "fold apply_field fs (e\<lparr>ev_SourceChunkSequences := c\<rparr>, d) =
     map_prod (\<lambda>e. e\<lparr>ev_SourceChunkSequences := c\<rparr>) id (fold apply_field fs (e, d))"
proof (induction fs arbitrary: e d)
  case (Cons f fs)
  have "apply_field f (e\<lparr>ev_SourceChunkSequences := c\<rparr>, d) =
      map_prod (\<lambda>e. e\<lparr>ev_SourceChunkSequences := c\<rparr>) id (apply_field f (e, d))"
    by (auto simp: apply_field_def split: option.splits)
  with Cons.IH show ?case by (cases "apply_field f (e, d)") simp
qed simp

lemma event_view_make_event: "event_view (make_event n off fs cs) = make_event n off fs []"
proof -
  let ?e = "\<lparr>ev_Sequence = n, ev_EventOffset = off, ev_Event = [], ev_Data = [], ev_ID = [], ev_RetryMillis = None,
          ev_Fields = fs, ev_Issues = [], ev_SourceChunkSequences = cs\<rparr>"
  have "fold apply_field fs (?e\<lparr>ev_SourceChunkSequences := []\<rparr>, []) =
      map_prod (\<lambda>e. e\<lparr>ev_SourceChunkSequences := []\<rparr>) id (fold apply_field fs (?e, []))"
    by (rule fold_apply_field_view)
  then show ?thesis unfolding make_event_def event_view_def by (cases "fold apply_field fs (?e, [])") simp
qed

section \<open>Simulation\<close>

definition consumed :: "string list \<Rightarrow> nat" where
  "consumed ls = sum_list (map (\<lambda>l. length l + 1) ls)"

text \<open>The assembler after the lines \<open>ls\<close> of a stream that starts at \<open>start\<close>, with the events emitted so far.\<close>

definition line_sim :: "sse_assembler \<Rightarrow> i64 \<Rightarrow> string list \<Rightarrow> sse_event list \<Rightarrow> bool" where
  "line_sim a start ls es \<longleftrightarrow>
     sa_processedOffset a = start + of_nat (consumed ls) \<and>
     sa_currentFields a = map (parse_field \<circ> snd) (pending_block start ls) \<and>
     (pending_block start ls \<noteq> [] \<longrightarrow> sa_currentOffset a = fst (hd (pending_block start ls))) \<and>
     map event_view es = reference_events start ls \<and>
     sa_nextEventSequence a = 1 + of_nat (length es)"

lemma consumed_snoc [simp]: "consumed (ls @ [l]) = consumed ls + (length l + 1)"
  by (simp add: consumed_def)

lemma line_blocks_snoc:
  "line_blocks start (ls @ [l]) =
     (if strip_cr l = [] then (fst (line_blocks start ls) @ [snd (line_blocks start ls)], [])
      else (fst (line_blocks start ls), snd (line_blocks start ls) @ [(start + of_nat (consumed ls), strip_cr l)]))"
  by (simp add: line_blocks_def with_offsets_snoc split_sep_snoc consumed_def)

lemma pending_block_snoc:
  "pending_block start (ls @ [l]) =
     (if strip_cr l = [] then [] else pending_block start ls @
        (if has_prefix (strip_cr l) '':'' then [] else [(start + of_nat (consumed ls), strip_cr l)]))"
  by (simp add: pending_block_def line_blocks_snoc content_def)

lemma reference_events_snoc:
  "reference_events start (ls @ [l]) =
     (if strip_cr l = [] \<and> pending_block start ls \<noteq> []
      then reference_events start ls @ [block_event (1 + of_nat (length (reference_events start ls))) (pending_block start ls)]
      else reference_events start ls)"
  by (simp add: reference_events_def line_blocks_snoc pending_block_def block_events_snoc)

lemma consumeLine_sim:
  assumes "line_sim a start ls es" and a1: "sa_currentFields a1 = sa_currentFields a"
    "sa_currentOffset a1 = sa_currentOffset a" "sa_nextEventSequence a1 = sa_nextEventSequence a"
    "sa_processedOffset a1 = sa_processedOffset a + of_nat (length l + 1)"
    and c: "consumeLine a1 (strip_cr l) (sa_processedOffset a) = (a2, emitted)"
  shows "line_sim a2 start (ls @ [l]) (es @ (case emitted of None \<Rightarrow> [] | Some e \<Rightarrow> [e]))"
proof -
  note s = assms(1) [unfolded line_sim_def]
  have len: "length es = length (reference_events start ls)" using s by (metis length_map)
  have off: "sa_processedOffset a1 = start + of_nat (consumed (ls @ [l]))" using s a1(4) by simp
  show ?thesis
  proof (cases "strip_cr l = []")
    case True
    show ?thesis
    proof (cases "pending_block start ls = []")
      case none: True
      then have "emitted = None" "a2 = a1\<lparr>sa_currentBytes := 0, sa_currentChunks := []\<rparr>"
        using c True s a1 by (auto simp: consumeLine_def dispatch_def)
      with s off none True a1 show ?thesis by (simp add: line_sim_def pending_block_snoc reference_events_snoc)
    next
      case some: False
      then have e: "emitted = Some (make_event (sa_nextEventSequence a) (sa_currentOffset a) (sa_currentFields a)
          (sa_currentChunks a1))" "sa_nextEventSequence a2 = sa_nextEventSequence a + 1" "sa_currentFields a2 = []"
          "sa_processedOffset a2 = sa_processedOffset a1"
        using c True s a1 by (auto simp: consumeLine_def dispatch_def)
      then show ?thesis using s off some True len
        by (simp add: line_sim_def pending_block_snoc reference_events_snoc event_view_make_event block_event_def)
    qed
  next
    case False
    then have e: "emitted = None" "sa_nextEventSequence a2 = sa_nextEventSequence a"
      "sa_processedOffset a2 = sa_processedOffset a1"
      "sa_currentFields a2 = sa_currentFields a @ (if has_prefix (strip_cr l) '':'' then [] else [parse_field (strip_cr l)])"
      "sa_currentOffset a2 = (if has_prefix (strip_cr l) '':'' \<or> sa_currentFields a \<noteq> [] then sa_currentOffset a
         else sa_processedOffset a)"
      using c a1 by (auto simp: consumeLine_def split: if_splits)
    then show ?thesis using s off False
      by (auto simp: line_sim_def pending_block_snoc reference_events_snoc hd_append)
  qed
qed

lemma addCurrentChunk_fields [simp]:
  "sa_currentFields (addCurrentChunk n a) = sa_currentFields a" "sa_currentOffset (addCurrentChunk n a) = sa_currentOffset a"
  "sa_nextEventSequence (addCurrentChunk n a) = sa_nextEventSequence a"
  "sa_processedOffset (addCurrentChunk n a) = sa_processedOffset a" "sa_started (addCurrentChunk n a) = sa_started a"
  "sa_nextByteOffset (addCurrentChunk n a) = sa_nextByteOffset a" "sa_maxBufferBytes (addCurrentChunk n a) = sa_maxBufferBytes a"
  "sa_nextChunkSequence (addCurrentChunk n a) = sa_nextChunkSequence a" "sa_currentBytes (addCurrentChunk n a) = sa_currentBytes a"
  "line_sim (addCurrentChunk n a) start ls es = line_sim a start ls es"
  by (simp_all add: addCurrentChunk_def line_sim_def)

text \<open>What a successful line check and a consumed line leave alone.\<close>

lemma line_limits_fields:
  "sa_currentFields (fst (line_limits a l)) = sa_currentFields a" "sa_currentOffset (fst (line_limits a l)) = sa_currentOffset a"
  "sa_nextEventSequence (fst (line_limits a l)) = sa_nextEventSequence a"
  "sa_processedOffset (fst (line_limits a l)) = sa_processedOffset a" "sa_started (fst (line_limits a l)) = sa_started a"
  "sa_nextByteOffset (fst (line_limits a l)) = sa_nextByteOffset a" "sa_maxBufferBytes (fst (line_limits a l)) = sa_maxBufferBytes a"
  "sa_nextChunkSequence (fst (line_limits a l)) = sa_nextChunkSequence a"
  by (simp_all add: line_limits_def Let_def)

lemma consumeLine_fields:
  "sa_started (fst (consumeLine a l n)) = sa_started a" "sa_nextByteOffset (fst (consumeLine a l n)) = sa_nextByteOffset a"
  "sa_maxBufferBytes (fst (consumeLine a l n)) = sa_maxBufferBytes a"
  "sa_nextChunkSequence (fst (consumeLine a l n)) = sa_nextChunkSequence a"
  by (simp_all add: consumeLine_def dispatch_def)

lemma next_line_fields:
  "sa_currentFields (fst (next_line a)) = sa_currentFields a" "sa_currentOffset (fst (next_line a)) = sa_currentOffset a"
  "sa_nextEventSequence (fst (next_line a)) = sa_nextEventSequence a" "sa_started (fst (next_line a)) = sa_started a"
  "sa_nextByteOffset (fst (next_line a)) = sa_nextByteOffset a" "sa_maxBufferBytes (fst (next_line a)) = sa_maxBufferBytes a"
  "sa_nextChunkSequence (fst (next_line a)) = sa_nextChunkSequence a" "sa_currentBytes (fst (next_line a)) = sa_currentBytes a"
  by (simp_all add: next_line_def Let_def)

text \<open>The part of the assembler that only \<open>Feed\<close> itself changes.\<close>

definition same_frame :: "sse_assembler \<Rightarrow> sse_assembler \<Rightarrow> bool" where
  "same_frame a b \<longleftrightarrow> sa_started a = sa_started b \<and> sa_nextByteOffset a = sa_nextByteOffset b \<and>
     sa_maxBufferBytes a = sa_maxBufferBytes b \<and> sa_nextChunkSequence a = sa_nextChunkSequence b"

lemma feed_iteration:
  assumes "next_line (addCurrentChunk n a) = (a1, line, off)" "line_limits a1 line = (a2, None)"
    "consumeLine a2 line off = (a3, emitted)"
  shows "sa_buffer a3 = drop (length (takeWhile (\<lambda>c. c \<noteq> newline) (sa_buffer a)) + 1) (sa_buffer a)" and "same_frame a3 a"
    and "line_sim a start ls es \<Longrightarrow> line_sim a3 start (ls @ [takeWhile (\<lambda>c. c \<noteq> newline) (sa_buffer a)])
          (es @ (case emitted of None \<Rightarrow> [] | Some e \<Rightarrow> [e]))"
proof -
  let ?raw = "takeWhile (\<lambda>c. c \<noteq> newline) (sa_buffer a)"
  have n: "a1 = fst (next_line (addCurrentChunk n a))" "line = strip_cr ?raw" "off = sa_processedOffset a"
    "sa_buffer a1 = drop (length ?raw + 1) (sa_buffer a)" "sa_processedOffset a1 = sa_processedOffset a + of_nat (length ?raw + 1)"
    using assms(1) by (auto simp: next_line_def Let_def)
  have l: "a2 = fst (line_limits a1 line)" and c: "a3 = fst (consumeLine a2 line off)" using assms(2,3) by simp_all
  show "sa_buffer a3 = drop (length ?raw + 1) (sa_buffer a)" by (simp add: c l n(4))
  show "same_frame a3 a"
    by (simp add: same_frame_def c l consumeLine_fields line_limits_fields n(1) next_line_fields)
  show "line_sim a3 start (ls @ [?raw]) (es @ (case emitted of None \<Rightarrow> [] | Some e \<Rightarrow> [e]))" if "line_sim a start ls es"
  proof (rule consumeLine_sim [OF that])
    show "consumeLine a2 (strip_cr ?raw) (sa_processedOffset a) = (a3, emitted)" using assms(3) n by simp
  qed (simp_all add: l line_limits_fields n(5)  n(1) [THEN arg_cong [where f = sa_currentFields]]
      n(1) [THEN arg_cong [where f = sa_currentOffset]] n(1) [THEN arg_cong [where f = sa_nextEventSequence]] next_line_fields)
qed

lemma same_frame_trans: "same_frame a b \<Longrightarrow> same_frame b c \<Longrightarrow> same_frame a c"
  by (simp add: same_frame_def)

lemma feed_loop_sim:
  "feed_loop n a es = (a', Inr es') \<Longrightarrow> line_sim a start ls (before @ es) \<Longrightarrow>
     line_sim a' start (ls @ stream_lines (sa_buffer a)) (before @ es') \<and> sa_buffer a' = stream_rest (sa_buffer a) \<and>
     same_frame a' a"
proof (induction n a es arbitrary: ls rule: feed_loop.induct)
  case (1 n a es)
  show ?case
  proof (cases "newline \<in> set (sa_buffer a)")
    case False
    with 1(2,3) show ?thesis
      by (auto simp: feed_loop.simps [of n a] stream_no_line same_frame_def split: if_splits)
  next
    case True
    obtain a1 line off where nl: "next_line (addCurrentChunk n a) = (a1, line, off)" by (metis prod_cases3)
    obtain a2 le where ll: "line_limits a1 line = (a2, le)" by fastforce
    have le: "le = None" using 1(2) True nl ll by (auto simp: feed_loop.simps [of n a] split: option.splits)
    note ll = ll [unfolded le]
    obtain a3 emitted where cl: "consumeLine a2 line off = (a3, emitted)" by fastforce
    let ?es = "es @ (case emitted of None \<Rightarrow> [] | Some e \<Rightarrow> [e])"
    let ?raw = "takeWhile (\<lambda>c. c \<noteq> newline) (sa_buffer a)"
    have run: "feed_loop n a3 ?es = (a', Inr es')" using 1(2) True nl ll cl by (simp add: feed_loop.simps [of n a])
    note it = feed_iteration [OF nl ll cl]
    have "line_sim a3 start (ls @ [?raw]) (before @ ?es)" using it(3) [OF 1(3)] by simp
    note IH = 1(1) [OF _ nl [symmetric] refl ll [symmetric] refl cl [symmetric] run this]
    show ?thesis using IH True stream_lines_cut [OF True] it(1,2) by (auto intro: same_frame_trans)
  qed
qed

lemma line_limits_ok:
  "sa_currentBytes a + length line + 1 \<le> sa_maxBufferBytes a \<Longrightarrow> length (sa_currentFields a) < maxSSEFieldsPerEvent \<Longrightarrow>
     line_limits a line = (if line = [] then a else a\<lparr>sa_currentBytes := sa_currentBytes a + length line + 1\<rparr>, None)"
  by (simp add: line_limits_def Let_def)

lemma consumeLine_bytes:
  "sa_currentBytes (fst (consumeLine a line off)) \<le> sa_currentBytes a"
  "length (sa_currentFields (fst (consumeLine a line off))) \<le> Suc (length (sa_currentFields a))"
  by (simp_all add: consumeLine_def dispatch_def)

lemma strip_cr_length: "length (strip_cr l) \<le> length l"
  by (simp add: strip_cr_def)

lemma takeWhile_newline_shorter: "newline \<in> set xs \<Longrightarrow> length (takeWhile (\<lambda>c. c \<noteq> newline) xs) < length xs"
  by (induction xs) auto

lemma feed_loop_ok:
  "sa_currentBytes a + length (sa_buffer a) \<le> sa_maxBufferBytes a \<Longrightarrow>
     length (sa_currentFields a) + length (stream_lines (sa_buffer a)) \<le> maxSSEFieldsPerEvent \<Longrightarrow>
     \<exists>a' es'. feed_loop n a es = (a', Inr es') \<and>
       sa_currentBytes a' + length (sa_buffer a') \<le> sa_currentBytes a + length (sa_buffer a) \<and>
       length (sa_currentFields a') \<le> length (sa_currentFields a) + length (stream_lines (sa_buffer a))"
proof (induction n a es rule: feed_loop.induct)
  case (1 n a es)
  show ?case
  proof (cases "newline \<in> set (sa_buffer a)")
    case False
    with 1(2) show ?thesis by (simp add: feed_loop.simps [of n a])
  next
    case True
    let ?raw = "takeWhile (\<lambda>c. c \<noteq> newline) (sa_buffer a)"
    obtain a1 line off where nl: "next_line (addCurrentChunk n a) = (a1, line, off)" by (metis prod_cases3)
    then have a1: "a1 = fst (next_line (addCurrentChunk n a))" "line = strip_cr ?raw" by (auto simp: next_line_def Let_def)
    have raw: "length ?raw < length (sa_buffer a)"
      by (rule takeWhile_newline_shorter [OF True])
    have cut: "length (stream_lines (sa_buffer a)) = Suc (length (stream_lines (drop (length ?raw + 1) (sa_buffer a))))"
      using stream_lines_cut(1) [OF True] by simp
    have "sa_currentBytes a1 + length line + 1 \<le> sa_maxBufferBytes a1" "length (sa_currentFields a1) < maxSSEFieldsPerEvent"
      using 1(2,3) raw strip_cr_length [of ?raw] cut by (simp_all add: a1 next_line_fields)
    from line_limits_ok [OF this] obtain a2 where ll: "line_limits a1 line = (a2, None)"
      and a2: "sa_currentBytes a2 \<le> sa_currentBytes a + length ?raw + 1" "sa_currentFields a2 = sa_currentFields a"
        "sa_maxBufferBytes a2 = sa_maxBufferBytes a"
      using strip_cr_length [of ?raw] by (cases "line = []") (auto simp: a1 next_line_fields)
    obtain a3 emitted where cl: "consumeLine a2 line off = (a3, emitted)" by fastforce
    let ?es = "es @ (case emitted of None \<Rightarrow> [] | Some e \<Rightarrow> [e])"
    have run: "feed_loop n a es = feed_loop n a3 ?es" using True nl ll cl by (simp add: feed_loop.simps [of n a])
    have buf: "sa_buffer a3 = drop (length ?raw + 1) (sa_buffer a)" by (rule feed_iteration(1) [OF nl ll cl])
    have a3: "sa_currentBytes a3 \<le> sa_currentBytes a2" "length (sa_currentFields a3) \<le> Suc (length (sa_currentFields a))"
      "sa_maxBufferBytes a3 = sa_maxBufferBytes a"
      using consumeLine_bytes [of a2 line off] consumeLine_fields(3) [of a2 line off] cl a2 by simp_all
    have "sa_currentBytes a3 + length (sa_buffer a3) \<le> sa_currentBytes a + length (sa_buffer a)"
      using a3 a2 raw by (simp add: buf)
    moreover have "length (sa_currentFields a3) + length (stream_lines (sa_buffer a3)) \<le>
        length (sa_currentFields a) + length (stream_lines (sa_buffer a))"
      using a3(2) cut by (simp add: buf)
    ultimately show ?thesis
      using 1(1) [OF _ nl [symmetric] refl ll [symmetric] refl cl [symmetric]] True 1(2,3) a3(3)
      by (fastforce simp: run)
  qed
qed

section \<open>Whole streams\<close>

fun feed_all :: "sse_assembler \<Rightarrow> read_chunk list \<Rightarrow> (sse_event list \<times> sse_assembler) res" where
  "feed_all a [] = Inr ([], a)"
| "feed_all a (c # cs) =
     (case Feed a c of
        (a', Inl e) \<Rightarrow> Inl e
      | (a', Inr es) \<Rightarrow> bind_res (feed_all a' cs) (\<lambda>(es', a''). Inr (es @ es', a'')))"

definition stream_of :: "read_chunk list \<Rightarrow> string" where
  "stream_of cs = concat (map rk_Data cs)"

text \<open>Reads as a transport makes them: numbered without gaps, contiguous, nonempty.\<close>

fun chunked :: "u64 \<Rightarrow> i64 \<Rightarrow> read_chunk list \<Rightarrow> bool" where
  "chunked n off [] \<longleftrightarrow> True"
| "chunked n off (c # cs) \<longleftrightarrow> rk_Sequence c = n \<and> rk_ByteOffset c = off \<and> 0 \<le> sint off \<and> rk_Data c \<noteq> [] \<and>
     chunked (n + 1) (off + of_nat (length (rk_Data c))) cs"

definition sse_sim :: "sse_assembler \<Rightarrow> i64 \<Rightarrow> string \<Rightarrow> sse_event list \<Rightarrow> bool" where
  "sse_sim a start bytes es \<longleftrightarrow> sa_started a \<and> line_sim a start (stream_lines bytes) es \<and> sa_buffer a = stream_rest bytes"

lemma stream_simps [simp]: "stream_lines [] = []" "stream_rest [] = []" "stream_of [] = []"
  "stream_of (c # cs) = rk_Data c @ stream_of cs"
  by (simp_all add: stream_lines_def stream_rest_def stream_of_def)

lemma line_sim_cong:
  "sa_processedOffset b = sa_processedOffset a \<Longrightarrow> sa_currentFields b = sa_currentFields a \<Longrightarrow>
     sa_currentOffset b = sa_currentOffset a \<Longrightarrow> sa_nextEventSequence b = sa_nextEventSequence a \<Longrightarrow>
     line_sim b start ls es = line_sim a start ls es"
  by (simp add: line_sim_def)

text \<open>The assembler with a read that passed the checks at the head of \<open>Feed\<close>.\<close>

definition received :: "sse_assembler \<Rightarrow> read_chunk \<Rightarrow> sse_assembler" where
  "received a c = a\<lparr>sa_buffer := sa_buffer a @ rk_Data c, sa_nextChunkSequence := sa_nextChunkSequence a + 1,
     sa_nextByteOffset := sa_nextByteOffset a + of_nat (length (rk_Data c))\<rparr>"

lemma Feed_started:
  "sa_started a \<Longrightarrow> Feed a c = (a', Inr es) \<Longrightarrow> feed_loop (rk_Sequence c) (received a c) [] = (a', Inr es)"
  by (auto simp: Feed_def received_def split: if_splits)

lemma Feed_first:
  "\<not> sa_started a \<Longrightarrow>
     Feed a c = (if rk_Sequence c \<noteq> sa_nextChunkSequence a then (a, Inl (Err ''read chunk sequence''))
       else if sint (rk_ByteOffset c) < 0 \<or> rk_Data c = [] then
         (a, Inl (Err ''read chunk requires nonnegative offset and nonempty data''))
       else Feed (a\<lparr>sa_started := True, sa_nextByteOffset := rk_ByteOffset c, sa_processedOffset := rk_ByteOffset c\<rparr>) c)"
  by (simp add: Feed_def Let_def)

lemma Feed_sim:
  assumes sim: "sse_sim a start bytes es" and feed: "Feed a c = (a', Inr es')"
  shows "sse_sim a' start (bytes @ rk_Data c) (es @ es')" "same_frame a' (received a c)"
proof -
  have loop: "feed_loop (rk_Sequence c) (received a c) [] = (a', Inr es')"
    using sim feed by (intro Feed_started) (simp_all add: sse_sim_def)
  have "line_sim (received a c) start (stream_lines bytes) (es @ [])"
    using sim by (simp add: sse_sim_def received_def line_sim_def)
  note r = feed_loop_sim [OF loop this]
  have buf: "sa_buffer (received a c) = stream_rest bytes @ rk_Data c" using sim by (simp add: sse_sim_def received_def)
  show "same_frame a' (received a c)" using r by simp
  then have "sa_started a'" using sim by (simp add: same_frame_def received_def sse_sim_def)
  with r show "sse_sim a' start (bytes @ rk_Data c) (es @ es')"
    by (simp add: sse_sim_def buf stream_append [of bytes])
qed

lemma feed_all_sim:
  "sse_sim a start bytes es \<Longrightarrow> feed_all a cs = Inr (es', a') \<Longrightarrow> sse_sim a' start (bytes @ stream_of cs) (es @ es')"
proof (induction cs arbitrary: a bytes es es')
  case (Cons c cs)
  obtain a1 es1 es2 where f: "Feed a c = (a1, Inr es1)" "feed_all a1 cs = Inr (es2, a')" "es' = es1 @ es2"
    using Cons.prems(2) by (auto simp: bind_res_Inr split: prod.splits sum.splits)
  from Cons.IH [OF Feed_sim(1) [OF Cons.prems(1) f(1)] f(2)] f(3) show ?case by simp
qed simp

lemma Feed_ok:
  assumes sim: "sse_sim a start bytes es" and c: "chunked (sa_nextChunkSequence a) (sa_nextByteOffset a) (c # cs)"
    and room: "sa_currentBytes a + length (sa_buffer a @ rk_Data c) \<le> sa_maxBufferBytes a"
      "length (sa_currentFields a) + length (stream_lines (sa_buffer a @ rk_Data c)) \<le> maxSSEFieldsPerEvent"
  obtains a' es' where "Feed a c = (a', Inr es')"
    "sa_currentBytes a' + length (sa_buffer a') \<le> sa_currentBytes a + length (sa_buffer a @ rk_Data c)"
    "length (sa_currentFields a') \<le> length (sa_currentFields a) + length (stream_lines (sa_buffer a @ rk_Data c))"
    "sa_nextChunkSequence a' = sa_nextChunkSequence a + 1"
    "sa_nextByteOffset a' = sa_nextByteOffset a + of_nat (length (rk_Data c))" "sa_maxBufferBytes a' = sa_maxBufferBytes a"
    "sa_buffer a' = stream_rest (sa_buffer a @ rk_Data c)"
proof -
  have "Feed a c = feed_loop (rk_Sequence c) (received a c) []"
    using sim c room by (simp add: Feed_def received_def sse_sim_def)
  moreover obtain a' es' where loop: "feed_loop (rk_Sequence c) (received a c) [] = (a', Inr es')"
    "sa_currentBytes a' + length (sa_buffer a') \<le> sa_currentBytes a + length (sa_buffer a @ rk_Data c)"
    "length (sa_currentFields a') \<le> length (sa_currentFields a) + length (stream_lines (sa_buffer a @ rk_Data c))"
    using feed_loop_ok [of "received a c" "rk_Sequence c" "[]"] room by (auto simp: received_def)
  ultimately have feed: "Feed a c = (a', Inr es')" by simp
  note r = Feed_sim [OF sim feed]
  have "sa_buffer a' = stream_rest (sa_buffer a @ rk_Data c)"
    using r(1) sim by (simp add: sse_sim_def stream_append [of bytes])
  with feed loop r(2) show ?thesis by (intro that) (simp_all add: same_frame_def received_def)
qed

lemma feed_all_ok:
  "sse_sim a start bytes es \<Longrightarrow> chunked (sa_nextChunkSequence a) (sa_nextByteOffset a) cs \<Longrightarrow>
     sa_currentBytes a + length (sa_buffer a @ stream_of cs) \<le> sa_maxBufferBytes a \<Longrightarrow>
     length (sa_currentFields a) + length (stream_lines (sa_buffer a @ stream_of cs)) \<le> maxSSEFieldsPerEvent \<Longrightarrow>
     \<exists>es' a'. feed_all a cs = Inr (es', a')"
proof (induction cs arbitrary: a bytes es)
  case (Cons c cs)
  have lines: "stream_lines (sa_buffer a @ rk_Data c @ stream_of cs) =
      stream_lines (sa_buffer a @ rk_Data c) @ stream_lines (stream_rest (sa_buffer a @ rk_Data c) @ stream_of cs)"
    using stream_append(1) [of "sa_buffer a @ rk_Data c" "stream_of cs"] by simp
  obtain a' es' where f: "Feed a c = (a', Inr es')"
    "sa_currentBytes a' + length (sa_buffer a') \<le> sa_currentBytes a + length (sa_buffer a @ rk_Data c)"
    "length (sa_currentFields a') \<le> length (sa_currentFields a) + length (stream_lines (sa_buffer a @ rk_Data c))"
    "sa_nextChunkSequence a' = sa_nextChunkSequence a + 1"
    "sa_nextByteOffset a' = sa_nextByteOffset a + of_nat (length (rk_Data c))" "sa_maxBufferBytes a' = sa_maxBufferBytes a"
    "sa_buffer a' = stream_rest (sa_buffer a @ rk_Data c)"
    by (rule Feed_ok [OF Cons.prems(1,2)]) (use Cons.prems(3,4) lines in auto)
  have "\<exists>es2 a2. feed_all a' cs = Inr (es2, a2)"
  proof (rule Cons.IH [OF Feed_sim(1) [OF Cons.prems(1) f(1)]])
    show "chunked (sa_nextChunkSequence a') (sa_nextByteOffset a') cs" using Cons.prems(2) by (simp add: f)
    show "sa_currentBytes a' + length (sa_buffer a' @ stream_of cs) \<le> sa_maxBufferBytes a'"
      using f(2,6) Cons.prems(3) by simp
    show "length (sa_currentFields a') + length (stream_lines (sa_buffer a' @ stream_of cs)) \<le> maxSSEFieldsPerEvent"
      using f(3,7) Cons.prems(4) lines by simp
  qed
  with f(1) show ?case by auto
qed simp

text \<open>The assembler after the checks on the first read of a stream.\<close>

definition first_state :: "int \<Rightarrow> i64 \<Rightarrow> sse_assembler" where
  "first_state m off = (NewSSEAssembler m)\<lparr>sa_started := True, sa_nextByteOffset := off, sa_processedOffset := off\<rparr>"

lemma first_state_sim: "sse_sim (first_state m off) off [] []"
  by (simp add: sse_sim_def first_state_def NewSSEAssembler_def line_sim_def consumed_def pending_block_def
      line_blocks_def content_def reference_events_def)

lemma NewSSEAssembler_fields [simp]: "\<not> sa_started (NewSSEAssembler m)" "sa_nextChunkSequence (NewSSEAssembler m) = 1"
  "sa_currentBytes (NewSSEAssembler m) = 0" "sa_buffer (NewSSEAssembler m) = []" "sa_currentFields (NewSSEAssembler m) = []"
  by (simp_all add: NewSSEAssembler_def)

lemma feed_all_first:
  "feed_all (NewSSEAssembler m) (c # cs) = Inr r \<Longrightarrow> feed_all (first_state m (rk_ByteOffset c)) (c # cs) = Inr r"
  unfolding feed_all.simps Feed_first [OF NewSSEAssembler_fields(1)] first_state_def by (simp split: if_splits)

lemma feed_all_first_ok:
  "chunked 1 off (c # cs) \<Longrightarrow> feed_all (NewSSEAssembler m) (c # cs) = feed_all (first_state m off) (c # cs)"
  unfolding feed_all.simps Feed_first [OF NewSSEAssembler_fields(1)] first_state_def by simp

section \<open>Properties\<close>

text \<open>
  C34.  The assembler computes the reference meaning of the stream however it is cut into reads.
  Whenever all reads of a stream are accepted, the emitted events are, up to their source chunks,
  the events of the reference definition on the concatenated bytes, so any other accepted cut of
  the same bytes gives the same events; and \<open>Finish\<close> reports the bytes after the last newline and the
  fields of the unfinished event, which are never dispatched.  Reads that are numbered and
  contiguous are all accepted as long as the stream fits the buffer and has at most 1024 lines.
\<close>

theorem sse_assembles_reference:
  "(\<forall>es a. feed_all (NewSSEAssembler m) (c # cs) = Inr (es, a) \<longrightarrow>
      map event_view es = reference_events (rk_ByteOffset c) (stream_lines (stream_of (c # cs))) \<and>
      st_BufferedBytes (Finish a) = length (stream_rest (stream_of (c # cs))) \<and>
      st_PendingFieldCount (Finish a) = length (pending_block (rk_ByteOffset c) (stream_lines (stream_of (c # cs))))) \<and>
   (chunked 1 off (c # cs) \<and> int (length (stream_of (c # cs))) \<le> m \<and> length (stream_lines (stream_of (c # cs))) \<le> 1024 \<longrightarrow>
      (\<exists>es a. feed_all (NewSSEAssembler m) (c # cs) = Inr (es, a)))"
proof (intro conjI allI impI)
  fix es a
  assume "feed_all (NewSSEAssembler m) (c # cs) = Inr (es, a)"
  from feed_all_sim [OF first_state_sim feed_all_first [OF this]]
  have sim: "line_sim a (rk_ByteOffset c) (stream_lines (stream_of (c # cs))) es" "sa_buffer a = stream_rest (stream_of (c # cs))"
    by (simp_all add: sse_sim_def)
  then show "map event_view es = reference_events (rk_ByteOffset c) (stream_lines (stream_of (c # cs)))"
    "st_BufferedBytes (Finish a) = length (stream_rest (stream_of (c # cs)))"
    "st_PendingFieldCount (Finish a) = length (pending_block (rk_ByteOffset c) (stream_lines (stream_of (c # cs))))"
    by (simp_all add: line_sim_def Finish_def)
next
  assume ok: "chunked 1 off (c # cs) \<and> int (length (stream_of (c # cs))) \<le> m \<and> length (stream_lines (stream_of (c # cs))) \<le> 1024"
  have "0 < m" using ok by (cases "rk_Data c") auto
  then have "sa_maxBufferBytes (first_state m off) = nat m" by (simp add: first_state_def NewSSEAssembler_def)
  then have "\<exists>es a. feed_all (first_state m off) (c # cs) = Inr (es, a)"
    using ok by (intro feed_all_ok [OF first_state_sim]) (auto simp: first_state_def maxSSEFieldsPerEvent_def)
  then show "\<exists>es a. feed_all (NewSSEAssembler m) (c # cs) = Inr (es, a)" using feed_all_first_ok [of off c cs m] ok by simp
qed

definition split_reads :: "read_chunk list" where
  "split_reads = [\<lparr>rk_Sequence = 1, rk_ByteOffset = 0, rk_Data = ''da''\<rparr>,
     \<lparr>rk_Sequence = 2, rk_ByteOffset = 2, rk_Data = ''ta: hi'' @ [newline, newline]\<rparr>]"

lemma split_reads_reference:
  "map ev_Data (reference_events 0 (stream_lines (stream_of split_reads))) = [''hi'']"
  by code_simp

lemma split_reads_ok:
  "chunked 1 0 split_reads" "int (length (stream_of split_reads)) \<le> 64" "length (stream_lines (stream_of split_reads)) \<le> 1024"
  by code_simp+

theorem sse_assembles_reference_witness:
  "\<exists>es a. feed_all (NewSSEAssembler 64) split_reads = Inr (es, a) \<and> map ev_Data (map event_view es) = [''hi'']"
proof -
  let ?c = "\<lparr>rk_Sequence = 1, rk_ByteOffset = 0, rk_Data = ''da''\<rparr>"
  let ?d = "\<lparr>rk_Sequence = 2, rk_ByteOffset = 2, rk_Data = ''ta: hi'' @ [newline, newline]\<rparr>"
  have r: "split_reads = ?c # [?d]" by (simp add: split_reads_def)
  note P = sse_assembles_reference [of 64 ?c "[?d]" 0, folded r]
  from P split_reads_ok obtain es a where ok: "feed_all (NewSSEAssembler 64) split_reads = Inr (es, a)" by auto
  with P have "map event_view es = reference_events 0 (stream_lines (stream_of split_reads))" by simp
  with ok split_reads_reference show ?thesis by metis
qed

text \<open>
  A read that ends exactly at the end of an event is also recorded as a source of the next event,
  to which it contributed no byte.
\<close>

theorem sse_source_chunks_overreported:
  "map_sum id (\<lambda>(es, _). map ev_SourceChunkSequences es) (feed_all (NewSSEAssembler 64)
     [\<lparr>rk_Sequence = 1, rk_ByteOffset = 0, rk_Data = ''data: a'' @ [newline, newline]\<rparr>,
      \<lparr>rk_Sequence = 2, rk_ByteOffset = 9, rk_Data = ''data: b'' @ [newline, newline]\<rparr>]) = Inr [[1], [1, 2]]"
  by code_simp

end
