(* ===== verification/RawScenario.thy ===== *)
theory RawScenario
  imports Executor Normalizer SseAssembler
begin

text \<open>
  Package \<open>rawdriver\<close>, the scenarios (\<open>internal/rawdriver/registry.go\<close>, and the accessors of decoded
  JSON of \<open>internal/rawdriver/evaluate.go\<close>): the data of a raw HTTP scenario, its validation, and the
  registry that binds scenarios to the digest of a plan.

  The registry hands out copies (\<open>cloneScenario\<close>); scenarios are values here, so a copy is the scenario
  itself, and overwriting the bodies before \<open>Clear\<close> drops them has no effect that a caller can see.  The mutex
  serialises the operations, and the receiver is not nil.  The JSON decoders, \<open>url.ParseRequestURI\<close> and
  \<open>mime.ParseMediaType\<close> are parameters.
\<close>

section \<open>Decoded JSON\<close>

text \<open>
  A \<open>map[string]any\<close>; \<open>None\<close> is the nil map, which is what the JSON text \<open>null\<close> decodes to.  Both an
  absent field and a null are the nil interface.
\<close>

type_synonym go_object = "(string, json_value) gomap option"

definition member :: "go_object \<Rightarrow> string \<Rightarrow> json_value" where
  "member m k = (case m of None \<Rightarrow> JNull | Some m1 \<Rightarrow> (case aget m1 k of None \<Rightarrow> JNull | Some v \<Rightarrow> v))"

definition has_member :: "go_object \<Rightarrow> string \<Rightarrow> bool" where
  "has_member m k = (case m of None \<Rightarrow> False | Some m1 \<Rightarrow> ahas m1 k)"

text \<open>
  The parameters: \<open>rj_native\<close> and \<open>rj_value\<close> are the JSON library as the normalizer and the schema oracle use
  it, \<open>rj_object\<close> is the decoding of the first value of a text into a map with \<open>UseNumber\<close>,
  \<open>rj_unmarshal\<close> is \<open>json.Unmarshal\<close> into a map.
\<close>

record raw_json =
  rj_native :: native_json
  rj_value :: "string \<Rightarrow> json_value res"
  rj_object :: "string \<Rightarrow> go_object res"
  rj_unmarshal :: "string \<Rightarrow> go_object res"
  rj_requestURI :: "string \<Rightarrow> parsed_url res"
  rj_mediaType :: "string \<Rightarrow> string res"

definition objectValue :: "json_value \<Rightarrow> go_object" where
  "objectValue v = (case v of JObject m \<Rightarrow> Some m | _ \<Rightarrow> None)"

definition arrayValue :: "json_value \<Rightarrow> json_value list" where
  "arrayValue v = (case v of JArray xs \<Rightarrow> xs | _ \<Rightarrow> [])"

definition firstObject :: "json_value \<Rightarrow> go_object" where
  "firstObject v = (case arrayValue v of [] \<Rightarrow> None | x # _ \<Rightarrow> objectValue x)"

text \<open>\<open>text, ok := stringValue(v)\<close>: \<open>None\<close> is a false \<open>ok\<close>; a use that ignores \<open>ok\<close> reads the empty text.\<close>

definition stringValue :: "json_value \<Rightarrow> string option" where
  "stringValue v = (case v of JString s \<Rightarrow> Some s | _ \<Rightarrow> None)"

definition text_or_empty :: "json_value \<Rightarrow> string" where
  "text_or_empty v = (case stringValue v of Some s \<Rightarrow> s | None \<Rightarrow> [])"

text \<open>With \<open>UseNumber\<close> every number is a \<open>json.Number\<close>, so only that case of the type switch is reached.\<close>

definition integerValue :: "json_value \<Rightarrow> i64 option" where
  "integerValue v = (case v of
     JNumber s \<Rightarrow> (case ParseInt64 s of Some x \<Rightarrow> if 0 \<le> x then Some (word_of_int x) else None | None \<Rightarrow> None)
   | _ \<Rightarrow> None)"

definition indexValue :: "json_value \<Rightarrow> int" where
  "indexValue v = (case integerValue v of None \<Rightarrow> - 1 | Some x \<Rightarrow> sint x)"

definition jsonType :: "json_value \<Rightarrow> string" where
  "jsonType v = (case v of JString _ \<Rightarrow> ''string'' | JObject _ \<Rightarrow> ''object'' | JArray _ \<Rightarrow> ''array''
     | JNumber _ \<Rightarrow> ''number'' | JBool _ \<Rightarrow> ''boolean'' | JNull \<Rightarrow> ''null'')"

text \<open>An integer read from JSON is never negative.\<close>

lemma integerValue_nonneg: "integerValue v = Some x \<Longrightarrow> 0 \<le> sint x"
  by (auto simp: integerValue_def i64_range_def signed_of_int signed_take_bit_int_eq_self
      split: json_value.splits option.splits if_splits dest!: ParseInt64_range)

section \<open>Scenarios\<close>

datatype protocol = ProtocolOpenAIChat | ProtocolOpenAIResponses | ProtocolAnthropic | OtherProtocol string

definition protocol_text :: "protocol \<Rightarrow> string" where
  "protocol_text p = (case p of ProtocolOpenAIChat \<Rightarrow> ''openai-chat'' | ProtocolOpenAIResponses \<Rightarrow> ''openai-responses''
     | ProtocolAnthropic \<Rightarrow> ''anthropic-messages'' | OtherProtocol s \<Rightarrow> s)"

datatype check_kind = CheckArgumentsString | CheckOutputIndexes | CheckStreamingToolCall | CheckFinishReason
  | CheckTerminalEvent | CheckStableToolCallID | CheckNoUnknownEvent | CheckClosedReasoning | CheckUsageConsistent
  | CheckValidUTF8 | CheckRequiredEnvelope | CheckStreamMediaType | CheckNoPostTerminal | OtherCheck string

record token_usage =
  tu_Input :: i64
  tu_Output :: i64
  tu_Total :: "i64 option"

record assertion_spec =
  as_AssertionID :: string
  as_RequirementID :: string
  as_Role :: assertion_role
  as_Oracle :: artifact_pin
  as_EvaluatorDigest :: digest
  as_Check :: check_kind
  as_AllowedValues :: "string list"
  as_ExpectedUsage :: "token_usage option"

record body_budget =
  bb_RequestBytes :: i64
  bb_ResponseBytes :: i64

definition maxScenarioRequestBytes :: int where "maxScenarioRequestBytes = 16 * 2 ^ 20"
definition maxScenarioResponseBytes :: int where "maxScenarioResponseBytes = 64 * 2 ^ 20"

type_synonym http_header = "(string, string list) gomap"

text \<open>\<open>Header.Get\<close> and \<open>Header.Set\<close> with a name in canonical form.\<close>

definition header_Get :: "http_header \<Rightarrow> string \<Rightarrow> string" where
  "header_Get h k = (case aget h k of Some (v # _) \<Rightarrow> v | _ \<Rightarrow> [])"

definition header_Set :: "http_header \<Rightarrow> string \<Rightarrow> string \<Rightarrow> http_header" where
  "header_Set h k v = aput k [v] h"

record scenario =
  rsc_PlanDigest :: digest
  rsc_ID :: string
  rsc_Driver :: artifact_pin
  rsc_Protocol :: protocol
  rsc_Method :: string
  rsc_Path :: string
  rsc_Headers :: http_header
  rsc_Body :: string
  rsc_Streaming :: bool
  rsc_ExpectedStatus :: int
  rsc_Budget :: body_budget
  rsc_Assertion :: assertion_spec

section \<open>The requested output limit\<close>

definition limit_field :: "protocol \<Rightarrow> string option" where
  "limit_field p = (case p of ProtocolOpenAIChat \<Rightarrow> Some ''max_completion_tokens''
     | ProtocolOpenAIResponses \<Rightarrow> Some ''max_output_tokens'' | ProtocolAnthropic \<Rightarrow> Some ''max_tokens'' | OtherProtocol _ \<Rightarrow> None)"

text \<open>\<open>None\<close> is a false third result; no caller reads the others then.\<close>

definition requestedOutputLimit :: "raw_json \<Rightarrow> scenario \<Rightarrow> (string \<times> i64) option" where
  "requestedOutputLimit J s =
     (case limit_field (rsc_Protocol s) of
        None \<Rightarrow> None
      | Some field \<Rightarrow>
          (case rj_object J (rsc_Body s) of
             Inl e \<Rightarrow> None
           | Inr request \<Rightarrow>
               (case integerValue (member request field) of
                  None \<Rightarrow> None
                | Some limit \<Rightarrow> if sint limit > 0 then Some (field, limit) else None)))"

section \<open>Validation\<close>

definition is_token_mark :: "char \<Rightarrow> bool" where
  "is_token_mark c \<longleftrightarrow> c \<in> set ''!#$%&*+-.^_`|~'' \<or> c = CHR 0x27"

text \<open>
  \<open>method != strings.ToUpper(method)\<close> adds nothing to the loop, which admits no lower-case letter and no
  byte outside ASCII.
\<close>

definition validHTTPMethod :: "string \<Rightarrow> bool" where
  "validHTTPMethod m \<longleftrightarrow> m \<noteq> [] \<and> list_all (\<lambda>c. is_upper c \<or> is_digit c \<or> is_token_mark c) m"

definition validHeaderName :: "string \<Rightarrow> bool" where
  "validHeaderName n \<longleftrightarrow> n \<noteq> [] \<and> list_all (\<lambda>c. is_lower c \<or> is_upper c \<or> is_digit c \<or> is_token_mark c) n"

text \<open>\<open>strings.ToLower\<close> on ASCII.\<close>

definition ascii_lower :: "string \<Rightarrow> string" where
  "ascii_lower s = map (\<lambda>c. if is_upper c then char_of (code c + 32) else c) s"

definition controlled_headers :: "string list" where
  "controlled_headers = [''host'', ''content-length'', ''transfer-encoding'', ''connection'', ''proxy-connection'', ''upgrade'']"

definition validateHeaders :: "http_header \<Rightarrow> err" where
  "validateHeaders h = first_err (map (\<lambda>(name, values). first_err
     [fail_if (\<not> validHeaderName name) (Err ''invalid request header name''),
      fail_if (ascii_lower name \<in> set controlled_headers) (Err ''request header is controlled by the origin-bound transport''),
      fail_if (list_ex (list_ex (\<lambda>c. c \<in> {CHR 0x0D, CHR 0x0A, CHR 0x00})) values)
        (Err ''request header contains a forbidden control character'')]) h)"

fun allowed_loop :: "string list \<Rightarrow> string list \<Rightarrow> err" where
  "allowed_loop seen [] = None"
| "allowed_loop seen (v # vs) =
     (if blank v then Some (Err ''allowed finish reasons cannot be empty'')
      else if v \<in> set seen then Some (Err ''allowed finish reasons must be unique'')
      else allowed_loop (v # seen) vs)"

definition known_checks :: "check_kind list" where
  "known_checks = [CheckArgumentsString, CheckOutputIndexes, CheckStreamingToolCall, CheckFinishReason, CheckTerminalEvent,
     CheckStableToolCallID, CheckNoUnknownEvent, CheckClosedReasoning, CheckUsageConsistent, CheckValidUTF8,
     CheckRequiredEnvelope, CheckStreamMediaType, CheckNoPostTerminal]"

definition expectation_check :: "assertion_spec \<Rightarrow> err" where
  "expectation_check a =
     (if as_Check a \<noteq> CheckUsageConsistent then None
      else (case as_ExpectedUsage a of
          None \<Rightarrow> Some (Err ''usage assertion requires a nonnegative exact expectation'')
        | Some u \<Rightarrow> first_err
            [fail_if (sint (tu_Input u) < 0 \<or> sint (tu_Output u) < 0 \<or>
                (case tu_Total u of None \<Rightarrow> False | Some t \<Rightarrow> sint t < 0))
               (Err ''usage assertion requires a nonnegative exact expectation''),
             fail_if (case tu_Total u of None \<Rightarrow> False | Some t \<Rightarrow> t \<noteq> tu_Input u + tu_Output u)
               (Err ''expected usage total must equal input plus output'')]))"

definition validateAssertion :: "assertion_spec \<Rightarrow> err" where
  "validateAssertion a = first_err
     [fail_if (blank (as_AssertionID a)) (Err ''assertion ID is required''),
      fail_if (as_Role a \<noteq> AssertionNormative \<or> blank (as_RequirementID a))
        (Err ''raw-driver assertions must be normative and cite a requirement ID''),
      wrap_err ''oracle pin'' (pin_Validate (as_Oracle a)),
      wrap_err ''evaluator digest'' (digest_Validate (as_EvaluatorDigest a)),
      fail_if (as_Check a \<notin> set known_checks) (Err ''unsupported assertion check''),
      fail_if (as_Check a = CheckFinishReason \<and> as_AllowedValues a = []) (Err ''finish-reason assertion requires allowed values''),
      allowed_loop [] (as_AllowedValues a),
      expectation_check a]"

definition stream_only :: "check_kind list" where
  "stream_only = [CheckOutputIndexes, CheckStreamingToolCall, CheckTerminalEvent, CheckStableToolCallID, CheckNoUnknownEvent,
     CheckClosedReasoning, CheckValidUTF8, CheckStreamMediaType, CheckNoPostTerminal]"

definition validateAssertionApplicability :: "protocol \<Rightarrow> bool \<Rightarrow> check_kind \<Rightarrow> err" where
  "validateAssertionApplicability p streaming check = first_err
     [fail_if (check \<in> set stream_only \<and> \<not> streaming) (Err ''assertion check requires a streaming scenario''),
      fail_if (check = CheckOutputIndexes \<and> p \<noteq> ProtocolOpenAIResponses)
        (Err ''output-index assertion requires the OpenAI Responses protocol''),
      fail_if (check = CheckClosedReasoning \<and> p = ProtocolOpenAIChat)
        (Err ''closed-reasoning assertion is not defined for OpenAI Chat''),
      fail_if (check = CheckRequiredEnvelope \<and> streaming)
        (Err ''required-response-envelope assertion requires a non-streaming scenario'')]"

definition path_check :: "raw_json \<Rightarrow> string \<Rightarrow> err" where
  "path_check J p =
     (case rj_requestURI J p of
        Inl e \<Rightarrow> Some (Err ''request path must be an origin-free absolute-path reference'')
      | Inr u \<Rightarrow> first_err
          [fail_if (url_Scheme u \<noteq> [] \<or> url_Host u \<noteq> [] \<or> url_HasUser u \<or> url_Fragment u \<noteq> [] \<or> url_RawQuery u \<noteq> []
                    \<or> \<not> has_prefix (url_Path u) ''/'')
             (Err ''request path must be an origin-free absolute-path reference''),
           fail_if (CHR 0x5C \<in> set (url_Path u) \<or> path_Clean (url_Path u) \<noteq> url_Path u) (Err ''request path must be canonical'')])"

text \<open>The stream field of the request: absent is false, anything but a boolean is refused.\<close>

definition stream_field :: "(string, json_value) gomap \<Rightarrow> bool res" where
  "stream_field m = (case aget m ''stream'' of None \<Rightarrow> Inr False | Some (JBool b) \<Rightarrow> Inr b
     | Some _ \<Rightarrow> Inl (Err ''request stream field must be boolean''))"

definition request_check :: "raw_json \<Rightarrow> scenario \<Rightarrow> string \<Rightarrow> err" where
  "request_check J s canonical =
     (case rj_unmarshal J canonical of
        Inr (Some m) \<Rightarrow>
          (case stream_field m of
             Inl e \<Rightarrow> Some e
           | Inr wire \<Rightarrow> first_err
               [fail_if (wire \<noteq> rsc_Streaming s) (Err ''scenario streaming mode does not match its request body''),
                fail_if (sint (bb_RequestBytes (rsc_Budget s)) \<le> 0 \<or> sint (bb_ResponseBytes (rsc_Budget s)) \<le> 0)
                  (Err ''positive request and response body budgets are required''),
                fail_if (sint (bb_RequestBytes (rsc_Budget s)) > maxScenarioRequestBytes
                    \<or> sint (bb_ResponseBytes (rsc_Budget s)) > maxScenarioResponseBytes)
                  (Err ''scenario body budget exceeds the built-in raw-driver safety ceiling''),
                fail_if (int (length canonical) > sint (bb_RequestBytes (rsc_Budget s)))
                  (Err ''canonical request body exceeds the scenario request budget'')])
      | _ \<Rightarrow> Some (Err ''request body must be a JSON object''))"

definition json_content_type :: string where
  "json_content_type = ''application/json; charset=utf-8''"

definition validateAndCloneScenario :: "raw_json \<Rightarrow> scenario \<Rightarrow> scenario res" where
  "validateAndCloneScenario J input =
     guard_res (first_err
       [wrap_err ''plan digest'' (digest_Validate (rsc_PlanDigest input)),
        fail_if (blank (rsc_ID input)) (Err ''scenario ID is required''),
        wrap_err ''driver'' (pin_Validate (rsc_Driver input)),
        fail_if (rsc_Protocol input \<notin> {ProtocolOpenAIChat, ProtocolOpenAIResponses, ProtocolAnthropic}) (Err ''unsupported protocol''),
        fail_if (\<not> validHTTPMethod (rsc_Method input)) (Err ''HTTP method must be a canonical uppercase token''),
        path_check J (rsc_Path input)])
     (case nj_canonicalize (rj_native J) (rsc_Body input) of
        Inl e \<Rightarrow> Inl (Wrap ''request body'' e)
      | Inr canonical \<Rightarrow>
          guard_res (first_err
            [request_check J input canonical,
             fail_if (rsc_ExpectedStatus input < 100 \<or> rsc_ExpectedStatus input > 599)
               (Err ''expected HTTP status must be between 100 and 599''),
             validateAssertion (rsc_Assertion input),
             validateAssertionApplicability (rsc_Protocol input) (rsc_Streaming input) (as_Check (rsc_Assertion input)),
             validateHeaders (rsc_Headers input)])
          (Inr (input\<lparr>rsc_Body := canonical,
             rsc_Headers := (if header_Get (rsc_Headers input) ''Content-Type'' = []
                then header_Set (rsc_Headers input) ''Content-Type'' json_content_type else rsc_Headers input)\<rparr>)))"

definition validateDecision :: "scenario_decision \<Rightarrow> err" where
  "validateDecision d = first_err
     [fail_if (sd_Disposition d \<noteq> DispositionExecute) (Err ''raw driver only estimates executable scenario decisions''),
      fail_if (blank (sd_ScenarioID d)) (Err ''scenario decision ID is required''),
      wrap_err ''scenario driver'' (pin_Validate (sd_Driver d))]"

section \<open>The registry\<close>

type_synonym registry_key = "digest \<times> string"
type_synonym decision_ref = "string \<times> artifact_pin"

record memory_registry =
  mr_byPlan :: "(registry_key, scenario) gomap"
  mr_byDecision :: "(decision_ref, registry_key list) gomap"

definition empty_registry :: memory_registry where
  "empty_registry = \<lparr>mr_byPlan = [], mr_byDecision = []\<rparr>"

definition plan_key :: "scenario \<Rightarrow> registry_key" where
  "plan_key s = (rsc_PlanDigest s, rsc_ID s)"

definition decision_key :: "scenario \<Rightarrow> decision_ref" where
  "decision_key s = (rsc_ID s, rsc_Driver s)"

definition keys_for :: "memory_registry \<Rightarrow> decision_ref \<Rightarrow> registry_key list" where
  "keys_for r k = (case aget (mr_byDecision r) k of None \<Rightarrow> [] | Some ks \<Rightarrow> ks)"

definition Register :: "raw_json \<Rightarrow> memory_registry \<Rightarrow> scenario \<Rightarrow> memory_registry \<times> err" where
  "Register J r input =
     (case validateAndCloneScenario J input of
        Inl e \<Rightarrow> (r, Some e)
      | Inr s \<Rightarrow>
          if ahas (mr_byPlan r) (plan_key s) then (r, Some (Err ''scenario is already registered for plan''))
          else (r\<lparr>mr_byPlan := aput (plan_key s) s (mr_byPlan r),
                  mr_byDecision := aput (decision_key s) (keys_for r (decision_key s) @ [plan_key s]) (mr_byDecision r)\<rparr>, None))"

fun register_all :: "raw_json \<Rightarrow> memory_registry \<Rightarrow> scenario list \<Rightarrow> memory_registry res" where
  "register_all J r [] = Inr r"
| "register_all J r (s # ss) = (case Register J r s of (_, Some e) \<Rightarrow> Inl e | (r1, None) \<Rightarrow> register_all J r1 ss)"

definition NewMemoryRegistry :: "raw_json \<Rightarrow> scenario list \<Rightarrow> memory_registry res" where
  "NewMemoryRegistry J ss = register_all J empty_registry ss"

definition estimateFor :: "raw_json \<Rightarrow> scenario \<Rightarrow> usage" where
  "estimateFor J s = Usage 1 (of_nat (length (rsc_Body s))) (bb_ResponseBytes (rsc_Budget s))
     (of_nat (length (rsc_Body s)) + 16 * bb_ResponseBytes (rsc_Budget s) + 65536) 0 0
     (case requestedOutputLimit J s of None \<Rightarrow> 0 | Some (_, limit) \<Rightarrow> limit)"

text \<open>The zero scenario that a lookup of an unknown key yields; the index never names such a key.\<close>

definition zero_pin :: artifact_pin where
  "zero_pin = \<lparr>pin_Kind = [], pin_Name = [], pin_Version = [], pin_Digest = []\<rparr>"

definition zero_scenario :: scenario where
  "zero_scenario = \<lparr>rsc_PlanDigest = [], rsc_ID = [], rsc_Driver = zero_pin, rsc_Protocol = OtherProtocol [], rsc_Method = [],
     rsc_Path = [], rsc_Headers = [], rsc_Body = [], rsc_Streaming = False, rsc_ExpectedStatus = 0,
     rsc_Budget = \<lparr>bb_RequestBytes = 0, bb_ResponseBytes = 0\<rparr>,
     rsc_Assertion = \<lparr>as_AssertionID = [], as_RequirementID = [], as_Role = OtherRole [], as_Oracle = zero_pin,
       as_EvaluatorDigest = [], as_Check = OtherCheck [], as_AllowedValues = [], as_ExpectedUsage = None\<rparr>\<rparr>"

definition registry_Estimate :: "raw_json \<Rightarrow> memory_registry \<Rightarrow> scenario_decision \<Rightarrow> usage res" where
  "registry_Estimate J r d =
     guard_res (validateDecision d)
       (case keys_for r (sd_ScenarioID d, sd_Driver d) of
          [] \<Rightarrow> Inl (Err ''scenario decision is absent from the registry'')
        | [k] \<Rightarrow> Inr (estimateFor J (case aget (mr_byPlan r) k of None \<Rightarrow> zero_scenario | Some s \<Rightarrow> s))
        | _ \<Rightarrow> Inl (Err ''scenario decision is ambiguous across plan digests''))"

definition Lookup :: "memory_registry \<Rightarrow> digest \<Rightarrow> scenario_decision \<Rightarrow> scenario res" where
  "Lookup r planDigest d =
     guard_res (first_err [wrap_err ''plan digest'' (digest_Validate planDigest), validateDecision d])
       (case aget (mr_byPlan r) (planDigest, sd_ScenarioID d) of
          None \<Rightarrow> Inl (Err ''scenario is not registered under the approved plan digest'')
        | Some s \<Rightarrow>
            if rsc_Driver s \<noteq> sd_Driver d then Inl (Err ''scenario driver pin does not match the registered request'')
            else Inr s)"

definition Clear :: "memory_registry \<Rightarrow> memory_registry" where
  "Clear r = empty_registry"

section \<open>What registration guarantees\<close>

lemma validated_fields:
  assumes "validateAndCloneScenario J input = Inr s"
  shows "rsc_PlanDigest s = rsc_PlanDigest input" "rsc_ID s = rsc_ID input" "rsc_Driver s = rsc_Driver input"
    "rsc_Protocol s = rsc_Protocol input" "rsc_Assertion s = rsc_Assertion input" "rsc_Budget s = rsc_Budget input"
    "nj_canonicalize (rj_native J) (rsc_Body input) = Inr (rsc_Body s)"
  using assms by (auto simp: validateAndCloneScenario_def split: sum.splits)

lemma validated_valid:
  assumes "validateAndCloneScenario J input = Inr s"
  shows "digest_Validate (rsc_PlanDigest s) = None" "\<not> blank (rsc_ID s)" "pin_Validate (rsc_Driver s) = None"
    "validateAssertion (rsc_Assertion s) = None" "request_check J s (rsc_Body s) = None"
    "100 \<le> rsc_ExpectedStatus s \<and> rsc_ExpectedStatus s \<le> 599"
    "rsc_Protocol s \<in> {ProtocolOpenAIChat, ProtocolOpenAIResponses, ProtocolAnthropic}"
  using assms by (auto simp: validateAndCloneScenario_def request_check_def split: sum.splits option.splits)

lemma request_check_bounds:
  assumes "request_check J s canonical = None"
  shows "0 < sint (bb_ResponseBytes (rsc_Budget s))" "sint (bb_ResponseBytes (rsc_Budget s)) \<le> maxScenarioResponseBytes"
    "int (length canonical) \<le> maxScenarioRequestBytes"
  using assms by (auto simp: request_check_def split: sum.splits option.splits)

lemma validateHeaders_content_type:
  "validateHeaders h = None \<Longrightarrow> validateHeaders (header_Set h ''Content-Type'' json_content_type) = None"
proof -
  assume h: "validateHeaders h = None"
  have "set (header_Set h ''Content-Type'' json_content_type) \<subseteq> insert (''Content-Type'', [json_content_type]) (set h)"
    unfolding header_Set_def aput_def by (induction h) auto
  moreover have "validateHeaders [(''Content-Type'', [json_content_type])] = None" by code_simp
  ultimately show ?thesis using h by (fastforce simp: validateHeaders_def)
qed

text \<open>What the registry keeps: valid scenarios under their own key, and an index by decision that lists exactly their keys.\<close>

definition registry_inv :: "raw_json \<Rightarrow> memory_registry \<Rightarrow> bool" where
  "registry_inv J r \<longleftrightarrow>
     (\<forall>k s. aget (mr_byPlan r) k = Some s \<longrightarrow> plan_key s = k \<and> (\<exists>input. validateAndCloneScenario J input = Inr s)) \<and>
     (\<forall>d. distinct (keys_for r d) \<and>
        (\<forall>k. k \<in> set (keys_for r d) \<longleftrightarrow> (\<exists>s. aget (mr_byPlan r) k = Some s \<and> decision_key s = d)))"

lemma registry_inv_empty: "registry_inv J empty_registry"
  by (simp add: registry_inv_def empty_registry_def keys_for_def)

lemma registry_invD:
  assumes "registry_inv J r"
  shows "aget (mr_byPlan r) k = Some s \<Longrightarrow> plan_key s = k"
    "aget (mr_byPlan r) k = Some s \<Longrightarrow> \<exists>input. validateAndCloneScenario J input = Inr s"
    "distinct (keys_for r d)" "k \<in> set (keys_for r d) \<longleftrightarrow> (\<exists>s. aget (mr_byPlan r) k = Some s \<and> decision_key s = d)"
  using assms unfolding registry_inv_def by (blast+)

lemma Register_inv: "registry_inv J r \<Longrightarrow> registry_inv J (fst (Register J r input))"
proof (cases "validateAndCloneScenario J input")
  case (Inr s)
  assume inv: "registry_inv J r"
  show ?thesis
  proof (cases "ahas (mr_byPlan r) (plan_key s)")
    case False
    then have fresh: "plan_key s \<notin> set (keys_for r d)" for d
      using registry_invD(4) [OF inv, of "plan_key s" d] by (auto simp: ahas_def)
    have "keys_for (fst (Register J r input)) d = (if d = decision_key s then keys_for r d @ [plan_key s] else keys_for r d)" for d
      using False Inr by (simp add: Register_def keys_for_def)
    moreover have "aget (mr_byPlan (fst (Register J r input))) k = (if k = plan_key s then Some s else aget (mr_byPlan r) k)" for k
      using False Inr by (simp add: Register_def)
    ultimately show ?thesis using registry_invD [OF inv] fresh Inr False unfolding registry_inv_def
      by (auto simp: ahas_def split: if_splits)
  qed (use inv Inr in \<open>simp add: Register_def\<close>)
qed (simp add: Register_def)

lemma Register_atomic: "snd (Register J r input) \<noteq> None \<Longrightarrow> fst (Register J r input) = r"
  by (auto simp: Register_def split: sum.splits)

interpretation scenario_registry: guarded_machine "Register J" "registry_inv J" for J
  by unfold_locales (auto simp: Register_inv Register_atomic)

interpretation registered: write_once_store "Register J" "\<lambda>r k. aget (mr_byPlan r) k" for J
  by unfold_locales (auto simp: Register_def ahas_def split: sum.splits)

lemma register_all_run: "register_all J r ss = Inr r' \<Longrightarrow> r' = run (Register J) r ss"
proof (induction ss arbitrary: r)
  case (Cons s ss)
  then show ?case by (cases "Register J r s"; cases "snd (Register J r s)") auto
qed simp

lemma NewMemoryRegistry_inv: "NewMemoryRegistry J ss = Inr r \<Longrightarrow> registry_inv J r"
  unfolding NewMemoryRegistry_def
  using register_all_run [of J empty_registry ss r] scenario_registry.run_invar [OF registry_inv_empty, of J ss] by simp

lemma revalidated:
  assumes "validateAndCloneScenario J input = Inr s"
    "nj_canonicalize (rj_native J) (rsc_Body s) = Inr (rsc_Body s)"
  shows "validateAndCloneScenario J s = Inr s"
proof -
  from assms(1) obtain canonical where c: "nj_canonicalize (rj_native J) (rsc_Body input) = Inr canonical"
    and s: "s = input\<lparr>rsc_Body := canonical, rsc_Headers := (if header_Get (rsc_Headers input) ''Content-Type'' = []
        then header_Set (rsc_Headers input) ''Content-Type'' json_content_type else rsc_Headers input)\<rparr>"
    and h: "validateHeaders (rsc_Headers input) = None"
    and rc: "request_check J input canonical = None"
    by (auto simp: validateAndCloneScenario_def split: sum.splits)
  have hs: "validateHeaders (rsc_Headers s) = None" "header_Get (rsc_Headers s) ''Content-Type'' \<noteq> []"
    using h validateHeaders_content_type [OF h] by (auto simp: s header_Get_def header_Set_def json_content_type_def)
  have rs: "request_check J s (rsc_Body s) = None" by (rule validated_valid(5) [OF assms(1)])
  have "rsc_Path s = rsc_Path input" "rsc_Method s = rsc_Method input" "rsc_Streaming s = rsc_Streaming input"
    "rsc_ExpectedStatus s = rsc_ExpectedStatus input" by (simp_all add: s)
  then show ?thesis using assms hs rs validated_fields(1-5) [OF assms(1)]
    by (auto simp: validateAndCloneScenario_def split: sum.splits)
qed

lemma Lookup_Inr: "Lookup r p d = Inr s \<longleftrightarrow> digest_Validate p = None \<and> validateDecision d = None \<and>
    aget (mr_byPlan r) (p, sd_ScenarioID d) = Some s \<and> rsc_Driver s = sd_Driver d"
  by (auto simp: Lookup_def split: option.splits)

definition registrations :: "raw_json \<Rightarrow> scenario list \<Rightarrow> memory_registry" where
  "registrations J ss = run (Register J) empty_registry ss"

lemma registrations_inv: "registry_inv J (registrations J ss)"
  unfolding registrations_def by (rule scenario_registry.run_invar) (rule registry_inv_empty)

text \<open>
  C39. A scenario that was registered is found under the digest of its plan, its identifier and its
  driver, whatever is registered afterwards, and in the validated form: validating what the lookup
  returns, which the driver does before it runs a scenario, succeeds and changes nothing.  This needs
  canonicalization to be idempotent.
\<close>

theorem registered_scenario_found:
  assumes "\<And>b c. nj_canonicalize (rj_native J) b = Inr c \<Longrightarrow> nj_canonicalize (rj_native J) c = Inr c"
    and "snd (Register J r input) = None"
    and "sd_Disposition d = DispositionExecute" "sd_ScenarioID d = rsc_ID input" "sd_Driver d = rsc_Driver input"
  shows "\<exists>s. validateAndCloneScenario J input = Inr s \<and>
    Lookup (run (Register J) (fst (Register J r input)) later) (rsc_PlanDigest input) d = Inr s \<and>
    validateAndCloneScenario J s = Inr s"
proof -
  from assms(2) obtain s where s: "validateAndCloneScenario J input = Inr s"
    and a: "aget (mr_byPlan (fst (Register J r input))) (plan_key s) = Some s"
    by (auto simp: Register_def split: sum.splits if_splits)
  note f = validated_fields [OF s] and v = validated_valid [OF s]
  from registered.look_run [OF a, where J = J and es = later]
  have "aget (mr_byPlan (run (Register J) (fst (Register J r input)) later)) (rsc_PlanDigest input, sd_ScenarioID d) = Some s"
    using f assms(4) by (simp add: plan_key_def)
  moreover have "validateDecision d = None" using v f assms(3-5) by (simp add: validateDecision_def)
  ultimately have "Lookup (run (Register J) (fst (Register J r input)) later) (rsc_PlanDigest input) d = Inr s"
    using v f assms(5) by (simp add: Lookup_Inr)
  moreover have "validateAndCloneScenario J s = Inr s" using revalidated [OF s] assms(1) f(7) by blast
  ultimately show ?thesis using s by blast
qed

lemma estimateFor_bounded:
  assumes "validateAndCloneScenario J input = Inr s" "rsc_Body s \<noteq> []"
  shows "usage_Validate (estimateFor J s) = None" "0 < sint (us_RequestBytes (estimateFor J s))"
    "0 < sint (us_ResponseBytes (estimateFor J s))" "0 < sint (us_ArtifactBytes (estimateFor J s))"
proof -
  note b = request_check_bounds [OF validated_valid(5) [OF assms(1)], unfolded maxScenarioResponseBytes_def maxScenarioRequestBytes_def]
  let ?n = "length (rsc_Body s)" and ?r = "bb_ResponseBytes (rsc_Budget s)"
  have n: "sint (of_nat ?n :: i64) = int ?n"
    using b(3) by (simp add: signed_of_nat signed_take_bit_int_eq_self)
  have r: "sint (16 * ?r) = 16 * sint ?r"
    using b(1,2) by (simp add: sint_word_ariths signed_take_bit_int_eq_self)
  have nr: "sint (of_nat ?n + 16 * ?r) = int ?n + 16 * sint ?r"
    using b n r by (subst sint_add_i64) (simp_all add: i64_range_def)
  have a: "sint (of_nat ?n + 16 * ?r + 65536) = int ?n + 16 * sint ?r + 65536"
    using b nr by (subst sint_add_i64) (simp_all add: i64_range_def)
  have out: "0 \<le> sint (us_OutputTokens (estimateFor J s))"
    by (auto simp: estimateFor_def requestedOutputLimit_def split: option.splits sum.splits)
  have pos: "0 < ?n" using assms(2) by simp
  show "0 < sint (us_RequestBytes (estimateFor J s))" "0 < sint (us_ResponseBytes (estimateFor J s))"
    "0 < sint (us_ArtifactBytes (estimateFor J s))"
    using b(1) n a pos by (simp_all add: estimateFor_def)
  with out show "usage_Validate (estimateFor J s) = None"
    by (auto simp: usage_Validate_def usage_fields_def estimateFor_def word_sless_alt)
qed

lemma estimated_scenario:
  assumes "registry_Estimate J (registrations J ss) d = Inr u"
  shows "\<exists>p s. u = estimateFor J s \<and> (\<forall>p' s'. Lookup (registrations J ss) p' d = Inr s' \<longleftrightarrow> p' = p \<and> s' = s)"
proof -
  let ?r = "registrations J ss" and ?d = "(sd_ScenarioID d, sd_Driver d)"
  note inv = registry_invD [OF registrations_inv [of J ss]]
  from assms obtain k where k: "keys_for ?r ?d = [k]" and vd: "validateDecision d = None"
    and u: "u = estimateFor J (case aget (mr_byPlan ?r) k of None \<Rightarrow> zero_scenario | Some s \<Rightarrow> s)"
    by (auto simp: registry_Estimate_def split: list.splits)
  from k inv(4) [of k ?d] obtain s where s: "aget (mr_byPlan ?r) k = Some s" "decision_key s = ?d" by auto
  with inv(1,2) obtain input where key: "plan_key s = k" and v: "validateAndCloneScenario J input = Inr s" by blast
  have "Lookup ?r plan d = Inr s' \<longleftrightarrow> plan = rsc_PlanDigest s \<and> s' = s" for plan s'
  proof
    assume "Lookup ?r plan d = Inr s'"
    then have l: "aget (mr_byPlan ?r) (plan, sd_ScenarioID d) = Some s'" "rsc_Driver s' = sd_Driver d" by (simp_all add: Lookup_Inr)
    from inv(1) [OF l(1)] have "plan_key s' = (plan, sd_ScenarioID d)" .
    then have "(plan, sd_ScenarioID d) \<in> set (keys_for ?r ?d)"
      using inv(4) [of "(plan, sd_ScenarioID d)" ?d] l by (auto simp: decision_key_def plan_key_def)
    with k l s key show "plan = rsc_PlanDigest s \<and> s' = s" by (auto simp: plan_key_def)
  next
    assume "plan = rsc_PlanDigest s \<and> s' = s"
    with s key vd validated_valid(1) [OF v] show "Lookup ?r plan d = Inr s'"
      by (auto simp: Lookup_Inr decision_key_def plan_key_def)
  qed
  with u s show ?thesis by (intro exI [of _ "rsc_PlanDigest s"] exI [of _ s]) simp
qed

text \<open>
  An estimate is for one scenario.  After any registrations, a decision that is estimated is found
  under exactly one plan digest, and the estimate is that of the scenario found there: one request, the
  bytes of its body, its response allowance, an artifact allowance computed without overflow, no
  process, and the requested output limit.  The text of a request is never empty, since the empty text is
  no JSON object.
\<close>

theorem estimate_of_unique_scenario:
  assumes "rj_unmarshal J [] = Inl e" "registry_Estimate J (registrations J ss) d = Inr u"
  shows "\<exists>s. (\<forall>plan s'. Lookup (registrations J ss) plan d = Inr s' \<longleftrightarrow> plan = rsc_PlanDigest s \<and> s' = s) \<and>
    usage_Validate u = None \<and> us_Requests u = 1 \<and> us_Processes u = 0 \<and> us_InputTokens u = 0 \<and>
    us_RequestBytes u = of_nat (length (rsc_Body s)) \<and> 0 < sint (us_RequestBytes u) \<and>
    us_ResponseBytes u = bb_ResponseBytes (rsc_Budget s) \<and> 0 < sint (us_ResponseBytes u) \<and> 0 < sint (us_ArtifactBytes u) \<and>
    us_OutputTokens u = (case requestedOutputLimit J s of None \<Rightarrow> 0 | Some (_, limit) \<Rightarrow> limit)"
proof -
  let ?r = "registrations J ss"
  from estimated_scenario [OF assms(2)] obtain p s where u: "u = estimateFor J s"
    and only: "\<forall>p' s'. Lookup ?r p' d = Inr s' \<longleftrightarrow> p' = p \<and> s' = s" by blast
  then have l: "aget (mr_byPlan ?r) (p, sd_ScenarioID d) = Some s" by (auto simp: Lookup_Inr)
  note inv = registry_invD [OF registrations_inv [of J ss]]
  from inv(2) [OF l] obtain input where v: "validateAndCloneScenario J input = Inr s" by blast
  have p: "p = rsc_PlanDigest s" using inv(1) [OF l] by (simp add: plan_key_def)
  have "rsc_Body s \<noteq> []"
    using validated_valid(5) [OF v] assms(1) by (auto simp: request_check_def split: sum.splits option.splits)
  from estimateFor_bounded [OF v this] only u p show ?thesis by (intro exI [of _ s]) (simp add: estimateFor_def)
qed

section \<open>A concrete scenario\<close>

text \<open>A JSON library that knows the empty object, and a request for a finished message.\<close>

definition plain_json :: raw_json where
  "plain_json = \<lparr>rj_native = \<lparr>nj_canonicalize = Inr, nj_valid = (\<lambda>s. s = ''{}''), nj_string = (\<lambda>s. Inl (Err ''json'')),
       nj_number = (\<lambda>s. Some (Err ''json''))\<rparr>,
     rj_value = (\<lambda>s. if s = ''{}'' then Inr (JObject []) else Inl (Err ''json'')),
     rj_object = (\<lambda>s. if s = ''{}'' then Inr (Some []) else Inl (Err ''json'')),
     rj_unmarshal = (\<lambda>s. if s = ''{}'' then Inr (Some []) else Inl (Err ''json'')),
     rj_requestURI = (\<lambda>s. Inr \<lparr>url_Scheme = [], url_Host = [], url_Path = s, url_RawQuery = [], url_Fragment = [], url_HasUser = False\<rparr>),
     rj_mediaType = Inr\<rparr>"

definition sample_scenario :: scenario where
  "sample_scenario = \<lparr>rsc_PlanDigest = zero_digest, rsc_ID = ''s1'', rsc_Driver = sample_pin, rsc_Protocol = ProtocolOpenAIChat,
     rsc_Method = ''POST'', rsc_Path = ''/v1/chat'', rsc_Headers = [], rsc_Body = ''{}'', rsc_Streaming = False, rsc_ExpectedStatus = 200,
     rsc_Budget = \<lparr>bb_RequestBytes = 100, bb_ResponseBytes = 1000\<rparr>,
     rsc_Assertion = \<lparr>as_AssertionID = ''a'', as_RequirementID = ''r'', as_Role = AssertionNormative, as_Oracle = sample_pin,
       as_EvaluatorDigest = zero_digest, as_Check = CheckRequiredEnvelope, as_AllowedValues = [], as_ExpectedUsage = None\<rparr>\<rparr>"

definition sample_decision :: scenario_decision where
  "sample_decision = \<lparr>sd_ScenarioID = ''s1'', sd_Disposition = DispositionExecute, sd_ReasonCode = [], sd_Driver = sample_pin,
     sd_DependsOn = []\<rparr>"

lemma sample_fields: "rsc_PlanDigest sample_scenario = zero_digest" "rsc_ID sample_scenario = ''s1''" "rsc_Driver sample_scenario = sample_pin"
  "rsc_Body sample_scenario = ''{}''" "bb_ResponseBytes (rsc_Budget sample_scenario) = 1000" "rsc_Headers sample_scenario = []"
  "rsc_Protocol sample_scenario = ProtocolOpenAIChat" "rsc_Method sample_scenario = ''POST''" "rsc_Path sample_scenario = ''/v1/chat''"
  "rsc_Streaming sample_scenario = False" "rsc_ExpectedStatus sample_scenario = 200"
  "as_Check (rsc_Assertion sample_scenario) = CheckRequiredEnvelope"
  by (simp_all add: sample_scenario_def)

lemma sample_texts: "\<not> blank ''s1''" "\<not> blank ''a''" "\<not> blank ''r''" "validHTTPMethod ''POST''" "pin_Validate sample_pin = None"
  by (simp_all add: blank_def trim_bytes_def decode_rune_def decode_last_rune_def is_space_def code_def validHTTPMethod_def
      char_class_defs pin_Validate_def sample_pin_def kindPattern_def namePattern_def class_match_def)

lemma sample_decision_valid: "validateDecision sample_decision = None"
  using sample_texts by (simp add: validateDecision_def sample_decision_def)

lemma sample_assertion: "validateAssertion (rsc_Assertion sample_scenario) = None"
  using sample_texts by (simp add: validateAssertion_def sample_scenario_def known_checks_def expectation_check_def)

lemma sample_request: "request_check plain_json sample_scenario ''{}'' = None"
  by (simp add: request_check_def plain_json_def stream_field_def sample_scenario_def maxScenarioRequestBytes_def maxScenarioResponseBytes_def)

lemma sample_path: "path_check plain_json ''/v1/chat'' = None"
  by (simp add: path_check_def plain_json_def path_Clean_def has_prefix_def clean_step_def)

lemma sample_scenario_valid: "validateAndCloneScenario plain_json sample_scenario =
    Inr (sample_scenario\<lparr>rsc_Headers := [(''Content-Type'', [json_content_type])]\<rparr>)"
proof -
  have "nj_canonicalize (rj_native plain_json) b = Inr b" for b by (simp add: plain_json_def)
  moreover have "sample_scenario\<lparr>rsc_Body := ''{}''\<rparr> = sample_scenario" by (simp add: sample_scenario_def)
  ultimately show ?thesis
    by (simp add: validateAndCloneScenario_def sample_fields sample_texts sample_assertion sample_request sample_path
        validateAssertionApplicability_def stream_only_def validateHeaders_def header_Get_def header_Set_def aput_def)
qed

abbreviation stored_scenario :: scenario where
  "stored_scenario \<equiv> sample_scenario\<lparr>rsc_Headers := [(''Content-Type'', [json_content_type])]\<rparr>"

lemma sample_registered: "registrations plain_json [sample_scenario] =
    \<lparr>mr_byPlan = [((zero_digest, ''s1''), stored_scenario)], mr_byDecision = [((''s1'', sample_pin), [(zero_digest, ''s1'')])]\<rparr>"
  by (simp add: registrations_def Register_def sample_scenario_valid empty_registry_def keys_for_def plan_key_def decision_key_def
      sample_fields aput_def)

lemma sample_lookup: "Lookup (registrations plain_json [sample_scenario]) zero_digest sample_decision = Inr stored_scenario"
proof -
  from sample_decision_valid show ?thesis by (simp add: Lookup_Inr sample_registered sample_decision_def sample_fields aget_def)
qed

theorem registered_scenario_found_witness:
  "\<exists>s. Lookup (registrations plain_json [sample_scenario]) zero_digest sample_decision = Inr s \<and>
     validateAndCloneScenario plain_json s = Inr s"
proof -
  have j: "nj_canonicalize (rj_native plain_json) b = Inr b" for b by (simp add: plain_json_def)
  have "snd (Register plain_json empty_registry sample_scenario) = None"
    by (simp add: Register_def sample_scenario_valid empty_registry_def)
  from registered_scenario_found [OF _ this, of sample_decision "[]"] show ?thesis
    by (auto simp: j sample_decision_def registrations_def sample_fields)
qed

theorem estimate_of_unique_scenario_witness:
  "\<exists>u. registry_Estimate plain_json (registrations plain_json [sample_scenario]) sample_decision = Inr u \<and>
     us_RequestBytes u = 2 \<and> us_ResponseBytes u = 1000"
proof -
  from sample_decision_valid obtain u where u: "registry_Estimate plain_json (registrations plain_json [sample_scenario]) sample_decision = Inr u"
    by (simp add: sample_registered registry_Estimate_def keys_for_def sample_decision_def aget_def)
  have "rj_unmarshal plain_json [] = Inl (Err ''json'')" by (simp add: plain_json_def)
  from estimate_of_unique_scenario [OF this u] obtain s
    where s: "\<forall>plan s'. Lookup (registrations plain_json [sample_scenario]) plan sample_decision = Inr s' \<longleftrightarrow> plan = rsc_PlanDigest s \<and> s' = s"
      "us_RequestBytes u = of_nat (length (rsc_Body s))" "us_ResponseBytes u = bb_ResponseBytes (rsc_Budget s)"
    by blast
  from s(1) sample_lookup have "stored_scenario = s" by blast
  with s(2,3) u show ?thesis by (auto simp: sample_fields)
qed

end
