(* ===== verification/RawDecoder.thy ===== *)
theory RawDecoder
  imports RawScenario
begin

text \<open>
  Package \<open>rawdriver\<close>, reading a response (\<open>internal/rawdriver/evaluate.go\<close>): the facts of an exchange, the
  inspection of a response that is one document, and the stream decoder that turns provider events
  into the typed events of the state machine.  The pointer to \<open>exchangeFacts\<close> is explicit state.
\<close>

section \<open>Facts of an exchange\<close>

record observed_usage =
  ou_Input :: i64
  ou_Output :: i64
  ou_Reasoning :: i64
  ou_Total :: i64
  ou_HasInput :: bool
  ou_HasOutput :: bool
  ou_HasReasoning :: bool
  ou_HasTotal :: bool

definition no_usage :: observed_usage where
  "no_usage = \<lparr>ou_Input = 0, ou_Output = 0, ou_Reasoning = 0, ou_Total = 0, ou_HasInput = False, ou_HasOutput = False,
     ou_HasReasoning = False, ou_HasTotal = False\<rparr>"

definition maxTerminalTraceEntries :: nat where "maxTerminalTraceEntries = 8"

record terminal_trace_entry =
  tt_EventIndex :: nat
  tt_Marker :: string

record exchange_facts =
  xf_validUTF8 :: bool
  xf_framingComplete :: bool
  xf_terminalCount :: nat
  xf_terminalTrace :: "terminal_trace_entry list"
  xf_terminalOmitted :: nat
  xf_postTerminal :: nat
  xf_unknownCount :: nat
  xf_toolCallCount :: nat
  xf_argumentTypes :: "string list"
  xf_finishReasons :: "string list"
  xf_usage :: observed_usage
  xf_stateEvents :: "event list"
  xf_documents :: "string list"
  xf_items :: "ir_item list"
  xf_parseOutcomes :: "oracle_outcome list"
  xf_responseObjects :: "go_object list"
  xf_outputLimitHit :: string

record evaluation =
  ea_Outcome :: oracle_outcome
  ea_Usage :: observed_usage

definition new_facts :: "string \<Rightarrow> bool \<Rightarrow> exchange_facts" where
  "new_facts body complete = \<lparr>xf_validUTF8 = utf8_Valid body, xf_framingComplete = complete, xf_terminalCount = 0, xf_terminalTrace = [],
     xf_terminalOmitted = 0, xf_postTerminal = 0, xf_unknownCount = 0, xf_toolCallCount = 0, xf_argumentTypes = [],
     xf_finishReasons = [], xf_usage = no_usage, xf_stateEvents = [], xf_documents = [], xf_items = [], xf_parseOutcomes = [],
     xf_responseObjects = [], xf_outputLimitHit = []\<rparr>"

definition add_tool_call :: "exchange_facts \<Rightarrow> exchange_facts" where
  "add_tool_call f = f\<lparr>xf_toolCallCount := Suc (xf_toolCallCount f)\<rparr>"

definition add_argument_type :: "string \<Rightarrow> exchange_facts \<Rightarrow> exchange_facts" where
  "add_argument_type t f = f\<lparr>xf_argumentTypes := xf_argumentTypes f @ [t]\<rparr>"

text \<open>\<open>if reason, ok := stringValue(v); ok\<close>: a finish reason is recorded when there is one.\<close>

definition add_reason :: "json_value \<Rightarrow> exchange_facts \<Rightarrow> exchange_facts" where
  "add_reason v f = (case stringValue v of None \<Rightarrow> f | Some r \<Rightarrow> f\<lparr>xf_finishReasons := xf_finishReasons f @ [r]\<rparr>)"

definition hit_limit :: "bool \<Rightarrow> string \<Rightarrow> exchange_facts \<Rightarrow> exchange_facts" where
  "hit_limit b signal f = (if b then f\<lparr>xf_outputLimitHit := signal\<rparr> else f)"

section \<open>Usage\<close>

definition read_input :: "json_value \<Rightarrow> observed_usage \<Rightarrow> observed_usage" where
  "read_input v u = (case integerValue v of None \<Rightarrow> u | Some x \<Rightarrow> u\<lparr>ou_Input := x, ou_HasInput := True\<rparr>)"

definition read_output :: "json_value \<Rightarrow> observed_usage \<Rightarrow> observed_usage" where
  "read_output v u = (case integerValue v of None \<Rightarrow> u | Some x \<Rightarrow> u\<lparr>ou_Output := x, ou_HasOutput := True\<rparr>)"

definition read_total :: "json_value \<Rightarrow> observed_usage \<Rightarrow> observed_usage" where
  "read_total v u = (case integerValue v of None \<Rightarrow> u | Some x \<Rightarrow> u\<lparr>ou_Total := x, ou_HasTotal := True\<rparr>)"

definition readUsage :: "go_object \<Rightarrow> string \<Rightarrow> string \<Rightarrow> string \<Rightarrow> observed_usage \<Rightarrow> observed_usage" where
  "readUsage value inputName outputName totalName u =
     (let u1 = read_output (member value outputName) (read_input (member value inputName) u)
      in if totalName \<noteq> [] then read_total (member value totalName) u1 else u1)"

definition readReasoningUsage :: "go_object \<Rightarrow> string \<Rightarrow> observed_usage \<Rightarrow> observed_usage" where
  "readReasoningUsage value detailsName u =
     (case integerValue (member (objectValue (member value detailsName)) ''reasoning_tokens'') of
        None \<Rightarrow> u | Some x \<Rightarrow> u\<lparr>ou_Reasoning := x, ou_HasReasoning := True\<rparr>)"

definition on_usage :: "(observed_usage \<Rightarrow> observed_usage) \<Rightarrow> exchange_facts \<Rightarrow> exchange_facts" where
  "on_usage g f = f\<lparr>xf_usage := g (xf_usage f)\<rparr>"

definition read_responses_usage :: "go_object \<Rightarrow> exchange_facts \<Rightarrow> exchange_facts" where
  "read_responses_usage usage f = on_usage (readReasoningUsage usage ''output_tokens_details'')
     (on_usage (readUsage usage ''input_tokens'' ''output_tokens'' ''total_tokens'') f)"

definition read_chat_usage :: "go_object \<Rightarrow> exchange_facts \<Rightarrow> exchange_facts" where
  "read_chat_usage usage f = on_usage (readReasoningUsage usage ''completion_tokens_details'')
     (on_usage (readUsage usage ''prompt_tokens'' ''completion_tokens'' ''total_tokens'') f)"

definition responsesOutputLimitReached :: "go_object \<Rightarrow> bool" where
  "responsesOutputLimitReached response \<longleftrightarrow> text_or_empty (member response ''status'') = ''incomplete'' \<and>
     text_or_empty (member (objectValue (member response ''incomplete_details'')) ''reason'') = ''max_output_tokens''"

definition limit_signal :: string where
  "limit_signal = ''status=incomplete,incomplete_details.reason=max_output_tokens''"

section \<open>A response that is one document\<close>

definition inspectNonStream :: "protocol \<Rightarrow> go_object \<Rightarrow> exchange_facts \<Rightarrow> exchange_facts" where
  "inspectNonStream p value f =
     (case p of
        ProtocolOpenAIChat \<Rightarrow>
          (let choice = firstObject (member value ''choices'');
               message = objectValue (member choice ''message'');
               f1 = fold (\<lambda>call f. add_argument_type
                        (jsonType (member (objectValue (member (objectValue call) ''function'')) ''arguments'')) (add_tool_call f))
                      (arrayValue (member message ''tool_calls'')) f;
               f2 = hit_limit (stringValue (member choice ''finish_reason'') = Some ''length'') ''finish_reason=length''
                      (add_reason (member choice ''finish_reason'') f1)
           in read_chat_usage (objectValue (member value ''usage'')) f2)
      | ProtocolOpenAIResponses \<Rightarrow>
          (let f1 = fold (\<lambda>itemValue f.
                        let item = objectValue itemValue
                        in if member item ''type'' = JString ''function_call''
                           then add_argument_type (jsonType (member item ''arguments'')) (add_tool_call f) else f)
                      (arrayValue (member value ''output'')) f;
               f2 = hit_limit (responsesOutputLimitReached value) limit_signal (add_reason (member value ''status'') f1)
           in read_responses_usage (objectValue (member value ''usage'')) f2)
      | ProtocolAnthropic \<Rightarrow>
          (let f1 = fold (\<lambda>contentValue f.
                        if member (objectValue contentValue) ''type'' = JString ''tool_use'' then add_tool_call f else f)
                      (arrayValue (member value ''content'')) f
           in on_usage (readUsage (objectValue (member value ''usage'')) ''input_tokens'' ''output_tokens'' [])
                (add_reason (member value ''stop_reason'') f1))
      | OtherProtocol _ \<Rightarrow> f)"

section \<open>The stream decoder\<close>

record tool_lifecycle =
  tl_itemID :: string
  tl_callID :: string
  tl_arguments :: string

record stream_decoder =
  de_protocol :: protocol
  de_events :: "event list"
  de_chatCreated :: bool
  de_chatTools :: "(int, tool_lifecycle) gomap"
  de_anthropicItems :: "(int, tool_lifecycle) gomap"

definition newStreamDecoder :: "protocol \<Rightarrow> stream_decoder" where
  "newStreamDecoder p = \<lparr>de_protocol = p, de_events = [], de_chatCreated = False, de_chatTools = [], de_anthropicItems = []\<rparr>"

text \<open>An event with the given type and no other field set (the sequence is given by \<open>append\<close>).\<close>

definition bare_event :: "event_type \<Rightarrow> event" where
  "bare_event t = \<lparr>event.ev_Sequence = 0, ev_Type = t, ev_ItemID = [], ev_ItemKind = [], ev_OutputIndex = 0, ev_CallID = [],
     ev_Delta = [], ev_Arguments = []\<rparr>"

definition decoder_append :: "event \<Rightarrow> stream_decoder \<Rightarrow> stream_decoder" where
  "decoder_append e d = d\<lparr>de_events := de_events d @ [e\<lparr>event.ev_Sequence := of_nat (length (de_events d) + 1)\<rparr>]\<rparr>"

definition ensureChatCreated :: "stream_decoder \<Rightarrow> stream_decoder" where
  "ensureChatCreated d =
     (if de_chatCreated d then d else decoder_append (bare_event ResponseCreated) (d\<lparr>de_chatCreated := True\<rparr>))"

definition item_added :: "string \<Rightarrow> string \<Rightarrow> int \<Rightarrow> string \<Rightarrow> event" where
  "item_added itemID itemKind index callID = (bare_event OutputItemAdded)
     \<lparr>ev_ItemID := itemID, ev_ItemKind := itemKind, ev_OutputIndex := index, ev_CallID := callID\<rparr>"

definition arguments_delta :: "string \<Rightarrow> string \<Rightarrow> string \<Rightarrow> event" where
  "arguments_delta itemID callID delta = (bare_event ArgumentsDelta)\<lparr>ev_ItemID := itemID, ev_CallID := callID, ev_Delta := delta\<rparr>"

definition arguments_done :: "string \<Rightarrow> string \<Rightarrow> string \<Rightarrow> event" where
  "arguments_done itemID callID args = (bare_event ArgumentsDone)\<lparr>ev_ItemID := itemID, ev_CallID := callID, ev_Arguments := args\<rparr>"

definition item_done :: "string \<Rightarrow> string \<Rightarrow> event" where
  "item_done itemID callID = (bare_event OutputItemDone)\<lparr>ev_ItemID := itemID, ev_CallID := callID\<rparr>"

definition consumeResponses :: "go_object \<Rightarrow> string \<Rightarrow> stream_decoder \<times> exchange_facts \<Rightarrow> stream_decoder \<times> exchange_facts" where
  "consumeResponses value typeName st =
     (case st of (d, f) \<Rightarrow>
      if typeName = ''response.created'' then (decoder_append (bare_event ResponseCreated) d, f)
      else if typeName = ''response.in_progress'' then (decoder_append (bare_event ResponseInProgress) d, f)
      else if typeName = ''response.output_item.added'' then
        (let item = objectValue (member value ''item'');
             itemKind = text_or_empty (member item ''type'')
         in (decoder_append (item_added (text_or_empty (member item ''id'')) itemKind (indexValue (member value ''output_index''))
               (text_or_empty (member item ''call_id''))) d,
             if itemKind = ''function_call'' then
               (if has_member item ''arguments'' then add_argument_type (jsonType (member item ''arguments'')) (add_tool_call f)
                else add_tool_call f)
             else f))
      else if typeName = ''response.function_call_arguments.delta'' then
        (decoder_append (arguments_delta (text_or_empty (member value ''item_id'')) (text_or_empty (member value ''call_id''))
           (text_or_empty (member value ''delta''))) d, f)
      else if typeName = ''response.function_call_arguments.done'' then
        (decoder_append (arguments_done (text_or_empty (member value ''item_id'')) (text_or_empty (member value ''call_id''))
           (text_or_empty (member value ''arguments''))) d,
         add_argument_type (case stringValue (member value ''arguments'') of Some _ \<Rightarrow> ''string''
            | None \<Rightarrow> jsonType (member value ''arguments'')) f)
      else if typeName = ''response.output_item.done'' then
        (let item = objectValue (member value ''item'')
         in (decoder_append (item_done (text_or_empty (member item ''id'')) (text_or_empty (member item ''call_id''))) d, f))
      else if typeName = ''response.completed'' then
        (let response = objectValue (member value ''response'')
         in (decoder_append (bare_event ResponseCompleted) d,
             read_responses_usage (objectValue (member response ''usage'')) (add_reason (member response ''status'') f)))
      else if typeName = ''response.failed'' then (decoder_append (bare_event ResponseFailed) d, f)
      else if typeName = ''response.incomplete'' then
        (let response = objectValue (member value ''response'')
         in (decoder_append (bare_event ResponseIncomplete) d,
             read_responses_usage (objectValue (member response ''usage''))
               (hit_limit (responsesOutputLimitReached response) limit_signal (add_reason (member response ''status'') f))))
      else (d, f))"

text \<open>One element of \<open>tool_calls\<close>: the tool is opened at its first mention, and its arguments are collected.\<close>

definition chat_open :: "int \<Rightarrow> string \<Rightarrow> stream_decoder \<times> exchange_facts \<Rightarrow> stream_decoder \<times> exchange_facts" where
  "chat_open index callID st =
     (case st of (d, f) \<Rightarrow>
      if ahas (de_chatTools d) index then (d, f)
      else (let itemID = ''chat-tool-'' @ itoa_int index
            in (decoder_append (item_added itemID ''function_call'' index callID)
                  (d\<lparr>de_chatTools := aput index \<lparr>tl_itemID = itemID, tl_callID = callID, tl_arguments = []\<rparr> (de_chatTools d)\<rparr>),
                add_tool_call f)))"

definition chat_arguments :: "int \<Rightarrow> string \<Rightarrow> json_value \<Rightarrow> stream_decoder \<Rightarrow> stream_decoder" where
  "chat_arguments index callID v d =
     (case (stringValue v, aget (de_chatTools d) index) of
        (Some text, Some tool) \<Rightarrow>
          if text = [] then d
          else decoder_append (arguments_delta (tl_itemID tool) callID text)
                 (d\<lparr>de_chatTools := aput index (tool\<lparr>tl_arguments := tl_arguments tool @ text\<rparr>) (de_chatTools d)\<rparr>)
      | _ \<Rightarrow> d)"

definition chat_call :: "json_value \<Rightarrow> stream_decoder \<times> exchange_facts \<Rightarrow> stream_decoder \<times> exchange_facts" where
  "chat_call callValue st =
     (let call = objectValue callValue;
          index = indexValue (member call ''index'');
          callID = text_or_empty (member call ''id'');
          function = objectValue (member call ''function'')
      in case chat_open index callID st of (d, f) \<Rightarrow>
           if has_member function ''arguments''
           then (chat_arguments index callID (member function ''arguments'') d,
                 add_argument_type (jsonType (member function ''arguments'')) f)
           else (d, f))"

definition sortedToolIndexes :: "(int, tool_lifecycle) gomap \<Rightarrow> int list" where
  "sortedToolIndexes tools = sort (akeys tools)"

definition chat_close :: "stream_decoder \<Rightarrow> stream_decoder" where
  "chat_close d = fold (\<lambda>index d. case aget (de_chatTools d) index of None \<Rightarrow> d
       | Some tool \<Rightarrow> decoder_append (item_done (tl_itemID tool) (tl_callID tool))
            (decoder_append (arguments_done (tl_itemID tool) (tl_callID tool) (tl_arguments tool)) d))
     (sortedToolIndexes (de_chatTools d)) d"

definition consumeChat :: "go_object \<Rightarrow> stream_decoder \<times> exchange_facts \<Rightarrow> stream_decoder \<times> exchange_facts" where
  "consumeChat value st =
     (case st of (d0, f0) \<Rightarrow>
      let d = ensureChatCreated d0;
          f = read_chat_usage (objectValue (member value ''usage'')) f0;
          choice = firstObject (member value ''choices'')
      in if choice = None then (d, f)
         else (case fold chat_call (arrayValue (member (objectValue (member choice ''delta'')) ''tool_calls'')) (d, f) of
             (d1, f1) \<Rightarrow>
               (case stringValue (member choice ''finish_reason'') of
                  None \<Rightarrow> (d1, f1)
                | Some reason \<Rightarrow>
                    (chat_close d1, hit_limit (reason = ''length'') ''finish_reason=length'' (add_reason (JString reason) f1)))))"

definition consumeAnthropic :: "string \<Rightarrow> go_object \<Rightarrow> stream_decoder \<times> exchange_facts \<Rightarrow> stream_decoder \<times> exchange_facts" where
  "consumeAnthropic eventName value st =
     (case st of (d, f) \<Rightarrow>
      let index = indexValue (member value ''index'')
      in if eventName = ''message_start'' then
           (decoder_append (bare_event ResponseCreated) d,
            on_usage (read_input (member (objectValue (member (objectValue (member value ''message'')) ''usage'')) ''input_tokens'')) f)
         else if eventName = ''content_block_start'' then
           (let block = objectValue (member value ''content_block'');
                kind = text_or_empty (member block ''type'');
                callID = text_or_empty (member block ''id'');
                itemID = ''anthropic-item-'' @ itoa_int index
            in (decoder_append (item_added itemID (if kind = ''tool_use'' then ''function_call'' else kind) index callID)
                  (d\<lparr>de_anthropicItems := aput index \<lparr>tl_itemID = itemID, tl_callID = callID, tl_arguments = []\<rparr> (de_anthropicItems d)\<rparr>),
                if kind = ''tool_use'' then add_tool_call f else f))
         else if eventName = ''content_block_delta'' then
           (let delta = objectValue (member value ''delta'')
            in case aget (de_anthropicItems d) index of
                 None \<Rightarrow> (d, f)
               | Some tool \<Rightarrow>
                   if member delta ''type'' = JString ''input_json_delta'' then
                     (let partial = text_or_empty (member delta ''partial_json'')
                      in (decoder_append (arguments_delta (tl_itemID tool) (tl_callID tool) partial)
                            (d\<lparr>de_anthropicItems := aput index (tool\<lparr>tl_arguments := tl_arguments tool @ partial\<rparr>) (de_anthropicItems d)\<rparr>),
                          add_argument_type ''string'' f))
                   else (d, f))
         else if eventName = ''content_block_stop'' then
           (case aget (de_anthropicItems d) index of
              None \<Rightarrow> (d, f)
            | Some tool \<Rightarrow>
                (decoder_append (item_done (tl_itemID tool) (tl_callID tool))
                   (if tl_callID tool \<noteq> [] then decoder_append (arguments_done (tl_itemID tool) (tl_callID tool) (tl_arguments tool)) d
                    else d), f))
         else if eventName = ''message_delta'' then
           (d, on_usage (read_output (member (objectValue (member value ''usage'')) ''output_tokens''))
                 (add_reason (member (objectValue (member value ''delta'')) ''stop_reason'') f))
         else if eventName = ''message_stop'' then (decoder_append (bare_event ResponseCompleted) d, f)
         else (d, f))"

definition done_marker :: string where "done_marker = ''[DONE]''"

definition count_unknown :: "sse_event \<Rightarrow> string \<Rightarrow> exchange_facts \<Rightarrow> exchange_facts" where
  "count_unknown e typeName f =
     (if ev_Event e = ''fixture.unknown'' \<or> typeName = ''fixture.unknown'' then f\<lparr>xf_unknownCount := Suc (xf_unknownCount f)\<rparr> else f)"

definition decoder_consume :: "raw_json \<Rightarrow> sse_event \<Rightarrow> stream_decoder \<times> exchange_facts \<Rightarrow> stream_decoder \<times> exchange_facts" where
  "decoder_consume J e st =
     (case st of (d, f) \<Rightarrow>
      if ev_Data e = done_marker then (decoder_append (bare_event ResponseCompleted) (ensureChatCreated d), f)
      else (case rj_object J (ev_Data e) of
          Inl _ \<Rightarrow> (d, f)
        | Inr value \<Rightarrow>
            (let typeName = text_or_empty (member value ''type''); f1 = count_unknown e typeName f
             in case de_protocol d of
                  ProtocolOpenAIResponses \<Rightarrow> consumeResponses value typeName (d, f1)
                | ProtocolOpenAIChat \<Rightarrow> consumeChat value (d, f1)
                | ProtocolAnthropic \<Rightarrow> consumeAnthropic (ev_Event e) value (d, f1)
                | OtherProtocol _ \<Rightarrow> (d, f1))))"

section \<open>The decoded events\<close>

lemma bare_event_fields [simp]: "ev_Type (bare_event t) = t" "ev_ItemID (bare_event t) = []"
  by (simp_all add: bare_event_def)

lemma decoder_event_types [simp]: "ev_Type (item_added i k n c) = OutputItemAdded" "ev_ItemID (item_added i k n c) = i"
  "ev_Type (arguments_delta i c t) = ArgumentsDelta" "ev_ItemID (arguments_delta i c t) = i" "ev_Delta (arguments_delta i c t) = t"
  "ev_Type (arguments_done i c t) = ArgumentsDone" "ev_ItemID (arguments_done i c t) = i" "ev_Arguments (arguments_done i c t) = t"
  "ev_Type (item_done i c) = OutputItemDone" "ev_ItemID (item_done i c) = i"
  by (simp_all add: item_added_def arguments_delta_def arguments_done_def item_done_def bare_event_def)

text \<open>The argument text of an item since it was last added.\<close>

definition since_step :: "string \<Rightarrow> string \<Rightarrow> event \<Rightarrow> string" where
  "since_step i acc e =
     (if ev_ItemID e \<noteq> i then acc
      else if ev_Type e = OutputItemAdded then [] else if ev_Type e = ArgumentsDelta then acc @ ev_Delta e else acc)"

definition since :: "string \<Rightarrow> event list \<Rightarrow> string" where
  "since i es = foldl (since_step i) [] es"

lemma since_snoc [simp]: "since i [] = []" "since i (es @ [e]) = since_step i (since i es) e"
  by (simp_all add: since_def)

text \<open>The machine collects the same text.\<close>

lemma accepts_since: "accepts es m \<Longrightarrow> aget (rm_items m) i = Some it \<Longrightarrow> it_arguments it = since i es"
proof (induction arbitrary: it rule: accepts_induct)
  case (snoc es e m m')
  from snoc.hyps(2) snoc.prems snoc.IH show ?case
    by cases (auto simp: rm_ready_def since_step_def terminal_types_def split: if_splits)
qed (simp add: response_New_def)

definition numbered :: "event list \<Rightarrow> bool" where
  "numbered es \<longleftrightarrow> (\<forall>k<length es. event.ev_Sequence (es ! k) = of_nat (Suc k))"

definition done_ok :: "event list \<Rightarrow> bool" where
  "done_ok es \<longleftrightarrow> (\<forall>k<length es. ev_Type (es ! k) = ArgumentsDone \<longrightarrow> ev_Arguments (es ! k) = since (ev_ItemID (es ! k)) (take k es))"

lemma done_ok_snoc [simp]: "done_ok [] = True"
  "done_ok (es @ [e]) \<longleftrightarrow> done_ok es \<and> (ev_Type e = ArgumentsDone \<longrightarrow> ev_Arguments e = since (ev_ItemID e) es)"
  by (auto simp: done_ok_def nth_append less_Suc_eq)

definition tools_ok :: "string \<Rightarrow> (int, tool_lifecycle) gomap \<Rightarrow> event list \<Rightarrow> bool" where
  "tools_ok pre tools es \<longleftrightarrow> (\<forall>n tool. aget tools n = Some tool \<longrightarrow>
     tl_itemID tool = pre @ itoa_int n \<and> tl_arguments tool = since (tl_itemID tool) es)"

lemma numbered_append: "numbered (de_events d) \<Longrightarrow> numbered (de_events (decoder_append e d))"
  by (auto simp: numbered_def decoder_append_def nth_append less_Suc_eq)

lemma append_fields [simp]: "de_chatTools (decoder_append e d) = de_chatTools d" "de_anthropicItems (decoder_append e d) = de_anthropicItems d"
  "de_protocol (decoder_append e d) = de_protocol d" "de_chatCreated (decoder_append e d) = de_chatCreated d"
  by (simp_all add: decoder_append_def)

lemma tools_ok_quiet:
  assumes "tools_ok pre tools (de_events d)" "done_ok (de_events d)" "ev_Type e \<notin> {OutputItemAdded, ArgumentsDelta, ArgumentsDone}"
  shows "tools_ok pre tools (de_events (decoder_append e d)) \<and> done_ok (de_events (decoder_append e d))"
  using assms by (auto simp: tools_ok_def decoder_append_def since_step_def)

lemma tools_ok_added:
  assumes "tools_ok pre tools (de_events d)" "done_ok (de_events d)"
  shows "tools_ok pre (aput n \<lparr>tl_itemID = pre @ itoa_int n, tl_callID = c, tl_arguments = []\<rparr> tools)
      (de_events (decoder_append (item_added (pre @ itoa_int n) k n c) d)) \<and>
    done_ok (de_events (decoder_append (item_added (pre @ itoa_int n) k n c) d))"
  using assms by (auto simp: tools_ok_def decoder_append_def since_step_def split: if_splits)

lemma tools_ok_delta:
  assumes "tools_ok pre tools (de_events d)" "done_ok (de_events d)" "aget tools n = Some tool"
  shows "tools_ok pre (aput n (tool\<lparr>tl_arguments := tl_arguments tool @ t\<rparr>) tools)
      (de_events (decoder_append (arguments_delta (tl_itemID tool) c t) d)) \<and>
    done_ok (de_events (decoder_append (arguments_delta (tl_itemID tool) c t) d))"
  using assms by (auto simp: tools_ok_def decoder_append_def since_step_def split: if_splits)

lemma tools_ok_done:
  assumes "tools_ok pre tools (de_events d)" "done_ok (de_events d)" "aget tools n = Some tool"
  shows "tools_ok pre tools (de_events (decoder_append (arguments_done (tl_itemID tool) c (tl_arguments tool)) d)) \<and>
    done_ok (de_events (decoder_append (arguments_done (tl_itemID tool) c (tl_arguments tool)) d))"
  using assms by (auto simp: tools_ok_def decoder_append_def since_step_def)

definition chat_inv :: "stream_decoder \<Rightarrow> bool" where
  "chat_inv d \<longleftrightarrow> tools_ok ''chat-tool-'' (de_chatTools d) (de_events d) \<and> done_ok (de_events d)"

definition anthropic_inv :: "stream_decoder \<Rightarrow> bool" where
  "anthropic_inv d \<longleftrightarrow> tools_ok ''anthropic-item-'' (de_anthropicItems d) (de_events d) \<and> done_ok (de_events d)"

lemma chat_inv_quiet: "chat_inv d \<Longrightarrow> ev_Type e \<notin> {OutputItemAdded, ArgumentsDelta, ArgumentsDone} \<Longrightarrow> chat_inv (decoder_append e d)"
  using tools_ok_quiet [of "''chat-tool-''" "de_chatTools d" d e] by (simp add: chat_inv_def)

lemma anthropic_inv_quiet:
  "anthropic_inv d \<Longrightarrow> ev_Type e \<notin> {OutputItemAdded, ArgumentsDelta, ArgumentsDone} \<Longrightarrow> anthropic_inv (decoder_append e d)"
  using tools_ok_quiet [of "''anthropic-item-''" "de_anthropicItems d" d e] by (simp add: anthropic_inv_def)

lemma ensureChatCreated_inv:
  "chat_inv d \<Longrightarrow> chat_inv (ensureChatCreated d)" "anthropic_inv d \<Longrightarrow> anthropic_inv (ensureChatCreated d)"
  using chat_inv_quiet [of "d\<lparr>de_chatCreated := True\<rparr>" "bare_event ResponseCreated"]
    anthropic_inv_quiet [of "d\<lparr>de_chatCreated := True\<rparr>" "bare_event ResponseCreated"]
  by (simp_all add: ensureChatCreated_def chat_inv_def anthropic_inv_def)

lemma append_update: "decoder_append e (d\<lparr>de_chatTools := m\<rparr>) = (decoder_append e d)\<lparr>de_chatTools := m\<rparr>"
  "decoder_append e (d\<lparr>de_anthropicItems := m\<rparr>) = (decoder_append e d)\<lparr>de_anthropicItems := m\<rparr>"
  by (simp_all add: decoder_append_def)

lemma chat_open_inv: "chat_inv (fst st) \<Longrightarrow> chat_inv (fst (chat_open n c st))"
proof -
  obtain d f where st: "st = (d, f)" by fastforce
  assume "chat_inv (fst st)"
  with tools_ok_added [of "''chat-tool-''" "de_chatTools d" d n c "''function_call''"] show ?thesis
    by (simp add: st chat_open_def chat_inv_def append_update Let_def)
qed

lemma chat_arguments_inv: "chat_inv d \<Longrightarrow> chat_inv (chat_arguments n c v d)"
proof -
  assume inv: "chat_inv d"
  show ?thesis
  proof (cases "stringValue v"; cases "aget (de_chatTools d) n")
    fix t tool assume "stringValue v = Some t" and tool: "aget (de_chatTools d) n = Some tool"
    with inv tools_ok_delta [of "''chat-tool-''" "de_chatTools d" d n tool t c] show ?thesis
      by (simp add: chat_arguments_def chat_inv_def append_update)
  qed (use inv in \<open>simp_all add: chat_arguments_def\<close>)
qed

lemma chat_call_inv: "chat_inv (fst st) \<Longrightarrow> chat_inv (fst (chat_call v st))"
  using chat_open_inv [of st] by (auto simp: chat_call_def Let_def chat_arguments_inv split: prod.splits if_splits)
    (metis chat_arguments_inv fst_conv)+

lemma chat_calls_inv: "chat_inv (fst st) \<Longrightarrow> chat_inv (fst (fold chat_call vs st))"
  by (induction vs arbitrary: st) (simp_all add: chat_call_inv)

lemma chat_close_inv: "chat_inv d \<Longrightarrow> chat_inv (chat_close d)"
proof -
  let ?g = "\<lambda>index d. case aget (de_chatTools d) index of None \<Rightarrow> d
       | Some tool \<Rightarrow> decoder_append (item_done (tl_itemID tool) (tl_callID tool))
            (decoder_append (arguments_done (tl_itemID tool) (tl_callID tool) (tl_arguments tool)) d)"
  have step: "chat_inv (?g n d)" if "chat_inv d" for n d
  proof (cases "aget (de_chatTools d) n")
    case (Some tool)
    with that tools_ok_done [of "''chat-tool-''" "de_chatTools d" d n tool "tl_callID tool"]
    have "chat_inv (decoder_append (arguments_done (tl_itemID tool) (tl_callID tool) (tl_arguments tool)) d)"
      by (simp add: chat_inv_def)
    then show ?thesis using Some by (simp add: chat_inv_quiet)
  qed (use that in simp)
  assume "chat_inv d"
  then have "chat_inv (fold ?g ns d)" for ns
  proof (induction ns arbitrary: d)
    case (Cons n ns)
    from Cons.IH [OF step [OF Cons.prems, of n]] show ?case by simp
  qed simp
  then show ?thesis by (simp add: chat_close_def)
qed

lemma consumeChat_inv: "chat_inv (fst st) \<Longrightarrow> chat_inv (fst (consumeChat value st))"
proof -
  obtain d f where st: "st = (d, f)" by fastforce
  assume "chat_inv (fst st)"
  then have c: "chat_inv (ensureChatCreated d)" by (simp add: st ensureChatCreated_inv)
  obtain d1 f1 where r: "fold chat_call
      (arrayValue (member (objectValue (member (firstObject (member value ''choices'')) ''delta'')) ''tool_calls''))
      (ensureChatCreated d, read_chat_usage (objectValue (member value ''usage'')) f) = (d1, f1)" by fastforce
  with chat_calls_inv [of "(ensureChatCreated d, read_chat_usage (objectValue (member value ''usage'')) f)"] c
  have "chat_inv d1" by (metis fst_conv)
  then show ?thesis using c r by (auto simp: consumeChat_def st Let_def chat_close_inv split: option.splits)
qed

lemma consumeAnthropic_inv: "anthropic_inv (fst st) \<Longrightarrow> anthropic_inv (fst (consumeAnthropic name value st))"
proof -
  obtain d f where st: "st = (d, f)" by fastforce
  let ?n = "indexValue (member value ''index'')"
  assume "anthropic_inv (fst st)"
  then have inv: "anthropic_inv d" by (simp add: st)
  note ok = inv [unfolded anthropic_inv_def]
  show ?thesis
  proof (cases "name = ''content_block_start''")
    case True
    then show ?thesis using tools_ok_added [of "''anthropic-item-''" "de_anthropicItems d" d ?n] ok
      by (simp add: consumeAnthropic_def st Let_def anthropic_inv_def append_update)
  next
    case start: False
    show ?thesis
    proof (cases "aget (de_anthropicItems d) ?n")
      case None
      with start inv show ?thesis by (auto simp: consumeAnthropic_def st Let_def anthropic_inv_quiet)
    next
      case (Some tool)
      have "anthropic_inv (decoder_append (arguments_done (tl_itemID tool) (tl_callID tool) (tl_arguments tool)) d)"
        using tools_ok_done [of "''anthropic-item-''" "de_anthropicItems d" d ?n tool "tl_callID tool"] ok Some
        by (simp add: anthropic_inv_def)
      moreover have "anthropic_inv (decoder_append (arguments_delta (tl_itemID tool) (tl_callID tool) t)
          (d\<lparr>de_anthropicItems := aput ?n (tool\<lparr>tl_arguments := tl_arguments tool @ t\<rparr>) (de_anthropicItems d)\<rparr>))" for t
        using tools_ok_delta [of "''anthropic-item-''" "de_anthropicItems d" d ?n tool t "tl_callID tool"] ok Some
        by (simp add: anthropic_inv_def append_update)
      ultimately show ?thesis using start inv Some
        by (auto simp: consumeAnthropic_def st Let_def anthropic_inv_quiet)
    qed
  qed
qed

text \<open>Every protocol numbers its events from one.\<close>

lemma numbered_updates [simp]: "numbered (de_events (d\<lparr>de_chatTools := m\<rparr>)) = numbered (de_events d)"
  "numbered (de_events (d\<lparr>de_anthropicItems := m\<rparr>)) = numbered (de_events d)"
  "numbered (de_events (d\<lparr>de_chatCreated := b\<rparr>)) = numbered (de_events d)"
  by simp_all

lemma fold_invariant: "(\<And>x s. x \<in> set xs \<Longrightarrow> P s \<Longrightarrow> P (g x s)) \<Longrightarrow> P s \<Longrightarrow> P (fold g xs s)"
  by (induction xs arbitrary: s) auto

lemma decoder_consume_numbered:
  "numbered (de_events (fst st)) \<Longrightarrow> numbered (de_events (fst (decoder_consume J e st)))"
proof -
  obtain d f where st: "st = (d, f)" by fastforce
  assume "numbered (de_events (fst st))"
  then have n: "numbered (de_events d)" by (simp add: st)
  have created: "numbered (de_events d') \<Longrightarrow> numbered (de_events (ensureChatCreated d'))" for d'
    by (simp add: ensureChatCreated_def numbered_append)
  have call: "numbered (de_events (fst s)) \<Longrightarrow> numbered (de_events (fst (chat_call v s)))" for v s
    by (auto simp: chat_call_def chat_open_def chat_arguments_def Let_def numbered_append split: prod.splits option.splits)
  have close: "numbered (de_events d') \<Longrightarrow> numbered (de_events (chat_close d'))" for d'
    unfolding chat_close_def by (rule fold_invariant) (auto simp: numbered_append split: option.splits)
  have chat: "numbered (de_events (fst (consumeChat v (d, f'))))" for v f'
    using fold_invariant [of _ "\<lambda>s. numbered (de_events (fst s))" chat_call "(ensureChatCreated d, _)"] call created [OF n]
    by (auto simp: consumeChat_def Let_def close split: prod.splits option.splits) (metis fst_conv close)+
  have responses: "numbered (de_events (fst (consumeResponses v t (d, f'))))" for v t f'
    using n by (simp add: consumeResponses_def Let_def numbered_append)
  have anthropic: "numbered (de_events (fst (consumeAnthropic t v (d, f'))))" for v t f'
    using n by (auto simp: consumeAnthropic_def Let_def numbered_append split: option.splits)
  show ?thesis using n chat responses anthropic created
    by (auto simp: decoder_consume_def st Let_def numbered_append split: sum.splits protocol.splits)
qed

text \<open>The decoder does not read the facts.\<close>

lemma chat_calls_decoder: "fst (fold chat_call vs (d, f)) = fst (fold chat_call vs (d, f'))"
proof (induction vs arbitrary: d f f')
  case (Cons v vs)
  obtain d1 g where a: "chat_call v (d, f) = (d1, g)" by fastforce
  obtain d2 g' where b: "chat_call v (d, f') = (d2, g')" by fastforce
  have "d1 = d2" using a b by (auto simp: chat_call_def chat_open_def Let_def split: if_splits)
  with Cons.IH [of d1 g g'] a b show ?case by simp
qed simp

lemma consumeChat_decoder: "fst (consumeChat value (d, f)) = fst (consumeChat value (d, f'))"
  using chat_calls_decoder [of _ "ensureChatCreated d" "read_chat_usage (objectValue (member value ''usage'')) f"
      "read_chat_usage (objectValue (member value ''usage'')) f'"]
  by (auto simp: consumeChat_def Let_def split: prod.splits option.splits) (metis fst_conv)+

lemma decoder_consume_decoder: "fst (decoder_consume J e (d, f)) = fst (decoder_consume J e (d, f'))"
proof -
  have "fst (consumeResponses v t (d, f)) = fst (consumeResponses v t (d, f'))" for v t f f'
    by (simp add: consumeResponses_def Let_def)
  moreover have "fst (consumeAnthropic t v (d, f)) = fst (consumeAnthropic t v (d, f'))" for v t f f'
    by (simp add: consumeAnthropic_def Let_def split: option.splits)
  ultimately show ?thesis using consumeChat_decoder
    by (auto simp: decoder_consume_def Let_def split: sum.splits protocol.splits)
qed

definition decoder_next :: "raw_json \<Rightarrow> sse_event \<Rightarrow> stream_decoder \<Rightarrow> stream_decoder" where
  "decoder_next J e d = fst (decoder_consume J e (d, new_facts [] True))"

lemma decoder_consume_next: "decoder_consume J e (d, f) = (d1, f1) \<Longrightarrow> d1 = decoder_next J e d"
  using decoder_consume_decoder [of J e d f "new_facts [] True"] by (simp add: decoder_next_def)

definition decoded :: "raw_json \<Rightarrow> protocol \<Rightarrow> sse_event list \<Rightarrow> event list" where
  "decoded J p es = de_events (fold (decoder_next J) es (newStreamDecoder p))"

definition decoder_inv :: "protocol \<Rightarrow> stream_decoder \<Rightarrow> bool" where
  "decoder_inv p d \<longleftrightarrow> de_protocol d = p \<and> numbered (de_events d) \<and> (p = ProtocolOpenAIChat \<longrightarrow> chat_inv d) \<and>
     (p = ProtocolAnthropic \<longrightarrow> anthropic_inv d)"

lemma chat_protocol: "de_protocol (fst (consumeChat v (d, f))) = de_protocol d"
proof -
  have call: "de_protocol (fst (chat_call v s)) = de_protocol (fst s)" for v s
    by (auto simp: chat_call_def chat_open_def chat_arguments_def Let_def split: prod.splits option.splits)
  have calls: "de_protocol (fst (fold chat_call vs s)) = de_protocol (fst s)" for vs s
    by (rule fold_invariant) (simp_all add: call)
  have close: "de_protocol (chat_close d) = de_protocol d" for d
    unfolding chat_close_def by (rule fold_invariant) (auto split: option.splits)
  have "de_protocol (ensureChatCreated d) = de_protocol d" by (simp add: ensureChatCreated_def)
  then show ?thesis using calls by (auto simp: consumeChat_def Let_def close split: prod.splits option.splits) (metis fst_conv)+
qed

lemma decoder_next_protocol: "de_protocol (decoder_next J e d) = de_protocol d"
proof -
  have "de_protocol (fst (consumeResponses v t (d, f))) = de_protocol d" for v t f by (simp add: consumeResponses_def Let_def)
  moreover have "de_protocol (fst (consumeAnthropic t v (d, f))) = de_protocol d" for v t f
    by (auto simp: consumeAnthropic_def Let_def split: option.splits)
  ultimately show ?thesis using chat_protocol
    by (auto simp: decoder_next_def decoder_consume_def ensureChatCreated_def Let_def split: sum.splits protocol.splits)
qed

lemma decoder_next_inv: "decoder_inv p d \<Longrightarrow> decoder_inv p (decoder_next J e d)"
proof -
  assume inv: "decoder_inv p d"
  let ?f = "new_facts [] True"
  have "numbered (de_events (decoder_next J e d))"
    using decoder_consume_numbered [of "(d, ?f)" J e] inv by (simp add: decoder_next_def decoder_inv_def)
  moreover have "chat_inv (decoder_next J e d)" if "p = ProtocolOpenAIChat"
    using that inv consumeChat_inv [of "(d, _)"]
    by (auto simp: decoder_next_def decoder_inv_def decoder_consume_def Let_def chat_inv_quiet ensureChatCreated_inv split: sum.splits)
  moreover have "anthropic_inv (decoder_next J e d)" if "p = ProtocolAnthropic"
    using that inv consumeAnthropic_inv [of "(d, _)"]
    by (auto simp: decoder_next_def decoder_inv_def decoder_consume_def Let_def anthropic_inv_quiet ensureChatCreated_inv split: sum.splits)
  ultimately show ?thesis using inv decoder_next_protocol [of J e d] by (simp add: decoder_inv_def)
qed

lemma decoded_inv: "decoder_inv p (fold (decoder_next J) es (newStreamDecoder p))"
proof (rule fold_invariant)
  show "decoder_inv p (newStreamDecoder p)"
    by (simp add: decoder_inv_def newStreamDecoder_def numbered_def chat_inv_def anthropic_inv_def tools_ok_def)
qed (rule decoder_next_inv)

text \<open>Two codes of the machine: which operation can report them.\<close>

definition special_codes :: "string set" where
  "special_codes = {''non_monotonic_sequence'', ''arguments_reconstruction_mismatch''}"

lemma special_requireActive: "rm_requireActive m = Some (Violation c) \<Longrightarrow> c \<notin> special_codes"
  by (auto simp: rm_requireActive_def special_codes_def split: if_splits)

lemma special_open: "rm_openFunctionCall m e = Inl (Violation c) \<Longrightarrow> c \<notin> special_codes"
  using special_requireActive [of m c]
  by (auto simp: rm_openFunctionCall_def special_codes_def split: option.splits if_splits)

lemma special_ops:
  "snd (rm_create m) = Some (Violation c) \<Longrightarrow> c \<notin> special_codes"
  "snd (rm_markInProgress m) = Some (Violation c) \<Longrightarrow> c \<notin> special_codes"
  "snd (rm_addItem m e) = Some (Violation c) \<Longrightarrow> c \<notin> special_codes"
  "snd (rm_addArguments m e) = Some (Violation c) \<Longrightarrow> c \<notin> special_codes"
  "snd (rm_finishItem m e) = Some (Violation c) \<Longrightarrow> c \<notin> special_codes"
  "snd (rm_acceptToolResult m e) = Some (Violation c) \<Longrightarrow> c \<notin> special_codes"
  "snd (rm_finishResponse m t) = Some (Violation c) \<Longrightarrow> c \<notin> special_codes"
  subgoal by (auto simp: rm_create_def special_codes_def split: if_splits)
  subgoal using special_requireActive [of m c] by (auto simp: rm_markInProgress_def special_codes_def split: option.splits if_splits)
  subgoal using special_requireActive [of m c] by (auto simp: rm_addItem_def Let_def special_codes_def split: option.splits if_splits)
  subgoal using special_open [of m e c] by (auto simp: rm_addArguments_def special_codes_def split: sum.splits if_splits)
  subgoal using special_requireActive [of m c] by (auto simp: rm_finishItem_def special_codes_def split: option.splits if_splits)
  subgoal using special_requireActive [of m c] by (auto simp: rm_acceptToolResult_def special_codes_def split: option.splits if_splits)
  subgoal using special_requireActive [of m c] by (auto simp: rm_finishResponse_def special_codes_def split: option.splits if_splits)
  done

lemma special_finishArguments:
  assumes "snd (rm_finishArguments m e) = Some (Violation c)" "c \<in> special_codes"
  shows "\<exists>it. aget (rm_items m) (ev_ItemID e) = Some it \<and> ev_Arguments e \<noteq> it_arguments it"
proof (cases "rm_openFunctionCall m e")
  case (Inl f)
  with assms special_open [of m e c] show ?thesis by (auto simp: rm_finishArguments_def)
next
  case (Inr it)
  then have "aget (rm_items m) (ev_ItemID e) = Some it"
    by (auto simp: rm_openFunctionCall_def split: option.splits if_splits)
  with assms Inr show ?thesis by (auto simp: rm_finishArguments_def special_codes_def split: if_splits)
qed

lemma special_dispatch:
  assumes "snd (rm_dispatch m e) = Some (Violation c)" "c \<in> special_codes"
  shows "ev_Type e = ArgumentsDone \<and> c = ''arguments_reconstruction_mismatch'' \<and>
    (\<exists>it. aget (rm_items m) (ev_ItemID e) = Some it \<and> ev_Arguments e \<noteq> it_arguments it)"
proof -
  have t: "ev_Type e = ArgumentsDone"
    using assms special_ops(1,2) [of m c] special_ops(3-6) [of m e c] special_ops(7) [of m _ c]
    by (cases "ev_Type e") (auto simp: rm_dispatch_def special_codes_def)
  then have f: "snd (rm_finishArguments m e) = Some (Violation c)" using assms(1) by (simp add: rm_dispatch_def)
  then have "c \<noteq> ''non_monotonic_sequence''"
    using special_open [of m e c] by (auto simp: rm_finishArguments_def special_codes_def split: sum.splits if_splits)
  with t special_finishArguments [OF f assms(2)] assms(2) show ?thesis by (auto simp: special_codes_def)
qed

lemma special_Apply:
  assumes "snd (response_Apply m e) = Some (Violation c)" "c \<in> special_codes" "event.ev_Sequence e = rm_nextSequence m"
  shows "snd (rm_dispatch m e) = Some (Violation c)"
  using assms by (auto simp: response_Apply_def special_codes_def split: if_splits prod.splits option.splits)


section \<open>A concrete stream\<close>

text \<open>A chat stream with one tool call in one chunk, and its end.\<close>

definition call_chunk :: go_object where
  "call_chunk = Some [(''choices'', JArray [JObject
     [(''delta'', JObject [(''tool_calls'', JArray [JObject
         [(''index'', JNumber ''0''), (''id'', JString ''c1''), (''function'', JObject [(''arguments'', JString ''{}'')])]])]),
      (''finish_reason'', JString ''tool_calls'')]])]"

definition call_json :: raw_json where
  "call_json = plain_json\<lparr>rj_object := (\<lambda>s. if s = ''call'' then Inr call_chunk else Inl (Err ''json''))\<rparr>"

definition data_event :: "string \<Rightarrow> sse_event" where
  "data_event t = make_event 1 0 [\<lparr>sf_Name = ''data'', sf_Value = t\<rparr>] []"

lemma data_event_Data [simp]: "ev_Data (data_event t) = t" "ev_Event (data_event t) = []"
  by (simp_all add: data_event_def make_event_def apply_field_def)

lemma decoded_call: "decoded call_json ProtocolOpenAIChat [data_event ''call'', data_event done_marker] =
   [(bare_event ResponseCreated)\<lparr>event.ev_Sequence := 1\<rparr>, (item_added ''chat-tool-0'' ''function_call'' 0 ''c1'')\<lparr>event.ev_Sequence := 2\<rparr>,
    (arguments_delta ''chat-tool-0'' ''c1'' ''{}'')\<lparr>event.ev_Sequence := 3\<rparr>,
    (arguments_done ''chat-tool-0'' ''c1'' ''{}'')\<lparr>event.ev_Sequence := 4\<rparr>,
    (item_done ''chat-tool-0'' ''c1'')\<lparr>event.ev_Sequence := 5\<rparr>, (bare_event ResponseCompleted)\<lparr>event.ev_Sequence := 6\<rparr>]"
proof -
  have z: "itoa_int 0 = ''0''" by (simp add: itoa_int_def itoa.simps) code_simp
  have i: "indexValue (JNumber ''0'') = 0"
    by (simp add: indexValue_def integerValue_def ParseInt64_def char_class_defs digits_value_def i64_range_def)
  show ?thesis
    by (simp add: decoded_def decoder_next_def decoder_consume_def call_json_def call_chunk_def done_marker_def newStreamDecoder_def
        consumeChat_def ensureChatCreated_def decoder_append_def member_def firstObject_def arrayValue_def objectValue_def stringValue_def
        text_or_empty_def aget_def has_member_def ahas_def chat_call_def chat_open_def chat_arguments_def chat_close_def
        sortedToolIndexes_def akeys_def aput_def Let_def z i)
qed


end
