(* ===== verification/RawEvaluate.thy ===== *)
theory RawEvaluate
  imports RawDecoder
begin

text \<open>
  Package \<open>rawdriver\<close>, the evaluation of a response (\<open>internal/rawdriver/evaluate.go\<close>): the assembly and
  decoding of the body, the check that belongs to the scenario, and the choice and combination of the
  outcomes.  It composes the event assembler, the stream decoder, the normalizer and the three oracles.

  \<open>Expected\<close> and \<open>Observed\<close> of an outcome are diagnostic values and are left out, as in the oracles.  A
  text is compared after \<open>strings.ToLower\<close> only with ASCII texts, so lower-casing is modelled on the runes
  that become ASCII.
\<close>

section \<open>Outcomes\<close>

abbreviation observedPass :: "object_ref list \<Rightarrow> oracle_outcome" where
  "observedPass \<equiv> oracle_pass"

abbreviation observedFail :: "object_ref list \<Rightarrow> string \<Rightarrow> oracle_outcome" where
  "observedFail \<equiv> targetFail"

definition observedInconclusive :: "object_ref list \<Rightarrow> reason_code \<Rightarrow> string \<Rightarrow> oracle_outcome" where
  "observedInconclusive refs reason c = inconclusive reason c refs"

definition combineOutcomes :: "object_ref list \<Rightarrow> oracle_outcome list \<Rightarrow> oracle_outcome" where
  "combineOutcomes refs outcomes =
     (case find oo_TargetFailure outcomes of
        Some o1 \<Rightarrow> o1
      | None \<Rightarrow>
          (case find (\<lambda>o1. oo_Verdict o1 = VerdictInconclusive \<or> oo_Verdict o1 = VerdictWarn) outcomes of
             Some o1 \<Rightarrow> o1
           | None \<Rightarrow> observedPass refs))"

section \<open>Responses that refuse the output limit\<close>

definition requestedOutputLimitField :: "raw_json \<Rightarrow> scenario \<Rightarrow> string option" where
  "requestedOutputLimitField J s =
     (if rsc_Protocol s \<noteq> ProtocolOpenAIChat \<and> rsc_Protocol s \<noteq> ProtocolOpenAIResponses then None
      else map_option fst (requestedOutputLimit J s))"

definition unsupportedFieldMarkers :: "string list" where
  "unsupportedFieldMarkers =
     [''unsupported parameter'', ''unsupported_parameter'', ''not supported'', ''does not support'', ''unknown parameter'',
      ''unknown_parameter'', ''unknown argument'', ''unrecognized parameter'', ''unrecognized argument'',
      ''unrecognized request argument'', ''unknown field'', ''unrecognized field'', ''unexpected field'', ''unexpected argument'',
      ''extra_forbidden'', ''extra inputs are not permitted'', ''additional properties are not allowed'']"

text \<open>The runes of \<open>strings.ToLower\<close>, up to runes that are not ASCII before and after.\<close>

definition lower_rune :: "nat \<Rightarrow> nat" where
  "lower_rune r = (if 65 \<le> r \<and> r \<le> 90 then r + 32 else if r = 0x130 then 105 else if r = 0x212A then 107 else r)"

definition lower_runes :: "string \<Rightarrow> nat list" where
  "lower_runes s = map lower_rune (runes s)"

text \<open>\<open>strings.Contains\<close> of an ASCII text.\<close>

definition contains_ascii :: "nat list \<Rightarrow> string \<Rightarrow> bool" where
  "contains_ascii t s \<longleftrightarrow> list_ex (\<lambda>n. take (length s) (drop n t) = map code s) [0..<Suc (length t)]"

definition containsUnsupportedFieldMarker :: "nat list \<Rightarrow> bool" where
  "containsUnsupportedFieldMarker t \<longleftrightarrow> list_ex (contains_ascii t) unsupportedFieldMarkers"

fun valueContainsUnsupportedFieldMarker :: "json_value \<Rightarrow> bool" where
  "valueContainsUnsupportedFieldMarker (JString s) = containsUnsupportedFieldMarker (lower_runes s)"
| "valueContainsUnsupportedFieldMarker (JArray xs) = list_ex valueContainsUnsupportedFieldMarker xs"
| "valueContainsUnsupportedFieldMarker (JObject m) =
     list_ex (\<lambda>(key, x). containsUnsupportedFieldMarker (lower_runes key) \<or> valueContainsUnsupportedFieldMarker x) m"
| "valueContainsUnsupportedFieldMarker _ = False"

fun containsExactString :: "json_value \<Rightarrow> string \<Rightarrow> bool" where
  "containsExactString (JString s) expected = equal_fold s expected"
| "containsExactString (JArray xs) expected = list_ex (\<lambda>x. containsExactString x expected) xs"
| "containsExactString _ expected = False"

definition names_field :: "nat list \<Rightarrow> string \<Rightarrow> bool" where
  "names_field t field \<longleftrightarrow> contains_ascii t field \<and> containsUnsupportedFieldMarker t"

definition reference_keys :: "string list" where
  "reference_keys = [''param'', ''parameter'', ''field'', ''argument'', ''loc'', ''path'']"

definition associated_with :: "string \<Rightarrow> string \<times> json_value \<Rightarrow> bool" where
  "associated_with field kx =
     (case kx of (key, x) \<Rightarrow> lower_runes key = map code field \<or>
        lower_runes key \<in> set (map (map code) reference_keys) \<and> containsExactString x field)"

fun containsUnsupportedFieldError :: "json_value \<Rightarrow> string \<Rightarrow> bool" where
  "containsUnsupportedFieldError (JString s) field = names_field (lower_runes s) field"
| "containsUnsupportedFieldError (JArray xs) field = list_ex (\<lambda>x. containsUnsupportedFieldError x field) xs"
| "containsUnsupportedFieldError (JObject m) field \<longleftrightarrow>
     list_ex (\<lambda>(key, x). case x of JString s \<Rightarrow> names_field (lower_runes s) field | _ \<Rightarrow> False) m \<or>
     list_ex (associated_with field) m \<and> valueContainsUnsupportedFieldMarker (JObject m) \<or>
     list_ex (\<lambda>(key, x). containsUnsupportedFieldError x field) m"
| "containsUnsupportedFieldError _ field = False"

definition unsupportedOutputLimitField :: "raw_json \<Rightarrow> scenario \<Rightarrow> int \<Rightarrow> string \<Rightarrow> string option" where
  "unsupportedOutputLimitField J s status body =
     (case requestedOutputLimitField J s of
        None \<Rightarrow> None
      | Some field \<Rightarrow>
          if status \<noteq> 400 \<and> status \<noteq> 422 \<or> \<not> nj_valid (rj_native J) body then None
          else (case rj_object J body of
              Inr (Some m) \<Rightarrow> if containsUnsupportedFieldError (JObject m) field then Some field else None
            | _ \<Rightarrow> None))"

section \<open>Checks\<close>

definition checkContentType :: "raw_json \<Rightarrow> bool \<Rightarrow> http_header \<Rightarrow> object_ref list \<Rightarrow> oracle_outcome" where
  "checkContentType J streaming headers refs =
     (let expected = (if streaming then ''text/event-stream'' else ''application/json'')
      in if rj_mediaType J (header_Get headers ''Content-Type'') = Inr expected then observedPass refs
         else observedFail refs ''unexpected_content_type'')"

definition checkUsage :: "token_usage option \<Rightarrow> observed_usage \<Rightarrow> object_ref list \<Rightarrow> oracle_outcome" where
  "checkUsage expected actual refs =
     (case expected of
        None \<Rightarrow> inconclusive ReasonHarnessError ''missing_usage_expectation'' refs
      | Some u \<Rightarrow>
          if \<not> ou_HasInput actual \<or> \<not> ou_HasOutput actual \<or> ou_Input actual \<noteq> tu_Input u \<or> ou_Output actual \<noteq> tu_Output u
          then observedFail refs ''usage_mismatch''
          else (case tu_Total u of
              None \<Rightarrow> observedPass refs
            | Some t \<Rightarrow>
                if \<not> ou_HasTotal actual \<or> ou_Total actual \<noteq> t \<or> ou_Total actual \<noteq> ou_Input actual + ou_Output actual
                then observedFail refs ''usage_inconsistent'' else observedPass refs))"

definition required_string :: "go_object \<Rightarrow> string \<Rightarrow> bool" where
  "required_string v name = (case stringValue (member v name) of None \<Rightarrow> False | Some t \<Rightarrow> t \<noteq> [])"

definition required_array :: "go_object \<Rightarrow> string \<Rightarrow> bool" where
  "required_array v name = (case member v name of JArray _ \<Rightarrow> True | _ \<Rightarrow> False)"

definition required_object :: "go_object \<Rightarrow> string \<Rightarrow> bool" where
  "required_object v name = (case member v name of JObject _ \<Rightarrow> True | _ \<Rightarrow> False)"

definition valid_envelope :: "protocol \<Rightarrow> go_object \<Rightarrow> bool" where
  "valid_envelope p v =
     (case p of
        ProtocolOpenAIChat \<Rightarrow> required_string v ''id'' \<and> member v ''object'' = JString ''chat.completion'' \<and>
          integerValue (member v ''created'') \<noteq> None \<and> required_string v ''model'' \<and> required_array v ''choices''
      | ProtocolOpenAIResponses \<Rightarrow> required_string v ''id'' \<and> member v ''object'' = JString ''response'' \<and>
          integerValue (member v ''created_at'') \<noteq> None \<and> required_string v ''status'' \<and> required_string v ''model'' \<and>
          required_array v ''output''
      | ProtocolAnthropic \<Rightarrow> required_string v ''id'' \<and> member v ''type'' = JString ''message'' \<and>
          member v ''role'' = JString ''assistant'' \<and> required_string v ''model'' \<and> required_array v ''content'' \<and>
          required_object v ''usage''
      | OtherProtocol _ \<Rightarrow> False)"

definition checkRequiredEnvelope :: "protocol \<Rightarrow> go_object list \<Rightarrow> object_ref list \<Rightarrow> oracle_outcome" where
  "checkRequiredEnvelope p documents refs =
     (case documents of
        [Some m] \<Rightarrow> if valid_envelope p (Some m) then observedPass refs else observedFail refs ''required_response_envelope_missing''
      | _ \<Rightarrow> observedFail refs ''required_response_envelope_missing'')"

definition checkScenario :: "raw_json \<Rightarrow> scenario \<Rightarrow> exchange_facts \<Rightarrow> object_ref list \<Rightarrow> oracle_outcome" where
  "checkScenario J s f refs =
     (case as_Check (rsc_Assertion s) of
        CheckArgumentsString \<Rightarrow>
          if xf_argumentTypes f = [] then observedFail refs ''tool_arguments_not_observed''
          else if list_ex (\<lambda>t. t \<noteq> ''string'') (xf_argumentTypes f) then observedFail refs ''tool_arguments_wrong_type''
          else observedPass refs
      | CheckStreamingToolCall \<Rightarrow>
          if xf_toolCallCount f = 0 then observedFail refs ''streaming_tool_call_missing'' else observedPass refs
      | CheckFinishReason \<Rightarrow>
          if requestedOutputLimit J s \<noteq> None \<and> xf_outputLimitHit f \<noteq> []
          then observedInconclusive refs ReasonInsufficientSamples ''provider_output_limit_reached''
          else if xf_finishReasons f = [] then observedFail refs ''finish_reason_missing''
          else if list_ex (\<lambda>r. r \<notin> set (as_AllowedValues (rsc_Assertion s))) (xf_finishReasons f)
          then observedFail refs ''finish_reason_invalid''
          else observedPass refs
      | CheckTerminalEvent \<Rightarrow>
          if xf_terminalCount f \<noteq> 1 \<or> \<not> xf_framingComplete f then observedFail refs ''terminal_event_count'' else observedPass refs
      | CheckNoUnknownEvent \<Rightarrow>
          if xf_unknownCount f \<noteq> 0 then observedFail refs ''unexpected_fixture_event'' else observedPass refs
      | CheckUsageConsistent \<Rightarrow> checkUsage (as_ExpectedUsage (rsc_Assertion s)) (xf_usage f) refs
      | CheckValidUTF8 \<Rightarrow> if \<not> xf_validUTF8 f then observedFail refs ''invalid_utf8'' else observedPass refs
      | CheckRequiredEnvelope \<Rightarrow> checkRequiredEnvelope (rsc_Protocol s) (xf_responseObjects f) refs
      | CheckStreamMediaType \<Rightarrow> observedPass refs
      | CheckNoPostTerminal \<Rightarrow>
          if xf_terminalCount f = 0 then inconclusive ReasonNotObserved ''terminal_not_observed'' refs
          else if xf_postTerminal f \<noteq> 0 then observedFail refs ''semantic_data_after_terminal''
          else observedPass refs
      | CheckOutputIndexes \<Rightarrow> observedPass refs
      | CheckStableToolCallID \<Rightarrow> observedPass refs
      | CheckClosedReasoning \<Rightarrow> observedPass refs
      | OtherCheck _ \<Rightarrow> inconclusive ReasonHarnessError ''unsupported_registered_check'' refs)"

section \<open>Parsing\<close>

definition objectSchema :: oracle_schema where
  "objectSchema = Schema [TypeObject] [] [] None True"

definition complete_input :: "'a \<Rightarrow> object_ref list \<Rightarrow> 'a oracle_input" where
  "complete_input v refs = \<lparr>oi_Value = v, oi_EvidenceRefs = refs, oi_Complete = True, oi_HarnessError = None\<rparr>"

definition document_outcome :: "raw_json \<Rightarrow> object_ref list \<Rightarrow> string \<Rightarrow> oracle_outcome" where
  "document_outcome J refs raw =
     EvaluateSchema (nj_canonicalize (rj_native J)) (rj_value J) (complete_input raw refs) objectSchema"

definition normalize_request_of :: "scenario \<Rightarrow> string \<Rightarrow> ir_type \<Rightarrow> string \<Rightarrow> object_ref list \<Rightarrow> normalize_request" where
  "normalize_request_of s itemID t raw refs =
     \<lparr>nr_ItemID = itemID, nr_IRType = t, nr_SourceProtocol = protocol_text (rsc_Protocol s), nr_InteractionID = rsc_ID s,
      nr_ParentItemID = [], nr_CallID = [], nr_NativeValue = raw, nr_EvidenceRefs = refs, nr_Extension = [],
      nr_Transform = TransformIdentity, nr_Version = ''1.0.0''\<rparr>"

definition add_document :: "raw_json \<Rightarrow> object_ref list \<Rightarrow> string \<Rightarrow> exchange_facts \<Rightarrow> exchange_facts" where
  "add_document J refs raw f = f\<lparr>xf_documents := xf_documents f @ [raw], xf_parseOutcomes := xf_parseOutcomes f @ [document_outcome J refs raw]\<rparr>"

definition add_item :: "ir_item \<Rightarrow> exchange_facts \<Rightarrow> exchange_facts" where
  "add_item i f = f\<lparr>xf_items := xf_items f @ [i]\<rparr>"

definition parseJSONResponse :: "raw_json \<Rightarrow> scenario \<Rightarrow> string \<Rightarrow> object_ref list \<Rightarrow> exchange_facts res" where
  "parseJSONResponse J s body refs =
     (let f = add_document J refs body (new_facts body True)
      in if \<not> nj_valid (rj_native J) body then Inr f
         else (case Normalize (rj_native J) (normalize_request_of s ''response-document'' IRMessage body refs) of
             Inl e \<Rightarrow> Inl (Wrap ''normalize JSON response'' e)
           | Inr item \<Rightarrow>
               (case rj_object J body of
                  Inl e \<Rightarrow> Inl (Wrap ''decode validated JSON response'' e)
                | Inr value \<Rightarrow>
                    (let f1 = add_item item f
                     in Inr (inspectNonStream (rsc_Protocol s) value (f1\<lparr>xf_responseObjects := [value]\<rparr>))))))"

definition terminal_types_text :: "string list" where
  "terminal_types_text = [''response.completed'', ''response.failed'', ''response.incomplete'']"

definition isTerminalEvent :: "raw_json \<Rightarrow> protocol \<Rightarrow> sse_event \<Rightarrow> bool" where
  "isTerminalEvent J p e =
     (if p = ProtocolOpenAIChat then ev_Data e = done_marker
      else if ev_Event e = ''message_stop'' \<and> p = ProtocolAnthropic then True
      else if p \<noteq> ProtocolOpenAIResponses \<or> ev_Data e = done_marker then False
      else (case rj_object J (ev_Data e) of
          Inl _ \<Rightarrow> False
        | Inr value \<Rightarrow> text_or_empty (member value ''type'') \<in> set terminal_types_text))"

definition countedTerminalMarker :: "raw_json \<Rightarrow> protocol \<Rightarrow> sse_event \<Rightarrow> string option" where
  "countedTerminalMarker J p e =
     (if ev_Data e = done_marker then Some done_marker
      else if p = ProtocolAnthropic then
        (if ev_Event e \<noteq> ''message_stop'' then None
         else (case rj_object J (ev_Data e) of Inl _ \<Rightarrow> None | Inr _ \<Rightarrow> Some ''message_stop''))
      else if p \<noteq> ProtocolOpenAIResponses then None
      else (case rj_object J (ev_Data e) of
          Inl _ \<Rightarrow> None
        | Inr value \<Rightarrow>
            (let typeName = text_or_empty (member value ''type'')
             in if typeName \<in> set terminal_types_text then Some typeName else None)))"

definition count_terminal :: "nat \<Rightarrow> string option \<Rightarrow> exchange_facts \<Rightarrow> exchange_facts" where
  "count_terminal index marker f =
     (case marker of
        None \<Rightarrow> f
      | Some m \<Rightarrow>
          (let f1 = f\<lparr>xf_terminalCount := Suc (xf_terminalCount f)\<rparr>
           in if length (xf_terminalTrace f1) < maxTerminalTraceEntries
              then f1\<lparr>xf_terminalTrace := xf_terminalTrace f1 @ [\<lparr>tt_EventIndex = Suc index, tt_Marker = m\<rparr>]\<rparr>
              else f1\<lparr>xf_terminalOmitted := Suc (xf_terminalOmitted f1)\<rparr>))"

definition count_post :: "bool \<Rightarrow> sse_event \<Rightarrow> exchange_facts \<Rightarrow> exchange_facts" where
  "count_post terminalSeen e f =
     (if terminalSeen \<and> ev_Data e \<noteq> [] then f\<lparr>xf_postTerminal := Suc (xf_postTerminal f)\<rparr> else f)"

text \<open>The body of the loop over the logical events, from the state \<open>(terminalSeen, decoder, facts)\<close>.\<close>

type_synonym stream_state = "bool \<times> stream_decoder \<times> exchange_facts"

definition stream_step :: "raw_json \<Rightarrow> scenario \<Rightarrow> object_ref list \<Rightarrow> nat \<Rightarrow> sse_event \<Rightarrow> stream_state \<Rightarrow> stream_state res" where
  "stream_step J s refs index e st =
     (case st of (terminalSeen, d, f) \<Rightarrow>
      (case decoder_consume J e (d, count_terminal index (countedTerminalMarker J (rsc_Protocol s) e) (count_post terminalSeen e f)) of
         (d1, f1) \<Rightarrow>
           (let seen1 = (terminalSeen \<or> isTerminalEvent J (rsc_Protocol s) e)
            in if ev_Data e = done_marker then Inr (seen1, d1, f1)
               else (let f2 = add_document J refs (ev_Data e) f1
                     in if \<not> nj_valid (rj_native J) (ev_Data e) then Inr (seen1, d1, f2)
                        else (case Normalize (rj_native J)
                                 (normalize_request_of s (''event-'' @ pad6 (Suc index)) IRLifecycleEvent (ev_Data e) refs) of
                            Inl err \<Rightarrow> Inl (Wrap ''normalize SSE event'' err)
                          | Inr item \<Rightarrow> Inr (seen1, d1, add_item item f2))))))"

fun stream_loop :: "raw_json \<Rightarrow> scenario \<Rightarrow> object_ref list \<Rightarrow> nat \<Rightarrow> sse_event list \<Rightarrow> stream_state \<Rightarrow> stream_state res" where
  "stream_loop J s refs index [] st = Inr st"
| "stream_loop J s refs index (e # es) st = bind_res (stream_step J s refs index e st) (stream_loop J s refs (Suc index) es)"

definition whole_body :: "string \<Rightarrow> read_chunk" where
  "whole_body body = \<lparr>rk_Sequence = 1, rk_ByteOffset = 0, rk_Data = body\<rparr>"

definition parseStream :: "raw_json \<Rightarrow> scenario \<Rightarrow> string \<Rightarrow> object_ref list \<Rightarrow> exchange_facts res" where
  "parseStream J s body refs =
     (if body = [] then Inr (new_facts body False)
      else (case Feed (NewSSEAssembler (max (int (length body) + 1) 1024)) (whole_body body) of
          (a, Inl e) \<Rightarrow> Inr ((new_facts body True)\<lparr>xf_parseOutcomes := [observedFail refs ''invalid_sse_framing'']\<rparr>)
        | (a, Inr events) \<Rightarrow>
            (let tail = SseAssembler.Finish a;
                 f = (if st_BufferedBytes tail \<noteq> 0 \<or> st_PendingFieldCount tail \<noteq> 0
                      then (new_facts body False)\<lparr>xf_parseOutcomes := [observedFail refs ''incomplete_sse_event'']\<rparr>
                      else new_facts body True)
             in bind_res (stream_loop J s refs 0 events (False, newStreamDecoder (rsc_Protocol s), f))
                  (\<lambda>(seen, d, f1). Inr (f1\<lparr>xf_stateEvents := de_events d\<rparr>)))))"

section \<open>Evaluation\<close>

text \<open>
  The outcomes that belong to the check of the scenario.  \<open>None\<close> is a crash of the state machine, which
  its oracle excludes.
\<close>

definition selected_outcomes ::
  "raw_json \<Rightarrow> scenario \<Rightarrow> exchange_facts \<Rightarrow> object_ref list \<Rightarrow> oracle_outcome \<Rightarrow> oracle_outcome \<Rightarrow> oracle_outcome list option" where
  "selected_outcomes J s f refs statusOutcome contentTypeOutcome =
     (let checkOutcome = checkScenario J s f refs;
          stateOutcome = EvaluateStateMachine (complete_input (xf_stateEvents f) refs);
          parse = xf_parseOutcomes f
      in case as_Check (rsc_Assertion s) of
           CheckStreamMediaType \<Rightarrow> Some [statusOutcome, contentTypeOutcome, checkOutcome]
         | CheckRequiredEnvelope \<Rightarrow> Some ([statusOutcome, contentTypeOutcome] @ parse @ [checkOutcome])
         | CheckTerminalEvent \<Rightarrow>
             (case stateOutcome of None \<Rightarrow> None
              | Some so \<Rightarrow> Some ([statusOutcome, contentTypeOutcome] @ parse @ [checkOutcome, so]))
         | CheckNoPostTerminal \<Rightarrow> Some [statusOutcome, contentTypeOutcome, checkOutcome]
         | _ \<Rightarrow>
             (let relations = (if xf_items f \<noteq> [] then EvaluateRelations (nj_valid (rj_native J)) (complete_input (xf_items f) refs)
                               else observedFail refs ''empty_normalized_interaction'')
              in if rsc_Streaming s then
                   (case stateOutcome of None \<Rightarrow> None
                    | Some so \<Rightarrow> Some ([statusOutcome, contentTypeOutcome, checkOutcome, so] @ parse @ [relations]))
                 else Some ([statusOutcome, contentTypeOutcome, checkOutcome] @ parse @ [relations])))"

definition status_outcome :: "scenario \<Rightarrow> int \<Rightarrow> object_ref list \<Rightarrow> oracle_outcome" where
  "status_outcome s status refs =
     (if status \<noteq> rsc_ExpectedStatus s then observedFail refs ''unexpected_http_status'' else observedPass refs)"

definition parse_response :: "raw_json \<Rightarrow> scenario \<Rightarrow> string \<Rightarrow> object_ref list \<Rightarrow> exchange_facts res" where
  "parse_response J s body refs =
     (if rsc_Streaming s then parseStream J s body refs else parseJSONResponse J s body refs)"

definition evaluate ::
  "raw_json \<Rightarrow> scenario \<Rightarrow> int \<Rightarrow> http_header \<Rightarrow> string \<Rightarrow> object_ref list \<Rightarrow> evaluation res option" where
  "evaluate J s status headers body refs =
     (case unsupportedOutputLimitField J s status body of
        Some field \<Rightarrow> Some (Inr \<lparr>ea_Outcome = observedInconclusive refs ReasonUnsupportedCapability ''provider_output_limit_unsupported'',
            ea_Usage = no_usage\<rparr>)
      | None \<Rightarrow>
          (case parse_response J s body refs of
             Inl e \<Rightarrow> Some (Inl e)
           | Inr f \<Rightarrow>
               map_option (\<lambda>outcomes. Inr \<lparr>ea_Outcome = combineOutcomes refs outcomes, ea_Usage = xf_usage f\<rparr>)
                 (selected_outcomes J s f refs (status_outcome s status refs) (checkContentType J (rsc_Streaming s) headers refs))))"

section \<open>Combining outcomes\<close>

text \<open>A failure of the target is a verdict fail, and there is no verdict but pass, fail and inconclusive.\<close>

definition graded :: "oracle_outcome \<Rightarrow> bool" where
  "graded o1 \<longleftrightarrow> (oo_TargetFailure o1 \<longleftrightarrow> oo_Verdict o1 = VerdictFail) \<and> oo_Verdict o1 \<in> {VerdictPass, VerdictFail, VerdictInconclusive}"

lemma graded_simps [simp]: "graded (oracle_pass refs)" "graded (targetFail refs c)" "graded (inconclusive r c refs)"
  "graded (observedInconclusive refs r c)"
  by (simp_all add: graded_def inconclusive_def observedInconclusive_def)

lemma inconclusive_verdict [simp]: "oo_Verdict (inconclusive r c refs) = VerdictInconclusive"
  "oo_Verdict (observedInconclusive refs r c) = VerdictInconclusive"
  by (simp_all add: inconclusive_def observedInconclusive_def)

lemma find_SomeD: "find P xs = Some x \<Longrightarrow> x \<in> set xs \<and> P x"
  by (auto simp: find_Some_iff)

lemma combineOutcomes_cases:
  assumes "\<forall>o1\<in>set outcomes. graded o1"
  obtains (failed) o1 where "o1 \<in> set outcomes" "oo_Verdict o1 = VerdictFail" "combineOutcomes refs outcomes = o1"
  | (undecided) o1 where "o1 \<in> set outcomes" "oo_Verdict o1 = VerdictInconclusive" "combineOutcomes refs outcomes = o1"
      "\<forall>o1\<in>set outcomes. oo_Verdict o1 \<noteq> VerdictFail"
  | (passed) "\<forall>o1\<in>set outcomes. oo_Verdict o1 = VerdictPass" "combineOutcomes refs outcomes = oracle_pass refs"
proof (cases "find oo_TargetFailure outcomes")
  case (Some o1)
  with find_SomeD [OF Some] assms show ?thesis by (intro failed [of o1]) (auto simp: combineOutcomes_def graded_def)
next
  case None
  then have nofail: "\<forall>o1\<in>set outcomes. oo_Verdict o1 \<noteq> VerdictFail" using assms by (auto simp: find_None_iff graded_def)
  let ?P = "\<lambda>o1. oo_Verdict o1 = VerdictInconclusive \<or> oo_Verdict o1 = VerdictWarn"
  show ?thesis
  proof (cases "find ?P outcomes")
    case o1: (Some o1)
    from find_SomeD [OF o1] assms have "o1 \<in> set outcomes" "oo_Verdict o1 = VerdictInconclusive" by (auto simp: graded_def)
    with o1 None nofail show ?thesis by (intro undecided [of o1]) (simp_all add: combineOutcomes_def)
  next
    case none: None
    then have "oo_Verdict o1 \<noteq> VerdictInconclusive" if "o1 \<in> set outcomes" for o1 using that by (auto simp: find_None_iff)
    with nofail assms have "\<forall>o1\<in>set outcomes. oo_Verdict o1 = VerdictPass" by (auto simp: graded_def)
    with none None show ?thesis by (intro passed) (simp_all add: combineOutcomes_def)
  qed
qed

lemma combineOutcomes_graded:
  assumes "\<forall>o1\<in>set outcomes. graded o1"
  shows "graded (combineOutcomes refs outcomes)"
    "oo_Verdict (combineOutcomes refs outcomes) = VerdictPass \<longleftrightarrow> (\<forall>o1\<in>set outcomes. oo_Verdict o1 = VerdictPass)"
    "oo_Verdict (combineOutcomes refs outcomes) = VerdictFail \<longleftrightarrow> (\<exists>o1\<in>set outcomes. oo_Verdict o1 = VerdictFail)"
proof -
  note cases = combineOutcomes_cases [OF assms, of refs]
  show "graded (combineOutcomes refs outcomes)" by (rule cases) (use assms in simp_all)
  show "oo_Verdict (combineOutcomes refs outcomes) = VerdictPass \<longleftrightarrow> (\<forall>o1\<in>set outcomes. oo_Verdict o1 = VerdictPass)"
    by (rule cases) force+
  show "oo_Verdict (combineOutcomes refs outcomes) = VerdictFail \<longleftrightarrow> (\<exists>o1\<in>set outcomes. oo_Verdict o1 = VerdictFail)"
    by (rule cases) auto
qed

lemma checkUsage_graded: "graded (checkUsage u a refs)"
  by (auto simp: checkUsage_def split: option.splits)

lemma checkRequiredEnvelope_graded: "graded (checkRequiredEnvelope p ds refs)"
  by (auto simp: checkRequiredEnvelope_def split: list.splits option.splits)

lemma checkScenario_graded: "graded (checkScenario J s f refs)"
  by (cases "as_Check (rsc_Assertion s)") (simp_all add: checkScenario_def checkUsage_graded checkRequiredEnvelope_graded)

lemma other_outcomes_graded: "graded (status_outcome s status refs)" "graded (checkContentType J b h refs)"
  "graded (document_outcome J refs raw)" "graded (EvaluateRelations jv input)"
  using schema_oracle.verdict_cases schema_oracle.target_failure relational_oracle.verdict_cases relational_oracle.target_failure
  by (auto simp: status_outcome_def checkContentType_def document_outcome_def graded_def)

lemma state_outcome_graded: "\<exists>so. EvaluateStateMachine input = Some so \<and> graded so"
  by (rule EvaluateStateMachine_cases [of input]) (auto simp: graded_def)

section \<open>The facts of a stream\<close>

text \<open>What the decoder leaves alone.\<close>

definition kept :: "exchange_facts \<Rightarrow> exchange_facts \<Rightarrow> bool" where
  "kept f g \<longleftrightarrow> xf_validUTF8 g = xf_validUTF8 f \<and> xf_framingComplete g = xf_framingComplete f \<and> xf_terminalCount g = xf_terminalCount f \<and>
     xf_terminalTrace g = xf_terminalTrace f \<and> xf_terminalOmitted g = xf_terminalOmitted f \<and> xf_postTerminal g = xf_postTerminal f \<and>
     xf_documents g = xf_documents f \<and> xf_items g = xf_items f \<and> xf_parseOutcomes g = xf_parseOutcomes f"

lemma kept_refl [simp]: "kept f f"
  by (simp add: kept_def)

lemma kept_updates [simp]: "kept f (add_tool_call g) = kept f g" "kept f (add_argument_type t g) = kept f g"
  "kept f (add_reason v g) = kept f g" "kept f (hit_limit b t g) = kept f g" "kept f (on_usage h g) = kept f g"
  "kept f (count_unknown e t g) = kept f g"
  by (auto simp: kept_def add_tool_call_def add_argument_type_def add_reason_def hit_limit_def on_usage_def count_unknown_def
      split: option.splits)

lemma kept_usage [simp]: "kept f (read_responses_usage u g) = kept f g" "kept f (read_chat_usage u g) = kept f g"
  by (simp_all add: read_responses_usage_def read_chat_usage_def)

lemma kept_chat_call: "kept f (snd st) \<Longrightarrow> kept f (snd (chat_call v st))"
  by (auto simp: chat_call_def chat_open_def Let_def split: prod.splits)

lemma decoder_consume_kept: "kept f (snd (decoder_consume J e (d, f)))"
proof -
  have chat: "kept f (snd (consumeChat v (d, g)))" if "kept f g" for v g
    using that fold_invariant [of _ "\<lambda>s. kept f (snd s)" chat_call, OF kept_chat_call]
    by (auto simp: consumeChat_def Let_def split: prod.splits option.splits) (metis kept_usage(2) snd_conv)+
  show ?thesis using chat [of "count_unknown e _ f"]
    by (auto simp: decoder_consume_def consumeResponses_def consumeAnthropic_def Let_def split: sum.splits protocol.splits option.splits)
qed

lemma kept_fields: "kept f g \<Longrightarrow> xf_terminalCount g = xf_terminalCount f" "kept f g \<Longrightarrow> xf_terminalTrace g = xf_terminalTrace f"
  "kept f g \<Longrightarrow> xf_terminalOmitted g = xf_terminalOmitted f" "kept f g \<Longrightarrow> xf_postTerminal g = xf_postTerminal f"
  "kept f g \<Longrightarrow> xf_documents g = xf_documents f" "kept f g \<Longrightarrow> xf_items g = xf_items f"
  "kept f g \<Longrightarrow> xf_parseOutcomes g = xf_parseOutcomes f" "kept f g \<Longrightarrow> xf_framingComplete g = xf_framingComplete f"
  "kept f g \<Longrightarrow> xf_validUTF8 g = xf_validUTF8 f"
  by (simp_all add: kept_def)

text \<open>The terminal markers of a stream with their positions, and the events after the first terminal event.\<close>

fun terminal_entries :: "raw_json \<Rightarrow> protocol \<Rightarrow> nat \<Rightarrow> sse_event list \<Rightarrow> terminal_trace_entry list" where
  "terminal_entries J p n [] = []"
| "terminal_entries J p n (e # es) = (case countedTerminalMarker J p e of None \<Rightarrow> terminal_entries J p (Suc n) es
     | Some m \<Rightarrow> \<lparr>tt_EventIndex = Suc n, tt_Marker = m\<rparr> # terminal_entries J p (Suc n) es)"

definition after_terminal :: "raw_json \<Rightarrow> protocol \<Rightarrow> bool \<Rightarrow> sse_event list \<Rightarrow> sse_event list" where
  "after_terminal J p seen es = (if seen then es else tl (dropWhile (\<lambda>e. \<not> isTerminalEvent J p e) es))"

definition documents_of :: "sse_event list \<Rightarrow> string list" where
  "documents_of es = filter (\<lambda>t. t \<noteq> done_marker) (map ev_Data es)"

definition nonempty_data :: "sse_event list \<Rightarrow> nat" where
  "nonempty_data es = length (filter (\<lambda>e. ev_Data e \<noteq> []) es)"

lemma after_terminal_Cons:
  "after_terminal J p seen (e # es) =
     (if seen then e # es else if isTerminalEvent J p e then after_terminal J p True es else after_terminal J p False es)"
  by (simp add: after_terminal_def)

lemma stream_step_facts:
  assumes "stream_step J s refs n e (seen, d, f) = Inr (seen1, d1, f1)" "length (xf_terminalTrace f) \<le> maxTerminalTraceEntries"
  shows "d1 = decoder_next J e d" "seen1 \<longleftrightarrow> seen \<or> isTerminalEvent J (rsc_Protocol s) e"
    "xf_terminalCount f1 = xf_terminalCount f + length (terminal_entries J (rsc_Protocol s) n [e])"
    "xf_terminalTrace f1 = take maxTerminalTraceEntries (xf_terminalTrace f @ terminal_entries J (rsc_Protocol s) n [e])"
    "xf_terminalOmitted f1 = xf_terminalOmitted f
       + (length (xf_terminalTrace f) + length (terminal_entries J (rsc_Protocol s) n [e]) - maxTerminalTraceEntries)"
    "xf_postTerminal f1 = xf_postTerminal f + (if seen then nonempty_data [e] else 0)"
    "xf_documents f1 = xf_documents f @ documents_of [e]"
    "xf_parseOutcomes f1 = xf_parseOutcomes f @ map (document_outcome J refs) (documents_of [e])"
    "xf_framingComplete f1 = xf_framingComplete f" "xf_validUTF8 f1 = xf_validUTF8 f"
proof -
  let ?m = "countedTerminalMarker J (rsc_Protocol s) e"
  let ?g = "count_terminal n ?m (count_post seen e f)"
  obtain d2 g where c: "decoder_consume J e (d, ?g) = (d2, g)" by fastforce
  have d2: "d2 = decoder_next J e d" by (rule decoder_consume_next [OF c])
  have k: "kept ?g g" using decoder_consume_kept [of ?g J e d] c by simp
  obtain f2 where r: "seen1 = (seen \<or> isTerminalEvent J (rsc_Protocol s) e)" "d1 = d2"
    and f2: "f2 = (if ev_Data e = done_marker then g else add_document J refs (ev_Data e) g)"
    and f1: "f1 = f2 \<or> (\<exists>i. f1 = add_item i f2)"
    using assms(1) c by (auto simp: stream_step_def Let_def split: if_splits sum.splits)
  have same: "xf_terminalCount f1 = xf_terminalCount ?g" "xf_terminalTrace f1 = xf_terminalTrace ?g"
    "xf_terminalOmitted f1 = xf_terminalOmitted ?g" "xf_postTerminal f1 = xf_postTerminal ?g"
    "xf_documents f1 = xf_documents ?g @ documents_of [e]"
    "xf_parseOutcomes f1 = xf_parseOutcomes ?g @ map (document_outcome J refs) (documents_of [e])"
    "xf_framingComplete f1 = xf_framingComplete ?g" "xf_validUTF8 f1 = xf_validUTF8 ?g"
    using f1 f2 kept_fields [OF k] by (cases "ev_Data e = done_marker"; auto simp: add_document_def add_item_def documents_of_def)+
  show "d1 = decoder_next J e d" "seen1 \<longleftrightarrow> seen \<or> isTerminalEvent J (rsc_Protocol s) e" using r d2 by simp_all
  show "xf_terminalCount f1 = xf_terminalCount f + length (terminal_entries J (rsc_Protocol s) n [e])"
    "xf_terminalTrace f1 = take maxTerminalTraceEntries (xf_terminalTrace f @ terminal_entries J (rsc_Protocol s) n [e])"
    "xf_terminalOmitted f1 = xf_terminalOmitted f
       + (length (xf_terminalTrace f) + length (terminal_entries J (rsc_Protocol s) n [e]) - maxTerminalTraceEntries)"
    "xf_postTerminal f1 = xf_postTerminal f + (if seen then nonempty_data [e] else 0)"
    "xf_documents f1 = xf_documents f @ documents_of [e]"
    "xf_parseOutcomes f1 = xf_parseOutcomes f @ map (document_outcome J refs) (documents_of [e])"
    "xf_framingComplete f1 = xf_framingComplete f" "xf_validUTF8 f1 = xf_validUTF8 f"
    using same assms(2) by (auto simp: count_terminal_def count_post_def nonempty_data_def Let_def split: option.splits)
qed

lemma take_take_append: "take n (take n xs @ ys) = take n (xs @ ys)"
  by (cases "length xs \<le> n") simp_all

lemma terminal_entries_Cons: "terminal_entries J p n (e # es) = terminal_entries J p n [e] @ terminal_entries J p (Suc n) es"
  by (simp split: option.splits)

lemma nonempty_data_Cons: "nonempty_data (e # es) = nonempty_data [e] + nonempty_data es"
  by (simp add: nonempty_data_def)

lemma documents_of_Cons: "documents_of (e # es) = documents_of [e] @ documents_of es"
  by (simp add: documents_of_def)

lemma stream_loop_facts:
  assumes "stream_loop J s refs n es (seen, d, f) = Inr (seen', d', f')" "length (xf_terminalTrace f) \<le> maxTerminalTraceEntries"
  shows "d' = fold (decoder_next J) es d \<and>
    xf_terminalCount f' = xf_terminalCount f + length (terminal_entries J (rsc_Protocol s) n es) \<and>
    xf_terminalTrace f' = take maxTerminalTraceEntries (xf_terminalTrace f @ terminal_entries J (rsc_Protocol s) n es) \<and>
    xf_terminalOmitted f' = xf_terminalOmitted f
       + (length (xf_terminalTrace f) + length (terminal_entries J (rsc_Protocol s) n es) - maxTerminalTraceEntries) \<and>
    xf_postTerminal f' = xf_postTerminal f + nonempty_data (after_terminal J (rsc_Protocol s) seen es) \<and>
    xf_documents f' = xf_documents f @ documents_of es \<and>
    xf_parseOutcomes f' = xf_parseOutcomes f @ map (document_outcome J refs) (documents_of es) \<and>
    xf_framingComplete f' = xf_framingComplete f \<and> xf_validUTF8 f' = xf_validUTF8 f"
  using assms
proof (induction es arbitrary: n seen d f)
  case Nil
  then show ?case by (auto simp: after_terminal_def nonempty_data_def documents_of_def)
next
  case (Cons e es)
  from Cons.prems(1) obtain seen1 d1 f1 where step: "stream_step J s refs n e (seen, d, f) = Inr (seen1, d1, f1)"
    and rest: "stream_loop J s refs (Suc n) es (seen1, d1, f1) = Inr (seen', d', f')"
    by (auto simp: bind_res_Inr)
  note st = stream_step_facts [OF step Cons.prems(2)]
  have len: "length (xf_terminalTrace f1) \<le> maxTerminalTraceEntries" using st(4) by simp
  have post: "nonempty_data (after_terminal J (rsc_Protocol s) seen (e # es)) =
      (if seen then nonempty_data [e] else 0) + nonempty_data (after_terminal J (rsc_Protocol s) seen1 es)"
    using nonempty_data_Cons [of e es] by (auto simp: after_terminal_Cons st(2) after_terminal_def)
  have omitted: "length (xf_terminalTrace f1) = min maxTerminalTraceEntries
      (length (xf_terminalTrace f) + length (terminal_entries J (rsc_Protocol s) n [e]))" using st(4) by simp
  have docs: "documents_of (e # es) = documents_of [e] @ documents_of es" by (rule documents_of_Cons)
  have entries: "terminal_entries J (rsc_Protocol s) n (e # es) =
      terminal_entries J (rsc_Protocol s) n [e] @ terminal_entries J (rsc_Protocol s) (Suc n) es" by (rule terminal_entries_Cons)
  have trace: "take maxTerminalTraceEntries (xf_terminalTrace f1 @ ts) =
      take maxTerminalTraceEntries (xf_terminalTrace f @ terminal_entries J (rsc_Protocol s) n [e] @ ts)" for ts
    using take_take_append [of maxTerminalTraceEntries "xf_terminalTrace f @ terminal_entries J (rsc_Protocol s) n [e]" ts]
    by (simp add: st(4) del: take_append)
  have count: "xf_terminalOmitted f1 + (length (xf_terminalTrace f1) + k - maxTerminalTraceEntries) = xf_terminalOmitted f +
      (length (xf_terminalTrace f) + length (terminal_entries J (rsc_Protocol s) n [e]) + k - maxTerminalTraceEntries)" for k
    unfolding omitted st(5) by (auto simp: min_def)
  show ?case
    using Cons.IH [OF rest len] count [of "length (terminal_entries J (rsc_Protocol s) (Suc n) es)"]
    by (simp add: docs entries trace post st(1,3,6,7,8,9,10) add.assoc del: terminal_entries.simps take_append)
qed

text \<open>The normalized documents: their identifiers follow their positions, and the relational oracle accepts them.\<close>

definition item_of :: "scenario \<Rightarrow> ir_item \<Rightarrow> bool" where
  "item_of s i \<longleftrightarrow> ir_InteractionID i = rsc_ID s \<and> ir_ParentItemID i = [] \<and> ir_CallID i = [] \<and> ir_IRType i \<in> {IRMessage, IRLifecycleEvent}"

lemma Normalize_item:
  assumes "Normalize J (normalize_request_of s itemID t raw refs) = Inr i" "t \<in> {IRMessage, IRLifecycleEvent}"
  shows "usable (nj_valid J) i" "item_of s i" "ir_ItemID i = itemID"
proof -
  obtain sourceType native where "ir_Validate (nj_valid J) i = None" "ir_NormalizedValue i = [] \<or> nj_valid J (ir_NormalizedValue i)"
    "i = \<lparr>ir_ItemID = itemID, ir_IRType = t, ir_SourceProtocol = protocol_text (rsc_Protocol s), ir_SourceType = sourceType,
       ir_InteractionID = rsc_ID s, ir_ParentItemID = [], ir_CallID = [], ir_NativeValue = native, ir_NormalizedValue = native,
       ir_EvidenceRefs = refs, ir_Extension = [], ir_TransformID = transform_text TransformIdentity, ir_TransformVersion = ''1.0.0'',
       ir_LossMarkers = [], ir_Unavailable = []\<rparr>"
    using assms(1) by (auto simp: Normalize_def normalize_request_of_def transform_item_def bind_res_Inr split: sum.splits)
  with assms(2) show "usable (nj_valid J) i" "item_of s i" "ir_ItemID i = itemID" by (simp_all add: usable_def item_of_def)
qed

definition event_id :: "nat \<Rightarrow> string" where
  "event_id n = ''event-'' @ pad6 (Suc n)"

lemma stream_step_items:
  assumes "stream_step J s refs n e (seen, d, f) = Inr (seen1, d1, f1)"
  shows "(if ev_Data e \<noteq> done_marker \<and> nj_valid (rj_native J) (ev_Data e)
     then \<exists>i. xf_items f1 = xf_items f @ [i] \<and> usable (nj_valid (rj_native J)) i \<and> item_of s i \<and> ir_ItemID i = event_id n
     else xf_items f1 = xf_items f)"
proof -
  let ?g = "count_terminal n (countedTerminalMarker J (rsc_Protocol s) e) (count_post seen e f)"
  obtain d2 g where c: "decoder_consume J e (d, ?g) = (d2, g)" by fastforce
  then have "kept ?g g" using decoder_consume_kept [of ?g J e d] by simp
  moreover have "xf_items ?g = xf_items f" by (simp add: count_terminal_def count_post_def Let_def split: option.splits)
  ultimately have g: "xf_items g = xf_items f" by (simp add: kept_fields(6))
  show ?thesis
  proof (cases "ev_Data e \<noteq> done_marker \<and> nj_valid (rj_native J) (ev_Data e)")
    case True
    with assms c obtain i where i: "Normalize (rj_native J)
        (normalize_request_of s (''event-'' @ pad6 (Suc n)) IRLifecycleEvent (ev_Data e) refs) = Inr i"
      "f1 = add_item i (add_document J refs (ev_Data e) g)"
      by (auto simp: stream_step_def Let_def split: sum.splits)
    with Normalize_item [OF i(1)] g True show ?thesis by (simp add: add_item_def add_document_def event_id_def)
  next
    case False
    with assms c g show ?thesis by (auto simp: stream_step_def Let_def add_document_def split: if_splits)
  qed
qed

lemma stream_loop_items:
  "stream_loop J s refs n es (seen, d, f) = Inr (seen', d', f') \<Longrightarrow>
   \<exists>ks is. xf_items f' = xf_items f @ is \<and> map ir_ItemID is = map event_id ks \<and> sorted_wrt (<) ks \<and> (\<forall>k\<in>set ks. n \<le> k) \<and>
     length is = length (filter (nj_valid (rj_native J)) (documents_of es)) \<and>
     (\<forall>i\<in>set is. usable (nj_valid (rj_native J)) i \<and> item_of s i)"
proof (induction es arbitrary: n seen d f)
  case Nil
  then show ?case by (intro exI [of _ "[]"]) (simp add: documents_of_def)
next
  case (Cons e es)
  from Cons.prems obtain seen1 d1 f1 where step: "stream_step J s refs n e (seen, d, f) = Inr (seen1, d1, f1)"
    and rest: "stream_loop J s refs (Suc n) es (seen1, d1, f1) = Inr (seen', d', f')"
    by (auto simp: bind_res_Inr)
  from Cons.IH [OF rest] obtain ks its where ih: "xf_items f' = xf_items f1 @ its" "map ir_ItemID its = map event_id ks"
    "sorted_wrt (<) ks" "\<forall>k\<in>set ks. Suc n \<le> k" "length its = length (filter (nj_valid (rj_native J)) (documents_of es))"
    "\<forall>i\<in>set its. usable (nj_valid (rj_native J)) i \<and> item_of s i" by blast
  note st = stream_step_items [OF step]
  show ?case
  proof (cases "ev_Data e \<noteq> done_marker \<and> nj_valid (rj_native J) (ev_Data e)")
    case True
    with st obtain i where "xf_items f1 = xf_items f @ [i]" "usable (nj_valid (rj_native J)) i" "item_of s i" "ir_ItemID i = event_id n" by auto
    with ih True show ?thesis
      by (intro exI [of _ "n # ks"] exI [of _ "i # its"]) (auto simp: documents_of_def)
  next
    case False
    with ih st show ?thesis by (intro exI [of _ ks] exI [of _ its]) (auto simp: documents_of_def Suc_le_eq)
  qed
qed

lemma relations_accept:
  assumes "evidence_ready (complete_input its refs)" "its \<noteq> []" "distinct (map ir_ItemID its)"
    "\<forall>i\<in>set its. usable jv i \<and> item_of s i"
  shows "oo_Verdict (EvaluateRelations jv (complete_input its refs)) = VerdictPass"
proof -
  have "usable jv (its ! n) \<and> related (take n its) (its ! n)" if n: "n < length its" for n
  proof -
    have i: "usable jv (its ! n)" "item_of s (its ! n)" using assms(4) n by simp_all
    have "ir_ItemID (its ! n) \<notin> ir_ItemID ` set (take n its)"
      using assms(3) n by (auto simp: in_set_conv_nth distinct_conv_nth)
    moreover have "take n its \<noteq> [] \<longrightarrow> item_of s (hd (take n its))" using assms(4) n by (cases its) auto
    ultimately show ?thesis using i by (auto simp: related_def item_of_def)
  qed
  with relation_loop_start [of jv refs its]
  have loop: "oo_Verdict (relation_loop jv refs no_relations its) = VerdictPass" by blast
  have "preflight (complete_input its refs) = None" using assms(1) by (simp add: preflight_None)
  with loop assms(2) show ?thesis by (simp add: EvaluateRelations_def complete_input_def)
qed

section \<open>Observed usage is never negative\<close>

definition usage_ok :: "exchange_facts \<Rightarrow> bool" where
  "usage_ok f \<longleftrightarrow> 0 \<le> sint (ou_Input (xf_usage f)) \<and> 0 \<le> sint (ou_Output (xf_usage f)) \<and> 0 \<le> sint (ou_Reasoning (xf_usage f)) \<and>
     0 \<le> sint (ou_Total (xf_usage f))"

lemma usage_ok_new [simp]: "usage_ok (new_facts body b)"
  by (simp add: usage_ok_def new_facts_def no_usage_def)

lemma usage_ok_updates [simp]: "usage_ok (add_tool_call f) = usage_ok f" "usage_ok (add_argument_type t f) = usage_ok f"
  "usage_ok (add_reason v f) = usage_ok f" "usage_ok (hit_limit b t f) = usage_ok f" "usage_ok (count_unknown e t f) = usage_ok f"
  "usage_ok (count_post b e f) = usage_ok f" "usage_ok (count_terminal n m f) = usage_ok f" "usage_ok (add_item i f) = usage_ok f"
  "usage_ok (add_document J refs raw f) = usage_ok f" "usage_ok (f\<lparr>xf_stateEvents := es\<rparr>) = usage_ok f"
  "usage_ok (f\<lparr>xf_parseOutcomes := os\<rparr>) = usage_ok f" "usage_ok (f\<lparr>xf_responseObjects := vs\<rparr>) = usage_ok f"
  by (auto simp: usage_ok_def add_tool_call_def add_argument_type_def add_reason_def hit_limit_def count_unknown_def count_post_def
      count_terminal_def add_item_def add_document_def Let_def split: option.splits)

lemma usage_ok_reads:
  "usage_ok f \<Longrightarrow> usage_ok (on_usage (read_input v) f)" "usage_ok f \<Longrightarrow> usage_ok (on_usage (read_output v) f)"
  "usage_ok f \<Longrightarrow> usage_ok (on_usage (readUsage u i n t) f)" "usage_ok f \<Longrightarrow> usage_ok (on_usage (readReasoningUsage u n) f)"
  by (auto simp: usage_ok_def on_usage_def readUsage_def readReasoningUsage_def read_input_def read_output_def read_total_def Let_def
      dest: integerValue_nonneg split: option.splits)

lemma usage_ok_usage: "usage_ok f \<Longrightarrow> usage_ok (read_responses_usage u f)" "usage_ok f \<Longrightarrow> usage_ok (read_chat_usage u f)"
  by (simp_all add: read_responses_usage_def read_chat_usage_def usage_ok_reads)

lemma usage_ok_inspect: "usage_ok f \<Longrightarrow> usage_ok (inspectNonStream p value f)"
proof -
  assume f: "usage_ok f"
  have chat: "usage_ok (fold (\<lambda>call f. add_argument_type (h call) (add_tool_call f)) calls f)" for h :: "json_value \<Rightarrow> string" and calls
    by (rule fold_invariant) (simp_all add: f)
  have resp: "usage_ok (fold (\<lambda>v f. let item = objectValue v in if member item ''type'' = JString ''function_call''
      then add_argument_type (jsonType (member item ''arguments'')) (add_tool_call f) else f) vs f)" for vs
    by (rule fold_invariant) (simp_all add: f Let_def)
  have anth: "usage_ok (fold (\<lambda>v f. if member (objectValue v) ''type'' = JString ''tool_use'' then add_tool_call f else f) vs f)" for vs
    by (rule fold_invariant) (simp_all add: f)
  show ?thesis using f chat resp anth by (cases p) (simp_all add: inspectNonStream_def Let_def usage_ok_usage usage_ok_reads)
qed

lemma usage_ok_consume: "usage_ok f \<Longrightarrow> usage_ok (snd (decoder_consume J e (d, f)))"
proof -
  assume f: "usage_ok f"
  have call: "usage_ok (snd s) \<Longrightarrow> usage_ok (snd (chat_call v s))" for v s
    by (auto simp: chat_call_def chat_open_def Let_def split: prod.splits)
  have chat: "usage_ok (snd (consumeChat v (d, g)))" if "usage_ok g" for v g
    using that fold_invariant [of _ "\<lambda>s. usage_ok (snd s)" chat_call, OF call]
    by (auto simp: consumeChat_def Let_def split: prod.splits option.splits) (metis usage_ok_usage(2) snd_conv)+
  show ?thesis using f chat [of "count_unknown e _ f"]
    by (auto simp: decoder_consume_def consumeResponses_def consumeAnthropic_def Let_def usage_ok_usage usage_ok_reads
        split: sum.splits protocol.splits option.splits)
qed

lemma usage_ok_loop: "stream_loop J s refs n es (seen, d, f) = Inr (seen', d', f') \<Longrightarrow> usage_ok f \<Longrightarrow> usage_ok f'"
proof (induction es arbitrary: n seen d f)
  case (Cons e es)
  from Cons.prems(1) obtain seen1 d1 f1 where step: "stream_step J s refs n e (seen, d, f) = Inr (seen1, d1, f1)"
    and rest: "stream_loop J s refs (Suc n) es (seen1, d1, f1) = Inr (seen', d', f')"
    by (auto simp: bind_res_Inr)
  have "usage_ok f1"
    using step usage_ok_consume [of "count_terminal n (countedTerminalMarker J (rsc_Protocol s) e) (count_post seen e f)" J e d] Cons.prems(2)
    by (auto simp: stream_step_def Let_def split: prod.splits if_splits sum.splits)
  with Cons.IH [OF rest] show ?case .
qed simp

lemma parse_usage_ok: "parse_response J s body refs = Inr f \<Longrightarrow> usage_ok f"
  by (auto simp: parse_response_def parseStream_def parseJSONResponse_def bind_res_Inr Let_def usage_ok_inspect
      split: if_splits prod.splits sum.splits dest!: usage_ok_loop)

lemma sint_add_nonneg:
  assumes "0 \<le> sint x" "0 \<le> sint y" "0 \<le> sint (x + y :: i64)"
  shows "sint (x + y) = sint x + sint y"
proof (cases "sint x + sint y < 2 ^ 63")
  case True
  then show ?thesis using assms(1,2) by (intro sint_add_i64) (simp add: i64_range_def)
next
  case False
  have "sint x < 2 ^ 63" "sint y < 2 ^ 63" using sint_i64_range [of x] sint_i64_range [of y] by (auto simp: i64_range_def)
  then have small: "sint x + sint y - 2 ^ 64 < 0" by simp
  have "sint (x + y) = signed_take_bit 63 (sint x + sint y)" by (simp add: sint_word_ariths)
  also have "\<dots> = signed_take_bit 63 (sint x + sint y - 2 ^ 64)"
    by (simp add: signed_take_bit_eq_iff_take_bit_eq take_bit_eq_mod)
  also have "\<dots> = sint x + sint y - 2 ^ 64"
    using False small by (intro signed_take_bit_int_eq_self) simp_all
  finally show ?thesis using small assms(3) by simp
qed

text \<open>
  The check of reported token counts is exact.  When a scenario states the counts it expects, a
  passing check means that the response reported them, and that a reported total is the sum of the
  other two as numbers: the 64-bit addition in the check cannot wrap around to the total of a response,
  since counts read from a response are never negative.
\<close>

theorem usage_check_exact:
  assumes "parse_response J s body refs = Inr f" "oo_Verdict (checkUsage (Some u) (xf_usage f) refs) = VerdictPass"
  shows "ou_HasInput (xf_usage f) \<and> ou_HasOutput (xf_usage f) \<and> ou_Input (xf_usage f) = tu_Input u \<and> ou_Output (xf_usage f) = tu_Output u \<and>
    (\<forall>t. tu_Total u = Some t \<longrightarrow> ou_HasTotal (xf_usage f) \<and> ou_Total (xf_usage f) = t \<and>
       sint t = sint (tu_Input u) + sint (tu_Output u))"
proof -
  have ok: "usage_ok f" by (rule parse_usage_ok [OF assms(1)])
  have basic: "ou_HasInput (xf_usage f)" "ou_HasOutput (xf_usage f)" "ou_Input (xf_usage f) = tu_Input u" "ou_Output (xf_usage f) = tu_Output u"
    using assms(2) by (auto simp: checkUsage_def split: if_splits option.splits)
  have "sint t = sint (tu_Input u) + sint (tu_Output u)" if t: "tu_Total u = Some t" for t
  proof -
    have eq: "t = tu_Input u + tu_Output u" and nn: "0 \<le> sint t"
      using assms(2) t ok basic by (auto simp: checkUsage_def usage_ok_def split: if_splits)
    have "0 \<le> sint (tu_Input u)" "0 \<le> sint (tu_Output u)" using ok basic by (auto simp: usage_ok_def)
    with eq nn show ?thesis using sint_add_nonneg by simp
  qed
  with basic assms(2) show ?thesis by (auto simp: checkUsage_def split: if_splits option.splits)
qed

section \<open>What a stream passes on\<close>

definition assembled :: "string \<Rightarrow> sse_assembler \<times> sse_event list res" where
  "assembled body = Feed (NewSSEAssembler (max (int (length body) + 1) 1024)) (whole_body body)"

definition ends_complete :: "sse_assembler \<Rightarrow> bool" where
  "ends_complete a \<longleftrightarrow> st_BufferedBytes (SseAssembler.Finish a) = 0 \<and> st_PendingFieldCount (SseAssembler.Finish a) = 0"

lemma assembled_empty: "assembled [] \<noteq> (a, Inr events)"
  by (simp add: assembled_def Feed_def whole_body_def NewSSEAssembler_def)

lemma parseStream_facts:
  assumes "parseStream J s body refs = Inr f" "assembled body = (a, Inr events)"
  shows "xf_stateEvents f = decoded J (rsc_Protocol s) events"
    "xf_terminalCount f = length (terminal_entries J (rsc_Protocol s) 0 events)"
    "xf_terminalTrace f = take maxTerminalTraceEntries (terminal_entries J (rsc_Protocol s) 0 events)"
    "xf_terminalOmitted f = length (terminal_entries J (rsc_Protocol s) 0 events) - maxTerminalTraceEntries"
    "xf_postTerminal f = nonempty_data (after_terminal J (rsc_Protocol s) False events)"
    "xf_documents f = documents_of events"
    "xf_parseOutcomes f = (if ends_complete a then [] else [targetFail refs ''incomplete_sse_event''])
       @ map (document_outcome J refs) (documents_of events)"
    "xf_framingComplete f = ends_complete a" "xf_validUTF8 f = utf8_Valid body"
    "xf_items f \<noteq> [] \<longleftrightarrow> (\<exists>t\<in>set (documents_of events). nj_valid (rj_native J) t)"
    "distinct (map ir_ItemID (xf_items f))" "\<forall>i\<in>set (xf_items f). usable (nj_valid (rj_native J)) i \<and> item_of s i"
proof -
  have ne: "body \<noteq> []" using assms(2) assembled_empty by blast
  define f0 where "f0 = (if ends_complete a then new_facts body True
      else (new_facts body False)\<lparr>xf_parseOutcomes := [targetFail refs ''incomplete_sse_event'']\<rparr>)"
  obtain seen d f1 where loop: "stream_loop J s refs 0 events (False, newStreamDecoder (rsc_Protocol s), f0) = Inr (seen, d, f1)"
    and f: "f = f1\<lparr>xf_stateEvents := de_events d\<rparr>"
    using assms ne by (auto simp: parseStream_def assembled_def f0_def ends_complete_def Let_def bind_res_Inr split: if_splits)
  have f0: "xf_terminalCount f0 = 0" "xf_terminalTrace f0 = []" "xf_terminalOmitted f0 = 0" "xf_postTerminal f0 = 0" "xf_documents f0 = []"
    "xf_items f0 = []" "xf_framingComplete f0 = ends_complete a" "xf_validUTF8 f0 = utf8_Valid body"
    "xf_parseOutcomes f0 = (if ends_complete a then [] else [targetFail refs ''incomplete_sse_event''])"
    by (simp_all add: f0_def new_facts_def)
  have "length (xf_terminalTrace f0) \<le> maxTerminalTraceEntries" by (simp add: f0)
  from stream_loop_facts [OF loop this] show "xf_stateEvents f = decoded J (rsc_Protocol s) events"
    "xf_terminalCount f = length (terminal_entries J (rsc_Protocol s) 0 events)"
    "xf_terminalTrace f = take maxTerminalTraceEntries (terminal_entries J (rsc_Protocol s) 0 events)"
    "xf_terminalOmitted f = length (terminal_entries J (rsc_Protocol s) 0 events) - maxTerminalTraceEntries"
    "xf_postTerminal f = nonempty_data (after_terminal J (rsc_Protocol s) False events)"
    "xf_documents f = documents_of events"
    "xf_parseOutcomes f = (if ends_complete a then [] else [targetFail refs ''incomplete_sse_event''])
       @ map (document_outcome J refs) (documents_of events)"
    "xf_framingComplete f = ends_complete a" "xf_validUTF8 f = utf8_Valid body"
    by (simp_all add: f f0 decoded_def)
  from stream_loop_items [OF loop] obtain ks its where i: "xf_items f = its" "map ir_ItemID its = map event_id ks" "sorted_wrt (<) ks"
    "length its = length (filter (nj_valid (rj_native J)) (documents_of events))"
    "\<forall>i\<in>set its. usable (nj_valid (rj_native J)) i \<and> item_of s i" by (auto simp: f f0)
  then show "xf_items f \<noteq> [] \<longleftrightarrow> (\<exists>t\<in>set (documents_of events). nj_valid (rj_native J) t)"
    by (metis filter_empty_conv length_0_conv)
  have "inj event_id" by (auto simp: inj_def event_id_def)
  then show "distinct (map ir_ItemID (xf_items f))"
    using i(1-3) by (simp add: distinct_map strict_sorted_iff inj_on_subset [OF _ subset_UNIV])
  show "\<forall>i\<in>set (xf_items f). usable (nj_valid (rj_native J)) i \<and> item_of s i" using i(1,5) by simp
qed

lemma parse_outcomes_graded: "parse_response J s body refs = Inr f \<Longrightarrow> \<forall>o1\<in>set (xf_parseOutcomes f). graded o1"
proof (cases "rsc_Streaming s")
  case True
  assume p: "parse_response J s body refs = Inr f"
  obtain a r where a: "assembled body = (a, r)" by fastforce
  show ?thesis
  proof (cases r)
    case (Inl e)
    with p True a show ?thesis by (auto simp: parse_response_def parseStream_def assembled_def new_facts_def split: if_splits)
  next
    case (Inr events)
    from p True have "parseStream J s body refs = Inr f" by (simp add: parse_response_def)
    from parseStream_facts(7) [OF this a [unfolded Inr]] show ?thesis by (auto simp: other_outcomes_graded)
  qed
next
  case False
  have inspect: "xf_parseOutcomes (inspectNonStream p v g) = xf_parseOutcomes g" for p v g
  proof -
    have "kept g (inspectNonStream p v g)"
    proof (cases p)
      case ProtocolOpenAIResponses
      have "kept g (fold (\<lambda>v f. let item = objectValue v in if member item ''type'' = JString ''function_call''
          then add_argument_type (jsonType (member item ''arguments'')) (add_tool_call f) else f) vs g)" for vs
        by (rule fold_invariant) (simp_all add: Let_def)
      with ProtocolOpenAIResponses show ?thesis by (simp add: inspectNonStream_def Let_def)
    next
      case ProtocolOpenAIChat
      have "kept g (fold (\<lambda>call f. add_argument_type (h call) (add_tool_call f)) vs g)" for h :: "json_value \<Rightarrow> string" and vs
        by (rule fold_invariant) simp_all
      with ProtocolOpenAIChat show ?thesis by (simp add: inspectNonStream_def Let_def)
    next
      case ProtocolAnthropic
      have "kept g (fold (\<lambda>v f. if member (objectValue v) ''type'' = JString ''tool_use'' then add_tool_call f else f) vs g)" for vs
        by (rule fold_invariant) simp_all
      with ProtocolAnthropic show ?thesis by (simp add: inspectNonStream_def Let_def)
    qed (simp add: inspectNonStream_def)
    then show ?thesis by (rule kept_fields(7))
  qed
  assume "parse_response J s body refs = Inr f"
  with False show ?thesis
    by (auto simp: parse_response_def parseJSONResponse_def Let_def inspect add_item_def add_document_def new_facts_def other_outcomes_graded
        split: if_splits sum.splits)
qed

lemma selected_outcomes_graded:
  assumes "parse_response J s body refs = Inr f"
  shows "\<exists>os. selected_outcomes J s f refs (status_outcome s status refs) (checkContentType J (rsc_Streaming s) headers refs) = Some os \<and>
    (\<forall>o1\<in>set os. graded o1)"
proof -
  obtain so where so: "EvaluateStateMachine (complete_input (xf_stateEvents f) refs) = Some so" "graded so"
    using state_outcome_graded by blast
  note g = so(2) checkScenario_graded [of J s f refs] other_outcomes_graded parse_outcomes_graded [OF assms]
  show ?thesis by (cases "as_Check (rsc_Assertion s)") (use g in \<open>auto simp: selected_outcomes_def so(1) Let_def\<close>)
qed


text \<open>
  What an evaluated stream records.  The count of terminal markers is the number of events that
  carry one; the trace holds the first eight with their positions and the rest is counted as omitted;
  the data after the terminal are the nonempty events after the first terminal event; the documents are
  the data of all events but the end marker; and the events for the state machine are those of the
  decoder.
\<close>

theorem stream_accounting:
  assumes "parseStream J s body refs = Inr f" "assembled body = (a, Inr events)"
  shows "xf_terminalCount f = length (terminal_entries J (rsc_Protocol s) 0 events) \<and>
    xf_terminalTrace f = take 8 (terminal_entries J (rsc_Protocol s) 0 events) \<and>
    xf_terminalCount f = length (xf_terminalTrace f) + xf_terminalOmitted f \<and>
    xf_postTerminal f = nonempty_data (after_terminal J (rsc_Protocol s) False events) \<and>
    xf_documents f = documents_of events \<and> xf_stateEvents f = decoded J (rsc_Protocol s) events"
  using parseStream_facts [OF assms] by (auto simp: maxTerminalTraceEntries_def)

definition is_object :: "raw_json \<Rightarrow> string \<Rightarrow> bool" where
  "is_object J raw \<longleftrightarrow> (\<exists>c m. nj_canonicalize (rj_native J) raw = Inr c \<and> rj_value J c = Inr (JObject m))"

lemma objectSchema_valid: "validateSchemaDefinition objectSchema 0 = None"
  by (simp add: objectSchema_def)

lemma objectSchema_value: "validateValue v objectSchema 0 = None \<longleftrightarrow> (\<exists>m. v = JObject m)"
  by (cases v) (auto simp: validateValue.simps objectSchema_def valueType_def)

lemma evidence_ready_input: "evidence_ready (complete_input v refs) \<longleftrightarrow> refs \<noteq> [] \<and> (\<forall>r\<in>set refs. ref_Validate r = None)"
  by (simp add: evidence_ready_def complete_input_def)

lemma document_outcome_verdict:
  assumes "evidence_ready (complete_input raw refs)"
  shows "oo_Verdict (document_outcome J refs raw) = (if is_object J raw then VerdictPass else VerdictFail)"
proof -
  let ?i = "complete_input raw refs" and ?c = "nj_canonicalize (rj_native J)"
  have v: "oi_Value ?i = raw" "oi_Complete ?i" by (simp_all add: complete_input_def)
  show ?thesis
  proof (cases rule: EvaluateSchema_cases [of ?i ?c "rj_value J" objectSchema, case_names unready unusable undecodable decoded])
    case undecodable
    then have "\<not> is_object J raw" by (auto simp: is_object_def v)
    with undecodable show ?thesis by (simp add: document_outcome_def)
  next
    case (decoded c x)
    then have "is_object J raw \<longleftrightarrow> validateValue x objectSchema 0 = None"
      by (auto simp: is_object_def v objectSchema_value)
    with decoded show ?thesis by (auto simp: document_outcome_def split: option.splits)
  qed (use assms objectSchema_valid v in auto)
qed

lemma state_outcome_pass:
  assumes "evidence_ready (complete_input es refs)" "EvaluateStateMachine (complete_input es refs) = Some so"
  shows "oo_Verdict so = VerdictPass \<longleftrightarrow> (\<exists>m. accepts es m \<and> response_Finish m = None)"
  by (rule EvaluateStateMachine_cases [of "complete_input es refs"]) (use assms in \<open>auto simp: complete_input_def split: if_splits\<close>)

lemma basic_outcomes_pass: "oo_Verdict (status_outcome s status refs) = VerdictPass \<longleftrightarrow> status = rsc_ExpectedStatus s"
  "oo_Verdict (checkContentType J b h refs) = VerdictPass \<longleftrightarrow>
     rj_mediaType J (header_Get h ''Content-Type'') = Inr (if b then ''text/event-stream'' else ''application/json'')"
  by (auto simp: status_outcome_def checkContentType_def Let_def)

lemma evaluate_Inr:
  assumes "evaluate J s status headers body refs = Some (Inr ev)" "unsupportedOutputLimitField J s status body = None"
  obtains f os where "parse_response J s body refs = Inr f" "ea_Usage ev = xf_usage f"
    "selected_outcomes J s f refs (status_outcome s status refs) (checkContentType J (rsc_Streaming s) headers refs) = Some os"
    "oo_Verdict (ea_Outcome ev) = VerdictPass \<longleftrightarrow> (\<forall>o1\<in>set os. oo_Verdict o1 = VerdictPass)"
proof -
  obtain f where f: "parse_response J s body refs = Inr f" using assms by (auto simp: evaluate_def split: sum.splits)
  obtain os where os: "selected_outcomes J s f refs (status_outcome s status refs) (checkContentType J (rsc_Streaming s) headers refs) = Some os"
    "\<forall>o1\<in>set os. graded o1" using selected_outcomes_graded [OF f] by blast
  from assms f os(1) have "ev = \<lparr>ea_Outcome = combineOutcomes refs os, ea_Usage = xf_usage f\<rparr>" by (simp add: evaluate_def)
  with f os combineOutcomes_graded(2) [OF os(2)] show ?thesis by (intro that) simp_all
qed

text \<open>
  C8. The verdict on the end of a stream, from the bytes of the body to the state machine.  On valid
  evidence, a scenario that checks the terminal event passes exactly when the status and the media type
  are the expected ones, the body is a sequence of complete events, the data of each is a JSON object,
  exactly one of them is a terminal marker, and the events that the decoder makes of them are a stream
  that the state machine accepts to its end.
\<close>

theorem terminal_event_verdict:
  assumes "evaluate J s status headers body refs = Some (Inr ev)" "unsupportedOutputLimitField J s status body = None"
    and "rsc_Streaming s" "as_Check (rsc_Assertion s) = CheckTerminalEvent"
    and "refs \<noteq> []" "\<forall>r\<in>set refs. ref_Validate r = None"
  shows "oo_Verdict (ea_Outcome ev) = VerdictPass \<longleftrightarrow>
    status = rsc_ExpectedStatus s \<and> rj_mediaType J (header_Get headers ''Content-Type'') = Inr ''text/event-stream'' \<and>
    (\<exists>a events. assembled body = (a, Inr events) \<and> ends_complete a \<and> (\<forall>t\<in>set (documents_of events). is_object J t) \<and>
       length (terminal_entries J (rsc_Protocol s) 0 events) = 1 \<and>
       (\<exists>m. accepts (decoded J (rsc_Protocol s) events) m \<and> response_Finish m = None))"
proof -
  from assms(1,2) obtain f os where f: "parse_response J s body refs = Inr f"
    and sel: "selected_outcomes J s f refs (status_outcome s status refs) (checkContentType J (rsc_Streaming s) headers refs) = Some os"
    and v: "oo_Verdict (ea_Outcome ev) = VerdictPass \<longleftrightarrow> (\<forall>o1\<in>set os. oo_Verdict o1 = VerdictPass)" by (rule evaluate_Inr)
  from f assms(3) have p: "parseStream J s body refs = Inr f" by (simp add: parse_response_def)
  have ready: "evidence_ready (complete_input x refs)" for x :: "'x" using assms(5,6) by (simp add: evidence_ready_input)
  obtain so where so: "EvaluateStateMachine (complete_input (xf_stateEvents f) refs) = Some so" using state_outcome_graded by blast
  have check: "oo_Verdict (checkScenario J s f refs) = VerdictPass \<longleftrightarrow> xf_terminalCount f = 1 \<and> xf_framingComplete f"
    using assms(4) by (simp add: checkScenario_def)
  have os: "os = [status_outcome s status refs, checkContentType J True headers refs] @ xf_parseOutcomes f @ [checkScenario J s f refs, so]"
    using sel assms(3,4) so by (simp add: selected_outcomes_def)
  have pass: "oo_Verdict (ea_Outcome ev) = VerdictPass \<longleftrightarrow> status = rsc_ExpectedStatus s \<and>
      rj_mediaType J (header_Get headers ''Content-Type'') = Inr ''text/event-stream'' \<and>
      (\<forall>o1\<in>set (xf_parseOutcomes f). oo_Verdict o1 = VerdictPass) \<and> xf_terminalCount f = 1 \<and> xf_framingComplete f \<and>
      (\<exists>m. accepts (xf_stateEvents f) m \<and> response_Finish m = None)"
    unfolding v os using check state_outcome_pass [OF ready so] by (simp add: basic_outcomes_pass ball_Un) blast
  obtain a r where a: "assembled body = (a, r)" by fastforce
  show ?thesis
  proof (cases r)
    case (Inl e)
    have "\<not> (\<forall>o1\<in>set (xf_parseOutcomes f). oo_Verdict o1 = VerdictPass) \<or> \<not> xf_framingComplete f"
      using p a Inl by (auto simp: parseStream_def assembled_def new_facts_def split: if_splits)
    with pass a Inl show ?thesis by auto
  next
    case (Inr events)
    note facts = parseStream_facts [OF p a [unfolded Inr]]
    have "(\<forall>o1\<in>set (xf_parseOutcomes f). oo_Verdict o1 = VerdictPass) \<longleftrightarrow> ends_complete a \<and> (\<forall>t\<in>set (documents_of events). is_object J t)"
      using document_outcome_verdict [OF ready] by (auto simp: facts(7))
    then show ?thesis unfolding pass using a Inr by (auto simp: facts(1,2,8))
  qed
qed

text \<open>
  A response that is valid JSON but no object is not judged: evaluation ends in an error of the harness,
  although the schema oracle blames the target for the same bytes.
\<close>

theorem nonobject_response_not_judged:
  assumes "\<not> rsc_Streaming s" "unsupportedOutputLimitField J s status body = None" "nj_valid (rj_native J) body"
    and "Normalize (rj_native J) (normalize_request_of s ''response-document'' IRMessage body refs) = Inr item"
    and "rj_object J body = Inl e" "\<not> is_object J body" "refs \<noteq> []" "\<forall>r\<in>set refs. ref_Validate r = None"
  shows "evaluate J s status headers body refs = Some (Inl (Wrap ''decode validated JSON response'' e)) \<and>
    oo_Verdict (document_outcome J refs body) = VerdictFail"
  using assms document_outcome_verdict [of body refs J]
  by (simp add: evaluate_def parse_response_def parseJSONResponse_def evidence_ready_input Let_def)

section \<open>A concrete stream\<close>

text \<open>A chat stream that is only its end marker.\<close>

definition done_body :: string where
  "done_body = ''data: '' @ done_marker @ [newline, newline]"

definition stream_scenario :: scenario where
  "stream_scenario = sample_scenario\<lparr>rsc_Streaming := True, rsc_Assertion := (rsc_Assertion sample_scenario)\<lparr>as_Check := CheckTerminalEvent\<rparr>\<rparr>"

definition stream_headers :: http_header where
  "stream_headers = [(''Content-Type'', [''text/event-stream''])]"

definition sample_refs :: "object_ref list" where
  "sample_refs = [\<lparr>ref_Kind = ''Evidence'', ref_InstanceID = uuid_a, ref_ContentDigest = zero_digest\<rparr>]"

lemma done_assembled: "\<exists>a e. assembled done_body = (a, Inr [e]) \<and> ends_complete a \<and> ev_Data e = done_marker \<and> ev_Event e = []"
  by (simp add: assembled_def done_body_def done_marker_def newline_def Feed_def whole_body_def NewSSEAssembler_def feed_loop.simps next_line_def
      addCurrentChunk_def strip_cr_def line_limits_def consumeLine_def has_prefix_def maxSSEFieldsPerEvent_def parse_field_def cut_colon_def
      dispatch_def make_event_def apply_field_def ends_complete_def SseAssembler.Finish_def Let_def)

lemma stream_scenario_fields: "rsc_Protocol stream_scenario = ProtocolOpenAIChat" "rsc_Streaming stream_scenario"
  "as_Check (rsc_Assertion stream_scenario) = CheckTerminalEvent" "rsc_ExpectedStatus stream_scenario = 200" "rsc_Body stream_scenario = ''{}''"
  by (simp_all add: stream_scenario_def sample_scenario_def)

lemma sample_refs_valid: "sample_refs \<noteq> []" "\<forall>r\<in>set sample_refs. ref_Validate r = None"
  by (simp_all add: sample_refs_def ref_Validate_def kindPattern_def class_match_def char_class_defs)

lemma done_step: "ev_Data e = done_marker \<Longrightarrow> \<exists>seen d1 f1. stream_step J s refs n e st = Inr (seen, d1, f1)"
  by (cases st) (auto simp: stream_step_def Let_def split: prod.splits)

lemma done_parsed: "\<exists>f. parseStream plain_json stream_scenario done_body refs = Inr f"
proof -
  obtain a e where a: "assembled done_body = (a, Inr [e])" "ev_Data e = done_marker" using done_assembled by blast
  have "done_body \<noteq> []" by (simp add: done_body_def)
  moreover have "\<exists>seen d f1. stream_loop J s refs 0 [e] st = Inr (seen, d, f1)" for J s st
    using done_step [OF a(2), of J s refs 0 st] by auto
  ultimately show ?thesis using a(1) unfolding parseStream_def assembled_def Let_def
    by (simp add: bind_res_Inr del: stream_loop.simps)
qed


theorem stream_accounting_witness:
  "\<exists>f. parseStream plain_json stream_scenario done_body sample_refs = Inr f \<and> xf_terminalCount f = 1 \<and> xf_postTerminal f = 0"
proof -
  obtain a e where a: "assembled done_body = (a, Inr [e])" "ev_Data e = done_marker" using done_assembled by blast
  obtain f where f: "parseStream plain_json stream_scenario done_body sample_refs = Inr f" using done_parsed by blast
  from stream_accounting [OF f a(1)] a(2) f show ?thesis
    by (auto simp: stream_scenario_fields countedTerminalMarker_def after_terminal_def isTerminalEvent_def nonempty_data_def)
qed

lemma done_decoded: "ev_Data e = done_marker \<Longrightarrow> \<exists>m. accepts (decoded plain_json ProtocolOpenAIChat [e]) m \<and> response_Finish m = None"
  by (simp add: decoded_def decoder_next_def decoder_consume_def newStreamDecoder_def ensureChatCreated_def decoder_append_def bare_event_def
      response_Apply_def response_New_def rm_op_defs response_Finish_def)

theorem terminal_event_verdict_witness:
  "\<exists>ev. evaluate plain_json stream_scenario 200 stream_headers done_body sample_refs = Some (Inr ev) \<and>
     oo_Verdict (ea_Outcome ev) = VerdictPass"
proof -
  obtain a e where a: "assembled done_body = (a, Inr [e])" "ends_complete a" "ev_Data e = done_marker" using done_assembled by blast
  obtain f where f: "parseStream plain_json stream_scenario done_body sample_refs = Inr f" using done_parsed by blast
  have u: "unsupportedOutputLimitField plain_json stream_scenario 200 done_body = None"
    by (simp add: unsupportedOutputLimitField_def split: option.splits)
  have "parse_response plain_json stream_scenario done_body sample_refs = Inr f" using f by (simp add: parse_response_def stream_scenario_fields)
  with u selected_outcomes_graded [OF this] obtain ev where ev: "evaluate plain_json stream_scenario 200 stream_headers done_body sample_refs = Some (Inr ev)"
    by (fastforce simp: evaluate_def)
  have "rj_mediaType plain_json (header_Get stream_headers ''Content-Type'') = Inr ''text/event-stream''"
    by (simp add: plain_json_def stream_headers_def header_Get_def aget_def)
  with terminal_event_verdict [OF ev u stream_scenario_fields(2,3) sample_refs_valid] a done_decoded [OF a(3)] ev show ?thesis
    by (auto simp: stream_scenario_fields documents_of_def countedTerminalMarker_def)
qed

text \<open>A response that reports the expected counts.\<close>

definition usage_body :: go_object where
  "usage_body = Some [(''usage'', JObject [(''prompt_tokens'', JNumber ''2''), (''completion_tokens'', JNumber ''3''), (''total_tokens'', JNumber ''5'')])]"

definition usage_json :: raw_json where
  "usage_json = plain_json\<lparr>rj_object := (\<lambda>s. Inr usage_body)\<rparr>"

lemma usage_parsed: "\<exists>f. parse_response usage_json sample_scenario ''{}'' sample_refs = Inr f \<and>
    ou_HasInput (xf_usage f) \<and> ou_HasOutput (xf_usage f) \<and> ou_HasTotal (xf_usage f) \<and>
    ou_Input (xf_usage f) = 2 \<and> ou_Output (xf_usage f) = 3 \<and> ou_Total (xf_usage f) = 5"
proof -
  have n: "integerValue (JNumber ''2'') = Some 2" "integerValue (JNumber ''3'') = Some 3" "integerValue (JNumber ''5'') = Some 5"
    by (simp_all add: integerValue_def ParseInt64_def char_class_defs digits_value_def i64_range_def)
  have t: "trim_space ''{}'' = ''{}''" by (rule trim_visible) (simp_all add: code_def)
  obtain i where i: "Normalize (rj_native usage_json) (normalize_request_of sample_scenario ''response-document'' IRMessage ''{}'' sample_refs) = Inr i"
    using sample_refs_valid t
    by (simp add: Normalize_def normalize_request_of_def usage_json_def plain_json_def JSONType_def transform_item_def ir_Validate_def
        sample_scenario_def protocol_text_def transform_text_def)
  show ?thesis
    using i n by (simp add: parse_response_def parseJSONResponse_def sample_fields usage_json_def plain_json_def inspectNonStream_def
        usage_body_def member_def aget_def firstObject_def arrayValue_def objectValue_def read_chat_usage_def on_usage_def readUsage_def
        readReasoningUsage_def read_input_def read_output_def read_total_def add_reason_def hit_limit_def stringValue_def add_item_def
        add_document_def new_facts_def no_usage_def integerValue_def [of JNull] Let_def)
qed

theorem usage_check_exact_witness:
  "\<exists>f. parse_response usage_json sample_scenario ''{}'' sample_refs = Inr f \<and>
     oo_Verdict (checkUsage (Some \<lparr>tu_Input = 2, tu_Output = 3, tu_Total = Some 5\<rparr>) (xf_usage f) sample_refs) = VerdictPass \<and>
     ou_Total (xf_usage f) = 5"
proof -
  obtain f where f: "parse_response usage_json sample_scenario ''{}'' sample_refs = Inr f"
    "ou_HasInput (xf_usage f)" "ou_HasOutput (xf_usage f)" "ou_HasTotal (xf_usage f)"
    "ou_Input (xf_usage f) = 2" "ou_Output (xf_usage f) = 3" "ou_Total (xf_usage f) = 5" using usage_parsed by blast
  then have "oo_Verdict (checkUsage (Some \<lparr>tu_Input = 2, tu_Output = 3, tu_Total = Some 5\<rparr>) (xf_usage f) sample_refs) = VerdictPass"
    by (simp add: checkUsage_def)
  with usage_check_exact [OF f(1) this] f(1) show ?thesis by auto
qed

end
