(* ===== verification/Recorder.thy ===== *)
theory Recorder
  imports Executor
begin

text \<open>
  Package \<open>recorder\<close> (\<open>internal/recorder/recorder.go\<close>): bounded observations become sealed evidence.  The
  redactor, the sealing of an envelope, the content-addressed store and the clock are outside the package
  and are parameters; what they do to the outside world is the state \<open>'w\<close>.  Erasing the payload from memory
  has no effect that a caller can see.  The mutex serialises the calls.
\<close>

datatype payload_format = PayloadText | PayloadJSON | OtherFormat string

definition DefaultMaxObservationBytes :: int where "DefaultMaxObservationBytes = 2 ^ 20"

record recorder_config =
  rc_RunID :: instance_id
  rc_InvocationID :: instance_id
  rc_AttemptID :: instance_id
  rc_Producer :: producer
  rc_CaptureLayer :: capture_layer
  rc_InstrumentationMode :: instrumentation_mode
  rc_MaxObservationBytes :: int

record recorder_observation =
  ob_Sequence :: u64
  ob_CaptureLayer :: capture_layer
  ob_InstrumentationMode :: instrumentation_mode
  ob_Direction :: direction
  ob_Kind :: string
  ob_MonotonicOffsetNS :: i64
  ob_ByteOffset :: "i64 option"
  ob_EventOffset :: "i64 option"
  ob_Payload :: string
  ob_Format :: payload_format
  ob_Relations :: "evidence_relation list"

record recorder =
  rd_config :: recorder_config
  rd_nextSequence :: u64

text \<open>\<open>ce_sanitizeText\<close> and \<open>ce_sanitizeJSON\<close> return the sanitized bytes and the rules that found something, with their counts.\<close>

type_synonym sanitized = "string \<times> (string \<times> i64) list"

record 'w capture_env =
  ce_sanitizeText :: "string \<Rightarrow> sanitized res"
  ce_sanitizeJSON :: "string \<Rightarrow> sanitized res"
  ce_seal :: "producer \<Rightarrow> time \<Rightarrow> evidence \<Rightarrow> envelope_meta res"
  ce_json_valid :: "string \<Rightarrow> bool"
  ce_Put :: "string \<Rightarrow> 'w \<Rightarrow> object_ref res \<times> 'w"
  ce_PutEvidence :: "evidence \<Rightarrow> 'w \<Rightarrow> object_ref res \<times> 'w"
  ce_Now :: "'w \<Rightarrow> time \<times> 'w"

definition sourceCaptureLayer :: "capture_layer \<Rightarrow> bool" where
  "sourceCaptureLayer l \<longleftrightarrow> l \<in> {LayerUpstreamApplication, LayerProxyForwarded, LayerClientSDK}"

definition validLayerMode :: "capture_layer \<Rightarrow> instrumentation_mode \<Rightarrow> bool" where
  "validLayerMode l m =
     (case l of
        LayerUpstreamApplication \<Rightarrow> m = InstrumentationDirect \<or> m = InstrumentationFixture
      | LayerProxyForwarded \<Rightarrow> m = InstrumentationProxy
      | LayerClientSDK \<Rightarrow> m = InstrumentationClient \<or> m = InstrumentationFixture
      | _ \<Rightarrow> False)"

definition validDirection :: "capture_layer \<Rightarrow> direction \<Rightarrow> bool" where
  "validDirection l d =
     (case l of
        LayerUpstreamApplication \<Rightarrow> d = DirectionCoreToTarget \<or> d = DirectionTargetToCore
      | LayerProxyForwarded \<Rightarrow> d = DirectionProxyToClient \<or> d = DirectionClientToProxy
      | LayerClientSDK \<Rightarrow> d = DirectionDriverToCore
      | _ \<Rightarrow> False)"

definition recorder_New :: "recorder_config \<Rightarrow> recorder res" where
  "recorder_New c =
     guard_res (first_err
       [wrap_err ''run ID'' (id_Validate (rc_RunID c)), wrap_err ''invocation ID'' (id_Validate (rc_InvocationID c)),
        wrap_err ''attempt ID'' (id_Validate (rc_AttemptID c)), wrap_err ''producer'' (producer_Validate (rc_Producer c)),
        fail_if (\<not> sourceCaptureLayer (rc_CaptureLayer c)) (Err ''capture layer is not a source observation layer''),
        fail_if (\<not> validLayerMode (rc_CaptureLayer c) (rc_InstrumentationMode c))
          (Err ''instrumentation mode cannot observe capture layer'')])
     (Inr \<lparr>rd_config = c\<lparr>rc_MaxObservationBytes := (if rc_MaxObservationBytes c \<le> 0 then DefaultMaxObservationBytes
              else rc_MaxObservationBytes c)\<rparr>, rd_nextSequence = 1\<rparr>)"

definition validateObservation :: "recorder \<Rightarrow> recorder_observation \<Rightarrow> err" where
  "validateObservation r ob = first_err
     [fail_if (ob_Sequence ob \<noteq> rd_nextSequence r) (Err ''observation sequence''),
      fail_if (ob_CaptureLayer ob \<noteq> rc_CaptureLayer (rd_config r)) (Err ''observation cannot impersonate capture layer''),
      fail_if (ob_InstrumentationMode ob \<noteq> rc_InstrumentationMode (rd_config r)) (Err ''observation cannot change instrumentation mode''),
      fail_if (\<not> validDirection (ob_CaptureLayer ob) (ob_Direction ob)) (Err ''direction is invalid for capture layer''),
      fail_if (ob_Kind ob = []) (Err ''observation kind is required''),
      fail_if (sint (ob_MonotonicOffsetNS ob) < 0) (Err ''monotonic offset cannot be negative''),
      fail_if (ob_Payload ob = []) (Err ''observation payload cannot be empty''),
      fail_if (int (length (ob_Payload ob)) > rc_MaxObservationBytes (rd_config r)) (Err ''observation payload exceeds bytes''),
      fail_if (case ob_ByteOffset ob of None \<Rightarrow> False | Some n \<Rightarrow> sint n < 0) (Err ''byte offset cannot be negative''),
      fail_if (case ob_EventOffset ob of None \<Rightarrow> False | Some n \<Rightarrow> sint n < 0) (Err ''event offset cannot be negative'')]"

definition redactionRecords :: "(string \<times> i64) list \<Rightarrow> redaction_record list" where
  "redactionRecords findings = map (\<lambda>(rule, count). \<lparr>rr_RuleID = rule, rr_FieldClass = ''secret'', rr_Count = count\<rparr>) findings"

definition sanitize_payload :: "'w capture_env \<Rightarrow> recorder_observation \<Rightarrow> sanitized res" where
  "sanitize_payload C ob = (case ob_Format ob of PayloadText \<Rightarrow> ce_sanitizeText C (ob_Payload ob)
     | PayloadJSON \<Rightarrow> ce_sanitizeJSON C (ob_Payload ob) | OtherFormat _ \<Rightarrow> Inl (Err ''unsupported payload format''))"

text \<open>The evidence before it is sealed; the zero envelope is replaced by the sealed one.\<close>

definition zero_meta :: envelope_meta where
  "zero_meta = \<lparr>em_SchemaVersion = [], em_Kind = [], em_InstanceID = [], em_ContentDigest = [],
     em_ObjectRef = \<lparr>ref_Kind = [], ref_InstanceID = [], ref_ContentDigest = []\<rparr>,
     em_Producer = \<lparr>prod_Name = [], prod_Version = [], prod_ArtifactDigest = []\<rparr>, em_CreatedAt = 0, em_Extensions = []\<rparr>"

definition evidence_of :: "recorder \<Rightarrow> recorder_observation \<Rightarrow> object_ref \<Rightarrow> (string \<times> i64) list \<Rightarrow> evidence" where
  "evidence_of r ob payloadRef found =
     \<lparr>ev_meta = zero_meta, ev_EvidenceID = [], ev_RunID = rc_RunID (rd_config r), ev_InvocationID = rc_InvocationID (rd_config r),
      ev_AttemptID = rc_AttemptID (rd_config r), ev_Seq = ob_Sequence ob, ev_CaptureLayer = ob_CaptureLayer ob,
      ev_InstrumentationMode = ob_InstrumentationMode ob, ev_Direction = ob_Direction ob, ev_EvidenceKind = ob_Kind ob,
      ev_MonotonicOffsetNS = ob_MonotonicOffsetNS ob, ev_ByteOffset = ob_ByteOffset ob, ev_EventOffset = ob_EventOffset ob,
      ev_PayloadRef = Some payloadRef, ev_PayloadDigest = Some (ref_ContentDigest payloadRef), ev_UnavailableReason = [],
      ev_Redactions = redactionRecords found, ev_Relations = ob_Relations ob\<rparr>"

definition Record :: "'w capture_env \<Rightarrow> recorder \<Rightarrow> recorder_observation \<Rightarrow> 'w \<Rightarrow> (recorder \<times> evidence res) \<times> 'w" where
  "Record C r ob w =
     (case validateObservation r ob of
        Some e \<Rightarrow> ((r, Inl e), w)
      | None \<Rightarrow>
          (case sanitize_payload C ob of
             Inl e \<Rightarrow> ((r, Inl (Wrap ''sanitize observation before persistence'' e)), w)
           | Inr (payload, found) \<Rightarrow>
               (case ce_Put C payload w of
                  (Inl e, w1) \<Rightarrow> ((r, Inl (Wrap ''persist sanitized observation'' e)), w1)
                | (Inr payloadRef, w1) \<Rightarrow>
                    (case ce_Now C w1 of (now, w2) \<Rightarrow>
                       (let unsealed = evidence_of r ob payloadRef found
                        in case ce_seal C (rc_Producer (rd_config r)) now unsealed of
                             Inl e \<Rightarrow> ((r, Inl (Wrap ''seal evidence'' e)), w2)
                           | Inr meta \<Rightarrow>
                               (let ev = unsealed\<lparr>ev_meta := meta, ev_EvidenceID := em_ContentDigest meta\<rparr>
                                in case evidence_Validate (ce_json_valid C) ev of
                                     Some e \<Rightarrow> ((r, Inl (Wrap ''validate committed evidence'' e)), w2)
                                   | None \<Rightarrow>
                                       (case ce_PutEvidence C ev w2 of
                                          (Inl e, w3) \<Rightarrow> ((r, Inl (Wrap ''persist Evidence envelope'' e)), w3)
                                        | (Inr persisted, w3) \<Rightarrow>
                                            if persisted \<noteq> em_ObjectRef meta then
                                              ((r, Inl (Err ''persisted Evidence reference differs from the sealed envelope'')), w3)
                                            else ((r\<lparr>rd_nextSequence := rd_nextSequence r + 1\<rparr>, Inr ev), w3))))))))"

section \<open>The recorded evidence\<close>

lemma Record_cases:
  assumes "Record C r ob w = ((r', res), w')"
  obtains (refused) e where "res = Inl e" "r' = r"
  | (recorded) ev where "res = Inr ev" "r' = r\<lparr>rd_nextSequence := rd_nextSequence r + 1\<rparr>" "evidence_Validate (ce_json_valid C) ev = None"
      "ev_Seq ev = rd_nextSequence r" "ev_RunID ev = rc_RunID (rd_config r)" "ev_InvocationID ev = rc_InvocationID (rd_config r)"
      "ev_AttemptID ev = rc_AttemptID (rd_config r)" "ev_CaptureLayer ev = rc_CaptureLayer (rd_config r)"
      "ev_InstrumentationMode ev = rc_InstrumentationMode (rd_config r)" "ev_PayloadDigest ev \<noteq> None"
proof (cases "validateObservation r ob")
  case (Some e)
  with assms show ?thesis by (intro refused [of e]) (simp_all add: Record_def)
next
  case None
  then have v: "ob_Sequence ob = rd_nextSequence r" "ob_CaptureLayer ob = rc_CaptureLayer (rd_config r)"
    "ob_InstrumentationMode ob = rc_InstrumentationMode (rd_config r)"
    by (simp_all add: validateObservation_def)
  from None assms have "(\<exists>e. res = Inl e \<and> r' = r) \<or> (\<exists>ev ref found m. res = Inr ev \<and> r' = r\<lparr>rd_nextSequence := rd_nextSequence r + 1\<rparr> \<and>
      evidence_Validate (ce_json_valid C) ev = None \<and> ev = (evidence_of r ob ref found)\<lparr>ev_meta := m, ev_EvidenceID := em_ContentDigest m\<rparr>)"
    by (auto simp: Record_def Let_def split: sum.splits prod.splits option.splits if_splits) blast
  then show ?thesis
  proof (elim disjE exE conjE)
    fix ev ref found m
    assume "res = Inr ev" "r' = r\<lparr>rd_nextSequence := rd_nextSequence r + 1\<rparr>" "evidence_Validate (ce_json_valid C) ev = None"
      and ev: "ev = (evidence_of r ob ref found)\<lparr>ev_meta := m, ev_EvidenceID := em_ContentDigest m\<rparr>"
    then show ?thesis by (intro recorded [of ev]) (simp_all add: v evidence_of_def)
  qed (rule refused)
qed

text \<open>A sequence of observations; each may be recorded or refused.\<close>

fun record_all :: "'w capture_env \<Rightarrow> recorder \<Rightarrow> recorder_observation list \<Rightarrow> 'w \<Rightarrow> evidence list" where
  "record_all C r [] w = []"
| "record_all C r (ob # obs) w =
     (case Record C r ob w of
        ((r1, Inl e), w1) \<Rightarrow> record_all C r1 obs w1
      | ((r1, Inr ev), w1) \<Rightarrow> ev # record_all C r1 obs w1)"

lemma record_all_config:
  "ev \<in> set (record_all C r obs w) \<Longrightarrow> evidence_Validate (ce_json_valid C) ev = None \<and> ev_RunID ev = rc_RunID (rd_config r) \<and>
     ev_InvocationID ev = rc_InvocationID (rd_config r) \<and> ev_AttemptID ev = rc_AttemptID (rd_config r) \<and>
     ev_CaptureLayer ev = rc_CaptureLayer (rd_config r) \<and> ev_InstrumentationMode ev = rc_InstrumentationMode (rd_config r)"
proof (induction obs arbitrary: r w)
  case (Cons ob obs)
  obtain r1 res w1 where rec: "Record C r ob w = ((r1, res), w1)" by (metis surj_pair)
  have "rd_config r1 = rd_config r" by (rule Record_cases [OF rec]) simp_all
  with Cons.IH [of r1 w1] Cons.prems rec show ?case by (cases rule: Record_cases [OF rec, case_names refused recorded]) auto
qed simp

lemma record_all_numbered: "k < length (record_all C r obs w) \<Longrightarrow> ev_Seq (record_all C r obs w ! k) = rd_nextSequence r + of_nat k"
proof (induction obs arbitrary: r w k)
  case (Cons ob obs)
  obtain r1 res w1 where rec: "Record C r ob w = ((r1, res), w1)" by (metis surj_pair)
  show ?case
  proof (cases rule: Record_cases [OF rec, case_names refused recorded])
    case (refused e)
    with Cons rec show ?thesis by simp
  next
    case (recorded ev)
    then show ?thesis
    proof (cases k)
      case (Suc j)
      with recorded Cons.prems rec have "j < length (record_all C r1 obs w1)" by simp
      from Cons.IH [OF this] Suc recorded rec show ?thesis by simp
    qed (use recorded rec in simp)
  qed
qed simp

text \<open>
  C40. Whatever is observed, and whatever the redactor, the store and the clock answer, the evidence that
  a new recorder returns is valid, belongs to its run, invocation, attempt and observation point, and is
  numbered from one without gaps: a refused observation takes no number.
\<close>

theorem recorder_numbers_evidence:
  assumes "recorder_New c = Inr r"
  shows "\<forall>k<length (record_all C r obs w). let ev = record_all C r obs w ! k in
    ev_Seq ev = of_nat (Suc k) \<and> evidence_Validate (ce_json_valid C) ev = None \<and> ev_RunID ev = rc_RunID c \<and>
    ev_InvocationID ev = rc_InvocationID c \<and> ev_AttemptID ev = rc_AttemptID c \<and> ev_CaptureLayer ev = rc_CaptureLayer c \<and>
    ev_InstrumentationMode ev = rc_InstrumentationMode c"
proof (intro allI impI)
  fix k assume k: "k < length (record_all C r obs w)"
  have "rd_nextSequence r = 1" "rc_RunID (rd_config r) = rc_RunID c" "rc_InvocationID (rd_config r) = rc_InvocationID c"
    "rc_AttemptID (rd_config r) = rc_AttemptID c" "rc_CaptureLayer (rd_config r) = rc_CaptureLayer c"
    "rc_InstrumentationMode (rd_config r) = rc_InstrumentationMode c" using assms by (auto simp: recorder_New_def)
  with record_all_numbered [OF k] record_all_config [OF nth_mem [OF k]]
  show "let ev = record_all C r obs w ! k in ev_Seq ev = of_nat (Suc k) \<and> evidence_Validate (ce_json_valid C) ev = None \<and>
      ev_RunID ev = rc_RunID c \<and> ev_InvocationID ev = rc_InvocationID c \<and> ev_AttemptID ev = rc_AttemptID c \<and>
      ev_CaptureLayer ev = rc_CaptureLayer c \<and> ev_InstrumentationMode ev = rc_InstrumentationMode c"
    by (simp add: Let_def)
qed

section \<open>A concrete recording\<close>

definition sample_producer :: producer where
  "sample_producer = \<lparr>prod_Name = ''doctor'', prod_Version = ''1'', prod_ArtifactDigest = zero_digest\<rparr>"

definition evidence_meta :: envelope_meta where
  "evidence_meta = \<lparr>em_SchemaVersion = SchemaNamespace, em_Kind = ''Evidence'', em_InstanceID = [], em_ContentDigest = zero_digest,
     em_ObjectRef = \<lparr>ref_Kind = ''Evidence'', ref_InstanceID = [], ref_ContentDigest = zero_digest\<rparr>,
     em_Producer = sample_producer, em_CreatedAt = 1, em_Extensions = []\<rparr>"

text \<open>A redactor that finds nothing, and a store that accepts everything under one digest.\<close>

definition quiet_capture :: "nat capture_env" where
  "quiet_capture = \<lparr>ce_sanitizeText = (\<lambda>p. Inr (p, [])), ce_sanitizeJSON = (\<lambda>p. Inr (p, [])), ce_seal = (\<lambda>_ _ _. Inr evidence_meta),
     ce_json_valid = (\<lambda>_. True), ce_Put = (\<lambda>_ w. (Inr \<lparr>ref_Kind = ''Payload'', ref_InstanceID = [], ref_ContentDigest = zero_digest\<rparr>, Suc w)),
     ce_PutEvidence = (\<lambda>_ w. (Inr (em_ObjectRef evidence_meta), Suc w)), ce_Now = (\<lambda>w. (1, w))\<rparr>"

definition direct_config :: recorder_config where
  "direct_config = \<lparr>rc_RunID = uuid_a, rc_InvocationID = uuid_a, rc_AttemptID = uuid_b, rc_Producer = sample_producer,
     rc_CaptureLayer = LayerUpstreamApplication, rc_InstrumentationMode = InstrumentationDirect, rc_MaxObservationBytes = 0\<rparr>"

definition request_observation :: "u64 \<Rightarrow> recorder_observation" where
  "request_observation n = \<lparr>ob_Sequence = n, ob_CaptureLayer = LayerUpstreamApplication, ob_InstrumentationMode = InstrumentationDirect,
     ob_Direction = DirectionCoreToTarget, ob_Kind = ''http_request'', ob_MonotonicOffsetNS = 0, ob_ByteOffset = None, ob_EventOffset = None,
     ob_Payload = ''{}'', ob_Format = PayloadJSON, ob_Relations = []\<rparr>"

lemma sample_ids_valid: "id_Validate uuid_a = None" "id_Validate uuid_b = None" "digest_Validate zero_digest = None"
    "producer_Validate sample_producer = None" "kindPattern ''Evidence''" "kindPattern ''Payload''"
  by (simp_all add: producer_Validate_def sample_producer_def namePattern_def kindPattern_def class_match_def char_class_defs)

definition direct_recorder :: recorder where
  "direct_recorder = \<lparr>rd_config = direct_config\<lparr>rc_MaxObservationBytes := DefaultMaxObservationBytes\<rparr>, rd_nextSequence = 1\<rparr>"

lemma direct_recorder_New: "recorder_New direct_config = Inr direct_recorder"
  using sample_ids_valid by (simp add: recorder_New_def direct_config_def direct_recorder_def sourceCaptureLayer_def validLayerMode_def)

lemma quiet_recorded:
  assumes "n \<noteq> 0" "dir = DirectionCoreToTarget \<or> dir = DirectionTargetToCore" "kind \<noteq> []"
  shows "\<exists>ev w'. Record quiet_capture (direct_recorder\<lparr>rd_nextSequence := n\<rparr>) ((request_observation n)\<lparr>ob_Direction := dir, ob_Kind := kind\<rparr>) w
    = ((direct_recorder\<lparr>rd_nextSequence := n + 1\<rparr>, Inr ev), w')"
proof -
  let ?r = "direct_recorder\<lparr>rd_nextSequence := n\<rparr>" and ?o = "(request_observation n)\<lparr>ob_Direction := dir, ob_Kind := kind\<rparr>"
  have v: "validateObservation ?r ?o = None"
    using assms by (auto simp: validateObservation_def direct_recorder_def direct_config_def request_observation_def validDirection_def
        DefaultMaxObservationBytes_def)
  let ?u = "evidence_of ?r ?o \<lparr>ref_Kind = ''Payload'', ref_InstanceID = [], ref_ContentDigest = zero_digest\<rparr> []"
  have m: "meta_Validate (\<lambda>_. True) evidence_meta = None"
    using sample_ids_valid by (simp add: meta_Validate_def evidence_meta_def ref_Validate_def has_prefix_def)
  have e: "evidence_Validate (\<lambda>_. True) (?u\<lparr>ev_meta := evidence_meta, ev_EvidenceID := em_ContentDigest evidence_meta\<rparr>) = None"
    using sample_ids_valid m assms
    by (auto simp: evidence_Validate_def evidence_of_def direct_recorder_def direct_config_def request_observation_def evidence_meta_def
        validEvidenceObservationPoint_def payload_check_def ref_Validate_def redactionRecords_def)
  have f: "sanitize_payload quiet_capture ?o = Inr (''{}'', [])"
    by (simp add: sanitize_payload_def quiet_capture_def request_observation_def)
  have q: "ce_Put quiet_capture p w = (Inr \<lparr>ref_Kind = ''Payload'', ref_InstanceID = [], ref_ContentDigest = zero_digest\<rparr>, Suc w)"
    "ce_Now quiet_capture w = (1, w)" "ce_seal quiet_capture p1 t1 e1 = Inr evidence_meta" "ce_json_valid quiet_capture = (\<lambda>_. True)"
    "ce_PutEvidence quiet_capture e1 w = (Inr (em_ObjectRef evidence_meta), Suc w)" for p w p1 t1 e1
    by (simp_all add: quiet_capture_def)
  show ?thesis using e by (simp add: Record_def v f q Let_def)
qed

lemma request_recorded: "\<exists>ev w'. Record quiet_capture direct_recorder (request_observation 1) w
    = ((direct_recorder\<lparr>rd_nextSequence := 2\<rparr>, Inr ev), w')"
  using quiet_recorded [of 1 DirectionCoreToTarget "''http_request''" w]
  by (simp add: direct_recorder_def request_observation_def)

theorem recorder_numbers_evidence_witness:
  "\<exists>ev. record_all quiet_capture direct_recorder [request_observation 7, request_observation 1] 0 = [ev] \<and> ev_Seq ev = 1 \<and> ev_RunID ev = uuid_a"
proof -
  have "Record quiet_capture direct_recorder (request_observation 7) 0 = ((direct_recorder, Inl (Err ''observation sequence'')), 0)"
    by (simp add: Record_def validateObservation_def direct_recorder_def request_observation_def)
  moreover obtain ev w' where "Record quiet_capture direct_recorder (request_observation 1) 0 = ((direct_recorder\<lparr>rd_nextSequence := 2\<rparr>, Inr ev), w')"
    using request_recorded by blast
  ultimately have r: "record_all quiet_capture direct_recorder [request_observation 7, request_observation 1] 0 = [ev]" by simp
  from recorder_numbers_evidence [OF direct_recorder_New, of quiet_capture "[request_observation 7, request_observation 1]" 0] r
  show ?thesis by (simp add: Let_def direct_config_def)
qed

end
