(* ===== verification/RawDriver.thy ===== *)
theory RawDriver
  imports RawEvaluate Recorder Attribution
begin

text \<open>
  Package \<open>rawdriver\<close>, the runner (\<open>internal/rawdriver/runner.go\<close>): one scenario of a plan is looked up,
  sent, recorded and judged.  It implements the runner interface of the executor.  The registry, the
  transport, the store, the redactor, the encoders and the context are the environment \<open>driver_env\<close>, over a world
  \<open>'w\<close> as in the executor and the recorder; the context is not nil and the runner is initialised.

  An error is described as the executor reads it: its class, and whether the error it wraps is a
  cancellation or a deadline.
\<close>

section \<open>The environment\<close>

definition ErrCanceled :: go_error where "ErrCanceled = Err ''context canceled''"
definition ErrDeadlineExceeded :: go_error where "ErrDeadlineExceeded = Err ''context deadline exceeded''"
definition ErrBodyLimit :: go_error where "ErrBodyLimit = Err ''HTTP body exceeded the configured hard limit''"

definition ctx_go_error :: "ctx_error \<Rightarrow> go_error" where
  "ctx_go_error c = (case c of CtxCanceled \<Rightarrow> ErrCanceled | CtxDeadlineExceeded \<Rightarrow> ErrDeadlineExceeded)"

record http_response =
  hr_StatusCode :: int
  hr_Header :: http_header
  hr_Body :: string
  hr_Protocol :: string
  hr_DurationNS :: int

text \<open>The documents that the driver encodes for the recorder.\<close>

datatype driver_document =
    RequestDocument string string http_header string
  | MetadataDocument int http_header string int
  | OmittedDocument string nat
  | TerminalMarkerDocument string
  | EventDataDocument string
  | WireSummaryDocument string nat nat nat nat
  | ProjectionDocument nat nat nat nat nat nat "string list"

record 'w driver_env =
  dv_capture :: "'w capture_env"
  dv_json :: raw_json
  dv_Estimate :: "scenario_decision \<Rightarrow> usage res"
  dv_Lookup :: "digest \<Rightarrow> scenario_decision \<Rightarrow> scenario res"
  dv_producer :: producer
  dv_maxObservationBytes :: int
  dv_encode :: "driver_document \<Rightarrow> string res"
  dv_encodeEvidence :: "evidence \<Rightarrow> string res"
  dv_sanitize :: "oracle_outcome \<Rightarrow> (string \<times> string) res"
  dv_fingerprint :: "string \<times> string \<times> string \<times> string \<times> string \<times> string \<Rightarrow> digest res"
  dv_CtxErr :: "'w \<Rightarrow> ctx_error option \<times> 'w"
  dv_Since :: "'w \<Rightarrow> i64 \<times> 'w"
  dv_Do :: "string \<Rightarrow> string \<Rightarrow> http_header \<Rightarrow> string \<Rightarrow> 'w \<Rightarrow> http_response res \<times> 'w"
  dv_Get :: "digest \<Rightarrow> 'w \<Rightarrow> string res \<times> 'w"
  dv_NewID :: "'w \<Rightarrow> instance_id res \<times> 'w"

section \<open>Estimates\<close>

definition driver_Estimate :: "'w driver_env \<Rightarrow> scenario_decision \<Rightarrow> usage res" where
  "driver_Estimate env d =
     bind_res (dv_Estimate env d) (\<lambda>u.
       guard_res (first_err
         [wrap_err ''registry estimate'' (usage_Validate u),
          fail_if (us_Requests u \<noteq> 1 \<or> sint (us_RequestBytes u) \<le> 0 \<or> sint (us_ResponseBytes u) \<le> 0 \<or> sint (us_ArtifactBytes u) \<le> 0
              \<or> us_Processes u \<noteq> 0) (Err ''registry estimate is not a bounded single-request raw HTTP estimate'')])
         (Inr u))"

section \<open>Errors\<close>

definition evidenceRefs :: "evidence list \<Rightarrow> object_ref list" where
  "evidenceRefs evs = map (\<lambda>e. em_ObjectRef (ev_meta e)) evs"

definition runErrorWithEvidence ::
  "run_error_class \<Rightarrow> go_error \<Rightarrow> usage \<Rightarrow> bool \<Rightarrow> string list \<Rightarrow> evidence list \<Rightarrow> run_failure" where
  "runErrorWithEvidence cls e u known unknown evs =
     \<lparr>rf_typed = Some \<lparr>re_Class = cls, re_Usage = u, re_UsageKnown = known, re_UnknownUsage = unknown, re_EvidenceRefs = evidenceRefs evs\<rparr>,
      rf_deadline = errors_is e ErrDeadlineExceeded, rf_canceled = errors_is e ErrCanceled\<rparr>"

definition runError :: "run_error_class \<Rightarrow> go_error \<Rightarrow> usage \<Rightarrow> bool \<Rightarrow> run_failure" where
  "runError cls e u known = runErrorWithEvidence cls e u known [] []"

definition classifyHTTPStatus :: "int \<Rightarrow> run_error_class option" where
  "classifyHTTPStatus status =
     (if status = 401 then Some ErrorAuthentication
      else if status = 403 then Some ErrorPermission
      else if status = 408 \<or> status = 425 \<or> status = 429 \<or> status \<ge> 500 then Some ErrorTransient
      else None)"

section \<open>Recording\<close>

definition maxPersistedSSEEvents :: nat where "maxPersistedSSEEvents = 512"

definition elapsedNS :: "i64 \<Rightarrow> i64" where
  "elapsedNS v = (if sint v < 0 then 0 else v)"

text \<open>One call of \<open>capture.Record\<close> of a JSON payload at the layer of the runner.\<close>

definition capture_record ::
  "'w driver_env \<Rightarrow> recorder \<Rightarrow> u64 \<Rightarrow> direction \<Rightarrow> string \<Rightarrow> i64 option \<Rightarrow> string \<Rightarrow> 'w \<Rightarrow> (recorder \<times> evidence res) \<times> 'w" where
  "capture_record env r sequence dir kind offset payload w =
     (case dv_Since env w of (t, w1) \<Rightarrow>
        Record (dv_capture env) r
          \<lparr>ob_Sequence = sequence, ob_CaptureLayer = LayerUpstreamApplication, ob_InstrumentationMode = InstrumentationDirect,
           ob_Direction = dir, ob_Kind = kind, ob_MonotonicOffsetNS = elapsedNS t, ob_ByteOffset = None, ob_EventOffset = offset,
           ob_Payload = payload, ob_Format = PayloadJSON, ob_Relations = []\<rparr> w1)"

text \<open>What a recording of the body returns: the recorder, the evidence so far, and the error.\<close>

type_synonym recorded = "recorder \<times> evidence list \<times> err"

definition record_single :: "'w driver_env \<Rightarrow> recorder \<Rightarrow> u64 \<Rightarrow> string \<Rightarrow> string res \<Rightarrow> 'w \<Rightarrow> recorded \<times> 'w" where
  "record_single env r sequence kind payload w =
     (case payload of
        Inl e \<Rightarrow> ((r, [], Some e), w)
      | Inr p \<Rightarrow>
          (case capture_record env r sequence DirectionTargetToCore kind None p w of
             ((r1, Inl e), w1) \<Rightarrow> ((r1, [], Some e), w1)
           | ((r1, Inr ev), w1) \<Rightarrow> ((r1, [ev], None), w1)))"

definition recordSSEWireSummaryAtSequence ::
  "'w driver_env \<Rightarrow> recorder \<Rightarrow> u64 \<Rightarrow> string \<Rightarrow> string \<Rightarrow> nat \<Rightarrow> nat \<Rightarrow> stream_tail \<Rightarrow> 'w \<Rightarrow> recorded \<times> 'w" where
  "recordSSEWireSummaryAtSequence env r sequence kind reason wireBytes completeEvents tail w =
     record_single env r sequence kind
       (dv_encode env (WireSummaryDocument reason wireBytes completeEvents (st_BufferedBytes tail) (st_PendingFieldCount tail))) w"

definition marshalSSEEventLimitFallback :: "'w driver_env \<Rightarrow> sse_event list \<Rightarrow> nat \<Rightarrow> string res" where
  "marshalSSEEventLimitFallback env events wireBytes =
     (let valid = nj_valid (rj_native (dv_json env));
          json = filter (\<lambda>t. t \<noteq> done_marker \<and> valid t) (map ev_Data events);
          omitted = filter (\<lambda>t. t \<noteq> done_marker \<and> \<not> valid t) (map ev_Data events)
      in dv_encode env (ProjectionDocument wireBytes (length events) (length json)
           (length (filter (\<lambda>t. t = done_marker) (map ev_Data events))) (length omitted) (sum_list (map length omitted)) json))"

definition marshalSSEObservation :: "'w driver_env \<Rightarrow> sse_event \<Rightarrow> string res \<times> string" where
  "marshalSSEObservation env e =
     (if ev_Data e = done_marker then (dv_encode env (TerminalMarkerDocument done_marker), ''sse_logical_event'')
      else if \<not> nj_valid (rj_native (dv_json env)) (ev_Data e)
      then (dv_encode env (OmittedDocument ''non_json_sse_data'' (length (ev_Data e))), ''sse_non_json_data_omitted'')
      else (dv_encode env (EventDataDocument (ev_Data e)), ''sse_logical_event''))"

fun record_events :: "'w driver_env \<Rightarrow> recorder \<Rightarrow> u64 \<Rightarrow> evidence list \<Rightarrow> sse_event list \<Rightarrow> 'w \<Rightarrow> (recorder \<times> u64 \<times> evidence list \<times> err) \<times> 'w" where
  "record_events env r sequence result [] w = ((r, sequence, result, None), w)"
| "record_events env r sequence result (e # es) w =
     (case marshalSSEObservation env e of
        (Inl err, kind) \<Rightarrow> ((r, sequence, result, Some err), w)
      | (Inr payload, kind) \<Rightarrow>
          (case capture_record env r sequence DirectionTargetToCore kind (Some (sse_event.ev_EventOffset e)) payload w of
             ((r1, Inl err), w1) \<Rightarrow> ((r1, sequence, result, Some err), w1)
           | ((r1, Inr ev), w1) \<Rightarrow> record_events env r1 (sequence + 1) (result @ [ev]) es w1))"

definition no_tail :: stream_tail where
  "no_tail = \<lparr>st_BufferedBytes = 0, st_PendingFieldCount = 0, st_SourceChunkSequences = []\<rparr>"

definition recordResponseBody :: "'w driver_env \<Rightarrow> recorder \<Rightarrow> scenario \<Rightarrow> string \<Rightarrow> 'w \<Rightarrow> recorded \<times> 'w" where
  "recordResponseBody env r s body w =
     (if \<not> rsc_Streaming s then
        (if nj_valid (rj_native (dv_json env)) body then record_single env r 3 ''http_response_body'' (Inr body) w
         else record_single env r 3 ''http_response_body_omitted''
                (dv_encode env (OmittedDocument ''non_json_http_response_body'' (length body))) w)
      else
        (case Feed (NewSSEAssembler (max (int (length body) + 1) 1024)) (whole_body body) of
           (a, Inl e) \<Rightarrow> recordSSEWireSummaryAtSequence env r 3 ''sse_invalid_wire'' ''invalid_sse_wire'' (length body) 0 no_tail w
         | (a, Inr events) \<Rightarrow>
             (let tail = SseAssembler.Finish a in
              if events = [] then
                recordSSEWireSummaryAtSequence env r 3 ''sse_invalid_wire'' ''no_complete_sse_events'' (length body) 0 tail w
              else if length events > maxPersistedSSEEvents then
                record_single env r 3 ''sse_event_limit_fallback'' (marshalSSEEventLimitFallback env events (length body)) w
              else
                (case record_events env r 3 [] events w of
                   ((r1, sequence, result, Some e), w1) \<Rightarrow> ((r1, result, Some e), w1)
                 | ((r1, sequence, result, None), w1) \<Rightarrow>
                     if st_BufferedBytes tail \<noteq> 0 \<or> st_PendingFieldCount tail \<noteq> 0 then
                       (case recordSSEWireSummaryAtSequence env r1 sequence ''sse_incomplete_wire'' ''incomplete_sse_tail''
                               (length body) (length events) tail w1 of
                          ((r2, partial, Some e), w2) \<Rightarrow> ((r2, result, Some e), w2)
                        | ((r2, partial, None), w2) \<Rightarrow> ((r2, result @ partial, None), w2))
                     else ((r1, result, None), w1)))))"

fun artifactBytes :: "'w driver_env \<Rightarrow> i64 \<Rightarrow> evidence list \<Rightarrow> 'w \<Rightarrow> i64 res \<times> 'w" where
  "artifactBytes env total_bytes [] w = (Inr total_bytes, w)"
| "artifactBytes env total_bytes (item # items) w =
     (case ev_PayloadDigest item of
        None \<Rightarrow> artifactBytes env total_bytes items w
      | Some d \<Rightarrow>
          (case dv_Get env d w of
             (Inl e, w1) \<Rightarrow> (Inl e, w1)
           | (Inr payload, w1) \<Rightarrow>
               (case dv_encodeEvidence env item of
                  Inl e \<Rightarrow> (Inl e, w1)
                | Inr envelope \<Rightarrow> artifactBytes env (total_bytes + of_nat (length payload) + of_nat (length envelope)) items w1)))"

section \<open>Running a scenario\<close>

definition validateInvocation :: "invocation \<Rightarrow> err" where
  "validateInvocation iv = first_err
     [wrap_err ''run ID'' (id_Validate (iv_RunID iv)), wrap_err ''invocation ID'' (id_Validate (iv_InvocationID iv)),
      wrap_err ''attempt ID'' (id_Validate (iv_AttemptID iv)), wrap_err ''plan digest'' (digest_Validate (iv_PlanDigest iv)),
      fail_if (sint (iv_AttemptNumber iv) \<le> 0) (Err ''attempt number must be positive''),
      validateDecision (iv_Scenario iv)]"

text \<open>Up to the recorder: no request has been made, and the usage is not known.\<close>

definition resolve_scenario :: "'w driver_env \<Rightarrow> invocation \<Rightarrow> scenario res" where
  "resolve_scenario env iv =
     guard_res (validateInvocation iv)
       (case dv_Lookup env (iv_PlanDigest iv) (iv_Scenario iv) of
          Inl e \<Rightarrow> Inl (Wrap ''resolve exact scenario'' e)
        | Inr s0 \<Rightarrow>
            (case validateAndCloneScenario (dv_json env) s0 of
               Inl e \<Rightarrow> Inl (Wrap ''validate registered scenario'' e)
             | Inr s \<Rightarrow>
                 if rsc_PlanDigest s \<noteq> iv_PlanDigest iv \<or> rsc_ID s \<noteq> sd_ScenarioID (iv_Scenario iv) \<or> rsc_Driver s \<noteq> sd_Driver (iv_Scenario iv)
                 then Inl (Err ''registry lookup returned content outside the exact invocation key'')
                 else Inr s))"

definition driver_recorder :: "'w driver_env \<Rightarrow> invocation \<Rightarrow> recorder res" where
  "driver_recorder env iv = recorder_New \<lparr>rc_RunID = iv_RunID iv, rc_InvocationID = iv_InvocationID iv, rc_AttemptID = iv_AttemptID iv,
     rc_Producer = dv_producer env, rc_CaptureLayer = LayerUpstreamApplication, rc_InstrumentationMode = InstrumentationDirect,
     rc_MaxObservationBytes = dv_maxObservationBytes env\<rparr>"

text \<open>The request and its record: the scenario, the recorder and the first evidence.\<close>

definition record_request :: "'w driver_env \<Rightarrow> invocation \<Rightarrow> 'w \<Rightarrow> (scenario \<times> recorder \<times> evidence) res \<times> 'w" where
  "record_request env iv w =
     (case resolve_scenario env iv of
        Inl e \<Rightarrow> (Inl e, w)
      | Inr s \<Rightarrow>
          (case driver_recorder env iv of
             Inl e \<Rightarrow> (Inl (Wrap ''create recorder'' e), w)
           | Inr r \<Rightarrow>
               (case dv_encode env (RequestDocument (rsc_Method s) (rsc_Path s) (rsc_Headers s) (rsc_Body s)) of
                  Inl e \<Rightarrow> (Inl (Wrap ''encode request observation'' e), w)
                | Inr payload \<Rightarrow>
                    (case capture_record env r 1 DirectionCoreToTarget ''http_request'' None payload w of
                       ((r1, Inl e), w1) \<Rightarrow> (Inl (Wrap ''record request'' e), w1)
                     | ((r1, Inr ev), w1) \<Rightarrow> (Inr (s, r1, ev), w1)))))"

definition sent_usage :: "scenario \<Rightarrow> usage" where
  "sent_usage s = Usage 1 (of_nat (length (rsc_Body s))) 0 0 0 0 0"

definition with_artifacts :: "i64 \<Rightarrow> usage \<Rightarrow> usage" where
  "with_artifacts n u = Usage (us_Requests u) (us_RequestBytes u) (us_ResponseBytes u) n (us_Processes u) (us_InputTokens u) (us_OutputTokens u)"

definition received_usage :: "scenario \<Rightarrow> http_response \<Rightarrow> usage" where
  "received_usage s p = Usage 1 (of_nat (length (rsc_Body s))) (of_nat (length (hr_Body p))) 0 0 0 0"

text \<open>A failure after the request: the harness is at fault and the evidence so far is attached.\<close>

definition harness_with :: "go_error \<Rightarrow> usage \<Rightarrow> evidence list \<Rightarrow> run_failure" where
  "harness_with e u evs = runErrorWithEvidence ErrorHarness e u True both_tokens evs"

text \<open>\<open>usage.ArtifactBytes, _ = runner.artifactBytes(ctx, evidence)\<close>: an error counts as zero bytes.\<close>

definition measured :: "'w driver_env \<Rightarrow> usage \<Rightarrow> evidence list \<Rightarrow> 'w \<Rightarrow> usage \<times> 'w" where
  "measured env u evs w = (case artifactBytes env 0 evs w of (Inl e, w1) \<Rightarrow> (with_artifacts 0 u, w1) | (Inr n, w1) \<Rightarrow> (with_artifacts n u, w1))"

text \<open>The exchange: the response, its records, and the usage with the measured artifacts.\<close>

definition send_request :: "'w driver_env \<Rightarrow> scenario \<Rightarrow> evidence \<Rightarrow> 'w \<Rightarrow> (run_failure + http_response) \<times> 'w" where
  "send_request env s ev w =
     (case dv_Do env (rsc_Method s) (rsc_Path s) (rsc_Headers s) (rsc_Body s) w of
        (Inr p, w1) \<Rightarrow> (Inr p, w1)
      | (Inl e, w1) \<Rightarrow>
          (case dv_CtxErr env w1 of
             (Some c, w2) \<Rightarrow> (Inl (harness_with (ctx_go_error c) (sent_usage s) [ev]), w2)
           | (None, w2) \<Rightarrow>
               (Inl (runErrorWithEvidence (if errors_is e ErrBodyLimit then ErrorHarness else ErrorDriver)
                  (Wrap ''raw HTTP transport'' e) (sent_usage s) True both_tokens [ev]), w2)))"

definition record_response ::
  "'w driver_env \<Rightarrow> scenario \<Rightarrow> recorder \<Rightarrow> evidence \<Rightarrow> http_response \<Rightarrow> 'w \<Rightarrow> (run_failure + usage \<times> evidence list) \<times> 'w" where
  "record_response env s r ev p w =
     (let u = received_usage s p in
      case dv_encode env (MetadataDocument (hr_StatusCode p) (hr_Header p) (hr_Protocol p) (hr_DurationNS p)) of
        Inl e \<Rightarrow> (Inl (harness_with (Wrap ''encode response metadata'' e) u [ev]), w)
      | Inr payload \<Rightarrow>
          (case capture_record env r 2 DirectionTargetToCore ''http_response_metadata'' None payload w of
             ((r1, Inl e), w1) \<Rightarrow> (Inl (harness_with (Wrap ''record response metadata'' e) u [ev]), w1)
           | ((r1, Inr ev2), w1) \<Rightarrow>
               if int (length (hr_Body p)) > sint (bb_ResponseBytes (rsc_Budget s)) then
                 (case measured env u [ev, ev2] w1 of (u1, w2) \<Rightarrow>
                    (Inl (harness_with (Err ''response body exceeds the registered scenario budget'') u1 [ev, ev2]), w2))
               else
                 (case (if hr_Body p = [] then ((r1, [], None), w1) else recordResponseBody env r1 s (hr_Body p) w1) of
                    ((r2, evs, Some e), w2) \<Rightarrow>
                      (case measured env u ([ev, ev2] @ evs) w2 of (u1, w3) \<Rightarrow>
                         (Inl (harness_with (Wrap ''record response body'' e) u1 ([ev, ev2] @ evs)), w3))
                  | ((r2, evs, None), w2) \<Rightarrow>
                      (case artifactBytes env 0 ([ev, ev2] @ evs) w2 of
                         (Inl e, w3) \<Rightarrow> (Inl (harness_with (Wrap ''measure evidence artifacts'' e) (with_artifacts 0 u) ([ev, ev2] @ evs)), w3)
                       | (Inr n, w3) \<Rightarrow> (Inr (with_artifacts n u, [ev, ev2] @ evs), w3)))))"

section \<open>The verdict\<close>

definition domain_text :: "domain \<Rightarrow> string" where
  "domain_text d = (case d of DomainTransport \<Rightarrow> ''TRANSPORT'' | DomainAuth \<Rightarrow> ''AUTH'' | DomainRequestMapping \<Rightarrow> ''REQUEST_MAPPING''
     | DomainProtocolSerializer \<Rightarrow> ''PROTOCOL_SERIALIZER'' | DomainStreamStateMachine \<Rightarrow> ''STREAM_STATE_MACHINE''
     | DomainToolParser \<Rightarrow> ''TOOL_PARSER'' | DomainReasoningParser \<Rightarrow> ''REASONING_PARSER'' | DomainChatTemplate \<Rightarrow> ''CHAT_TEMPLATE''
     | DomainModelBehavior \<Rightarrow> ''MODEL_BEHAVIOR'' | DomainSDKParser \<Rightarrow> ''SDK_PARSER'' | DomainAgentOrchestration \<Rightarrow> ''AGENT_ORCHESTRATION''
     | DomainGatewayTranslation \<Rightarrow> ''GATEWAY_TRANSLATION'' | DomainRateLimitTransient \<Rightarrow> ''RATE_LIMIT_OR_TRANSIENT''
     | DomainHarness \<Rightarrow> ''HARNESS'' | DomainSpecAmbiguity \<Rightarrow> ''SPEC_AMBIGUITY'' | DomainUnknown \<Rightarrow> ''UNKNOWN_FAULT_DOMAIN'' | OtherDomain s \<Rightarrow> s)"

definition findingDomain :: "check_kind \<Rightarrow> domain \<times> fault_family" where
  "findingDomain c =
     (let d = (if c \<in> {CheckArgumentsString, CheckStreamingToolCall, CheckStableToolCallID} then DomainToolParser
               else if c \<in> {CheckTerminalEvent, CheckOutputIndexes, CheckStreamMediaType, CheckNoPostTerminal} then DomainStreamStateMachine
               else if c = CheckClosedReasoning then DomainReasoningParser else DomainProtocolSerializer)
      in (d, case Family d of Inl _ \<Rightarrow> OtherFamily [] | Inr f \<Rightarrow> f))"

text \<open>The bits of the constant 0.9.\<close>

definition confidence_09 :: float64 where "confidence_09 = 0x3FECCCCCCCCCCCCD"

definition driver_finding ::
  "'w driver_env \<Rightarrow> scenario \<Rightarrow> assertion_result \<Rightarrow> oracle_outcome \<Rightarrow> 'w \<Rightarrow> finding res \<times> 'w" where
  "driver_finding env s a o1 w =
     (case dv_NewID env w of
        (Inl e, w1) \<Rightarrow> (Inl e, w1)
      | (Inr i, w1) \<Rightarrow>
          (case findingDomain (as_Check (rsc_Assertion s)) of (d, fam) \<Rightarrow>
             (case Fingerprint (dv_fingerprint env) (rsc_ID s) (as_AssertionID (rsc_Assertion s)) (oo_Code o1) (ar_Expected a) (ar_Observed a) of
                Inl e \<Rightarrow> (Inl e, w1)
              | Inr fp \<Rightarrow> (Inr
                  \<lparr>fi_FindingID = i, fi_AssertionResultID = ar_AssertionResultID a, fi_FaultDomain = domain_text d, fi_FaultFamily = fam,
                   fi_Category = oo_Code o1, fi_Severity = ''medium'', fi_Confidence = confidence_09, fi_CalibrationVersion = ''rules-v1'',
                   fi_AlternativeDomains = [], fi_MinimalEvidenceRefs = oo_EvidenceRefs o1, fi_ReproRefs = [],
                   fi_RequirementID = as_RequirementID (rsc_Assertion s), fi_AmbiguityID = [],
                   fi_RemediationHint = ''conform the emitted response to the cited requirement and preserve the failing exchange as a regression fixture'',
                   fi_UpstreamRoutingHint = [], fi_FingerprintVersion = ''failure-fingerprint-v1'', fi_Fingerprint = fp\<rparr>, w1))))"

definition unknown_tokens :: "observed_usage \<Rightarrow> string list" where
  "unknown_tokens u = (if ou_HasInput u then [] else [''input_tokens'']) @ (if ou_HasOutput u then [] else [''output_tokens''])"

definition token_counts :: "observed_usage \<Rightarrow> usage \<Rightarrow> usage" where
  "token_counts t u = Usage (us_Requests u) (us_RequestBytes u) (us_ResponseBytes u) (us_ArtifactBytes u) (us_Processes u) (ou_Input t) (ou_Output t)"

definition assertion_of :: "scenario \<Rightarrow> instance_id \<Rightarrow> oracle_outcome \<Rightarrow> string \<times> string \<Rightarrow> assertion_result" where
  "assertion_of s i o1 eo = \<lparr>ar_AssertionResultID = i, ar_AssertionID = as_AssertionID (rsc_Assertion s),
     ar_RequirementID = as_RequirementID (rsc_Assertion s), ar_Role = as_Role (rsc_Assertion s), ar_Oracle = as_Oracle (rsc_Assertion s),
     ar_Verdict = oo_Verdict o1, ar_ReasonCode = oo_ReasonCode o1, ar_Expected = fst eo, ar_Observed = snd eo,
     ar_EvidenceRefs = oo_EvidenceRefs o1, ar_Deterministic = True, ar_Statistical = None,
     ar_EvaluatorDigest = as_EvaluatorDigest (rsc_Assertion s)\<rparr>"

definition outcome_of :: "oracle_outcome \<Rightarrow> evidence list \<Rightarrow> assertion_result \<Rightarrow> finding list \<Rightarrow> usage \<Rightarrow> string list \<Rightarrow> run_outcome" where
  "outcome_of o1 evs a findings u unknown = \<lparr>oc_Verdict = oo_Verdict o1, oc_ReasonCode = oo_ReasonCode o1, oc_EvidenceRefs = evidenceRefs evs,
     oc_AssertionResults = [a], oc_Findings = findings, oc_Usage = u, oc_UnknownUsage = unknown\<rparr>"

definition report_outcome ::
  "'w driver_env \<Rightarrow> scenario \<Rightarrow> oracle_outcome \<Rightarrow> string \<times> string \<Rightarrow> usage \<Rightarrow> string list \<Rightarrow> evidence list \<Rightarrow> 'w \<Rightarrow> (run_failure + run_outcome) \<times> 'w" where
  "report_outcome env s o1 eo u unknown evs w =
     (let harness = (\<lambda>e. Inl (runErrorWithEvidence ErrorHarness e u True unknown evs)) in
      if oo_ReasonCode o1 = ReasonHarnessError then (harness (Err ''oracle reported a harness precondition failure''), w)
      else (case dv_NewID env w of
          (Inl e, w1) \<Rightarrow> (harness (Wrap ''create assertion result ID'' e), w1)
        | (Inr i, w1) \<Rightarrow>
            (let a = assertion_of s i o1 eo in
             case assertion_Validate a of
               Some e \<Rightarrow> (harness (Wrap ''validate assertion result'' e), w1)
             | None \<Rightarrow>
                 if oo_TargetFailure o1 then
                   (case driver_finding env s a o1 w1 of
                      (Inl e, w2) \<Rightarrow> (harness (Wrap ''construct finding'' e), w2)
                    | (Inr f, w2) \<Rightarrow> (Inr (outcome_of o1 evs a [f] u unknown), w2))
                 else (Inr (outcome_of o1 evs a [] u unknown), w1))))"

text \<open>\<open>None\<close> of \<open>evaluate\<close>, a crash of the state machine, is excluded by \<open>evaluate_decides\<close>; it is an error of the harness here.\<close>

definition judge_response ::
  "'w driver_env \<Rightarrow> scenario \<Rightarrow> http_response \<Rightarrow> usage \<Rightarrow> evidence list \<Rightarrow> 'w \<Rightarrow> (run_failure + run_outcome) \<times> 'w" where
  "judge_response env s p u evs w =
     (case classifyHTTPStatus (hr_StatusCode p) of
        Some cls \<Rightarrow> (Inl (runErrorWithEvidence cls (Err ''HTTP status'') u True both_tokens evs), w)
      | None \<Rightarrow>
          (case evaluate (dv_json env) s (hr_StatusCode p) (hr_Header p) (hr_Body p) (evidenceRefs evs) of
             Some (Inr ev) \<Rightarrow>
               (case dv_sanitize env (ea_Outcome ev) of
                  Inl e \<Rightarrow> (Inl (harness_with (Wrap ''sanitize oracle outcome'' e) u evs), w)
                | Inr eo \<Rightarrow> report_outcome env s (ea_Outcome ev) eo (token_counts (ea_Usage ev) u) (unknown_tokens (ea_Usage ev)) evs w)
           | Some (Inl e) \<Rightarrow> (Inl (harness_with (Wrap ''evaluate response'' e) u evs), w)
           | None \<Rightarrow> (Inl (harness_with (Err ''panic'') u evs), w)))"

definition driver_Run :: "'w driver_env \<Rightarrow> invocation \<Rightarrow> 'w \<Rightarrow> (run_failure + run_outcome) \<times> 'w" where
  "driver_Run env iv w =
     (case dv_CtxErr env w of
        (Some c, w0) \<Rightarrow> (Inl (runError ErrorHarness (ctx_go_error c) 0 False), w0)
      | (None, w0) \<Rightarrow>
          (case record_request env iv w0 of
             (Inl e, w1) \<Rightarrow> (Inl (runError ErrorHarness e 0 False), w1)
           | (Inr (s, r, ev), w1) \<Rightarrow>
               (case send_request env s ev w1 of
                  (Inl f, w2) \<Rightarrow> (Inl f, w2)
                | (Inr p, w2) \<Rightarrow>
                    (case record_response env s r ev p w2 of
                       (Inl f, w3) \<Rightarrow> (Inl f, w3)
                     | (Inr (u, evs), w3) \<Rightarrow> judge_response env s p u evs w3))))"

definition driver_Finalize :: "finalizer_plan \<Rightarrow> usage res" where
  "driver_Finalize p = Inl (Err ''raw HTTP driver does not own finalizer lease'')"

section \<open>The evidence of a run\<close>

definition sound :: "'w driver_env \<Rightarrow> evidence \<Rightarrow> bool" where
  "sound env ev \<longleftrightarrow> evidence_Validate (ce_json_valid (dv_capture env)) ev = None"

lemma sound_ref: "sound env ev \<Longrightarrow> ref_Validate (em_ObjectRef (ev_meta ev)) = None"
  by (simp add: sound_def evidence_Validate_def meta_Validate_def)

lemma sound_refs: "\<forall>ev\<in>set evs. sound env ev \<Longrightarrow> validateEvidenceRefs (evidenceRefs evs) = None"
  by (auto simp: validateEvidenceRefs_def evidenceRefs_def sound_ref)

lemma capture_record_sound: "capture_record env r n dir k off p w = ((r', Inr ev), w') \<Longrightarrow> sound env ev"
  by (auto simp: capture_record_def sound_def split: prod.splits elim: Record_cases)

lemma record_single_sound:
  "record_single env r n k p w = ((r', evs, e), w') \<Longrightarrow> (\<forall>ev\<in>set evs. sound env ev) \<and> length evs \<le> 1"
  by (auto simp: record_single_def capture_record_sound split: sum.splits prod.splits)

lemma summary_sound:
  "recordSSEWireSummaryAtSequence env r n k t b c tail w = ((r', evs, e), w') \<Longrightarrow> (\<forall>ev\<in>set evs. sound env ev) \<and> length evs \<le> 1"
  by (auto simp: recordSSEWireSummaryAtSequence_def dest: record_single_sound)

lemma record_events_sound:
  "record_events env r n result es w = ((r', n', evs, e), w') \<Longrightarrow> \<forall>ev\<in>set result. sound env ev \<Longrightarrow>
     (\<forall>ev\<in>set evs. sound env ev) \<and> length evs \<le> length result + length es"
proof (induction es arbitrary: r n result w)
  case (Cons x es)
  obtain payload kind where m: "marshalSSEObservation env x = (payload, kind)" by fastforce
  show ?case
  proof (cases payload)
    case (Inl y)
    with Cons.prems m show ?thesis by auto
  next
    case (Inr p)
    obtain r1 res w1 where c: "capture_record env r n DirectionTargetToCore kind (Some (sse_event.ev_EventOffset x)) p w = ((r1, res), w1)"
      by (metis surj_pair)
    show ?thesis
    proof (cases res)
      case (Inl y)
      with Cons.prems m Inr c show ?thesis by auto
    next
      case (Inr ev)
      then have "sound env ev" using c by (auto intro: capture_record_sound)
      with Cons.IH [of r1 "n + 1" "result @ [ev]" w1] Cons.prems m \<open>payload = Inr p\<close> c Inr show ?thesis by auto
    qed
  qed
qed auto

lemma recordResponseBody_sound:
  assumes "recordResponseBody env r s body w = ((r', evs, e), w')"
  shows "(\<forall>ev\<in>set evs. sound env ev) \<and> length evs \<le> Suc maxPersistedSSEEvents"
proof (cases "rsc_Streaming s")
  case False
  with assms record_single_sound [of env r 3 _ _ w r' evs e w'] show ?thesis
    by (fastforce simp: recordResponseBody_def split: if_splits)
next
  case True
  obtain a res where a: "Feed (NewSSEAssembler (max (int (length body) + 1) 1024)) (whole_body body) = (a, res)" by fastforce
  let ?small = "(\<forall>ev\<in>set evs. sound env ev) \<and> length evs \<le> 1"
  show ?thesis
  proof (cases res)
    case (Inl x)
    have "recordSSEWireSummaryAtSequence env r 3 ''sse_invalid_wire'' ''invalid_sse_wire'' (length body) 0 no_tail w = ((r', evs, e), w')"
      using assms True a Inl by (simp add: recordResponseBody_def)
    from summary_sound [OF this] show ?thesis by simp
  next
    case (Inr events)
    show ?thesis
    proof (cases "events = [] \<or> length events > maxPersistedSSEEvents")
      case True
      have ?small
      proof (cases "events = []")
        case True
        have "recordSSEWireSummaryAtSequence env r 3 ''sse_invalid_wire'' ''no_complete_sse_events'' (length body) 0 (SseAssembler.Finish a) w
            = ((r', evs, e), w')"
          using assms \<open>rsc_Streaming s\<close> a Inr True by (simp add: recordResponseBody_def)
        from summary_sound [OF this] show ?thesis .
      next
        case False
        with True have "record_single env r 3 ''sse_event_limit_fallback'' (marshalSSEEventLimitFallback env events (length body)) w
            = ((r', evs, e), w')"
          using assms \<open>rsc_Streaming s\<close> a Inr by (simp add: recordResponseBody_def Let_def)
        from record_single_sound [OF this] show ?thesis .
      qed
      then show ?thesis by simp
    next
      case False
      obtain r1 n result e1 w1 where re: "record_events env r 3 [] events w = ((r1, n, result, e1), w1)" by (metis surj_pair)
      from record_events_sound [OF re] False have res: "\<forall>ev\<in>set result. sound env ev" "length result \<le> maxPersistedSSEEvents" by auto
      let ?tail = "SseAssembler.Finish a"
      obtain r2 partial e2 w2 where su: "recordSSEWireSummaryAtSequence env r1 n ''sse_incomplete_wire'' ''incomplete_sse_tail''
          (length body) (length events) ?tail w1 = ((r2, partial, e2), w2)" by (metis surj_pair)
      from summary_sound [OF su] have part: "\<forall>ev\<in>set partial. sound env ev" "length partial \<le> 1" by auto
      have "evs = result \<or> evs = result @ partial"
        using assms \<open>rsc_Streaming s\<close> a Inr False re su
        by (auto simp: recordResponseBody_def Let_def split: if_splits option.splits)
      with res part show ?thesis by auto
    qed
  qed
qed

section \<open>The usage of a run\<close>

text \<open>
  Objects of the store and encoded envelopes are below a tebibyte, and a response body has the length of
  a Go slice; the store limits its objects to 256 MiB unless it is configured otherwise.
\<close>

definition sized :: "'w driver_env \<Rightarrow> bool" where
  "sized env \<longleftrightarrow> (\<forall>d w p w'. dv_Get env d w = (Inr p, w') \<longrightarrow> int (length p) \<le> 2 ^ 40) \<and>
     (\<forall>ev t. dv_encodeEvidence env ev = Inr t \<longrightarrow> int (length t) \<le> 2 ^ 40) \<and>
     (\<forall>m q h b w p w'. dv_Do env m q h b w = (Inr p, w') \<longrightarrow> int (length (hr_Body p)) < 2 ^ 63)"

lemma sint_length: "int n < 2 ^ 63 \<Longrightarrow> sint (of_nat n :: i64) = int n"
  by (simp add: signed_of_nat signed_take_bit_int_eq_self)

lemma artifactBytes_bound:
  assumes "sized env" "artifactBytes env t evs w = (Inr n, w')" "0 \<le> sint t" "sint t + 2 ^ 41 * int (length evs) < 2 ^ 63"
  shows "0 \<le> sint n \<and> sint n \<le> sint t + 2 ^ 41 * int (length evs)"
  using assms(2-4)
proof (induction evs arbitrary: t w)
  case (Cons ev evs)
  show ?case
  proof (cases "ev_PayloadDigest ev")
    case None
    with Cons.prems have "artifactBytes env t evs w = (Inr n, w')" "sint t + 2 ^ 41 * int (length evs) < 2 ^ 63" by simp_all
    from Cons.IH [OF this(1) Cons.prems(2) this(2)] show ?thesis by simp
  next
    case (Some d)
    with Cons.prems(1) obtain p w1 x where g: "dv_Get env d w = (Inr p, w1)" "dv_encodeEvidence env ev = Inr x"
      and rest: "artifactBytes env (t + of_nat (length p) + of_nat (length x)) evs w1 = (Inr n, w')"
      by (auto split: prod.splits sum.splits)
    from assms(1) g have le: "int (length p) \<le> 2 ^ 40" "int (length x) \<le> 2 ^ 40" by (auto simp: sized_def)
    have s1: "sint (t + of_nat (length p)) = sint t + int (length p)"
      using le Cons.prems(2,3) by (subst sint_add_i64) (simp_all add: i64_range_def sint_length)
    have s2: "sint (t + of_nat (length p) + of_nat (length x)) = sint t + int (length p) + int (length x)"
      using le Cons.prems(2,3) s1 by (subst sint_add_i64) (simp_all add: i64_range_def sint_length)
    have "0 \<le> sint (t + of_nat (length p) + of_nat (length x))"
      "sint (t + of_nat (length p) + of_nat (length x)) + 2 ^ 41 * int (length evs) < 2 ^ 63"
      using s2 le Cons.prems(2,3) by simp_all
    from Cons.IH [OF rest this] s2 le show ?thesis by simp
  qed
qed simp

lemma artifactBytes_nonneg:
  assumes "sized env" "artifactBytes env 0 evs w = (Inr n, w')" "length evs \<le> 515"
  shows "0 \<le> sint n"
proof -
  have "sint (0 :: i64) + 2 ^ 41 * int (length evs) < 2 ^ 63" using assms(3) by simp
  with artifactBytes_bound [OF assms(1,2)] show ?thesis by simp
qed

definition plain_usage :: "usage \<Rightarrow> bool" where
  "plain_usage u \<longleftrightarrow> us_Requests u = 1 \<and> us_Processes u = 0 \<and> us_InputTokens u = 0 \<and> us_OutputTokens u = 0 \<and> usage_Validate u = None"

lemma plain_usage_artifacts: "plain_usage u \<Longrightarrow> 0 \<le> sint n \<Longrightarrow> plain_usage (with_artifacts n u)"
  by (auto simp: plain_usage_def with_artifacts_def usage_Validate_def usage_fields_def)

lemma plain_usage_measured:
  "sized env \<Longrightarrow> measured env u evs w = (u1, w') \<Longrightarrow> plain_usage u \<Longrightarrow> length evs \<le> 515 \<Longrightarrow> plain_usage u1"
  by (auto simp: measured_def plain_usage_artifacts dest: artifactBytes_nonneg split: prod.splits sum.splits)

lemma valid_body_small: "validateAndCloneScenario J s0 = Inr s \<Longrightarrow> int (length (rsc_Body s)) < 2 ^ 63"
  using request_check_bounds(3) [OF validated_valid(5)] by (fastforce simp: maxScenarioRequestBytes_def)

lemma exchange_usage_plain:
  assumes "validateAndCloneScenario J s0 = Inr s"
  shows "plain_usage (sent_usage s)" "int (length (hr_Body p)) < 2 ^ 63 \<Longrightarrow> plain_usage (received_usage s p)"
  using sint_length [OF valid_body_small [OF assms]] sint_length [of "length (hr_Body p)"]
  by (auto simp: plain_usage_def sent_usage_def received_usage_def usage_Validate_def usage_fields_def)

section \<open>What the executor is told\<close>

text \<open>
  A failure that the executor takes as it is: its unknown fields and references are well-formed, and a
  usage that is said to be known is valid.
\<close>

definition good_failure :: "run_failure \<Rightarrow> bool" where
  "good_failure f \<longleftrightarrow> (\<exists>t. rf_typed f = Some t \<and> validateUnknownUsage (re_UnknownUsage t) = None \<and>
     validateEvidenceRefs (re_EvidenceRefs t) = None \<and> length (re_EvidenceRefs t) \<le> 515 \<and> usage_Validate (re_Usage t) = None)"

lemma good_runError:
  assumes "\<forall>ev\<in>set evs. sound env ev" "length evs \<le> 515" "usage_Validate u = None" "validateUnknownUsage unknown = None"
  shows "good_failure (runErrorWithEvidence cls e u known unknown evs)"
  using assms sound_refs [OF assms(1)] by (simp add: good_failure_def runErrorWithEvidence_def evidenceRefs_def)

lemma unknown_valid: "validateUnknownUsage [] = None" "validateUnknownUsage both_tokens = None" "validateUnknownUsage (unknown_tokens t) = None"
  by (simp_all add: validateUnknownUsage_def both_tokens_def unknown_tokens_def)

lemma good_harness:
  assumes "\<forall>ev\<in>set evs. sound env ev" "length evs \<le> 515" "plain_usage u"
  shows "good_failure (harness_with e u evs)"
  using assms good_runError [OF assms(1,2) _ unknown_valid(2)] by (simp add: harness_with_def plain_usage_def)

lemma record_request_good:
  assumes "record_request env iv w = (Inr (s, r, ev), w')"
  shows "sound env ev" "resolve_scenario env iv = Inr s" "\<exists>s0. validateAndCloneScenario (dv_json env) s0 = Inr s"
proof -
  from assms show "sound env ev" "resolve_scenario env iv = Inr s"
    by (auto simp: record_request_def capture_record_sound split: sum.splits prod.splits)
  then show "\<exists>s0. validateAndCloneScenario (dv_json env) s0 = Inr s"
    by (auto simp: resolve_scenario_def split: sum.splits if_splits)
qed

lemma send_request_good:
  assumes "send_request env s ev w = (Inl f, w')" "sound env ev" "plain_usage (sent_usage s)"
  shows "good_failure f"
proof -
  have "good_failure (runErrorWithEvidence cls e (sent_usage s) True both_tokens [ev])" for cls e
    using good_runError [of "[ev]" env, OF _ _ _ unknown_valid(2)] assms(2,3) by (simp add: plain_usage_def)
  with assms(1) show ?thesis by (auto simp: send_request_def harness_with_def split: sum.splits prod.splits option.splits)
qed

lemma record_response_good:
  assumes "record_response env s r ev p w = (res, w')" "sized env" "sound env ev" "plain_usage (received_usage s p)"
  shows "case res of Inl f \<Rightarrow> good_failure f
     | Inr (u, evs) \<Rightarrow> (\<forall>ev\<in>set evs. sound env ev) \<and> 2 \<le> length evs \<and> length evs \<le> 515 \<and> plain_usage u \<and>
         us_RequestBytes u = of_nat (length (rsc_Body s)) \<and> us_ResponseBytes u = of_nat (length (hr_Body p)) \<and>
         int (length (hr_Body p)) \<le> sint (bb_ResponseBytes (rsc_Budget s))"
proof (cases "dv_encode env (MetadataDocument (hr_StatusCode p) (hr_Header p) (hr_Protocol p) (hr_DurationNS p))")
  case (Inl e)
  with assms good_harness [of "[ev]" env] show ?thesis by (auto simp: record_response_def)
next
  case enc: (Inr payload)
  obtain r1 res1 w1 where c: "capture_record env r 2 DirectionTargetToCore ''http_response_metadata'' None payload w = ((r1, res1), w1)"
    by (metis surj_pair)
  show ?thesis
  proof (cases res1)
    case (Inl e)
    with enc c assms good_harness [of "[ev]" env] show ?thesis by (auto simp: record_response_def)
  next
    case (Inr ev2)
    then have ev2: "sound env ev2" using c by (auto intro: capture_record_sound)
    show ?thesis
    proof (cases "int (length (hr_Body p)) > sint (bb_ResponseBytes (rsc_Budget s))")
      case True
      obtain u1 w2 where m: "measured env (received_usage s p) [ev, ev2] w1 = (u1, w2)" by fastforce
      from plain_usage_measured [OF assms(2) m assms(4)] have "plain_usage u1" by simp
      with True enc c Inr m assms(1,3) ev2 good_harness [of "[ev, ev2]" env u1] show ?thesis by (auto simp: record_response_def)
    next
      case False
      obtain r2 evs e1 w2 where b: "(if hr_Body p = [] then ((r1, [], None), w1) else recordResponseBody env r1 s (hr_Body p) w1) = ((r2, evs, e1), w2)"
        by (metis surj_pair)
      have evs: "\<forall>ev\<in>set evs. sound env ev" "length evs \<le> 513"
        using b recordResponseBody_sound [of env r1 s "hr_Body p" w1 r2 evs e1 w2] by (auto simp: maxPersistedSSEEvents_def split: if_splits)
      have all: "\<forall>x\<in>set ([ev, ev2] @ evs). sound env x" "length ([ev, ev2] @ evs) \<le> 515" using evs ev2 assms(3) by auto
      show ?thesis
      proof (cases e1)
        case (Some e)
        obtain u1 w3 where m: "measured env (received_usage s p) ([ev, ev2] @ evs) w2 = (u1, w3)" by fastforce
        from plain_usage_measured [OF assms(2) m assms(4) all(2)] have "plain_usage u1" .
        from good_harness [OF all this] False enc c Inr b Some m assms(1) show ?thesis by (auto simp: record_response_def Let_def)
      next
        case None
        obtain t w3 where a: "artifactBytes env 0 ([ev, ev2] @ evs) w2 = (t, w3)" by fastforce
        show ?thesis
        proof (cases t)
          case (Inl e)
          have "plain_usage (with_artifacts 0 (received_usage s p))" by (rule plain_usage_artifacts [OF assms(4)]) simp
          from good_harness [OF all this] False enc c Inr b None a Inl assms(1) show ?thesis by (auto simp: record_response_def Let_def)
        next
          case n: (Inr n)
          have "plain_usage (with_artifacts n (received_usage s p))"
            by (rule plain_usage_artifacts [OF assms(4) artifactBytes_nonneg [OF assms(2) a [unfolded n] all(2)]])
          moreover have "res = Inr (with_artifacts n (received_usage s p), [ev, ev2] @ evs)"
            using False enc c Inr b None a n assms(1) by (simp add: record_response_def Let_def)
          ultimately show ?thesis using all False by (simp add: with_artifacts_def received_usage_def)
        qed
      qed
    qed
  qed
qed

lemma evaluate_shape:
  assumes "evaluate J s status headers body refs = Some (Inr ev)"
  shows "graded (ea_Outcome ev)" "0 \<le> sint (ou_Input (ea_Usage ev))" "0 \<le> sint (ou_Output (ea_Usage ev))"
proof -
  have "graded (ea_Outcome ev) \<and> 0 \<le> sint (ou_Input (ea_Usage ev)) \<and> 0 \<le> sint (ou_Output (ea_Usage ev))"
  proof (cases "unsupportedOutputLimitField J s status body")
    case (Some x)
    with assms show ?thesis by (auto simp: evaluate_def no_usage_def)
  next
    case None
    with assms obtain f os where f: "parse_response J s body refs = Inr f" and os: "selected_outcomes J s f refs (status_outcome s status refs)
        (checkContentType J (rsc_Streaming s) headers refs) = Some os" "ev = \<lparr>ea_Outcome = combineOutcomes refs os, ea_Usage = xf_usage f\<rparr>"
      by (auto simp: evaluate_def split: sum.splits)
    from selected_outcomes_graded [OF f, of status headers] os(1) have "\<forall>o1\<in>set os. graded o1" by auto
    from combineOutcomes_graded(1) [OF this] parse_usage_ok [OF f] os(2) show ?thesis by (simp add: usage_ok_def)
  qed
  then show "graded (ea_Outcome ev)" "0 \<le> sint (ou_Input (ea_Usage ev))" "0 \<le> sint (ou_Output (ea_Usage ev))" by simp_all
qed

lemma evaluate_not_None: "evaluate J s status headers body refs \<noteq> None"
  by (auto simp: evaluate_def dest: selected_outcomes_graded [of _ _ _ _ _ status headers] split: option.splits sum.splits)

lemma token_counts_valid:
  "usage_Validate u = None \<Longrightarrow> 0 \<le> sint (ou_Input t) \<Longrightarrow> 0 \<le> sint (ou_Output t) \<Longrightarrow> usage_Validate (token_counts t u) = None"
  by (auto simp: token_counts_def usage_Validate_def usage_fields_def)

text \<open>What a completed run reports: the outcome passes the executor's validation and there is a finding exactly for a failure.\<close>

definition good_outcome :: "scenario \<Rightarrow> run_outcome \<Rightarrow> bool" where
  "good_outcome s o1 \<longleftrightarrow> validateOutcome o1 = None \<and> usage_Validate (oc_Usage o1) = None \<and> us_Requests (oc_Usage o1) = 1 \<and>
     us_RequestBytes (oc_Usage o1) = of_nat (length (rsc_Body s)) \<and>
     sint (us_ResponseBytes (oc_Usage o1)) \<le> sint (bb_ResponseBytes (rsc_Budget s)) \<and> us_Processes (oc_Usage o1) = 0 \<and>
     length (oc_EvidenceRefs o1) \<le> 515 \<and> oc_ReasonCode o1 \<noteq> ReasonHarnessError \<and>
     length (oc_Findings o1) = (if oc_Verdict o1 = VerdictFail then 1 else 0) \<and>
     map ar_Verdict (oc_AssertionResults o1) = [oc_Verdict o1] \<and>
     map ar_RequirementID (oc_AssertionResults o1) = [as_RequirementID (rsc_Assertion s)]"

lemma report_outcome_good:
  assumes "report_outcome env s o1 eo u unknown evs w = (res, w')" "graded o1" "\<forall>ev\<in>set evs. sound env ev" "2 \<le> length evs" "length evs \<le> 515"
    and "usage_Validate u = None" "us_Requests u = 1" "us_RequestBytes u = of_nat (length (rsc_Body s))"
    "sint (us_ResponseBytes u) \<le> sint (bb_ResponseBytes (rsc_Budget s))" "us_Processes u = 0" "validateUnknownUsage unknown = None"
  shows "case res of Inl f \<Rightarrow> good_failure f | Inr out \<Rightarrow> good_outcome s out"
proof -
  have fail: "good_failure (runErrorWithEvidence cls e u True unknown evs)" for cls e
    by (rule good_runError [OF assms(3,5,6,11)])
  have out: "good_outcome s (outcome_of o1 evs (assertion_of s i o1 eo) findings u unknown)"
    if "assertion_Validate (assertion_of s i o1 eo) = None" "oo_ReasonCode o1 \<noteq> ReasonHarnessError"
      "length findings = (if oo_TargetFailure o1 then 1 else 0)" for i findings
  proof -
    have "evidenceRefs evs \<noteq> []" using assms(4) by (auto simp: evidenceRefs_def)
    moreover have "oo_Verdict o1 \<in> {VerdictPass, VerdictFail, VerdictInconclusive}" "oo_TargetFailure o1 \<longleftrightarrow> oo_Verdict o1 = VerdictFail"
      using assms(2) by (auto simp: graded_def)
    ultimately have "validateOutcome (outcome_of o1 evs (assertion_of s i o1 eo) findings u unknown) = None"
      using that(1) sound_refs [OF assms(3)] assms(11) by (auto simp: validateOutcome_def outcome_of_def)
    with that assms \<open>oo_TargetFailure o1 \<longleftrightarrow> oo_Verdict o1 = VerdictFail\<close> show ?thesis
      by (simp add: good_outcome_def outcome_of_def evidenceRefs_def assertion_of_def)
  qed
  show ?thesis
    using assms(1) fail out
    by (auto simp: report_outcome_def Let_def split: if_splits sum.splits prod.splits option.splits)
qed

lemma judge_response_good:
  assumes "judge_response env s p u evs w = (res, w')" "\<forall>ev\<in>set evs. sound env ev" "2 \<le> length evs" "length evs \<le> 515"
    and "plain_usage u" "us_RequestBytes u = of_nat (length (rsc_Body s))" "sint (us_ResponseBytes u) \<le> sint (bb_ResponseBytes (rsc_Budget s))"
  shows "case res of Inl f \<Rightarrow> good_failure f | Inr out \<Rightarrow> good_outcome s out"
proof -
  have fail: "good_failure (runErrorWithEvidence cls e u True both_tokens evs)" for cls e
    using good_runError [OF assms(2,4) _ unknown_valid(2)] assms(5) by (simp add: plain_usage_def)
  show ?thesis
  proof (cases "classifyHTTPStatus (hr_StatusCode p) = None \<and> (\<exists>ev eo. evaluate (dv_json env) s (hr_StatusCode p) (hr_Header p) (hr_Body p)
      (evidenceRefs evs) = Some (Inr ev) \<and> dv_sanitize env (ea_Outcome ev) = Inr eo)")
    case True
    then obtain ev eo where ev: "evaluate (dv_json env) s (hr_StatusCode p) (hr_Header p) (hr_Body p) (evidenceRefs evs) = Some (Inr ev)"
      and report: "report_outcome env s (ea_Outcome ev) eo (token_counts (ea_Usage ev) u) (unknown_tokens (ea_Usage ev)) evs w = (res, w')"
      using assms(1) by (auto simp: judge_response_def)
    note shape = evaluate_shape [OF ev]
    have valid: "usage_Validate (token_counts (ea_Usage ev) u) = None"
      using assms(5) token_counts_valid [OF _ shape(2,3)] by (simp add: plain_usage_def)
    have "us_Requests (token_counts (ea_Usage ev) u) = 1"
      "us_RequestBytes (token_counts (ea_Usage ev) u) = of_nat (length (rsc_Body s))"
      "sint (us_ResponseBytes (token_counts (ea_Usage ev) u)) \<le> sint (bb_ResponseBytes (rsc_Budget s))"
      "us_Processes (token_counts (ea_Usage ev) u) = 0"
      using assms(5-7) by (auto simp: plain_usage_def token_counts_def)
    from report_outcome_good [OF report shape(1) assms(2-4) valid this unknown_valid(3)] show ?thesis .
  next
    case False
    then have "\<exists>cls e. res = Inl (runErrorWithEvidence cls e u True both_tokens evs)"
      using assms(1) by (auto simp: judge_response_def harness_with_def split: option.splits sum.splits)
    with fail show ?thesis by auto
  qed
qed

lemma driver_Run_good:
  assumes "sized env"
  shows "case fst (driver_Run env iv w) of Inl f \<Rightarrow> good_failure f
    | Inr out \<Rightarrow> \<exists>s. resolve_scenario env iv = Inr s \<and> good_outcome s out"
proof -
  have early: "good_failure (runError ErrorHarness e 0 False)" for e
    using good_runError [of "[]" env 0 "[]" ErrorHarness e False] by (simp add: runError_def unknown_valid usage_Validate_def usage_fields_def zero_usage_def)
  obtain c w0 where ctx: "dv_CtxErr env w = (c, w0)" by fastforce
  obtain q w1 where req: "record_request env iv w0 = (q, w1)" by fastforce
  show ?thesis
  proof (cases "c \<noteq> None \<or> (\<exists>e. q = Inl e)")
    case True
    with ctx req early show ?thesis by (auto simp: driver_Run_def split: option.splits)
  next
    case False
    then obtain s r ev where q: "q = Inr (s, r, ev)" and c: "c = None" by (cases q) auto
    note good = record_request_good [OF req [unfolded q]]
    obtain s0 where s0: "validateAndCloneScenario (dv_json env) s0 = Inr s" using good(3) by blast
    obtain sent w2 where sent: "send_request env s ev w1 = (sent, w2)" by fastforce
    show ?thesis
    proof (cases sent)
      case (Inl f)
      with send_request_good [OF sent [unfolded Inl] good(1) exchange_usage_plain(1) [OF s0]] ctx c req q sent show ?thesis
        by (simp add: driver_Run_def)
    next
      case (Inr p)
      have "dv_Do env (rsc_Method s) (rsc_Path s) (rsc_Headers s) (rsc_Body s) w1 = (Inr p, w2)"
        using sent Inr by (auto simp: send_request_def split: prod.splits sum.splits option.splits)
      with assms have "int (length (hr_Body p)) < 2 ^ 63" unfolding sized_def by blast
      note plain = exchange_usage_plain(2) [OF s0 this] and len = this
      obtain rr w3 where rr: "record_response env s r ev p w2 = (rr, w3)" by fastforce
      note rg = record_response_good [OF rr assms good(1) plain]
      show ?thesis
      proof (cases rr)
        case (Inl f)
        with rg ctx c req q sent Inr rr show ?thesis by (simp add: driver_Run_def)
      next
        case ue: (Inr ue)
        obtain u evs where "ue = (u, evs)" by fastforce
        with ue rg have g: "\<forall>ev\<in>set evs. sound env ev" "2 \<le> length evs" "length evs \<le> 515" "plain_usage u"
          "us_RequestBytes u = of_nat (length (rsc_Body s))" "sint (us_ResponseBytes u) \<le> sint (bb_ResponseBytes (rsc_Budget s))"
          using sint_length [OF len] by auto
        obtain res w4 where j: "judge_response env s p u evs w3 = (res, w4)" by fastforce
        from judge_response_good [OF j g] good(2) ctx c req q sent Inr rr ue \<open>ue = (u, evs)\<close> j show ?thesis
          by (cases res) (auto simp: driver_Run_def)
      qed
    qed
  qed
qed

text \<open>
  C4. A completed run of the raw driver is a well-formed outcome.  Whatever target, store, redactor and
  clock do, the outcome of a run belongs to the scenario that the plan resolves to, passes the executor's
  validation, carries one assertion result with the verdict and the requirement of the scenario, exactly
  one finding when the verdict is a failure and none otherwise, at least one and at most 515 references
  to evidence, a valid usage of one request with the bytes of its body, and a response within the budget
  of the scenario.  An outcome never blames the harness: such a run is an error.
\<close>

theorem driver_outcome_well_formed:
  assumes "sized env" "driver_Run env iv w = (Inr out, w')"
  shows "\<exists>s. resolve_scenario env iv = Inr s \<and> validateOutcome out = None \<and> oc_ReasonCode out \<noteq> ReasonHarnessError \<and>
    map ar_Verdict (oc_AssertionResults out) = [oc_Verdict out] \<and>
    map ar_RequirementID (oc_AssertionResults out) = [as_RequirementID (rsc_Assertion s)] \<and>
    length (oc_Findings out) = (if oc_Verdict out = VerdictFail then 1 else 0) \<and> length (oc_EvidenceRefs out) \<le> 515 \<and>
    usage_Validate (oc_Usage out) = None \<and> us_Requests (oc_Usage out) = 1 \<and> us_Processes (oc_Usage out) = 0 \<and>
    us_RequestBytes (oc_Usage out) = of_nat (length (rsc_Body s)) \<and>
    sint (us_ResponseBytes (oc_Usage out)) \<le> sint (bb_ResponseBytes (rsc_Budget s))"
  using driver_Run_good [OF assms(1), of iv w] assms(2) by (auto simp: good_outcome_def)

lemma failure_account_good: "good_failure f \<Longrightarrow> fst (failure_account f est) = f"
  by (auto simp: good_failure_def failure_account_def Let_def)

text \<open>
  C9. The raw driver is a runner the executor can rely on.  It never reports a negative consumption, so
  the executor settles every reservation of a run with it, and what it reports of a failure is always
  well-formed, so the executor accounts for the failure as reported and never replaces it by a failure of
  the harness.
\<close>

theorem driver_is_honest:
  assumes "sized env"
  shows "honest (E\<lparr>en_Run := \<lambda>_ iv w. driver_Run env iv w\<rparr>) \<and>
    (\<forall>iv w f w' est. driver_Run env iv w = (Inl f, w') \<longrightarrow> fst (failure_account f est) = f)"
proof -
  have "case fst (driver_Run env iv w) of Inl f \<Rightarrow> (\<forall>e. rf_typed f = Some e \<and> re_UsageKnown e \<longrightarrow> usage_Validate (re_Usage e) = None)
      | Inr o1 \<Rightarrow> usage_Validate (oc_Usage o1) = None" for iv w
    using driver_Run_good [OF assms, of iv w] by (auto simp: good_failure_def good_outcome_def split: sum.splits)
  moreover have "fst (failure_account f est) = f" if "driver_Run env iv w = (Inl f, w')" for iv w f w' est
    using driver_Run_good [OF assms, of iv w] that by (simp add: failure_account_good)
  ultimately show ?thesis by (simp add: honest_def)
qed

section \<open>The registry the driver relies on\<close>

text \<open>
  The interface \<open>Registry\<close>: an estimate is that of a scenario that a lookup of the same decision finds, and
  a lookup returns a validated scenario with the key that was asked for.
\<close>

locale scenario_source =
  fixes J :: raw_json
    and estimate :: "scenario_decision \<Rightarrow> usage res"
    and lookup :: "digest \<Rightarrow> scenario_decision \<Rightarrow> scenario res"
  assumes estimate_lookup: "estimate d = Inr u \<Longrightarrow> \<exists>p s. u = estimateFor J s \<and> (\<forall>p' s'. lookup p' d = Inr s' \<longleftrightarrow> p' = p \<and> s' = s)"
    and lookup_key: "lookup p d = Inr s \<Longrightarrow> rsc_PlanDigest s = p \<and> rsc_ID s = sd_ScenarioID d \<and> rsc_Driver s = sd_Driver d"
    and lookup_validated: "lookup p d = Inr s \<Longrightarrow> \<exists>input. validateAndCloneScenario J input = Inr s"
begin

lemma lookup_body: "lookup p d = Inr s \<Longrightarrow> rj_unmarshal J [] = Inl e \<Longrightarrow> rsc_Body s \<noteq> []"
  using lookup_validated [of p d s] validated_valid(5) [of J _ s]
  by (auto simp: request_check_def split: sum.splits option.splits)

text \<open>The driver's own check of an estimate never fails.\<close>

lemma driver_estimates:
  assumes "dv_Estimate env = estimate" "rj_unmarshal J [] = Inl e"
  shows "driver_Estimate env d = estimate d"
proof (cases "estimate d")
  case (Inr u)
  then obtain p s where s: "lookup p d = Inr s" "u = estimateFor J s" using estimate_lookup by blast
  obtain input where "validateAndCloneScenario J input = Inr s" using lookup_validated s by blast
  from estimateFor_bounded [OF this lookup_body [OF s(1) assms(2)]] s Inr assms(1) show ?thesis
    by (auto simp: driver_Estimate_def estimateFor_def)
qed (simp add: driver_Estimate_def assms)

lemma driver_resolves:
  assumes "dv_Lookup env = lookup" "dv_json env = J" "resolve_scenario env iv = Inr s"
    and "\<And>b c. nj_canonicalize (rj_native J) b = Inr c \<Longrightarrow> nj_canonicalize (rj_native J) c = Inr c"
  shows "lookup (iv_PlanDigest iv) (iv_Scenario iv) = Inr s"
proof -
  from assms(1-3) obtain s0 where s0: "lookup (iv_PlanDigest iv) (iv_Scenario iv) = Inr s0" "validateAndCloneScenario J s0 = Inr s"
    by (auto simp: resolve_scenario_def split: sum.splits if_splits)
  obtain input where input: "validateAndCloneScenario J input = Inr s0" using lookup_validated s0(1) by blast
  from revalidated [OF input assms(4) [OF validated_fields(7) [OF input]]] s0 show ?thesis by simp
qed

end

interpretation memory_source: scenario_source J "registry_Estimate J (registrations J ss)" "Lookup (registrations J ss)" for J ss
proof
  fix d p s u
  let ?r = "registrations J ss"
  note inv = registry_invD [OF registrations_inv [of J ss]]
  show "rsc_PlanDigest s = p \<and> rsc_ID s = sd_ScenarioID d \<and> rsc_Driver s = sd_Driver d" if "Lookup ?r p d = Inr s"
    using that inv(1) [of "(p, sd_ScenarioID d)" s] by (auto simp: Lookup_Inr plan_key_def)
  show "\<exists>input. validateAndCloneScenario J input = Inr s" if "Lookup ?r p d = Inr s"
    using that inv(2) [of "(p, sd_ScenarioID d)" s] by (auto simp: Lookup_Inr)
  show "\<exists>p s. u = estimateFor J s \<and> (\<forall>p' s'. Lookup ?r p' d = Inr s' \<longleftrightarrow> p' = p \<and> s' = s)"
    if "registry_Estimate J ?r d = Inr u" by (rule estimated_scenario [OF that])
qed


section \<open>A concrete run\<close>

text \<open>A target that answers every request with an empty 404.\<close>

definition missing_response :: http_response where
  "missing_response = \<lparr>hr_StatusCode = 404, hr_Header = [], hr_Body = [], hr_Protocol = ''HTTP/1.1'', hr_DurationNS = 1\<rparr>"

definition quiet_driver :: "nat driver_env" where
  "quiet_driver = \<lparr>dv_capture = quiet_capture, dv_json = plain_json,
     dv_Estimate = registry_Estimate plain_json (registrations plain_json [sample_scenario]),
     dv_Lookup = Lookup (registrations plain_json [sample_scenario]), dv_producer = sample_producer, dv_maxObservationBytes = 0,
     dv_encode = (\<lambda>_. Inr ''{}''), dv_encodeEvidence = (\<lambda>_. Inr ''{}''), dv_sanitize = (\<lambda>_. Inr ([], [])),
     dv_fingerprint = (\<lambda>_. Inr zero_digest), dv_CtxErr = (\<lambda>w. (None, w)), dv_Since = (\<lambda>w. (0, w)),
     dv_Do = (\<lambda>_ _ _ _ w. (Inr missing_response, w)), dv_Get = (\<lambda>_ w. (Inr ''{}'', w)), dv_NewID = (\<lambda>w. (Inr uuid_a, w))\<rparr>"

definition first_invocation :: invocation where
  "first_invocation = \<lparr>iv_RunID = uuid_a, iv_InvocationID = uuid_a, iv_AttemptID = uuid_b, iv_PlanDigest = zero_digest,
     iv_Scenario = sample_decision, iv_AttemptNumber = 1\<rparr>"

lemma quiet_driver_sized: "sized quiet_driver"
  by (simp add: sized_def quiet_driver_def missing_response_def)

lemma quiet_env: "dv_capture quiet_driver = quiet_capture" "dv_json quiet_driver = plain_json" "dv_producer quiet_driver = sample_producer"
  "dv_Lookup quiet_driver = Lookup (registrations plain_json [sample_scenario])" "dv_maxObservationBytes quiet_driver = 0"
  "dv_encode quiet_driver x = Inr ''{}''" "dv_encodeEvidence quiet_driver y = Inr ''{}''" "dv_sanitize quiet_driver z = Inr ([], [])"
  "dv_fingerprint quiet_driver t = Inr zero_digest" "dv_CtxErr quiet_driver w = (None, w)" "dv_Since quiet_driver w = (0, w)"
  "dv_Do quiet_driver m q h b w = (Inr missing_response, w)" "dv_Get quiet_driver d w = (Inr ''{}'', w)" "dv_NewID quiet_driver w = (Inr uuid_a, w)"
  by (simp_all add: quiet_driver_def)

lemma quiet_capture_record:
  assumes "n \<noteq> 0" "dir = DirectionCoreToTarget \<or> dir = DirectionTargetToCore" "kind \<noteq> []"
  shows "\<exists>ev w'. capture_record quiet_driver (direct_recorder\<lparr>rd_nextSequence := n\<rparr>) n dir kind None ''{}'' w
    = ((direct_recorder\<lparr>rd_nextSequence := n + 1\<rparr>, Inr ev), w')"
  using quiet_recorded [OF assms, of w] by (simp add: capture_record_def quiet_env request_observation_def elapsedNS_def)

lemma quiet_request: "\<exists>ev w'. record_request quiet_driver first_invocation w
    = (Inr (stored_scenario, direct_recorder\<lparr>rd_nextSequence := 2\<rparr>, ev), w')"
proof -
  have "validateAndCloneScenario plain_json stored_scenario = Inr stored_scenario"
    by (rule revalidated [OF sample_scenario_valid]) (simp add: plain_json_def sample_fields)
  moreover have "validateInvocation first_invocation = None"
    using sample_ids_valid sample_decision_valid by (simp add: validateInvocation_def first_invocation_def)
  ultimately have "resolve_scenario quiet_driver first_invocation = Inr stored_scenario"
    using sample_lookup by (simp add: resolve_scenario_def quiet_env first_invocation_def sample_fields) (simp add: sample_decision_def)
  moreover have "driver_recorder quiet_driver first_invocation = Inr direct_recorder"
    using direct_recorder_New by (simp add: driver_recorder_def quiet_env first_invocation_def direct_config_def)
  moreover have "direct_recorder = direct_recorder\<lparr>rd_nextSequence := 1\<rparr>" by (simp add: direct_recorder_def)
  ultimately show ?thesis using quiet_capture_record [of 1 DirectionCoreToTarget "''http_request''" w]
    by (auto simp: record_request_def quiet_env)
qed

lemma quiet_artifacts: "\<exists>n w'. artifactBytes quiet_driver t evs w = (Inr n, w')"
  by (induction evs arbitrary: t w) (auto simp: quiet_env split: option.splits)

lemma quiet_run: "\<exists>out w'. driver_Run quiet_driver first_invocation 0 = (Inr out, w') \<and> oc_Verdict out = VerdictFail"
proof -
  obtain ev w1 where req: "record_request quiet_driver first_invocation 0 = (Inr (stored_scenario, direct_recorder\<lparr>rd_nextSequence := 2\<rparr>, ev), w1)"
    using quiet_request by blast
  obtain ev2 w2 where meta: "capture_record quiet_driver (direct_recorder\<lparr>rd_nextSequence := 2\<rparr>) 2 DirectionTargetToCore
      ''http_response_metadata'' None ''{}'' w1 = ((direct_recorder\<lparr>rd_nextSequence := 3\<rparr>, Inr ev2), w2)"
    using quiet_capture_record [of 2 DirectionTargetToCore "''http_response_metadata''" w1] by auto
  obtain n w3 where art: "artifactBytes quiet_driver 0 [ev, ev2] w2 = (Inr n, w3)"
    using quiet_artifacts by blast
  have rr: "record_response quiet_driver stored_scenario (direct_recorder\<lparr>rd_nextSequence := 2\<rparr>) ev missing_response w1
      = (Inr (with_artifacts n (received_usage stored_scenario missing_response), [ev, ev2]), w3)"
    using meta art by (simp add: record_response_def quiet_env missing_response_def Let_def sample_fields)
  let ?refs = "evidenceRefs [ev, ev2]"
  have "unsupportedOutputLimitField plain_json stored_scenario 404 [] = None"
    by (simp add: unsupportedOutputLimitField_def split: option.splits)
  moreover have "\<exists>f. parse_response plain_json stored_scenario [] ?refs = Inr f"
    by (simp add: parse_response_def parseJSONResponse_def sample_fields plain_json_def)
  moreover have "selected_outcomes plain_json stored_scenario f ?refs o1 o2 = Some os \<Longrightarrow> \<exists>rest. os = o1 # rest" for f o1 o2 os
    by (auto simp: selected_outcomes_def sample_fields)
  ultimately obtain e where e: "evaluate plain_json stored_scenario 404 [] [] ?refs = Some (Inr e)"
    and o1: "ea_Outcome e = targetFail ?refs ''unexpected_http_status''"
    using selected_outcomes_graded [of plain_json stored_scenario "[]" ?refs _ 404 "[]"]
    by (fastforce simp: evaluate_def combineOutcomes_def status_outcome_def sample_fields)
  have valid: "assertion_Validate (assertion_of stored_scenario uuid_a (targetFail ?refs ''unexpected_http_status'') ([], [])) = None"
    using sample_texts(5) sample_ids_valid
    by (simp add: assertion_Validate_def assertion_of_def sample_scenario_def targetFail_def evidenceRefs_def)
  have codes: "\<not> blank ''unexpected_http_status''" by (rule plain_not_blank) (simp add: plain_def code_def)
  have "\<exists>out. report_outcome quiet_driver stored_scenario (ea_Outcome e) ([], []) u unknown [ev, ev2] w3 = (Inr out, w3) \<and> oc_Verdict out = VerdictFail" for u unknown
    using valid codes sample_texts(1,2)
    by (simp add: report_outcome_def o1 quiet_env driver_finding_def Fingerprint_def findingDomain_def outcome_of_def Let_def sample_scenario_def
        targetFail_def assertion_of_def split: prod.splits sum.splits)
  with req rr e show ?thesis
    by (simp add: driver_Run_def send_request_def quiet_env judge_response_def classifyHTTPStatus_def missing_response_def) blast
qed

theorem driver_outcome_well_formed_witness:
  "\<exists>out w'. driver_Run quiet_driver first_invocation 0 = (Inr out, w') \<and> validateOutcome out = None \<and> length (oc_Findings out) = 1"
proof -
  obtain out w' where out: "driver_Run quiet_driver first_invocation 0 = (Inr out, w')" "oc_Verdict out = VerdictFail" using quiet_run by blast
  from driver_outcome_well_formed [OF quiet_driver_sized out(1)] out show ?thesis by auto
qed

theorem driver_is_honest_witness:
  "honest (steady_env\<lparr>en_Run := \<lambda>_ iv w. driver_Run quiet_driver iv w\<rparr>)"
  using driver_is_honest [OF quiet_driver_sized] by blast


end
