(* ===== verification/PackAuthoring.thy ===== *)
theory PackAuthoring
  imports Oracle
begin

text \<open>
  Package \<open>packapi\<close>, the authored documents (\<open>pkg/packapi/types.go\<close> and \<open>yaml.go\<close>): name and version
  patterns, byte sizes, and the strict reading of a YAML document.  The YAML parser, the JSON Schema
  validator, the range check of floating-point numbers and the strict JSON decoding are parameters; the walk
  over the parsed nodes, which refuses what JSON cannot express, and the projection to JSON are modelled.
\<close>

section \<open>Patterns\<close>

definition resourceNamePattern :: "string \<Rightarrow> bool" where
  "resourceNamePattern = class_match is_lower (\<lambda>c. is_lower c \<or> is_digit c \<or> c \<in> set ''._-'') 0 127"

definition artifactNamePattern :: "string \<Rightarrow> bool" where
  "artifactNamePattern = class_match (\<lambda>c. is_lower c \<or> is_digit c) (\<lambda>c. is_lower c \<or> is_digit c \<or> c \<in> set ''._/-'') 0 127"

text \<open>\<open>(0|[1-9][0-9]*)\<close>: a decimal number without a leading zero.\<close>

definition plain_number :: "string \<Rightarrow> bool" where
  "plain_number s \<longleftrightarrow> s = ''0'' \<or> (s \<noteq> [] \<and> hd s \<noteq> CHR ''0'' \<and> list_all is_digit s)"

text \<open>The text before the first occurrence of a byte and, when there is one, the text after it (\<open>strings.Cut\<close>).\<close>

definition cut_at :: "char \<Rightarrow> string \<Rightarrow> string \<times> string option" where
  "cut_at c s = (takeWhile (\<lambda>x. x \<noteq> c) s, case dropWhile (\<lambda>x. x \<noteq> c) s of [] \<Rightarrow> None | _ # t \<Rightarrow> Some t)"

definition is_ident_char :: "char \<Rightarrow> bool" where
  "is_ident_char c \<longleftrightarrow> is_digit c \<or> is_lower c \<or> is_upper c \<or> c = CHR ''.'' \<or> c = CHR ''-''"

definition ident_suffix :: "string option \<Rightarrow> bool" where
  "ident_suffix t \<longleftrightarrow> (case t of None \<Rightarrow> True | Some s \<Rightarrow> s \<noteq> [] \<and> list_all is_ident_char s)"

text \<open>
  \<open>semverPattern\<close>: three numbers, an optional suffix after the first hyphen and an optional one after the
  first plus sign.  The numbers contain neither sign and the first suffix contains no plus sign, so cutting at
  the first signs finds the only way to match.
\<close>

definition semverPattern :: "string \<Rightarrow> bool" where
  "semverPattern s =
     (case cut_at CHR ''+'' s of (core, build) \<Rightarrow>
      (case cut_at CHR ''-'' core of (numbers, pre) \<Rightarrow>
       (case cut_at CHR ''.'' numbers of (major, rest1) \<Rightarrow>
        (case rest1 of None \<Rightarrow> False | Some t \<Rightarrow>
         (case cut_at CHR ''.'' t of (minor, rest2) \<Rightarrow>
          (case rest2 of None \<Rightarrow> False | Some patch \<Rightarrow>
             plain_number major \<and> plain_number minor \<and> plain_number patch \<and> ident_suffix pre \<and> ident_suffix build))))))"

definition calverPattern :: "string \<Rightarrow> bool" where
  "calverPattern s =
     (case cut_at CHR ''.'' s of (year, rest1) \<Rightarrow>
      (case rest1 of None \<Rightarrow> False | Some t \<Rightarrow>
       (case cut_at CHR ''.'' t of (month, rest2) \<Rightarrow>
        (case rest2 of None \<Rightarrow> False | Some patch \<Rightarrow>
           seq_match [(=) CHR ''2'', (=) CHR ''0'', is_digit, is_digit] year \<and>
           month \<in> set [''01'', ''02'', ''03'', ''04'', ''05'', ''06'', ''07'', ''08'', ''09'', ''10'', ''11'', ''12''] \<and>
           plain_number patch))))"

section \<open>Byte sizes\<close>

type_synonym byte_size = i64

definition byte_size_Validate :: "byte_size \<Rightarrow> err" where
  "byte_size_Validate n = fail_if (sint n \<le> 0) (Err ''byte size must be positive'')"

definition has_suffix :: "string \<Rightarrow> string \<Rightarrow> bool" where
  "has_suffix s t \<longleftrightarrow> length t \<le> length s \<and> drop (length s - length t) s = t"

definition size_units :: "(string \<times> int) list" where
  "size_units = [(''GiB'', 2 ^ 30), (''MiB'', 2 ^ 20), (''KiB'', 2 ^ 10), (''B'', 1)]"

definition size_value :: "string \<Rightarrow> int \<Rightarrow> byte_size res" where
  "size_value number factor =
     (if number = [] \<or> (length number > 1 \<and> hd number = CHR ''0'') then Inl (Err ''byte size is not canonical'')
      else (case ParseInt64 number of
          None \<Rightarrow> Inl (Err ''invalid byte size'')
        | Some v \<Rightarrow> if v \<le> 0 \<or> v > (2 ^ 63 - 1) div factor then Inl (Err ''invalid byte size'')
                    else Inr (word_of_int v * word_of_int factor)))"

fun size_loop :: "string \<Rightarrow> (string \<times> int) list \<Rightarrow> byte_size res" where
  "size_loop text [] = Inl (Err ''byte size must use B, KiB, MiB, or GiB'')"
| "size_loop text ((unit_name, factor) # units) =
     (if has_suffix text unit_name then size_value (take (length text - length unit_name) text) factor else size_loop text units)"

definition parseByteSize :: "string \<Rightarrow> byte_size res" where
  "parseByteSize text = size_loop text size_units"

text \<open>A parsed size is positive and the exact product: the range check excludes wrap-around.\<close>

lemma size_value_exact:
  assumes "size_value number factor = Inr n" "0 < factor"
  shows "\<exists>v. ParseInt64 number = Some v \<and> 0 < v \<and> sint n = v * factor"
proof -
  from assms(1) obtain v where v: "ParseInt64 number = Some v" "0 < v" "v \<le> (2 ^ 63 - 1) div factor"
    and n: "n = word_of_int v * word_of_int factor"
    by (auto simp: size_value_def split: if_splits option.splits)
  have "v * factor \<le> (2 ^ 63 - 1) div factor * factor" using v(3) assms(2) by (simp add: mult_right_mono)
  also have "\<dots> \<le> 2 ^ 63 - 1" using assms(2) by (metis div_mult_mod_eq le_add_same_cancel1 pos_mod_sign)
  finally have "v * factor \<le> 2 ^ 63 - 1" .
  moreover have "0 < v * factor" using v(2) assms(2) by simp
  ultimately have "signed_take_bit 63 (v * factor) = v * factor" by (intro signed_take_bit_int_eq_self) simp_all
  then have "sint n = v * factor" unfolding n wi_hom_mult by (subst signed_of_int) simp
  with v show ?thesis by blast
qed

section \<open>YAML nodes\<close>

datatype yaml_kind = DocumentNode | SequenceNode | MappingNode | ScalarNode | AliasNode | OtherNode

text \<open>\<open>yaml.Node\<close>; \<open>yn_Alias\<close> tells whether the alias pointer is set, which is never followed.\<close>

datatype yaml_node = Node (yn_Kind: yaml_kind) (yn_Tag: string) (yn_Value: string) (yn_Anchor: string) (yn_Alias: bool)
  (yn_Content: "yaml_node list")

definition MaxAuthoredYAMLBytes :: nat where "MaxAuthoredYAMLBytes = 4 * 2 ^ 20"
definition maxYAMLDepth :: nat where "maxYAMLDepth = 128"
definition maxYAMLNodes :: nat where "maxYAMLNodes = 100000"

definition minus_number :: "string \<Rightarrow> bool" where
  "minus_number s \<longleftrightarrow> plain_number (if has_prefix s ''-'' then tl s else s)"

definition jsonIntegerPattern :: "string \<Rightarrow> bool" where
  "jsonIntegerPattern = minus_number"

text \<open>\<open>([eE][+-]?[0-9]+)?$\<close> and \<open>(\.[0-9]+)?([eE][+-]?[0-9]+)?$\<close>: the texts after the integer part.\<close>

definition exponent_part :: "string \<Rightarrow> bool" where
  "exponent_part s \<longleftrightarrow> (case s of [] \<Rightarrow> True
     | c # t \<Rightarrow> (c = CHR ''e'' \<or> c = CHR ''E'') \<and>
         (let ds = (if t \<noteq> [] \<and> (hd t = CHR ''+'' \<or> hd t = CHR ''-'') then tl t else t) in ds \<noteq> [] \<and> list_all is_digit ds))"

definition fraction_part :: "string \<Rightarrow> bool" where
  "fraction_part s \<longleftrightarrow> (case s of [] \<Rightarrow> True
     | c # t \<Rightarrow> if c = CHR ''.'' then takeWhile is_digit t \<noteq> [] \<and> exponent_part (dropWhile is_digit t) else exponent_part s)"

definition jsonNumberPattern :: "string \<Rightarrow> bool" where
  "jsonNumberPattern s \<longleftrightarrow>
     (let u = (if has_prefix s ''-'' then tl s else s)
      in plain_number (takeWhile is_digit u) \<and> fraction_part (dropWhile is_digit u))"

section \<open>The checks of the nodes\<close>

definition scalar_check :: "string \<Rightarrow> string \<Rightarrow> err" where
  "scalar_check tag v =
     (if tag = ''!!str'' then None
      else if tag = ''!!bool'' then fail_if (v \<noteq> ''true'' \<and> v \<noteq> ''false'') (Err ''boolean must be true or false'')
      else if tag = ''!!int'' then fail_if (\<not> jsonIntegerPattern v) (Err ''integer is not canonical JSON syntax'')
      else if tag = ''!!float'' then fail_if (\<not> jsonNumberPattern v) (Err ''number is not finite canonical JSON syntax'')
      else if tag = ''!!null'' then fail_if (v \<noteq> ''null'') (Err ''null must be written as null'')
      else Some (Err ''custom or implicit YAML tag is forbidden''))"

definition key_check :: "yaml_node \<Rightarrow> string list \<Rightarrow> err" where
  "key_check k seen = first_err
     [fail_if (yn_Kind k \<noteq> ScalarNode \<or> yn_Tag k \<noteq> ''!!str'') (Err ''YAML mapping key must be a string''),
      fail_if (yn_Value k = ''<<'') (Err ''YAML merge keys are forbidden''),
      fail_if (yn_Value k \<in> set seen) (Err ''duplicate YAML field'')]"

definition node_guard :: "yaml_node \<Rightarrow> nat \<Rightarrow> nat \<Rightarrow> err" where
  "node_guard n depth visited = first_err
     [fail_if (visited > maxYAMLNodes) (Err ''authored YAML exceeds the node limit''),
      fail_if (depth > maxYAMLDepth) (Err ''authored YAML nesting exceeds the depth limit''),
      fail_if (yn_Anchor n \<noteq> [] \<or> yn_Kind n = AliasNode \<or> yn_Alias n) (Err ''YAML anchors and aliases are forbidden'')]"

text \<open>
  The walk returns the number of nodes visited so far.  A mapping holds its keys and values alternately; the
  clause for a single leftover node is the end of a list of odd length, which is refused before the walk.
\<close>

fun validateYAMLNode :: "yaml_node \<Rightarrow> nat \<Rightarrow> nat \<Rightarrow> nat res"
  and validate_fields :: "yaml_node list \<Rightarrow> string list \<Rightarrow> nat \<Rightarrow> nat \<Rightarrow> nat res"
  and validate_items :: "yaml_node list \<Rightarrow> nat \<Rightarrow> nat \<Rightarrow> nat res" where
  "validateYAMLNode (Node kind tag v anchor aliased content) depth visited =
     guard_res (node_guard (Node kind tag v anchor aliased content) depth (Suc visited))
       (case kind of
          MappingNode \<Rightarrow>
            if tag \<noteq> ''!!map'' then Inl (Err ''custom YAML mapping tag is forbidden'')
            else if odd (length content) then Inl (Err ''malformed YAML mapping'')
            else validate_fields content [] (Suc depth) (Suc visited)
        | SequenceNode \<Rightarrow>
            if tag \<noteq> ''!!seq'' then Inl (Err ''custom YAML sequence tag is forbidden'')
            else validate_items content (Suc depth) (Suc visited)
        | ScalarNode \<Rightarrow> guard_res (scalar_check tag v) (Inr (Suc visited))
        | _ \<Rightarrow> Inl (Err ''unsupported YAML node kind''))"
| "validate_fields [] seen depth visited = Inr visited"
| "validate_fields [k] seen depth visited = Inr visited"
| "validate_fields (k # n # ns) seen depth visited =
     guard_res (key_check k seen)
       (case validateYAMLNode n depth visited of
          Inl e \<Rightarrow> Inl e
        | Inr visited1 \<Rightarrow> validate_fields ns (yn_Value k # seen) depth visited1)"
| "validate_items [] depth visited = Inr visited"
| "validate_items (n # ns) depth visited =
     (case validateYAMLNode n depth visited of Inl e \<Rightarrow> Inl e | Inr visited1 \<Rightarrow> validate_items ns depth visited1)"

section \<open>The projection to JSON\<close>

text \<open>\<open>finite\<close> tells whether \<open>strconv.ParseFloat\<close> reads a finite number.\<close>

definition scalarToJSON :: "(string \<Rightarrow> bool) \<Rightarrow> string \<Rightarrow> string \<Rightarrow> json_value res" where
  "scalarToJSON finite_number tag v =
     (if tag = ''!!str'' then Inr (JString v)
      else if tag = ''!!bool'' then Inr (JBool (v = ''true''))
      else if tag = ''!!int'' then
        (case ParseInt64 v of
           None \<Rightarrow> Inl (Err ''integer is outside the interoperable JSON range'')
         | Some i \<Rightarrow> if i > 2 ^ 53 - 1 \<or> i < - (2 ^ 53 - 1) then Inl (Err ''integer is outside the interoperable JSON range'')
                     else Inr (JNumber v))
      else if tag = ''!!float'' then
        (if finite_number v then Inr (JNumber v) else Inl (Err ''invalid finite number''))
      else if tag = ''!!null'' then Inr JNull
      else Inl (Err ''cannot convert YAML node''))"

text \<open>A mapping with an odd number of nodes would be an index out of range; \<open>Err ''panic''\<close> stands for it.\<close>

fun yamlNodeToJSON :: "(string \<Rightarrow> bool) \<Rightarrow> yaml_node \<Rightarrow> json_value res"
  and convert_fields :: "(string \<Rightarrow> bool) \<Rightarrow> yaml_node list \<Rightarrow> (string, json_value) gomap \<Rightarrow> (string, json_value) gomap res"
  and convert_items :: "(string \<Rightarrow> bool) \<Rightarrow> yaml_node list \<Rightarrow> json_value list res" where
  "yamlNodeToJSON F (Node kind tag v anchor aliased content) =
     (case kind of
        MappingNode \<Rightarrow> (case convert_fields F content [] of Inl e \<Rightarrow> Inl e | Inr m \<Rightarrow> Inr (JObject m))
      | SequenceNode \<Rightarrow> (case convert_items F content of Inl e \<Rightarrow> Inl e | Inr vs \<Rightarrow> Inr (JArray vs))
      | ScalarNode \<Rightarrow> scalarToJSON F tag v
      | _ \<Rightarrow> Inl (Err ''cannot convert YAML node''))"
| "convert_fields F [] m = Inr m"
| "convert_fields F [k] m = Inl (Err ''panic'')"
| "convert_fields F (k # n # ns) m =
     (case yamlNodeToJSON F n of Inl e \<Rightarrow> Inl e | Inr child \<Rightarrow> convert_fields F ns (aput (yn_Value k) child m))"
| "convert_items F [] = Inr []"
| "convert_items F (n # ns) =
     (case yamlNodeToJSON F n of Inl e \<Rightarrow> Inl e
      | Inr child \<Rightarrow> (case convert_items F ns of Inl e \<Rightarrow> Inl e | Inr vs \<Rightarrow> Inr (child # vs)))"

section \<open>Reading a document\<close>

text \<open>
  What the libraries do: the first and the second document of the stream, the validator of the schema, the
  encoding of a JSON value, the strict decoding into the authored type and its end of input.
\<close>

datatype second_document = NoDocument | AnotherDocument | BrokenDocument go_error

record 'a authoring =
  au_first :: "string \<Rightarrow> yaml_node res"
  au_second :: "string \<Rightarrow> second_document"
  au_finite :: "string \<Rightarrow> bool"
  au_schema :: "json_value \<Rightarrow> err"
  au_marshal :: "json_value \<Rightarrow> string res"
  au_decode :: "string \<Rightarrow> 'a res"
  au_trailing :: "string \<Rightarrow> err"

definition root_mapping :: "yaml_node \<Rightarrow> yaml_node option" where
  "root_mapping d = (case yn_Content d of [n] \<Rightarrow> if yn_Kind d = DocumentNode \<and> yn_Kind n = MappingNode then Some n else None | _ \<Rightarrow> None)"

definition raw_check :: "string \<Rightarrow> err" where
  "raw_check raw = first_err
     [fail_if (raw = []) (Err ''authored YAML is empty''),
      fail_if (length raw > MaxAuthoredYAMLBytes) (Err ''authored YAML exceeds the byte limit''),
      fail_if (\<not> utf8_Valid raw) (Err ''authored YAML is not valid UTF-8'')]"

definition parse_document :: "'a authoring \<Rightarrow> string \<Rightarrow> yaml_node res" where
  "parse_document A raw =
     (case au_first A raw of
        Inl e \<Rightarrow> Inl (Wrap ''parse authored YAML'' e)
      | Inr document \<Rightarrow>
          (case au_second A raw of
             AnotherDocument \<Rightarrow> Inl (Err ''authored YAML must contain exactly one document'')
           | BrokenDocument e \<Rightarrow> Inl (Wrap ''read trailing YAML document'' e)
           | NoDocument \<Rightarrow>
               (case root_mapping document of
                  None \<Rightarrow> Inl (Err ''authored YAML root must be one mapping document'')
                | Some root \<Rightarrow> Inr root)))"

definition decode_contract :: "'a authoring \<Rightarrow> json_value \<Rightarrow> 'a res" where
  "decode_contract A value =
     guard_res (wrap_err ''JSON Schema validation'' (au_schema A value))
       (case au_marshal A value of
          Inl e \<Rightarrow> Inl (Wrap ''marshal authored JSON projection'' e)
        | Inr encoded \<Rightarrow>
            (case au_decode A encoded of
               Inl e \<Rightarrow> Inl (Wrap ''decode authored contract'' e)
             | Inr a \<Rightarrow> guard_res (au_trailing A encoded) (Inr a)))"

definition decodeAuthoredYAML :: "'a authoring \<Rightarrow> string \<Rightarrow> 'a res" where
  "decodeAuthoredYAML A raw =
     guard_res (raw_check raw)
       (bind_res (parse_document A raw) (\<lambda>root.
          bind_res (validateYAMLNode root 0 0) (\<lambda>_.
            bind_res (yamlNodeToJSON (au_finite A) root) (decode_contract A))))"


section \<open>What a document says\<close>

text \<open>
  The reference: a document that JSON can express, as a tree.  \<open>read_node\<close> knows neither limits nor
  counters; \<open>doc_json\<close> is the JSON value that a tree stands for.
\<close>

datatype doc = DMap "(string \<times> doc) list" | DSeq "doc list" | DScalar string string

fun read_node :: "yaml_node \<Rightarrow> doc option"
  and read_fields :: "yaml_node list \<Rightarrow> (string \<times> doc) list option"
  and read_items :: "yaml_node list \<Rightarrow> doc list option" where
  "read_node (Node kind tag v anchor aliased content) =
     (if anchor \<noteq> [] \<or> aliased then None
      else (case kind of
          MappingNode \<Rightarrow> if tag = ''!!map'' then map_option DMap (read_fields content) else None
        | SequenceNode \<Rightarrow> if tag = ''!!seq'' then map_option DSeq (read_items content) else None
        | ScalarNode \<Rightarrow> if scalar_check tag v = None then Some (DScalar tag v) else None
        | _ \<Rightarrow> None))"
| "read_fields [] = Some []"
| "read_fields [k] = None"
| "read_fields (k # n # ns) =
     (case (read_node n, read_fields ns) of
        (Some d, Some fs) \<Rightarrow> if key_check k (map fst fs) = None then Some ((yn_Value k, d) # fs) else None
      | _ \<Rightarrow> None)"
| "read_items [] = Some []"
| "read_items (n # ns) = (case (read_node n, read_items ns) of (Some d, Some ds) \<Rightarrow> Some (d # ds) | _ \<Rightarrow> None)"

fun doc_nodes :: "doc \<Rightarrow> nat" where
  "doc_nodes (DMap fs) = Suc (sum_list (map (\<lambda>p. doc_nodes (snd p)) fs))"
| "doc_nodes (DSeq ds) = Suc (sum_list (map doc_nodes ds))"
| "doc_nodes (DScalar tag v) = 1"

fun doc_height :: "doc \<Rightarrow> nat" where
  "doc_height (DMap fs) = fold max (map (\<lambda>p. Suc (doc_height (snd p))) fs) 0"
| "doc_height (DSeq ds) = fold max (map (\<lambda>d. Suc (doc_height d)) ds) 0"
| "doc_height (DScalar tag v) = 0"

definition scalar_json :: "string \<Rightarrow> string \<Rightarrow> json_value" where
  "scalar_json tag v = (if tag = ''!!str'' then JString v else if tag = ''!!bool'' then JBool (v = ''true'')
     else if tag = ''!!null'' then JNull else JNumber v)"

fun doc_json :: "doc \<Rightarrow> json_value" where
  "doc_json (DMap fs) = JObject (map (\<lambda>p. (fst p, doc_json (snd p))) fs)"
| "doc_json (DSeq ds) = JArray (map doc_json ds)"
| "doc_json (DScalar tag v) = scalar_json tag v"

text \<open>Every number has a value that other JSON implementations read alike.\<close>

definition number_ok :: "(string \<Rightarrow> bool) \<Rightarrow> string \<Rightarrow> string \<Rightarrow> bool" where
  "number_ok F tag v \<longleftrightarrow>
     (if tag = ''!!int'' then (\<exists>i. ParseInt64 v = Some i \<and> \<bar>i\<bar> \<le> 2 ^ 53 - 1) else if tag = ''!!float'' then F v else True)"

fun numbers_ok :: "(string \<Rightarrow> bool) \<Rightarrow> doc \<Rightarrow> bool" where
  "numbers_ok F (DMap fs) \<longleftrightarrow> list_all (\<lambda>p. numbers_ok F (snd p)) fs"
| "numbers_ok F (DSeq ds) \<longleftrightarrow> list_all (numbers_ok F) ds"
| "numbers_ok F (DScalar tag v) \<longleftrightarrow> number_ok F tag v"

lemma fold_max_start: "fold max xs (m :: nat) = max m (fold max xs 0)"
proof (induction xs arbitrary: m)
  case (Cons x xs)
  from Cons [of "max x m"] Cons [of x] show ?case by simp
qed simp

lemma fold_max_Cons: "fold max (x # xs) (0 :: nat) = max x (fold max xs 0)"
  using fold_max_start [of xs x] by simp

lemma doc_nodes_pos: "0 < doc_nodes d"
  by (cases d) auto

lemma key_check_seen: "key_check k seen = None \<longleftrightarrow> key_check k [] = None \<and> yn_Value k \<notin> set seen"
  by (auto simp: key_check_def)

lemma read_fields_keys: "read_fields ns = Some fs \<Longrightarrow> distinct (map fst fs) \<and> even (length ns)"
proof (induction ns arbitrary: fs rule: induct_list012)
  case (3 k n ns)
  then show ?case by (auto simp: key_check_seen [of _ "map fst _"] split: option.splits if_splits)
qed auto

lemma node_guard_None: "node_guard (Node kind tag v anchor aliased content) depth visited = None \<longleftrightarrow>
    visited \<le> maxYAMLNodes \<and> depth \<le> maxYAMLDepth \<and> anchor = [] \<and> kind \<noteq> AliasNode \<and> \<not> aliased"
  by (auto simp: node_guard_def)

lemma validate_scalar: "scalar_check tag v = None \<and> c = Suc visited \<and> Suc visited \<le> maxYAMLNodes \<and> depth \<le> maxYAMLDepth \<longleftrightarrow>
    (\<exists>d. (if scalar_check tag v = None then Some (DScalar tag v) else None) = Some d \<and> c = visited + doc_nodes d \<and>
      c \<le> maxYAMLNodes \<and> depth + doc_height d \<le> maxYAMLDepth)"
  by (cases "scalar_check tag v") auto

text \<open>The walk accepts exactly the documents that can be read and are within the limits, and counts their nodes.\<close>

lemma validate_reads:
  "visited \<le> maxYAMLNodes \<Longrightarrow> validateYAMLNode n depth visited = Inr c \<longleftrightarrow>
     (\<exists>d. read_node n = Some d \<and> c = visited + doc_nodes d \<and> c \<le> maxYAMLNodes \<and> depth + doc_height d \<le> maxYAMLDepth)"
  "visited \<le> maxYAMLNodes \<Longrightarrow> depth \<le> Suc maxYAMLDepth \<Longrightarrow> even (length ns) \<Longrightarrow> validate_fields ns seen depth visited = Inr c \<longleftrightarrow>
     (\<exists>fs. read_fields ns = Some fs \<and> set (map fst fs) \<inter> set seen = {} \<and> c = visited + sum_list (map (\<lambda>p. doc_nodes (snd p)) fs) \<and>
        c \<le> maxYAMLNodes \<and> depth + fold max (map (\<lambda>p. Suc (doc_height (snd p))) fs) 0 \<le> Suc maxYAMLDepth)"
  "visited \<le> maxYAMLNodes \<Longrightarrow> depth \<le> Suc maxYAMLDepth \<Longrightarrow> validate_items ns depth visited = Inr c \<longleftrightarrow>
     (\<exists>ds. read_items ns = Some ds \<and> c = visited + sum_list (map doc_nodes ds) \<and>
        c \<le> maxYAMLNodes \<and> depth + fold max (map (\<lambda>d. Suc (doc_height d)) ds) 0 \<le> Suc maxYAMLDepth)"
proof (induction n depth visited and ns seen depth visited and ns depth visited arbitrary: c and c and c
    rule: validateYAMLNode_validate_fields_validate_items.induct)
  case (1 kind tag v anchor aliased content depth visited)
  note keys = read_fields_keys [of content]
  show ?case
  proof (cases "node_guard (Node kind tag v anchor aliased content) depth (Suc visited)")
    case g: None
    then have b: "Suc visited \<le> maxYAMLNodes" "depth \<le> maxYAMLDepth" "anchor = []" "kind \<noteq> AliasNode" "\<not> aliased"
      by (simp_all add: node_guard_None)
    show ?thesis
    proof (cases kind)
      case MappingNode
      then show ?thesis using 1 b g keys by (cases "read_fields content") auto
    next
      case SequenceNode
      then show ?thesis using 1 b g by (cases "read_items content") auto
    next
      case ScalarNode
      then show ?thesis using b g by (cases "scalar_check tag v") auto
    qed (use b g in simp_all)
  next
    case (Some e)
    have "\<not> (\<exists>d. read_node (Node kind tag v anchor aliased content) = Some d \<and> visited + doc_nodes d \<le> maxYAMLNodes \<and>
        depth + doc_height d \<le> maxYAMLDepth)"
    proof
      assume "\<exists>d. read_node (Node kind tag v anchor aliased content) = Some d \<and> visited + doc_nodes d \<le> maxYAMLNodes \<and>
        depth + doc_height d \<le> maxYAMLDepth"
      then obtain d where d: "read_node (Node kind tag v anchor aliased content) = Some d" "visited + doc_nodes d \<le> maxYAMLNodes"
        "depth + doc_height d \<le> maxYAMLDepth" by blast
      from d(1) have "anchor = []" "kind \<noteq> AliasNode" "\<not> aliased" by (auto split: if_splits)
      with d(2,3) doc_nodes_pos [of d] Some node_guard_None [of kind tag v anchor aliased content depth "Suc visited"] show False by auto
    qed
    with Some show ?thesis by auto
  qed
next
  case (4 k n ns seen depth visited)
  show ?case
  proof (cases "key_check k seen")
    case None
    show ?thesis
    proof (cases "validateYAMLNode n depth visited")
      case (Inl e)
      with 4(1) 4(3) have no: "read_node n = Some d \<Longrightarrow> visited + doc_nodes d \<le> maxYAMLNodes \<Longrightarrow> \<not> depth + doc_height d \<le> maxYAMLDepth" for d
        by auto
      show ?thesis using Inl None no by (fastforce simp: fold_max_start [of _ "Suc _"] split: option.splits if_splits)
    next
      case (Inr v1)
      with 4(1) [of v1] 4(3) obtain d where d: "read_node n = Some d" "v1 = visited + doc_nodes d" "v1 \<le> maxYAMLNodes"
        "depth + doc_height d \<le> maxYAMLDepth" by auto
      from 4(2) [OF Inr d(3) 4(4), of c] 4(5) key_check_seen [of k seen] None d Inr show ?thesis
        by (auto simp: key_check_seen [of k "map fst _"] fold_max_start [of _ "Suc _"] split: option.splits if_splits)
    qed
  next
    case (Some e)
    then show ?thesis using key_check_seen [of k seen] by (auto simp: key_check_seen [of k "map fst _"] split: option.splits if_splits)
  qed
next
  case (6 n ns depth visited)
  show ?case
  proof (cases "validateYAMLNode n depth visited")
    case (Inl e)
    with 6(1) 6(3) have no: "read_node n = Some d \<Longrightarrow> visited + doc_nodes d \<le> maxYAMLNodes \<Longrightarrow> \<not> depth + doc_height d \<le> maxYAMLDepth" for d
      by auto
    show ?thesis using Inl no by (fastforce simp: fold_max_start [of _ "Suc _"] split: option.splits if_splits)
  next
    case (Inr v1)
    with 6(1) [of v1] 6(3) obtain d where d: "read_node n = Some d" "v1 = visited + doc_nodes d" "v1 \<le> maxYAMLNodes"
      "depth + doc_height d \<le> maxYAMLDepth" by auto
    from 6(2) [OF Inr d(3) 6(4), of c] d Inr show ?thesis
      by (auto simp: fold_max_start [of _ "Suc _"] split: option.splits if_splits)
  qed
qed auto

lemma scalar_converts: "scalar_check tag v = None \<Longrightarrow> scalarToJSON F tag v = Inr j \<longleftrightarrow> number_ok F tag v \<and> j = scalar_json tag v"
  by (auto simp: scalar_check_def scalarToJSON_def number_ok_def scalar_json_def abs_le_iff split: if_splits option.splits)

text \<open>The projection of a document that can be read is its JSON value, when its numbers are in range.\<close>

lemma convert_reads:
  "read_node n = Some d \<Longrightarrow> yamlNodeToJSON F n = Inr j \<longleftrightarrow> numbers_ok F d \<and> j = doc_json d"
  "read_fields ns = Some fs \<Longrightarrow> set (map fst fs) \<inter> set (akeys m) = {} \<Longrightarrow> convert_fields F ns m = Inr m' \<longleftrightarrow>
     list_all (\<lambda>p. numbers_ok F (snd p)) fs \<and> m' = m @ map (\<lambda>p. (fst p, doc_json (snd p))) fs"
  "read_items ns = Some ds \<Longrightarrow> convert_items F ns = Inr js \<longleftrightarrow> list_all (numbers_ok F) ds \<and> js = map doc_json ds"
proof (induction F n and F ns m and F ns arbitrary: d j and fs m' and ds js rule: yamlNodeToJSON_convert_fields_convert_items.induct)
  case (1 F kind tag v anchor aliased content)
  show ?case
  proof (cases kind)
    case MappingNode
    with 1(3) obtain fs where "read_fields content = Some fs" "d = DMap fs" by (auto split: if_splits)
    with 1(2) [OF MappingNode, of fs] MappingNode show ?thesis by (cases "convert_fields F content []") (auto simp: akeys_def)
  next
    case SequenceNode
    with 1(3) obtain ds where "read_items content = Some ds" "d = DSeq ds" by (auto split: if_splits)
    with 1(1) [OF SequenceNode, of ds] SequenceNode show ?thesis by (cases "convert_items F content") auto
  qed (use 1(3) in \<open>auto simp: scalar_converts split: if_splits\<close>)
next
  case (4 F k n ns m)
  from 4(3) obtain d fs1 where d: "read_node n = Some d" "read_fields ns = Some fs1" "fs = (yn_Value k, d) # fs1"
    "yn_Value k \<notin> set (map fst fs1)"
    by (auto simp: key_check_seen [of k "map fst _"] split: option.splits if_splits)
  show ?case
  proof (cases "yamlNodeToJSON F n")
    case (Inl e)
    with 4(1) [OF d(1)] show ?thesis by (auto simp: d(3))
  next
    case (Inr child)
    have fresh: "\<not> ahas m (yn_Value k)" using 4(4) set_akeys [of m] by (auto simp: d(3))
    have "set (map fst fs1) \<inter> set (akeys (aput (yn_Value k) child m)) = {}"
      using 4(4) d(4) fresh by (auto simp: d(3) aput_fresh akeys_def)
    with 4(2) [OF Inr d(2)] 4(1) [OF d(1), of child] Inr fresh show ?thesis by (auto simp: d(3) aput_fresh)
  qed
next
  case (6 F n ns)
  from 6(3) obtain d ds1 where d: "read_node n = Some d" "read_items ns = Some ds1" "ds = d # ds1" by (auto split: option.splits)
  show ?case
  proof (cases "yamlNodeToJSON F n")
    case (Inl e)
    with 6(1) [OF d(1)] show ?thesis by (auto simp: d(3))
  next
    case (Inr child)
    with 6(1) [OF d(1), of child] 6(2) [OF Inr d(2)] show ?thesis by (cases "convert_items F ns") (auto simp: d(3))
  qed
qed auto


text \<open>An anchor on a key is not seen by the walk, which checks the anchors of values only.\<close>

theorem anchored_key_accepted:
  "validateYAMLNode (Node MappingNode ''!!map'' [] [] False
     [Node ScalarNode ''!!str'' ''id'' ''a'' False [], Node ScalarNode ''!!str'' ''x'' [] False []]) 0 0 = Inr 2"
  by (simp add: node_guard_def key_check_def scalar_check_def maxYAMLNodes_def maxYAMLDepth_def)

end
