(* ===== verification/PackScenario.thy ===== *)
theory PackScenario
  imports PackAuthoring
begin

text \<open>
  Package \<open>packapi\<close>, scenarios (\<open>pkg/packapi/types.go\<close>, \<open>validate.go\<close>, \<open>template.go\<close>, \<open>cel.go\<close>): the
  authored scenario, the templates in its requests and their expansion, the restricted expressions, and the
  validation that resolves requirements, fixtures, references and templates before anything runs.  The CEL
  compiler and canonical JSON are parameters.  A method of the code changes the validation that it is called
  on and may fail, and then the validation is dropped; here it returns the new one or the error.
\<close>

section \<open>The authored scenario\<close>

datatype scenario_class = ClassNormative | ClassDeFactoClient | ClassConsumerProfile | ClassBehavioral | ClassAdvisory | OtherClass string
datatype stability = StabilityStable | StabilityExperimental | StabilityIncubating | OtherStability string
datatype side_effect_class = SideEffectNone | SideEffectReversibleLocal | SideEffectReversibleRemote | SideEffectIrreversible
  | OtherSideEffect string
datatype requirement_level = LevelMust | LevelShould | LevelMay | OtherLevel string
datatype pack_role = RolePrecondition | RoleNormative | RoleConsumerProfile | RoleBehavioral | RoleAdvisory | OtherRole string

record scenario_metadata =
  sm_ID :: string
  sm_Version :: string
  sm_Title :: string
  sm_Labels :: "(string, string) gomap"

record protocol_binding =
  pb_Family :: string
  pb_Snapshot :: string
  pb_Digest :: digest

record classification =
  cf_Type :: scenario_class
  cf_Stability :: stability
  cf_SideEffects :: side_effect_class
  cf_Idempotent :: "bool option"

record requirement_ref =
  rr_ID :: string
  rr_Level :: requirement_level

record capability_requirement =
  cr_All :: "string list"
  cr_Any :: "string list"
  cr_None :: "string list"

record scenario_budget =
  sb_Timeout :: duration
  sb_MaxRequests :: i64
  sb_MaxInputTokens :: i64
  sb_MaxOutputTokens :: i64
  sb_MaxResponseBytes :: byte_size
  sb_MaxArtifactBytes :: byte_size

record pack_assertion =
  pa_Use :: string
  pa_Expression :: string
  pa_Equals :: string
  pa_Role :: pack_role
  pa_ObservedAt :: string
  pa_Requirement :: string

record invoke_step =
  is_Operation :: string
  is_Driver :: string
  is_Fixture :: "string option"
  is_Request :: "(string, json_value) gomap option"

text \<open>
  A step has nine optional fields, each a pointer.  \<open>is_Fixture\<close> above is the fixture of a controlled
  backend, when there is one.
\<close>

record pack_step =
  st_ID :: string
  st_Invoke :: "invoke_step option"
  st_Capture :: "(string \<times> string) option"
  st_RegisterResource :: "(string \<times> string) option"
  st_ProvideToolResult :: "(string \<times> json_value) option"
  st_WaitFor :: "(string \<times> string \<times> duration) option"
  st_Assert :: "pack_assertion list option"
  st_Cancel :: "(string \<times> string) option"
  st_Replay :: "(string \<times> string) option"
  st_Finalize :: "string option"

record resource_lease =
  rl_ID :: string
  rl_AcquireFrom :: string
  rl_SideEffectClass :: side_effect_class
  rl_Operation :: string
  rl_Idempotent :: "bool option"
  rl_MaxAttempts :: i64
  rl_Requests :: i64
  rl_Duration :: duration

record scenario_spec =
  sp_Protocol :: protocol_binding
  sp_Classification :: classification
  sp_Requirements :: "requirement_ref list"
  sp_Requires :: capability_requirement
  sp_Budgets :: scenario_budget
  sp_Steps :: "pack_step list"
  sp_Resources :: "resource_lease list"
  sp_Finally :: "string list"
  sp_Count :: i64
  sp_Policy :: string
  sp_DataClass :: string

record pack_scenario =
  ps_APIVersion :: string
  ps_Kind :: string
  ps_Metadata :: scenario_metadata
  ps_Spec :: scenario_spec

record requirement_record =
  rq_ID :: string
  rq_Level :: requirement_level
  rq_SourceDigest :: digest
  rq_Category :: scenario_class

text \<open>\<open>None\<close> is the nil map of allowed variables, which stands for a default.\<close>

record compile_options =
  co_Requirements :: "(string, requirement_record) gomap"
  co_Fixtures :: "(string, digest) gomap"
  co_AllowedVariables :: "string list option"
  co_MaxCELCost :: u64

definition ScenarioAPIVersion :: string where "ScenarioAPIVersion = ''urn:agentapi-doctor:scenario:v1beta1''"
definition ScenarioKind :: string where "ScenarioKind = ''Scenario''"
definition DefaultMaxCELCost :: u64 where "DefaultMaxCELCost = 1000"
definition AbsoluteMaxCELCost :: u64 where "AbsoluteMaxCELCost = 10000"

section \<open>Errors of the compiler\<close>

datatype compile_stage = StageParse | StageSchema | StageSemantic | StageRequirement | StageFixture | StageCEL | StageCanonical

datatype compile_error = CompileError (er_Stage: compile_stage) (er_Path: string) (er_Err: go_error)

type_synonym 'a compiled = "compile_error + 'a"

definition semanticError :: "string \<Rightarrow> string \<Rightarrow> compile_error" where
  "semanticError p t = CompileError StageSemantic p (Err t)"

text \<open>\<open>err.Error()\<close>.\<close>

fun error_text :: "go_error \<Rightarrow> string" where
  "error_text (Err t) = t"
| "error_text (Wrap t e) = t @ '': '' @ error_text e"

definition semantic_if :: "bool \<Rightarrow> string \<Rightarrow> string \<Rightarrow> compile_error option" where
  "semantic_if b p t = (if b then Some (semanticError p t) else None)"

definition semantic_err :: "string \<Rightarrow> err \<Rightarrow> compile_error option" where
  "semantic_err p r = map_option (\<lambda>e. semanticError p (error_text e)) r"

lemma semantic_None [simp]: "semantic_if b p t = None \<longleftrightarrow> \<not> b" "semantic_err p r = None \<longleftrightarrow> r = None"
  by (simp_all add: semantic_if_def semantic_err_def)

definition index_path :: "string \<Rightarrow> nat \<Rightarrow> string" where
  "index_path p i = p @ ''['' @ itoa i @ '']''"

section \<open>Templates\<close>

definition is_blank_char :: "char \<Rightarrow> bool" where
  "is_blank_char c \<longleftrightarrow> c = CHR '' '' \<or> c = CHR 0x09"

definition is_letter :: "char \<Rightarrow> bool" where
  "is_letter c \<longleftrightarrow> is_lower c \<or> is_upper c"

definition is_variable_char :: "char \<Rightarrow> bool" where
  "is_variable_char c \<longleftrightarrow> is_letter c \<or> is_digit c \<or> c \<in> set ''_.-''"

text \<open>
  A match of \<open>templatePattern\<close> at the start of a text: the variable and the text after the match.  The classes
  of the pattern exclude each other, so there is at most one way to match.
\<close>

definition template_at :: "string \<Rightarrow> (string \<times> string) option" where
  "template_at s =
     (if \<not> has_prefix s ''{{'' then None
      else (let t = dropWhile is_blank_char (drop 2 s);
                name = takeWhile is_variable_char t;
                u = dropWhile is_blank_char (dropWhile is_variable_char t)
            in if name \<noteq> [] \<and> is_letter (hd name) \<and> has_prefix u ''}}'' then Some (name, drop 2 u) else None))"

lemma template_at_shorter: "template_at s = Some (v, t) \<Longrightarrow> length t < length s"
proof -
  assume a: "template_at s = Some (v, t)"
  define t1 where "t1 = dropWhile is_blank_char (drop 2 s)"
  define u where "u = dropWhile is_blank_char (dropWhile is_variable_char t1)"
  from a have s: "has_prefix s ''{{''" and t: "t = drop 2 u" by (auto simp: template_at_def Let_def t1_def u_def split: if_splits)
  have "length u \<le> length t1" unfolding u_def by (metis length_dropWhile_le le_trans)
  also have "\<dots> \<le> length s - 2" unfolding t1_def by (metis length_drop length_dropWhile_le)
  finally show ?thesis using s t by (auto simp: has_prefix_iff)
qed

text \<open>
  \<open>FindAllStringSubmatchIndex\<close>: the matches from left to right, each with the text between it and the match
  before, and the text after the last one.
\<close>

function template_parts :: "string \<Rightarrow> (string \<times> string) list \<times> string" where
  "template_parts s =
     (case template_at s of
        Some (v, t) \<Rightarrow> (case template_parts t of (ms, rest) \<Rightarrow> (([], v) # ms, rest))
      | None \<Rightarrow>
          (case s of
             [] \<Rightarrow> ([], [])
           | c # cs \<Rightarrow> (case template_parts cs of
                 ([], rest) \<Rightarrow> ([], c # rest)
               | ((lit, v) # ms, rest) \<Rightarrow> ((c # lit, v) # ms, rest))))"
  by pat_completeness auto
termination by (relation "measure length") (auto dest: template_at_shorter)

declare template_parts.simps [simp del]

text \<open>\<open>strings.Contains\<close>.\<close>

fun contains_text :: "string \<Rightarrow> string \<Rightarrow> bool" where
  "contains_text [] t \<longleftrightarrow> t = []"
| "contains_text (c # cs) t \<longleftrightarrow> has_prefix (c # cs) t \<or> contains_text cs t"

text \<open>\<open>ReplaceAllString(value, "")\<close> and the test that no brace pair is left.\<close>

definition template_remainder :: "string \<Rightarrow> string" where
  "template_remainder s = (case template_parts s of (ms, rest) \<Rightarrow> concat (map fst ms) @ rest)"

definition template_malformed :: "string \<Rightarrow> bool" where
  "template_malformed s \<longleftrightarrow> contains_text (template_remainder s) ''{{'' \<or> contains_text (template_remainder s) ''}}''"

definition template_variables :: "string \<Rightarrow> string list" where
  "template_variables s = map snd (fst (template_parts s))"

definition MaxExpandedTemplateBytes :: nat where "MaxExpandedTemplateBytes = 2 ^ 20"

text \<open>The loop over the matches, with the text written so far.\<close>

fun expand_loop :: "(string, string) gomap \<Rightarrow> string \<Rightarrow> (string \<times> string) list \<Rightarrow> string res" where
  "expand_loop values expanded [] = Inr expanded"
| "expand_loop values expanded ((lit, v) # ms) =
     (case aget values v of
        None \<Rightarrow> Inl (Err ''template variable has no resolved value'')
      | Some x \<Rightarrow>
          if length (expanded @ lit @ x) > MaxExpandedTemplateBytes then Inl (Err ''expanded template exceeds the byte limit'')
          else expand_loop values (expanded @ lit @ x) ms)"

definition ExpandTemplateString :: "string \<Rightarrow> (string, string) gomap \<Rightarrow> string res" where
  "ExpandTemplateString template values =
     (if template_malformed template then Inl (Err ''malformed template expression'')
      else (case expand_loop values [] (fst (template_parts template)) of
          Inl e \<Rightarrow> Inl e
        | Inr expanded \<Rightarrow>
            if length (expanded @ snd (template_parts template)) > MaxExpandedTemplateBytes
            then Inl (Err ''expanded template exceeds the byte limit'')
            else Inr (expanded @ snd (template_parts template))))"

section \<open>Expressions\<close>

text \<open>
  What the code reads of a checked CEL expression.  An entry of a struct or map has an optional key
  expression and an optional value.
\<close>

datatype cel_expr =
    CallExpr string "cel_expr option" "cel_expr list"
  | ListExpr "cel_expr list"
  | StructExpr "(cel_expr option \<times> cel_expr option) list"
  | ComprehensionExpr "cel_expr option" "cel_expr option" "cel_expr option" "cel_expr option" "cel_expr option"
  | SelectExpr "cel_expr option"
  | OtherExpr

definition forbiddenCELFunctions :: "string list" where
  "forbiddenCELFunctions = [''exec'', ''shell'', ''open'', ''read_file'', ''write_file'', ''fetch'', ''http_get'', ''http_post'',
     ''socket'', ''getenv'']"

text \<open>The first name that a loop over sub-expressions returns; the empty name is none.\<close>

fun first_name :: "string list \<Rightarrow> string" where
  "first_name [] = []"
| "first_name (s # ss) = (if s \<noteq> [] then s else first_name ss)"

fun findForbiddenCELFunction :: "cel_expr \<Rightarrow> string" where
  "findForbiddenCELFunction (CallExpr f target args) =
     (if f \<in> set forbiddenCELFunctions then f
      else first_name ((case target of None \<Rightarrow> [] | Some e \<Rightarrow> findForbiddenCELFunction e) # map findForbiddenCELFunction args))"
| "findForbiddenCELFunction (ListExpr es) = first_name (map findForbiddenCELFunction es)"
| "findForbiddenCELFunction (StructExpr entries) =
     first_name (map (\<lambda>p. case snd p of None \<Rightarrow> [] | Some e \<Rightarrow> findForbiddenCELFunction e) entries)"
| "findForbiddenCELFunction (ComprehensionExpr a b c d e) =
     first_name (map (\<lambda>x. case x of None \<Rightarrow> [] | Some y \<Rightarrow> findForbiddenCELFunction y) [a, b, c, d, e])"
| "findForbiddenCELFunction (SelectExpr operand) = (case operand of None \<Rightarrow> [] | Some e \<Rightarrow> findForbiddenCELFunction e)"
| "findForbiddenCELFunction OtherExpr = []"

text \<open>The key of a map entry is not searched, so a forbidden function there is not found.\<close>

theorem forbidden_key_not_found:
  "findForbiddenCELFunction (StructExpr [(Some (CallExpr ''exec'' None []), Some OtherExpr)]) = [] \<and>
   findForbiddenCELFunction (StructExpr [(None, Some (CallExpr ''exec'' None []))]) = ''exec''"
  by (simp add: forbiddenCELFunctions_def)

record cel_ast =
  ca_isBool :: bool
  ca_checked :: "cel_expr res"
  ca_cost :: "u64 res"
  ca_program :: "u64 \<Rightarrow> err"

record cel_lib =
  cl_NewEnv :: err
  cl_Compile :: "string \<Rightarrow> cel_ast res"

record compiled_cel =
  cc_Source :: string
  cc_EstimatedCost :: u64

definition maxCELSourceBytes :: nat where "maxCELSourceBytes = 8192"

definition checked_ast :: "cel_ast \<Rightarrow> u64 \<Rightarrow> u64 res" where
  "checked_ast a limit =
     (if \<not> ca_isBool a then Inl (Err ''CEL assertion must return bool'')
      else (case ca_checked a of
          Inl e \<Rightarrow> Inl (Wrap ''convert checked CEL expression'' e)
        | Inr x \<Rightarrow>
            if findForbiddenCELFunction x \<noteq> [] then Inl (Err ''CEL function is forbidden'')
            else (case ca_cost a of
                Inl e \<Rightarrow> Inl (Wrap ''estimate CEL cost'' e)
              | Inr c \<Rightarrow> if c > limit then Inl (Err ''CEL estimated cost exceeds limit'')
                         else guard_res (wrap_err ''build cost-limited CEL program'' (ca_program a limit)) (Inr c))))"

definition compileCEL :: "cel_lib \<Rightarrow> string \<Rightarrow> u64 \<Rightarrow> compiled_cel res" where
  "compileCEL L source0 maxCost =
     (let source = trim_space source0; limit = (if maxCost = 0 then DefaultMaxCELCost else maxCost)
      in guard_res (first_err
           [fail_if (source = []) (Err ''CEL expression is empty''),
            fail_if (length source > maxCELSourceBytes) (Err ''CEL expression exceeds the byte limit''),
            fail_if (limit > AbsoluteMaxCELCost) (Err ''CEL cost limit exceeds absolute maximum''),
            wrap_err ''create restricted CEL environment'' (cl_NewEnv L)])
           (case cl_Compile L source of
              Inl e \<Rightarrow> Inl (Wrap ''compile restricted CEL'' e)
            | Inr a \<Rightarrow> (case checked_ast a limit of Inl e \<Rightarrow> Inl e | Inr c \<Rightarrow> Inr \<lparr>cc_Source = source, cc_EstimatedCost = c\<rparr>)))"

end
