(* ===== verification/PackValidate.thy ===== *)
theory PackValidate
  imports PackScenario
begin

text \<open>
  Package \<open>packapi\<close>, the validation of a scenario (\<open>pkg/packapi/validate.go\<close>).  It resolves everything that a
  scenario names against what the caller supplies: requirements against the catalog, fixtures against their
  digests, references against earlier steps, template variables against the allowed ones, expressions against
  the cost limit; and it demands that the cleanup undoes the resources in reverse order.
\<close>

section \<open>State\<close>

record cel_binding =
  cb_StepID :: string
  cb_AssertionIndex :: "nat option"
  cb_Purpose :: string
  cb_Compiled :: compiled_cel

record template_binding =
  tb_Path :: string
  tb_Variables :: "string list"

text \<open>The options are kept with their defaults filled in.\<close>

record scenario_validation =
  sv_requirements :: "(string, requirement_record) gomap"
  sv_fixtures :: "(string, digest) gomap"
  sv_celBindings :: "cel_binding list"
  sv_templateBindings :: "template_binding list"
  sv_options :: compile_options
  sv_stepIndexes :: "(string, nat) gomap"
  sv_resources :: "(string, resource_lease) gomap"

record pack_env =
  pe_cel :: cel_lib
  pe_canonicalize :: "string \<Rightarrow> string res"

definition fixture_error :: "string \<Rightarrow> go_error \<Rightarrow> compile_error" where
  "fixture_error p e = CompileError StageFixture p e"

definition requirement_error :: "string \<Rightarrow> go_error \<Rightarrow> compile_error" where
  "requirement_error p e = CompileError StageRequirement p e"

section \<open>Paths and fixtures\<close>

definition safe_segment :: "bool \<Rightarrow> string \<Rightarrow> err" where
  "safe_segment allowGlob segment = first_err
     [fail_if (segment = [] \<or> segment = ''.'' \<or> segment = ''..'') (Err ''unsafe path segment''),
      fail_if (\<not> allowGlob \<and> list_ex (\<lambda>c. c \<in> set ''*?[]'') segment) (Err ''fixture path cannot contain glob syntax'')]"

definition validateSafeRelativePath :: "string \<Rightarrow> bool \<Rightarrow> err" where
  "validateSafeRelativePath value allowGlob = first_err
     ([fail_if (value = [] \<or> CHR 0x00 \<in> set value \<or> CHR 0x5C \<in> set value \<or> has_prefix value ''/'') (Err ''unsafe relative path''),
       fail_if (contains_text value ''://'' \<or> contains_text value ''{{'' \<or> contains_text value ''}}'')
         (Err ''path cannot be a URL or template'')]
      @ map (safe_segment allowGlob) (slash_split value)
      @ [fail_if (path_Clean value \<noteq> value) (Err ''path is not canonical'')])"

definition resolveFixture :: "string \<Rightarrow> string \<Rightarrow> scenario_validation \<Rightarrow> scenario_validation compiled" where
  "resolveFixture ref fieldPath sv =
     guard_res (map_option (fixture_error fieldPath) (validateSafeRelativePath ref False))
       (case aget (co_Fixtures (sv_options sv)) ref of
          None \<Rightarrow> Inl (fixture_error fieldPath (Err ''fixture is not supplied''))
        | Some d \<Rightarrow>
            guard_res (map_option (fixture_error fieldPath) (wrap_err ''fixture digest'' (digest_Validate d)))
              (Inr (sv\<lparr>sv_fixtures := aput ref d (sv_fixtures sv)\<rparr>)))"

section \<open>Dynamic values\<close>

definition allowed_variables :: "scenario_validation \<Rightarrow> string list" where
  "allowed_variables sv = (case co_AllowedVariables (sv_options sv) of None \<Rightarrow> [] | Some vs \<Rightarrow> vs)"

definition validateTemplates :: "string \<Rightarrow> string \<Rightarrow> scenario_validation \<Rightarrow> scenario_validation compiled" where
  "validateTemplates value fieldPath sv =
     (let variables = template_variables value
      in if template_malformed value then Inl (semanticError fieldPath ''malformed template expression'')
         else if \<exists>v\<in>set variables. v \<notin> set (allowed_variables sv) then Inl (semanticError fieldPath ''template variable is not declared'')
         else if variables = [] then Inr sv
         else Inr (sv\<lparr>sv_templateBindings := sv_templateBindings sv @ [\<lparr>tb_Path = fieldPath, tb_Variables = variables\<rparr>]\<rparr>))"

definition dynamic_fixture :: "string \<Rightarrow> json_value \<Rightarrow> string \<Rightarrow> scenario_validation \<Rightarrow> scenario_validation compiled" where
  "dynamic_fixture key child childPath sv =
     (if key \<noteq> ''fixture'' then Inr sv
      else (case child of
          JString ref \<Rightarrow> resolveFixture ref childPath sv
        | _ \<Rightarrow> Inl (fixture_error childPath (Err ''fixture reference must be a string''))))"

lemma size_list_sort_key: "size_list f (sort_key k xs) = size_list f xs"
proof -
  have "sum_list (map f (sort_key k xs)) = sum_list (map f xs)"
    by (metis mset_map mset_sort sum_mset_sum_list)
  then show ?thesis by (simp add: size_list_conv_sum_list)
qed

lemma size_prod_snd: "size_prod (\<lambda>_. 0) size = (\<lambda>p. Suc (size (snd p)))"
  by (auto simp: fun_eq_iff)

text \<open>The members of an object are visited in the order of their keys.\<close>

function validateDynamicValue :: "json_value \<Rightarrow> string \<Rightarrow> scenario_validation \<Rightarrow> scenario_validation compiled"
  and dynamic_items :: "json_value list \<Rightarrow> nat \<Rightarrow> string \<Rightarrow> scenario_validation \<Rightarrow> scenario_validation compiled"
  and dynamic_fields :: "(string \<times> json_value) list \<Rightarrow> string \<Rightarrow> scenario_validation \<Rightarrow> scenario_validation compiled" where
  "validateDynamicValue (JObject m) fieldPath sv = dynamic_fields (sort_key fst m) fieldPath sv"
| "validateDynamicValue (JArray vs) fieldPath sv = dynamic_items vs 0 fieldPath sv"
| "validateDynamicValue (JString s) fieldPath sv = validateTemplates s fieldPath sv"
| "validateDynamicValue (JNumber n) fieldPath sv = Inr sv"
| "validateDynamicValue (JBool b) fieldPath sv = Inr sv"
| "validateDynamicValue JNull fieldPath sv = Inr sv"
| "dynamic_items [] index fieldPath sv = Inr sv"
| "dynamic_items (v # vs) index fieldPath sv =
     (case validateDynamicValue v (index_path fieldPath index) sv of
        Inl e \<Rightarrow> Inl e
      | Inr sv1 \<Rightarrow> dynamic_items vs (Suc index) fieldPath sv1)"
| "dynamic_fields [] fieldPath sv = Inr sv"
| "dynamic_fields (p # ps) fieldPath sv =
     (case dynamic_fixture (fst p) (snd p) (fieldPath @ ''.'' @ fst p) sv of
        Inl e \<Rightarrow> Inl e
      | Inr sv1 \<Rightarrow>
          (case validateDynamicValue (snd p) (fieldPath @ ''.'' @ fst p) sv1 of
             Inl e \<Rightarrow> Inl e
           | Inr sv2 \<Rightarrow> dynamic_fields ps fieldPath sv2))"
  by pat_completeness auto

termination
  by (relation "measure (\<lambda>x. case x of Inl (v, _) \<Rightarrow> 2 * size v | Inr (Inl (vs, _)) \<Rightarrow> Suc (2 * size_list size vs)
        | Inr (Inr (ps, _)) \<Rightarrow> Suc (2 * size_list (\<lambda>p. Suc (size (snd p))) ps))")
    (auto simp: size_list_sort_key size_prod_snd)


section \<open>Parts of a scenario\<close>

definition validateClassification :: "classification \<Rightarrow> err" where
  "validateClassification c = first_err
     [fail_if (cf_Type c \<notin> set [ClassNormative, ClassDeFactoClient, ClassConsumerProfile, ClassBehavioral, ClassAdvisory]) (Err ''invalid scenario class''),
      fail_if (cf_Stability c \<notin> set [StabilityStable, StabilityExperimental, StabilityIncubating]) (Err ''invalid stability''),
      fail_if (cf_SideEffects c \<notin> set [SideEffectNone, SideEffectReversibleLocal, SideEffectReversibleRemote, SideEffectIrreversible])
        (Err ''invalid side effect class''),
      fail_if (cf_Idempotent c = None) (Err ''idempotent must be explicitly true or false''),
      fail_if (cf_Stability c = StabilityStable \<and> cf_SideEffects c = SideEffectIrreversible)
        (Err ''stable scenarios cannot declare irreversible side effects'')]"

definition validateScenarioBudget :: "scenario_budget \<Rightarrow> err" where
  "validateScenarioBudget b = first_err
     [duration_Validate (sb_Timeout b),
      fail_if (sint (sb_MaxRequests b) \<le> 0) (Err ''maxRequests must be positive''),
      fail_if (sint (sb_MaxInputTokens b) < 0 \<or> sint (sb_MaxOutputTokens b) < 0) (Err ''token budgets cannot be negative''),
      (if sb_MaxResponseBytes b \<noteq> 0 then wrap_err ''maxResponseBytes'' (byte_size_Validate (sb_MaxResponseBytes b)) else None),
      byte_size_Validate (sb_MaxArtifactBytes b)]"

definition validateRepetition :: "i64 \<Rightarrow> string \<Rightarrow> err" where
  "validateRepetition c policy = first_err
     [fail_if (sint c \<le> 0 \<or> sint c > 1000) (Err ''repetition count must be between 1 and 1000''),
      fail_if (policy \<noteq> ''all'' \<and> policy \<noteq> ''any'') (Err ''repetition policy must be all or any'')]"

text \<open>
  The groups are visited in the order of a Go map, which is unspecified: which capability is reported
  depends on it, whether there is an error does not.
\<close>

fun capability_loop :: "string list \<Rightarrow> string list \<Rightarrow> err" where
  "capability_loop seen [] = None"
| "capability_loop seen (v # vs) = first_err
     [fail_if (\<not> resourceNamePattern v) (Err ''invalid capability''),
      fail_if (v \<in> set seen) (Err ''capability appears twice''),
      capability_loop (v # seen) vs]"

definition validateCapabilities :: "capability_requirement \<Rightarrow> err" where
  "validateCapabilities r = capability_loop [] (cr_All r @ cr_Any r @ cr_None r)"

section \<open>Requirements\<close>

definition requirementRecord :: "scenario_validation \<Rightarrow> string \<Rightarrow> requirement_record res" where
  "requirementRecord sv i =
     (case aget (co_Requirements (sv_options sv)) i of
        None \<Rightarrow> Inl (Err ''requirement is absent from the supplied catalog'')
      | Some r \<Rightarrow> guard_res (first_err
          [fail_if (rq_ID r \<noteq> i) (Err ''catalog key is bound to another record''),
           fail_if (rq_Level r \<notin> set [LevelMust, LevelShould, LevelMay]) (Err ''requirement has invalid level''),
           fail_if (rq_Category r \<notin> set [ClassNormative, ClassDeFactoClient, ClassConsumerProfile, ClassBehavioral, ClassAdvisory])
             (Err ''requirement has invalid category''),
           wrap_err ''requirement source digest'' (digest_Validate (rq_SourceDigest r))]) (Inr r))"

definition link_requirement :: "requirement_record \<Rightarrow> scenario_validation \<Rightarrow> scenario_validation" where
  "link_requirement r sv = sv\<lparr>sv_requirements := aput (rq_ID r) r (sv_requirements sv)\<rparr>"

fun requirement_loop :: "nat \<Rightarrow> string list \<Rightarrow> requirement_ref list \<Rightarrow> scenario_validation \<Rightarrow> scenario_validation compiled" where
  "requirement_loop index declared [] sv = Inr sv"
| "requirement_loop index declared (r # rs) sv =
     (let p = index_path ''$.spec.requirements'' index
      in if rr_ID r \<in> set declared then Inl (requirement_error p (Err ''duplicate requirement''))
         else (case requirementRecord sv (rr_ID r) of
             Inl e \<Rightarrow> Inl (requirement_error p e)
           | Inr found \<Rightarrow>
               if rq_Level found \<noteq> rr_Level r then Inl (requirement_error p (Err ''level does not match catalog''))
               else requirement_loop (Suc index) (rr_ID r # declared) rs (link_requirement found sv)))"

definition validateRequirements :: "requirement_ref list \<Rightarrow> scenario_validation \<Rightarrow> scenario_validation compiled" where
  "validateRequirements refs sv =
     (if refs = [] then Inl (requirement_error ''$.spec.requirements'' (Err ''at least one requirement is required''))
      else requirement_loop 0 [] refs sv)"

section \<open>Resources\<close>

definition resource_check :: "string \<Rightarrow> classification \<Rightarrow> resource_lease \<Rightarrow> scenario_validation \<Rightarrow> compile_error option" where
  "resource_check p c r sv = first_err
     [semantic_if (\<not> resourceNamePattern (rl_ID r)) (p @ ''.id'') ''invalid resource ID'',
      semantic_if (ahas (sv_resources sv) (rl_ID r)) (p @ ''.id'') ''duplicate resource'',
      semantic_if (rl_SideEffectClass r \<notin> set [SideEffectNone, SideEffectReversibleLocal, SideEffectReversibleRemote, SideEffectIrreversible])
        (p @ ''.sideEffectClass'') ''invalid side effect class'',
      semantic_if (cf_Stability c = StabilityStable \<and> rl_SideEffectClass r = SideEffectIrreversible)
        (p @ ''.sideEffectClass'') ''stable scenarios cannot lease irreversible resources'',
      semantic_if (\<not> artifactNamePattern (rl_Operation r)) (p @ ''.finalizer.operation'') ''invalid finalizer operation'',
      semantic_if (rl_Idempotent r \<noteq> Some True) (p @ ''.finalizer.idempotent'') ''finalizer must explicitly be idempotent'',
      semantic_if (sint (rl_MaxAttempts r) \<le> 0 \<or> sint (rl_MaxAttempts r) > 10)
        (p @ ''.finalizer.retry.maxAttempts'') ''retry count must be between 1 and 10'',
      semantic_if (sint (rl_Requests r) \<le> 0) (p @ ''.cleanupBudget.requests'') ''cleanup request budget must be positive'',
      semantic_err (p @ ''.cleanupBudget.duration'') (duration_Validate (rl_Duration r))]"

fun resource_loop :: "nat \<Rightarrow> classification \<Rightarrow> resource_lease list \<Rightarrow> scenario_validation \<Rightarrow> scenario_validation compiled" where
  "resource_loop index c [] sv = Inr sv"
| "resource_loop index c (r # rs) sv =
     guard_res (resource_check (index_path ''$.spec.resources'' index) c r sv)
       (resource_loop (Suc index) c rs (sv\<lparr>sv_resources := aput (rl_ID r) r (sv_resources sv)\<rparr>))"

definition indexResources :: "resource_lease list \<Rightarrow> classification \<Rightarrow> scenario_validation \<Rightarrow> scenario_validation compiled" where
  "indexResources rs c sv =
     (case resource_loop 0 c rs sv of
        Inl e \<Rightarrow> Inl e
      | Inr sv1 \<Rightarrow>
          if cf_SideEffects c = SideEffectNone then
            (if list_ex (\<lambda>r. rl_SideEffectClass r \<noteq> SideEffectNone) rs
             then Inl (semanticError ''$.spec.classification.sideEffects'' ''none conflicts with a side-effecting resource'') else Inr sv1)
          else if rs = [] then Inl (semanticError ''$.spec.resources'' ''side-effecting scenarios must declare ResourceLease cleanup'')
          else Inr sv1)"

section \<open>References\<close>

definition referenceRoot :: "string \<Rightarrow> string" where
  "referenceRoot r = fst (cut_at CHR ''.'' r)"

definition requirePreviousReference :: "string \<Rightarrow> nat \<Rightarrow> string \<Rightarrow> scenario_validation \<Rightarrow> compile_error option" where
  "requirePreviousReference r currentIndex fieldPath sv =
     (case aget (sv_stepIndexes sv) (referenceRoot r) of
        None \<Rightarrow> Some (semanticError fieldPath ''reference must point to an earlier step'')
      | Some index \<Rightarrow> semantic_if (index \<ge> currentIndex) fieldPath ''reference must point to an earlier step'')"

definition requireAnyStepReference :: "string \<Rightarrow> string \<Rightarrow> scenario_validation \<Rightarrow> compile_error option" where
  "requireAnyStepReference r fieldPath sv = semantic_if (\<not> ahas (sv_stepIndexes sv) (referenceRoot r)) fieldPath ''reference does not name a step''"

section \<open>Assertions\<close>

definition normative_candidates :: "scenario_validation \<Rightarrow> requirement_ref list \<Rightarrow> string list" where
  "normative_candidates sv refs = map rr_ID (filter (\<lambda>r. map_option rq_Category (aget (sv_requirements sv) (rr_ID r)) = Some ClassNormative) refs)"

text \<open>The requirement of a normative assertion: the one it names, or the only normative one; it must be declared.\<close>

definition normative_requirement :: "pack_assertion \<Rightarrow> requirement_ref list \<Rightarrow> scenario_validation \<Rightarrow> string res" where
  "normative_requirement a refs sv =
     (case (if pa_Requirement a \<noteq> [] then Inr (pa_Requirement a)
            else (case normative_candidates sv refs of
                [c] \<Rightarrow> Inr c
              | _ \<Rightarrow> Inl (Err ''normative assertion must name a requirement unless exactly one normative requirement is declared''))) of
        Inl e \<Rightarrow> Inl e
      | Inr i \<Rightarrow> if i \<in> rr_ID ` set refs then Inr i else Inl (Err ''normative requirement is not declared by the scenario''))"

definition linkAssertionRequirement ::
  "pack_assertion \<Rightarrow> requirement_ref list \<Rightarrow> scenario_validation \<Rightarrow> (pack_assertion \<times> scenario_validation) res" where
  "linkAssertionRequirement a0 refs sv =
     (case (if pa_Role a0 = RoleNormative then normative_requirement a0 refs sv else Inr (pa_Requirement a0)) of
        Inl e \<Rightarrow> Inl e
      | Inr i \<Rightarrow>
          (let a = a0\<lparr>pa_Requirement := i\<rparr>
           in if pa_Role a = RoleConsumerProfile \<and> i = [] then Inl (Err ''consumer_profile assertion requires an explicit consumer requirement'')
              else if i = [] then Inr (a, sv)
              else (case requirementRecord sv i of
                  Inl e \<Rightarrow> Inl e
                | Inr r \<Rightarrow>
                    if pa_Role a = RoleNormative \<and> rq_Category r \<noteq> ClassNormative then Inl (Err ''requirement is not normative'')
                    else if pa_Role a = RoleConsumerProfile \<and> rq_Category r \<noteq> ClassConsumerProfile \<and> rq_Category r \<noteq> ClassDeFactoClient
                    then Inl (Err ''requirement is not a consumer/client requirement'')
                    else Inr (a, link_requirement r sv))))"

definition assertion_check :: "string \<Rightarrow> pack_assertion \<Rightarrow> i64 \<Rightarrow> compile_error option" where
  "assertion_check p a repetitions = first_err
     [semantic_if ((pa_Use a = []) = (pa_Expression a = [])) p ''assertion requires exactly one of use or expression'',
      semantic_if (pa_Use a \<noteq> [] \<and> \<not> artifactNamePattern (pa_Use a)) (p @ ''.use'') ''invalid oracle assertion name'',
      semantic_if (pa_Role a \<notin> set [RolePrecondition, RoleNormative, RoleConsumerProfile, RoleBehavioral, RoleAdvisory])
        (p @ ''.assertionRole'') ''invalid assertion role'',
      semantic_if (pa_Role a = RolePrecondition \<and> pa_ObservedAt a = []) (p @ ''.observedAt'') ''precondition requires an explicit observation source'',
      semantic_if (pa_Role a = RolePrecondition \<and> pa_Requirement a \<noteq> []) (p @ ''.requirement'') ''precondition cannot claim a target requirement'',
      semantic_if (pa_Role a = RoleBehavioral \<and> sint repetitions < 2) p ''behavioral assertion requires repeated samples'']"

definition canonical_equals :: "pack_env \<Rightarrow> string \<Rightarrow> pack_assertion \<Rightarrow> pack_assertion compiled" where
  "canonical_equals E p a =
     (if pa_Equals a = [] then Inr a
      else (case pe_canonicalize E (pa_Equals a) of
          Inl e \<Rightarrow> Inl (semanticError (p @ ''.equals'') (error_text e))
        | Inr canonical \<Rightarrow> Inr (a\<lparr>pa_Equals := canonical\<rparr>)))"

definition add_cel :: "cel_binding \<Rightarrow> scenario_validation \<Rightarrow> scenario_validation" where
  "add_cel b sv = sv\<lparr>sv_celBindings := sv_celBindings sv @ [b]\<rparr>"

definition bind_expression ::
  "pack_env \<Rightarrow> string \<Rightarrow> string \<Rightarrow> nat \<Rightarrow> pack_assertion \<Rightarrow> scenario_validation \<Rightarrow> (pack_assertion \<times> scenario_validation) compiled" where
  "bind_expression E p stepID index a sv =
     (if pa_Expression a = [] then Inr (a, sv)
      else (case compileCEL (pe_cel E) (pa_Expression a) (co_MaxCELCost (sv_options sv)) of
          Inl e \<Rightarrow> Inl (CompileError StageCEL (p @ ''.expression'') e)
        | Inr c \<Rightarrow> Inr (a\<lparr>pa_Expression := cc_Source c\<rparr>,
            add_cel \<lparr>cb_StepID = stepID, cb_AssertionIndex = Some index, cb_Purpose = ''assertion'', cb_Compiled = c\<rparr> sv)))"

definition validate_pack_assertion ::
  "pack_env \<Rightarrow> string \<Rightarrow> nat \<Rightarrow> pack_scenario \<Rightarrow> nat \<Rightarrow> pack_assertion \<Rightarrow> scenario_validation \<Rightarrow> (pack_assertion \<times> scenario_validation) compiled" where
  "validate_pack_assertion E stepID stepIndex s index a sv =
     (let p = index_path (index_path ''$.spec.steps'' stepIndex @ ''.assert'') index
      in guard_res (assertion_check p a (sp_Count (ps_Spec s)))
           (case linkAssertionRequirement a (sp_Requirements (ps_Spec s)) sv of
              Inl e \<Rightarrow> Inl (requirement_error (p @ ''.requirement'') e)
            | Inr (a1, sv1) \<Rightarrow> bind_res (canonical_equals E p a1) (\<lambda>a2. bind_expression E p stepID index a2 sv1)))"

fun assertion_loop ::
  "pack_env \<Rightarrow> string \<Rightarrow> nat \<Rightarrow> pack_scenario \<Rightarrow> nat \<Rightarrow> pack_assertion list \<Rightarrow> scenario_validation \<Rightarrow> (pack_assertion list \<times> scenario_validation) compiled" where
  "assertion_loop E stepID stepIndex s index [] sv = Inr ([], sv)"
| "assertion_loop E stepID stepIndex s index (a # as) sv =
     (case validate_pack_assertion E stepID stepIndex s index a sv of
        Inl e \<Rightarrow> Inl e
      | Inr (a1, sv1) \<Rightarrow>
          (case assertion_loop E stepID stepIndex s (Suc index) as sv1 of
             Inl e \<Rightarrow> Inl e
           | Inr (as1, sv2) \<Rightarrow> Inr (a1 # as1, sv2)))"

section \<open>Steps\<close>

definition countStepVariants :: "pack_step \<Rightarrow> nat" where
  "countStepVariants st = length (filter id
     [st_Invoke st \<noteq> None, st_Capture st \<noteq> None, st_RegisterResource st \<noteq> None, st_ProvideToolResult st \<noteq> None, st_WaitFor st \<noteq> None,
      st_Assert st \<noteq> None, st_Cancel st \<noteq> None, st_Replay st \<noteq> None, st_Finalize st \<noteq> None])"

definition step_invoke :: "string \<Rightarrow> invoke_step \<Rightarrow> scenario_validation \<Rightarrow> scenario_validation compiled" where
  "step_invoke p i sv =
     guard_res (semantic_if (\<not> artifactNamePattern (is_Operation i) \<or> \<not> artifactNamePattern (is_Driver i)) (p @ ''.invoke'')
         ''invoke operation and driver must be safe artifact names'')
       (case is_Request i of
          None \<Rightarrow> Inl (semanticError (p @ ''.invoke.request'') ''request object is required'')
        | Some request \<Rightarrow>
            bind_res (case is_Fixture i of None \<Rightarrow> Inr sv | Some f \<Rightarrow> resolveFixture f (p @ ''.invoke.controlledBackend.fixture'') sv)
              (validateDynamicValue (JObject request) (p @ ''.invoke.request'')))"

definition step_capture :: "string \<Rightarrow> nat \<Rightarrow> string \<times> string \<Rightarrow> scenario_validation \<Rightarrow> scenario_validation compiled" where
  "step_capture p index c sv =
     guard_res (first_err [requirePreviousReference (fst c) index (p @ ''.capture.stream'') sv,
        semantic_if (\<not> resourceNamePattern (snd c)) (p @ ''.capture.as'') ''invalid capture name'']) (Inr sv)"

definition step_register :: "string \<Rightarrow> nat \<Rightarrow> string \<times> string \<Rightarrow> scenario_validation \<Rightarrow> scenario_validation compiled" where
  "step_register p index r sv =
     guard_res (first_err [semantic_if (\<not> ahas (sv_resources sv) (fst r)) (p @ ''.register_resource.resource'') ''resource is not declared'',
        requirePreviousReference (snd r) index (p @ ''.register_resource.acquireFrom'') sv]) (Inr sv)"

definition step_tool_result :: "string \<Rightarrow> nat \<Rightarrow> string \<times> json_value \<Rightarrow> scenario_validation \<Rightarrow> scenario_validation compiled" where
  "step_tool_result p index t sv =
     guard_res (requirePreviousReference (fst t) index (p @ ''.provide_tool_result.callIdFrom'') sv)
       (validateDynamicValue (snd t) (p @ ''.provide_tool_result.result'') sv)"

definition step_wait ::
  "pack_env \<Rightarrow> string \<Rightarrow> string \<Rightarrow> nat \<Rightarrow> duration \<Rightarrow> string \<times> string \<times> duration \<Rightarrow> scenario_validation \<Rightarrow> scenario_validation compiled" where
  "step_wait E stepID p index timeout w sv =
     (case w of (source, condition, limit) \<Rightarrow>
        guard_res (first_err
          [requirePreviousReference source index (p @ ''.wait_for.source'') sv,
           semantic_err (p @ ''.wait_for.timeout'') (duration_Validate limit),
           semantic_if (limit > timeout) (p @ ''.wait_for.timeout'') ''wait timeout exceeds scenario timeout''])
          (case compileCEL (pe_cel E) condition (co_MaxCELCost (sv_options sv)) of
             Inl e \<Rightarrow> Inl (CompileError StageCEL (p @ ''.wait_for.condition'') e)
           | Inr c \<Rightarrow> Inr (add_cel \<lparr>cb_StepID = stepID, cb_AssertionIndex = None, cb_Purpose = ''wait_for'', cb_Compiled = c\<rparr> sv)))"

definition step_assert ::
  "pack_env \<Rightarrow> string \<Rightarrow> pack_step \<Rightarrow> nat \<Rightarrow> pack_scenario \<Rightarrow> pack_assertion list \<Rightarrow> scenario_validation \<Rightarrow> (pack_step \<times> scenario_validation) compiled" where
  "step_assert E p st index s as sv =
     (if as = [] then Inl (semanticError (p @ ''.assert'') ''assert step must contain at least one assertion'')
      else (case assertion_loop E (st_ID st) index s 0 as sv of Inl e \<Rightarrow> Inl e | Inr (as1, sv1) \<Rightarrow> Inr (st\<lparr>st_Assert := Some as1\<rparr>, sv1)))"

definition step_cancel :: "string \<Rightarrow> nat \<Rightarrow> string \<times> string \<Rightarrow> scenario_validation \<Rightarrow> scenario_validation compiled" where
  "step_cancel p index c sv =
     guard_res (first_err [requirePreviousReference (fst c) index (p @ ''.cancel.invocation'') sv,
        semantic_if (blank (snd c)) (p @ ''.cancel.reason'') ''cancel reason is required'']) (Inr sv)"

definition step_replay :: "string \<Rightarrow> string \<times> string \<Rightarrow> scenario_validation \<Rightarrow> scenario_validation compiled" where
  "step_replay p r sv =
     bind_res (resolveFixture (fst r) (p @ ''.replay.fixture'') sv) (\<lambda>sv1.
       guard_res (semantic_if (\<not> resourceNamePattern (snd r)) (p @ ''.replay.as'') ''invalid replay binding'') (Inr sv1))"

definition step_finalize :: "string \<Rightarrow> string \<Rightarrow> scenario_validation \<Rightarrow> scenario_validation compiled" where
  "step_finalize p r sv =
     guard_res (semantic_if (\<not> ahas (sv_resources sv) r) (p @ ''.finalize.finalize'') ''resource is not declared'') (Inr sv)"

text \<open>A step that is not rewritten.\<close>

definition same_step :: "pack_step \<Rightarrow> scenario_validation compiled \<Rightarrow> (pack_step \<times> scenario_validation) compiled" where
  "same_step st r = (case r of Inl e \<Rightarrow> Inl e | Inr sv \<Rightarrow> Inr (st, sv))"

definition validateStep ::
  "pack_env \<Rightarrow> pack_scenario \<Rightarrow> nat \<Rightarrow> pack_step \<Rightarrow> scenario_validation \<Rightarrow> (pack_step \<times> scenario_validation) compiled" where
  "validateStep E s index st sv =
     (let p = index_path ''$.spec.steps'' index in
      case st_Invoke st of Some i \<Rightarrow> same_step st (step_invoke p i sv) | None \<Rightarrow>
      (case st_Capture st of Some c \<Rightarrow> same_step st (step_capture p index c sv) | None \<Rightarrow>
      (case st_RegisterResource st of Some r \<Rightarrow> same_step st (step_register p index r sv) | None \<Rightarrow>
      (case st_ProvideToolResult st of Some t \<Rightarrow> same_step st (step_tool_result p index t sv) | None \<Rightarrow>
      (case st_WaitFor st of Some w \<Rightarrow> same_step st (step_wait E (st_ID st) p index (sb_Timeout (sp_Budgets (ps_Spec s))) w sv) | None \<Rightarrow>
      (case st_Assert st of Some as \<Rightarrow> step_assert E p st index s as sv | None \<Rightarrow>
      (case st_Cancel st of Some c \<Rightarrow> same_step st (step_cancel p index c sv) | None \<Rightarrow>
      (case st_Replay st of Some r \<Rightarrow> same_step st (step_replay p r sv) | None \<Rightarrow>
      (case st_Finalize st of Some f \<Rightarrow> same_step st (step_finalize p f sv) | None \<Rightarrow> Inr (st, sv))))))))))"

definition step_check :: "nat \<Rightarrow> pack_step \<Rightarrow> scenario_validation \<Rightarrow> compile_error option" where
  "step_check index st sv =
     (let p = index_path ''$.spec.steps'' index in first_err
       [semantic_if (\<not> resourceNamePattern (st_ID st)) (p @ ''.id'') ''invalid step ID'',
        semantic_if (ahas (sv_stepIndexes sv) (st_ID st)) (p @ ''.id'') ''duplicate step'',
        semantic_if (countStepVariants st \<noteq> 1) p ''step must contain exactly one of the nine supported operations''])"

fun step_loop ::
  "pack_env \<Rightarrow> pack_scenario \<Rightarrow> nat \<Rightarrow> pack_step list \<Rightarrow> scenario_validation \<Rightarrow> (pack_step list \<times> scenario_validation) compiled" where
  "step_loop E s index [] sv = Inr ([], sv)"
| "step_loop E s index (st # sts) sv =
     guard_res (step_check index st sv)
       (case validateStep E s index st (sv\<lparr>sv_stepIndexes := aput (st_ID st) index (sv_stepIndexes sv)\<rparr>) of
          Inl e \<Rightarrow> Inl e
        | Inr (st1, sv1) \<Rightarrow>
            (case step_loop E s (Suc index) sts sv1 of Inl e \<Rightarrow> Inl e | Inr (sts1, sv2) \<Rightarrow> Inr (st1 # sts1, sv2)))"

definition validateSteps :: "pack_env \<Rightarrow> pack_scenario \<Rightarrow> scenario_validation \<Rightarrow> (pack_scenario \<times> scenario_validation) compiled" where
  "validateSteps E s sv =
     (if sp_Steps (ps_Spec s) = [] then Inl (semanticError ''$.spec.steps'' ''at least one step is required'')
      else (case step_loop E s 0 (sp_Steps (ps_Spec s)) sv of
          Inl e \<Rightarrow> Inl e
        | Inr (sts, sv1) \<Rightarrow> Inr (s\<lparr>ps_Spec := (ps_Spec s)\<lparr>sp_Steps := sts\<rparr>\<rparr>, sv1)))"

section \<open>Cleanup\<close>

fun acquire_loop :: "nat \<Rightarrow> resource_lease list \<Rightarrow> scenario_validation \<Rightarrow> compile_error option" where
  "acquire_loop index [] sv = None"
| "acquire_loop index (r # rs) sv = first_err
     [requireAnyStepReference (rl_AcquireFrom r) (index_path ''$.spec.resources'' index @ ''.acquireFrom'') sv, acquire_loop (Suc index) rs sv]"

text \<open>The loop over the finalizers; the resources are given in the order in which \<open>len - 1 - index\<close> selects them.\<close>

fun finally_loop :: "nat \<Rightarrow> string list \<Rightarrow> resource_lease list \<Rightarrow> compile_error option" where
  "finally_loop index (f # fs) (r # rs) = first_err
     [semantic_if (f \<noteq> rl_ID r) (index_path ''$.spec.finally'' index @ ''.finalize'') ''expected another resource for LIFO cleanup'',
      finally_loop (Suc index) fs rs]"
| "finally_loop index fs rs = None"

definition validateResourceReferencesAndFinally :: "pack_scenario \<Rightarrow> scenario_validation \<Rightarrow> compile_error option" where
  "validateResourceReferencesAndFinally s sv =
     (let spec = ps_Spec s in first_err
       [acquire_loop 0 (sp_Resources spec) sv,
        semantic_if (length (sp_Finally spec) \<noteq> length (sp_Resources spec)) ''$.spec.finally''
          ''finally must contain every declared resource exactly once in LIFO order'',
        finally_loop 0 (sp_Finally spec) (rev (sp_Resources spec))])"

section \<open>The whole scenario\<close>

definition metadata_check :: "pack_scenario \<Rightarrow> compile_error option" where
  "metadata_check s =
     (let m = ps_Metadata s; spec = ps_Spec s in first_err
       [semantic_if (ps_APIVersion s \<noteq> ScenarioAPIVersion \<or> ps_Kind s \<noteq> ScenarioKind) ''$'' ''scenario apiVersion/kind mismatch'',
        semantic_if (\<not> resourceNamePattern (sm_ID m)) ''$.metadata.id'' ''invalid scenario ID'',
        semantic_if (\<not> semverPattern (sm_Version m)) ''$.metadata.version'' ''scenario version must be SemVer'',
        semantic_if (blank (sm_Title m)) ''$.metadata.title'' ''title is required'',
        semantic_if (list_ex (\<lambda>k. \<not> resourceNamePattern k) (sort_strings (akeys (sm_Labels m)))) ''$.metadata.labels'' ''invalid label key'',
        semantic_if (\<not> artifactNamePattern (pb_Family (sp_Protocol spec))) ''$.spec.protocol.family'' ''invalid protocol family'',
        semantic_if (blank (pb_Snapshot (sp_Protocol spec))) ''$.spec.protocol.snapshot'' ''protocol snapshot is required'',
        semantic_err ''$.spec.protocol.digest'' (digest_Validate (pb_Digest (sp_Protocol spec))),
        semantic_err ''$.spec.classification'' (validateClassification (sp_Classification spec)),
        semantic_err ''$.spec.budgets'' (validateScenarioBudget (sp_Budgets spec)),
        semantic_err ''$.spec.repetition'' (validateRepetition (sp_Count spec) (sp_Policy spec)),
        semantic_if (sp_DataClass spec \<notin> set [''synthetic-only'', ''metadata-only'', ''local-private'']) ''$.spec.publication.dataClass''
          ''invalid publication data class''])"

definition default_options :: "compile_options \<Rightarrow> compile_options" where
  "default_options o1 = o1\<lparr>co_MaxCELCost := (if co_MaxCELCost o1 = 0 then DefaultMaxCELCost else co_MaxCELCost o1),
     co_AllowedVariables := (case co_AllowedVariables o1 of None \<Rightarrow> Some [''target.model''] | Some vs \<Rightarrow> Some vs)\<rparr>"

definition new_validation :: "compile_options \<Rightarrow> scenario_validation" where
  "new_validation o1 = \<lparr>sv_requirements = [], sv_fixtures = [], sv_celBindings = [], sv_templateBindings = [], sv_options = default_options o1,
     sv_stepIndexes = [], sv_resources = []\<rparr>"

definition validateScenario :: "pack_env \<Rightarrow> pack_scenario \<Rightarrow> compile_options \<Rightarrow> (pack_scenario \<times> scenario_validation) compiled" where
  "validateScenario E s options =
     guard_res (metadata_check s)
       (let sv0 = new_validation options in
        if co_MaxCELCost (sv_options sv0) > AbsoluteMaxCELCost then Inl (CompileError StageCEL ''$'' (Err ''CEL cost limit exceeds maximum''))
        else
          bind_res (validateRequirements (sp_Requirements (ps_Spec s)) sv0) (\<lambda>sv1.
            guard_res (semantic_err ''$.spec.requires'' (validateCapabilities (sp_Requires (ps_Spec s))))
              (bind_res (indexResources (sp_Resources (ps_Spec s)) (sp_Classification (ps_Spec s)) sv1) (\<lambda>sv2.
                 bind_res (validateSteps E s sv2) (\<lambda>(s1, sv3).
                   guard_res (validateResourceReferencesAndFinally s1 sv3)
                     (Inr (s1, sv3\<lparr>sv_templateBindings := sort_key tb_Path (sv_templateBindings sv3)\<rparr>)))))))"

end
