(* ===== verification/PackResolved.thy ===== *)
theory PackResolved
  imports PackValidate
begin

text \<open>
  What the validation of a scenario guarantees (\<open>pkg/packapi/validate.go\<close>, \<open>template.go\<close>).  The validation
  only grows and keeps an invariant, both of which every helper preserves; what a step names is resolved in the
  validation after it, hence in the final one.
\<close>

section \<open>Expansion\<close>

text \<open>The reference: a template is read from left to right, and a variable is replaced by its value.\<close>

function template_meaning :: "(string, string) gomap \<Rightarrow> string \<Rightarrow> string" where
  "template_meaning vals s =
     (case template_at s of
        Some (v, t) \<Rightarrow> (case aget vals v of None \<Rightarrow> [] | Some x \<Rightarrow> x) @ template_meaning vals t
      | None \<Rightarrow> (case s of [] \<Rightarrow> [] | c # cs \<Rightarrow> c # template_meaning vals cs))"
  by pat_completeness auto
termination by (relation "measure (\<lambda>(_, s). length s)") (auto dest: template_at_shorter)

declare template_meaning.simps [simp del]

definition part_text :: "(string, string) gomap \<Rightarrow> string \<times> string \<Rightarrow> string" where
  "part_text vals p = fst p @ (case aget vals (snd p) of None \<Rightarrow> [] | Some x \<Rightarrow> x)"

lemma parts_meaning: "concat (map (part_text vals) (fst (template_parts s))) @ snd (template_parts s) = template_meaning vals s"
proof (induction s rule: template_parts.induct)
  case (1 s)
  show ?case
  proof (cases "template_at s")
    case (Some p)
    then obtain v t where p: "template_at s = Some (v, t)" by (cases p) auto
    from 1(2) [OF p refl] show ?thesis
      by (cases "template_parts t") (simp add: template_parts.simps [of s] template_meaning.simps [of _ s] p part_text_def [of vals "([], v)"] split: prod.splits)
  next
    case None
    show ?thesis
    proof (cases s)
      case (Cons c cs)
      obtain ms rest where parts: "template_parts cs = (ms, rest)" by (cases "template_parts cs") auto
      from 1(1) [OF None Cons] None show ?thesis unfolding Cons
        by (cases ms) (auto simp: template_parts.simps [of "c # cs"] template_meaning.simps [of _ "c # cs"] parts part_text_def)
    qed (simp add: template_parts.simps template_meaning.simps template_at_def has_prefix_def)
  qed
qed

lemma expand_loop_meaning:
  assumes "\<forall>p\<in>set ms. ahas vals (snd p)" "length expanded \<le> MaxExpandedTemplateBytes"
  shows "expand_loop vals expanded ms =
     (if length (expanded @ concat (map (part_text vals) ms)) \<le> MaxExpandedTemplateBytes
      then Inr (expanded @ concat (map (part_text vals) ms)) else Inl (Err ''expanded template exceeds the byte limit''))"
  using assms
proof (induction ms arbitrary: expanded)
  case (Cons p ms)
  obtain lit v where p: "p = (lit, v)" by (cases p) auto
  from Cons.prems(1) obtain x where x: "aget vals v = Some x" by (auto simp: p ahas_def)
  show ?case
    using Cons.prems Cons.IH [of "expanded @ lit @ x"] by (auto simp: p x part_text_def [of vals "(lit, v)"])
qed simp

lemma ExpandTemplateString_meaning:
  assumes "\<not> template_malformed s" "\<forall>v\<in>set (template_variables s). ahas vals v"
  shows "ExpandTemplateString s vals =
     (if length (template_meaning vals s) \<le> MaxExpandedTemplateBytes then Inr (template_meaning vals s)
      else Inl (Err ''expanded template exceeds the byte limit''))"
proof -
  have "\<forall>p\<in>set (fst (template_parts s)). ahas vals (snd p)" using assms(2) by (auto simp: template_variables_def)
  from expand_loop_meaning [OF this, of "[]"] show ?thesis
    using assms(1) by (auto simp: ExpandTemplateString_def parts_meaning [symmetric])
qed

section \<open>Growth and invariant of the validation\<close>

lemma allowed_update [simp]: "allowed_variables (sv\<lparr>sv_fixtures := f\<rparr>) = allowed_variables sv"
  "allowed_variables (sv\<lparr>sv_requirements := r\<rparr>) = allowed_variables sv"
  "allowed_variables (sv\<lparr>sv_templateBindings := t\<rparr>) = allowed_variables sv"
  "allowed_variables (sv\<lparr>sv_celBindings := c\<rparr>) = allowed_variables sv"
  "allowed_variables (sv\<lparr>sv_resources := l\<rparr>) = allowed_variables sv"
  "allowed_variables (sv\<lparr>sv_stepIndexes := i\<rparr>) = allowed_variables sv"
  by (simp_all add: allowed_variables_def)

definition map_extends :: "('k, 'v) gomap \<Rightarrow> ('k, 'v) gomap \<Rightarrow> bool" where
  "map_extends m m' \<longleftrightarrow> (\<forall>k v. aget m k = Some v \<longrightarrow> aget m' k = Some v)"

definition catalogued :: "compile_options \<Rightarrow> string \<Rightarrow> requirement_record \<Rightarrow> bool" where
  "catalogued o1 i r \<longleftrightarrow> aget (co_Requirements o1) i = Some r \<and> rq_ID r = i \<and> digest_Validate (rq_SourceDigest r) = None \<and>
     rq_Level r \<in> {LevelMust, LevelShould, LevelMay}"

definition supplied :: "compile_options \<Rightarrow> string \<Rightarrow> digest \<Rightarrow> bool" where
  "supplied o1 ref d \<longleftrightarrow> aget (co_Fixtures o1) ref = Some d \<and> digest_Validate d = None \<and> validateSafeRelativePath ref False = None"

definition sv_inv :: "scenario_validation \<Rightarrow> bool" where
  "sv_inv sv \<longleftrightarrow> map_ok (sv_requirements sv) \<and> map_ok (sv_fixtures sv) \<and>
     (\<forall>i r. aget (sv_requirements sv) i = Some r \<longrightarrow> catalogued (sv_options sv) i r) \<and>
     (\<forall>ref d. aget (sv_fixtures sv) ref = Some d \<longrightarrow> supplied (sv_options sv) ref d) \<and>
     (\<forall>b\<in>set (sv_templateBindings sv). set (tb_Variables b) \<subseteq> set (allowed_variables sv)) \<and>
     (\<forall>b\<in>set (sv_celBindings sv). cc_EstimatedCost (cb_Compiled b) \<le> co_MaxCELCost (sv_options sv))"

text \<open>The relation between the validation before and after a helper; \<open>sv_resources\<close> and \<open>sv_stepIndexes\<close> are changed by the loops only.\<close>

definition grown :: "scenario_validation \<Rightarrow> scenario_validation \<Rightarrow> bool" where
  "grown sv sv' \<longleftrightarrow> (sv_inv sv \<longrightarrow> sv_inv sv') \<and> sv_options sv' = sv_options sv \<and> sv_stepIndexes sv' = sv_stepIndexes sv \<and>
     sv_resources sv' = sv_resources sv \<and> (sv_inv sv \<longrightarrow> map_extends (sv_requirements sv) (sv_requirements sv')) \<and>
     (sv_inv sv \<longrightarrow> map_extends (sv_fixtures sv) (sv_fixtures sv')) \<and> set (sv_templateBindings sv) \<subseteq> set (sv_templateBindings sv')"

lemma extends_refl [simp]: "map_extends m m"
  by (simp add: map_extends_def)

lemma grown_refl [simp]: "grown sv sv"
  by (simp add: grown_def)

lemma grown_trans: "grown a b \<Longrightarrow> grown b c \<Longrightarrow> grown a c"
  by (auto simp: grown_def map_extends_def)

lemma allowed_grown: "grown a b \<Longrightarrow> allowed_variables b = allowed_variables a"
  by (simp add: grown_def allowed_variables_def)

lemma resolveFixture_grown:
  assumes "resolveFixture ref p sv = Inr sv'"
  shows "grown sv sv' \<and> ahas (sv_fixtures sv') ref"
proof -
  from assms obtain d where d: "validateSafeRelativePath ref False = None" "aget (co_Fixtures (sv_options sv)) ref = Some d"
    "digest_Validate d = None" "sv' = sv\<lparr>sv_fixtures := aput ref d (sv_fixtures sv)\<rparr>"
    by (auto simp: resolveFixture_def split: option.splits)
  then have "supplied (sv_options sv) ref d" by (simp add: supplied_def)
  moreover have "aget (sv_fixtures sv) ref = Some d'  \<Longrightarrow> sv_inv sv \<Longrightarrow> d' = d" for d'
    using d(2) by (auto simp: sv_inv_def supplied_def)
  ultimately show ?thesis using d(4) by (auto simp: grown_def sv_inv_def map_extends_def)
qed

lemma validateTemplates_grown:
  assumes "validateTemplates s p sv = Inr sv'"
  shows "grown sv sv' \<and> \<not> template_malformed s \<and> set (template_variables s) \<subseteq> set (allowed_variables sv) \<and>
    (template_variables s \<noteq> [] \<longrightarrow> (\<exists>b\<in>set (sv_templateBindings sv'). tb_Variables b = template_variables s))"
  using assms by (fastforce simp: validateTemplates_def Let_def grown_def sv_inv_def split: if_splits)

section \<open>Dynamic vals\<close>

text \<open>The strings of a value, and the vals of its members named \<open>fixture\<close>.\<close>

fun value_strings :: "json_value \<Rightarrow> string list" where
  "value_strings (JObject m) = concat (map (\<lambda>p. value_strings (snd p)) m)"
| "value_strings (JArray vs) = concat (map value_strings vs)"
| "value_strings (JString s) = [s]"
| "value_strings _ = []"

fun value_fixtures :: "json_value \<Rightarrow> json_value list" where
  "value_fixtures (JObject m) = concat (map (\<lambda>p. (if fst p = ''fixture'' then [snd p] else []) @ value_fixtures (snd p)) m)"
| "value_fixtures (JArray vs) = concat (map value_fixtures vs)"
| "value_fixtures _ = []"

definition string_ok :: "scenario_validation \<Rightarrow> string \<Rightarrow> bool" where
  "string_ok sv s \<longleftrightarrow> \<not> template_malformed s \<and> set (template_variables s) \<subseteq> set (allowed_variables sv) \<and>
    (template_variables s \<noteq> [] \<longrightarrow> (\<exists>b\<in>set (sv_templateBindings sv). tb_Variables b = template_variables s))"

definition fixture_ok :: "scenario_validation \<Rightarrow> json_value \<Rightarrow> bool" where
  "fixture_ok sv w \<longleftrightarrow> (\<exists>ref. w = JString ref \<and> ahas (sv_fixtures sv) ref)"

definition value_ok :: "scenario_validation \<Rightarrow> json_value \<Rightarrow> bool" where
  "value_ok sv v \<longleftrightarrow> (\<forall>s\<in>set (value_strings v). string_ok sv s) \<and> (\<forall>w\<in>set (value_fixtures v). fixture_ok sv w)"

lemma string_ok_grown: "string_ok a s \<Longrightarrow> grown a b \<Longrightarrow> string_ok b s"
  by (auto simp: string_ok_def allowed_grown dest!: spec [of _ s]) (auto simp: grown_def)

lemma has_grown: "grown a b \<Longrightarrow> sv_inv a \<Longrightarrow> ahas (sv_fixtures a) k \<Longrightarrow> ahas (sv_fixtures b) k"
  "grown a b \<Longrightarrow> sv_inv a \<Longrightarrow> ahas (sv_requirements a) k \<Longrightarrow> ahas (sv_requirements b) k"
  by (auto simp: grown_def map_extends_def ahas_def)

lemma value_ok_grown: "value_ok a v \<Longrightarrow> grown a b \<Longrightarrow> sv_inv a \<Longrightarrow> value_ok b v"
  unfolding value_ok_def fixture_ok_def by (meson string_ok_grown has_grown(1))

lemma dynamic_grown:
  "sv_inv sv \<Longrightarrow> validateDynamicValue v p sv = Inr sv' \<Longrightarrow> grown sv sv' \<and> value_ok sv' v"
  "sv_inv sv \<Longrightarrow> dynamic_items vs index p sv = Inr sv' \<Longrightarrow> grown sv sv' \<and> (\<forall>v\<in>set vs. value_ok sv' v)"
  "sv_inv sv \<Longrightarrow> dynamic_fields ps p sv = Inr sv' \<Longrightarrow>
     grown sv sv' \<and> (\<forall>q\<in>set ps. value_ok sv' (snd q) \<and> (fst q = ''fixture'' \<longrightarrow> fixture_ok sv' (snd q)))"
proof (induction v p sv and vs index p sv and ps p sv arbitrary: sv' and sv' and sv'
    rule: validateDynamicValue_dynamic_items_dynamic_fields.induct)
  case (1 m p sv)
  then show ?case by (fastforce simp: value_ok_def)
next
  case (3 s p sv)
  then show ?case using validateTemplates_grown [of s p sv sv'] by (auto simp: value_ok_def string_ok_def allowed_grown)
next
  case (8 v vs index p sv)
  from 8(4) obtain sv1 where sv1: "validateDynamicValue v (index_path p index) sv = Inr sv1" "dynamic_items vs (Suc index) p sv1 = Inr sv'"
    by (auto split: sum.splits)
  note a = 8(1) [OF 8(3) sv1(1)]
  from a 8(3) have "sv_inv sv1" by (simp add: grown_def)
  note b = 8(2) [OF sv1(1) this sv1(2)]
  from a b \<open>sv_inv sv1\<close> show ?case by (auto intro: grown_trans value_ok_grown)
next
  case (10 q ps p sv)
  let ?p = "p @ ''.'' @ fst q"
  from 10(4) obtain sv1 sv2 where sv1: "dynamic_fixture (fst q) (snd q) ?p sv = Inr sv1"
    and sv2: "validateDynamicValue (snd q) ?p sv1 = Inr sv2" "dynamic_fields ps p sv2 = Inr sv'"
    by (auto split: sum.splits)
  have f: "grown sv sv1 \<and> (fst q = ''fixture'' \<longrightarrow> fixture_ok sv1 (snd q))"
    using sv1 by (auto simp: dynamic_fixture_def fixture_ok_def dest!: resolveFixture_grown split: if_splits json_value.splits)
  then have i1: "sv_inv sv1" using 10(3) by (simp add: grown_def)
  note a = 10(1) [OF sv1 i1 sv2(1)]
  then have i2: "sv_inv sv2" using i1 by (simp add: grown_def)
  note b = 10(2) [OF sv1 sv2(1) i2 sv2(2)]
  have "fst q = ''fixture'' \<Longrightarrow> fixture_ok sv' (snd q)"
    using f a b i1 i2 has_grown(1) [of sv1 sv2] has_grown(1) [of sv2 sv'] by (auto simp: fixture_ok_def)
  with f a b i1 i2 show ?case by (auto intro: grown_trans value_ok_grown)
qed (auto simp: value_ok_def)

section \<open>Assertions\<close>

definition assertion_ok :: "scenario_validation \<Rightarrow> requirement_ref list \<Rightarrow> pack_assertion \<Rightarrow> bool" where
  "assertion_ok sv refs a \<longleftrightarrow> (pa_Requirement a \<noteq> [] \<longrightarrow> ahas (sv_requirements sv) (pa_Requirement a)) \<and>
     (pa_Role a = RoleNormative \<longrightarrow> pa_Requirement a \<in> rr_ID ` set refs \<and>
        (\<exists>r. aget (sv_requirements sv) (pa_Requirement a) = Some r \<and> rq_Category r = ClassNormative)) \<and>
     (pa_Role a = RoleConsumerProfile \<longrightarrow>
        (\<exists>r. aget (sv_requirements sv) (pa_Requirement a) = Some r \<and> rq_Category r \<in> {ClassConsumerProfile, ClassDeFactoClient})) \<and>
     (pa_Role a = RolePrecondition \<longrightarrow> pa_Requirement a = [] \<and> pa_ObservedAt a \<noteq> [])"

lemma requirementRecord_Inr: "requirementRecord sv i = Inr r \<Longrightarrow> catalogued (sv_options sv) i r"
  by (auto simp: requirementRecord_def catalogued_def split: option.splits)

lemma link_grown:
  assumes "requirementRecord sv i = Inr r"
  shows "grown sv (link_requirement r sv) \<and> aget (sv_requirements (link_requirement r sv)) i = Some r"
proof -
  have c: "catalogued (sv_options sv) i r" by (rule requirementRecord_Inr [OF assms])
  then have "rq_ID r = i" by (simp add: catalogued_def)
  moreover have "aget (sv_requirements sv) i = Some r' \<Longrightarrow> sv_inv sv \<Longrightarrow> r' = r" for r'
    using c by (auto simp: sv_inv_def catalogued_def)
  ultimately show ?thesis using c by (auto simp: grown_def sv_inv_def link_requirement_def map_extends_def)
qed

lemma normative_requirement_Inr:
  assumes "normative_requirement a refs sv = Inr i"
  shows "i \<in> rr_ID ` set refs \<and> (i = [] \<longrightarrow> (\<exists>r. aget (sv_requirements sv) i = Some r \<and> rq_Category r = ClassNormative))"
proof -
  have "c \<in> set (normative_candidates sv refs) \<Longrightarrow> \<exists>r. aget (sv_requirements sv) c = Some r \<and> rq_Category r = ClassNormative" for c
    by (auto simp: normative_candidates_def)
  with assms show ?thesis by (auto simp: normative_requirement_def split: if_splits list.splits)
qed

lemma link_assertion:
  assumes "linkAssertionRequirement a refs sv = Inr (a', sv')" "assertion_check p a n = None"
  shows "grown sv sv' \<and> assertion_ok sv' refs a'"
proof -
  from assms(1) obtain i where i: "(if pa_Role a = RoleNormative then normative_requirement a refs sv else Inr (pa_Requirement a)) = Inr i"
    by (auto simp: linkAssertionRequirement_def split: sum.splits)
  have n: "pa_Role a = RoleNormative \<Longrightarrow> i \<in> rr_ID ` set refs \<and> (i = [] \<longrightarrow> (\<exists>r. aget (sv_requirements sv) i = Some r \<and> rq_Category r = ClassNormative))"
    using i normative_requirement_Inr [of a refs sv i] by simp
  have p: "pa_Role a = RolePrecondition \<Longrightarrow> i = [] \<and> pa_ObservedAt a \<noteq> []" using i assms(2) by (auto simp: assertion_check_def)
  show ?thesis
  proof (cases "i = []")
    case True
    with assms(1) i have "a' = a\<lparr>pa_Requirement := i\<rparr>" "sv' = sv" "pa_Role a \<noteq> RoleConsumerProfile"
      by (auto simp: linkAssertionRequirement_def Let_def split: if_splits)
    with n p True show ?thesis by (auto simp: assertion_ok_def)
  next
    case False
    with assms(1) i obtain r where r: "requirementRecord sv i = Inr r" "a' = a\<lparr>pa_Requirement := i\<rparr>" "sv' = link_requirement r sv"
      "pa_Role a = RoleNormative \<longrightarrow> rq_Category r = ClassNormative"
      "pa_Role a = RoleConsumerProfile \<longrightarrow> rq_Category r \<in> {ClassConsumerProfile, ClassDeFactoClient}"
      by (auto simp: linkAssertionRequirement_def Let_def split: if_splits sum.splits)
    with n p link_grown [OF r(1)] False show ?thesis by (auto simp: assertion_ok_def ahas_def)
  qed
qed

lemma compileCEL_cost:
  assumes "compileCEL L src n = Inr c" "n \<noteq> 0"
  shows "cc_EstimatedCost c \<le> n"
  using assms by (auto simp: compileCEL_def checked_ast_def Let_def split: sum.splits if_splits)

definition costs_set :: "scenario_validation \<Rightarrow> bool" where
  "costs_set sv \<longleftrightarrow> co_MaxCELCost (sv_options sv) \<noteq> 0"

lemma costs_set_grown: "grown sv sv' \<Longrightarrow> costs_set sv' = costs_set sv"
  by (simp add: costs_set_def grown_def)

lemma add_cel_grown:
  assumes "compileCEL L src (co_MaxCELCost (sv_options sv)) = Inr c" "cb_Compiled b = c" "costs_set sv"
  shows "grown sv (add_cel b sv)"
  using assms compileCEL_cost [of L src "co_MaxCELCost (sv_options sv)" c] by (auto simp: grown_def sv_inv_def add_cel_def costs_set_def)

lemma assertion_ok_grown: "assertion_ok a refs x \<Longrightarrow> grown a b \<Longrightarrow> sv_inv a \<Longrightarrow> assertion_ok b refs x"
  unfolding assertion_ok_def by (meson grown_def map_extends_def has_grown(2))

lemma assertion_grown:
  assumes "validate_pack_assertion E stepID si s k a sv = Inr (a', sv')" "sv_inv sv" "costs_set sv"
  shows "grown sv sv' \<and> assertion_ok sv' (sp_Requirements (ps_Spec s)) a'"
proof -
  let ?p = "index_path (index_path ''$.spec.steps'' si @ ''.assert'') k" and ?refs = "sp_Requirements (ps_Spec s)"
  from assms(1) obtain a1 sv1 a2 where c: "assertion_check ?p a (sp_Count (ps_Spec s)) = None"
    and l: "linkAssertionRequirement a ?refs sv = Inr (a1, sv1)"
    and e: "canonical_equals E ?p a1 = Inr a2" and b: "bind_expression E ?p stepID k a2 sv1 = Inr (a', sv')"
    by (auto simp: validate_pack_assertion_def Let_def bind_res_Inr split: sum.splits)
  note g = link_assertion [OF l c]
  then have i: "sv_inv sv1" "costs_set sv1" using assms(2,3) costs_set_grown by (auto simp: grown_def)
  from e have "pa_Requirement a2 = pa_Requirement a1" "pa_Role a2 = pa_Role a1" "pa_ObservedAt a2 = pa_ObservedAt a1"
    by (auto simp: canonical_equals_def split: if_splits sum.splits)
  moreover from b have "pa_Requirement a' = pa_Requirement a2" "pa_Role a' = pa_Role a2" "pa_ObservedAt a' = pa_ObservedAt a2"
    by (auto simp: bind_expression_def split: if_splits sum.splits)
  ultimately have same: "assertion_ok x ?refs a' = assertion_ok x ?refs a1" for x by (simp add: assertion_ok_def)
  have "grown sv1 sv'" using b i(2) by (auto simp: bind_expression_def intro: add_cel_grown split: if_splits sum.splits)
  with g i same show ?thesis by (auto intro: grown_trans assertion_ok_grown)
qed

lemma assertions_grown:
  assumes "assertion_loop E stepID si s k as sv = Inr (as', sv')" "sv_inv sv" "costs_set sv"
  shows "grown sv sv' \<and> (\<forall>a\<in>set as'. assertion_ok sv' (sp_Requirements (ps_Spec s)) a)"
  using assms
proof (induction as arbitrary: k sv as')
  case (Cons a as)
  from Cons.prems(1) obtain a1 sv1 as1 where a: "validate_pack_assertion E stepID si s k a sv = Inr (a1, sv1)"
    and r: "assertion_loop E stepID si s (Suc k) as sv1 = Inr (as1, sv')" and as': "as' = a1 # as1"
    by (auto split: sum.splits prod.splits)
  note g = assertion_grown [OF a Cons.prems(2,3)]
  then have i: "sv_inv sv1" "costs_set sv1" using Cons.prems costs_set_grown by (auto simp: grown_def)
  from Cons.IH [OF r i] g i as' show ?case by (auto intro: grown_trans assertion_ok_grown)
qed auto

section \<open>Steps\<close>

definition step_references :: "pack_step \<Rightarrow> string list" where
  "step_references st = (case st_Capture st of None \<Rightarrow> [] | Some c \<Rightarrow> [fst c]) @ (case st_RegisterResource st of None \<Rightarrow> [] | Some r \<Rightarrow> [snd r]) @
     (case st_ProvideToolResult st of None \<Rightarrow> [] | Some t \<Rightarrow> [fst t]) @ (case st_WaitFor st of None \<Rightarrow> [] | Some w \<Rightarrow> [fst w]) @
     (case st_Cancel st of None \<Rightarrow> [] | Some c \<Rightarrow> [fst c])"

definition step_resources :: "pack_step \<Rightarrow> string list" where
  "step_resources st = (case st_RegisterResource st of None \<Rightarrow> [] | Some r \<Rightarrow> [fst r]) @ (case st_Finalize st of None \<Rightarrow> [] | Some f \<Rightarrow> [f])"

definition step_values :: "pack_step \<Rightarrow> json_value list" where
  "step_values st = (case st_Invoke st of None \<Rightarrow> [] | Some i \<Rightarrow> (case is_Request i of None \<Rightarrow> [] | Some r \<Rightarrow> [JObject r])) @
     (case st_ProvideToolResult st of None \<Rightarrow> [] | Some t \<Rightarrow> [snd t])"

definition step_fixtures :: "pack_step \<Rightarrow> string list" where
  "step_fixtures st = (case st_Invoke st of None \<Rightarrow> [] | Some i \<Rightarrow> (case is_Fixture i of None \<Rightarrow> [] | Some f \<Rightarrow> [f])) @
     (case st_Replay st of None \<Rightarrow> [] | Some r \<Rightarrow> [fst r])"

definition step_assertions :: "pack_step \<Rightarrow> pack_assertion list" where
  "step_assertions st = (case st_Assert st of None \<Rightarrow> [] | Some as \<Rightarrow> as)"

definition earlier :: "scenario_validation \<Rightarrow> nat \<Rightarrow> string \<Rightarrow> bool" where
  "earlier sv index r \<longleftrightarrow> (\<exists>i<index. aget (sv_stepIndexes sv) (referenceRoot r) = Some i)"

definition step_ok :: "scenario_validation \<Rightarrow> requirement_ref list \<Rightarrow> nat \<Rightarrow> pack_step \<Rightarrow> bool" where
  "step_ok sv refs index st \<longleftrightarrow> (\<forall>r\<in>set (step_references st). earlier sv index r) \<and>
     (\<forall>r\<in>set (step_resources st). ahas (sv_resources sv) r) \<and> (\<forall>v\<in>set (step_values st). value_ok sv v) \<and>
     (\<forall>f\<in>set (step_fixtures st). ahas (sv_fixtures sv) f) \<and> (\<forall>a\<in>set (step_assertions st). assertion_ok sv refs a)"

lemmas step_parts = step_references_def step_resources_def step_values_def step_fixtures_def step_assertions_def

lemma previous_earlier: "requirePreviousReference r index p sv = None \<Longrightarrow> earlier sv index r"
  by (auto simp: requirePreviousReference_def earlier_def split: option.splits)

text \<open>One fact per kind of step.\<close>

lemma step_kinds_grown:
  "step_invoke p i sv = Inr sv' \<Longrightarrow> sv_inv sv \<Longrightarrow> grown sv sv' \<and> (\<forall>f. is_Fixture i = Some f \<longrightarrow> ahas (sv_fixtures sv') f) \<and>
     (\<forall>r. is_Request i = Some r \<longrightarrow> value_ok sv' (JObject r))"
  "step_capture p index c sv = Inr sv' \<Longrightarrow> sv' = sv \<and> earlier sv index (fst c)"
  "step_register p index r sv = Inr sv' \<Longrightarrow> sv' = sv \<and> ahas (sv_resources sv) (fst r) \<and> earlier sv index (snd r)"
  "step_tool_result p index t sv = Inr sv' \<Longrightarrow> sv_inv sv \<Longrightarrow> grown sv sv' \<and> earlier sv index (fst t) \<and> value_ok sv' (snd t)"
  "step_wait E stepID p index limit w sv = Inr sv' \<Longrightarrow> costs_set sv \<Longrightarrow> grown sv sv' \<and> earlier sv index (fst w)"
  "step_cancel p index c sv = Inr sv' \<Longrightarrow> sv' = sv \<and> earlier sv index (fst c)"
  "step_replay p q sv = Inr sv' \<Longrightarrow> grown sv sv' \<and> ahas (sv_fixtures sv') (fst q)"
  "step_finalize p f sv = Inr sv' \<Longrightarrow> sv' = sv \<and> ahas (sv_resources sv) f"
proof -
  show "grown sv sv' \<and> (\<forall>f. is_Fixture i = Some f \<longrightarrow> ahas (sv_fixtures sv') f) \<and> (\<forall>r. is_Request i = Some r \<longrightarrow> value_ok sv' (JObject r))"
    if a: "step_invoke p i sv = Inr sv'" "sv_inv sv"
  proof -
    from a(1) obtain r sv1 where r: "is_Request i = Some r" "validateDynamicValue (JObject r) (p @ ''.invoke.request'') sv1 = Inr sv'"
      and f: "(case is_Fixture i of None \<Rightarrow> Inr sv | Some f \<Rightarrow> resolveFixture f (p @ ''.invoke.controlledBackend.fixture'') sv) = Inr sv1"
      by (auto simp: step_invoke_def bind_res_Inr simp del: validateDynamicValue.simps split: option.splits)
    have g: "grown sv sv1 \<and> (\<forall>f. is_Fixture i = Some f \<longrightarrow> ahas (sv_fixtures sv1) f)"
      using f resolveFixture_grown by (auto split: option.splits)
    then have "sv_inv sv1" using a(2) by (simp add: grown_def)
    from dynamic_grown(1) [OF this r(2)] g r(1) \<open>sv_inv sv1\<close> show ?thesis by (auto intro: grown_trans has_grown)
  qed
  show "sv' = sv \<and> earlier sv index (fst c)" if "step_capture p index c sv = Inr sv'"
    using that previous_earlier by (auto simp: step_capture_def)
  show "sv' = sv \<and> ahas (sv_resources sv) (fst r) \<and> earlier sv index (snd r)" if "step_register p index r sv = Inr sv'"
    using that previous_earlier by (auto simp: step_register_def)
  show "grown sv sv' \<and> earlier sv index (fst t) \<and> value_ok sv' (snd t)" if "step_tool_result p index t sv = Inr sv'" "sv_inv sv"
    using that previous_earlier dynamic_grown(1) by (auto simp: step_tool_result_def)
  show "grown sv sv' \<and> earlier sv index (fst w)" if "step_wait E stepID p index limit w sv = Inr sv'" "costs_set sv"
    using that previous_earlier by (auto simp: step_wait_def intro: add_cel_grown split: prod.splits sum.splits)
  show "sv' = sv \<and> earlier sv index (fst c)" if "step_cancel p index c sv = Inr sv'"
    using that previous_earlier by (auto simp: step_cancel_def)
  show "grown sv sv' \<and> ahas (sv_fixtures sv') (fst q)" if "step_replay p q sv = Inr sv'"
    using that resolveFixture_grown by (auto simp: step_replay_def bind_res_Inr)
  show "sv' = sv \<and> ahas (sv_resources sv) f" if "step_finalize p f sv = Inr sv'"
    using that by (auto simp: step_finalize_def)
qed

lemma earlier_grown: "grown a b \<Longrightarrow> earlier a index r \<Longrightarrow> earlier b index r"
  by (simp add: earlier_def grown_def)

definition step_of :: "string \<Rightarrow> invoke_step option \<Rightarrow> (string \<times> string) option \<Rightarrow> (string \<times> string) option \<Rightarrow> (string \<times> json_value) option \<Rightarrow>
    (string \<times> string \<times> duration) option \<Rightarrow> pack_assertion list option \<Rightarrow> (string \<times> string) option \<Rightarrow> (string \<times> string) option \<Rightarrow> string option \<Rightarrow> pack_step" where
  "step_of i a b c d e f g h k = \<lparr>st_ID = i, st_Invoke = a, st_Capture = b, st_RegisterResource = c, st_ProvideToolResult = d, st_WaitFor = e,
     st_Assert = f, st_Cancel = g, st_Replay = h, st_Finalize = k\<rparr>"

text \<open>A step with one operation has one of nine shapes.\<close>

lemma one_variant: "countStepVariants st = 1 \<Longrightarrow>
    (\<exists>x. st = step_of (st_ID st) (Some x) None None None None None None None None) \<or>
    (\<exists>x. st = step_of (st_ID st) None (Some x) None None None None None None None) \<or>
    (\<exists>x. st = step_of (st_ID st) None None (Some x) None None None None None None) \<or>
    (\<exists>x. st = step_of (st_ID st) None None None (Some x) None None None None None) \<or>
    (\<exists>x. st = step_of (st_ID st) None None None None (Some x) None None None None) \<or>
    (\<exists>x. st = step_of (st_ID st) None None None None None (Some x) None None None) \<or>
    (\<exists>x. st = step_of (st_ID st) None None None None None None (Some x) None None) \<or>
    (\<exists>x. st = step_of (st_ID st) None None None None None None None (Some x) None) \<or>
    (\<exists>x. st = step_of (st_ID st) None None None None None None None None (Some x))"
  by (cases st) (auto simp: countStepVariants_def step_of_def simp del: split_paired_All split_paired_Ex split: if_splits)

lemma same_step_Inr: "same_step st r = Inr (st', sv') \<longleftrightarrow> r = Inr sv' \<and> st' = st"
  by (auto simp: same_step_def split: sum.splits)

lemma step_grown:
  assumes "validateStep E s index st sv = Inr (st', sv')" "countStepVariants st = 1" "sv_inv sv" "costs_set sv"
  shows "grown sv sv' \<and> step_ok sv' (sp_Requirements (ps_Spec s)) index st' \<and> countStepVariants st' = 1 \<and> st_ID st' = st_ID st"
proof -
  obtain i where i: "st_ID st = i" by simp
  note v = assms(1) [unfolded validateStep_def Let_def] and inv = assms(3,4)
  note ok = step_ok_def step_parts countStepVariants_def step_of_def
  from one_variant [OF assms(2), unfolded i] show ?thesis
  proof (elim disjE exE)
    fix x assume st: "st = step_of i (Some x) None None None None None None None None"
    with v have "step_invoke (index_path ''$.spec.steps'' index) x sv = Inr sv'" "st' = st" by (simp_all add: step_of_def same_step_Inr)
    with step_kinds_grown(1) [OF this(1) inv(1)] show ?thesis by (auto simp: ok st split: option.splits)
  next
    fix x assume st: "st = step_of i None (Some x) None None None None None None None"
    with v have "step_capture (index_path ''$.spec.steps'' index) index x sv = Inr sv'" "st' = st" by (simp_all add: step_of_def same_step_Inr)
    with step_kinds_grown(2) [OF this(1)] show ?thesis by (simp add: ok st)
  next
    fix x assume st: "st = step_of i None None (Some x) None None None None None None"
    with v have "step_register (index_path ''$.spec.steps'' index) index x sv = Inr sv'" "st' = st" by (simp_all add: step_of_def same_step_Inr)
    with step_kinds_grown(3) [OF this(1)] show ?thesis by (simp add: ok st)
  next
    fix x assume st: "st = step_of i None None None (Some x) None None None None None"
    with v have "step_tool_result (index_path ''$.spec.steps'' index) index x sv = Inr sv'" "st' = st" by (simp_all add: step_of_def same_step_Inr)
    with step_kinds_grown(4) [OF this(1) inv(1)] show ?thesis by (auto simp: ok st intro: earlier_grown)
  next
    fix x assume st: "st = step_of i None None None None (Some x) None None None None"
    with v have "step_wait E i (index_path ''$.spec.steps'' index) index (sb_Timeout (sp_Budgets (ps_Spec s))) x sv = Inr sv'" "st' = st"
      by (simp_all add: step_of_def same_step_Inr)
    with step_kinds_grown(5) [OF this(1) inv(2)] show ?thesis by (auto simp: ok st intro: earlier_grown)
  next
    fix x assume st: "st = step_of i None None None None None (Some x) None None None"
    with v obtain as' where "assertion_loop E i index s 0 x sv = Inr (as', sv')" "st' = st\<lparr>st_Assert := Some as'\<rparr>"
      by (auto simp: step_of_def step_assert_def split: if_splits sum.splits)
    with assertions_grown [OF this(1) inv] show ?thesis by (simp add: ok st)
  next
    fix x assume st: "st = step_of i None None None None None None (Some x) None None"
    with v have "step_cancel (index_path ''$.spec.steps'' index) index x sv = Inr sv'" "st' = st" by (simp_all add: step_of_def same_step_Inr)
    with step_kinds_grown(6) [OF this(1)] show ?thesis by (simp add: ok st)
  next
    fix x assume st: "st = step_of i None None None None None None None (Some x) None"
    with v have "step_replay (index_path ''$.spec.steps'' index) x sv = Inr sv'" "st' = st" by (simp_all add: step_of_def same_step_Inr)
    with step_kinds_grown(7) [OF this(1)] show ?thesis by (simp add: ok st)
  next
    fix x assume st: "st = step_of i None None None None None None None None (Some x)"
    with v have "step_finalize (index_path ''$.spec.steps'' index) x sv = Inr sv'" "st' = st" by (simp_all add: step_of_def same_step_Inr)
    with step_kinds_grown(8) [OF this(1)] show ?thesis by (simp add: ok st)
  qed
qed

section \<open>The loops\<close>

text \<open>The validation at a later point of a scenario; every loop of the code relates its states by it.\<close>

definition later :: "scenario_validation \<Rightarrow> scenario_validation \<Rightarrow> bool" where
  "later a b \<longleftrightarrow> sv_inv b \<and> sv_options b = sv_options a \<and> map_extends (sv_requirements a) (sv_requirements b) \<and>
     map_extends (sv_fixtures a) (sv_fixtures b) \<and> map_extends (sv_stepIndexes a) (sv_stepIndexes b) \<and>
     sv_resources b = sv_resources a \<and> set (sv_templateBindings a) \<subseteq> set (sv_templateBindings b)"

lemma grown_later: "grown a b \<Longrightarrow> sv_inv a \<Longrightarrow> later a b"
  by (simp add: grown_def later_def)

lemma later_refl: "sv_inv a \<Longrightarrow> later a a"
  by (simp add: later_def)

lemma later_trans: "later a b \<Longrightarrow> later b c \<Longrightarrow> later a c"
  by (auto simp: later_def map_extends_def)

lemma later_ahas: "later a b \<Longrightarrow> ahas (sv_fixtures a) k \<Longrightarrow> ahas (sv_fixtures b) k"
  "later a b \<Longrightarrow> ahas (sv_requirements a) k \<Longrightarrow> ahas (sv_requirements b) k"
  by (auto simp: later_def map_extends_def ahas_def)

lemma string_ok_later: "string_ok a s \<Longrightarrow> later a b \<Longrightarrow> string_ok b s"
  by (auto simp: string_ok_def later_def allowed_variables_def)

lemma value_ok_later: "value_ok a v \<Longrightarrow> later a b \<Longrightarrow> value_ok b v"
  unfolding value_ok_def fixture_ok_def by (meson string_ok_later later_ahas(1))

lemma assertion_ok_later: "assertion_ok a refs x \<Longrightarrow> later a b \<Longrightarrow> assertion_ok b refs x"
  unfolding assertion_ok_def by (meson later_def map_extends_def later_ahas(2))

lemma earlier_later: "earlier a index r \<Longrightarrow> later a b \<Longrightarrow> earlier b index r"
  by (auto simp: earlier_def later_def map_extends_def)

lemma step_ok_later: "step_ok a refs index st \<Longrightarrow> later a b \<Longrightarrow> step_ok b refs index st"
  by (auto simp: step_ok_def intro: value_ok_later assertion_ok_later earlier_later later_ahas) (simp add: later_def)

text \<open>The recorded indexes are those of the steps so far.\<close>

definition indexed :: "pack_step list \<Rightarrow> scenario_validation \<Rightarrow> bool" where
  "indexed pre sv \<longleftrightarrow> (\<forall>k i. aget (sv_stepIndexes sv) k = Some i \<longleftrightarrow> i < length pre \<and> st_ID (pre ! i) = k)"

lemma indexed_distinct: "indexed pre sv \<Longrightarrow> distinct (map st_ID pre)"
  unfolding distinct_conv_nth indexed_def by (metis length_map nth_map option.inject)

lemma indexed_snoc:
  assumes "indexed pre sv" "\<not> ahas (sv_stepIndexes sv) (st_ID st)" "sv_stepIndexes sv' = aput (st_ID st) (length pre) (sv_stepIndexes sv)"
    "st_ID st' = st_ID st"
  shows "indexed (pre @ [st']) sv'"
  using assms by (auto simp: indexed_def ahas_def nth_append less_Suc_eq)

lemma step_insert_later:
  assumes "sv_inv sv" "\<not> ahas (sv_stepIndexes sv) k"
  shows "later sv (sv\<lparr>sv_stepIndexes := aput k i (sv_stepIndexes sv)\<rparr>)"
  using assms by (auto simp: later_def sv_inv_def map_extends_def ahas_def)

lemma costs_set_later: "later a b \<Longrightarrow> costs_set b = costs_set a"
  by (simp add: costs_set_def later_def)

lemma steps_later:
  assumes "step_loop E s (length pre) sts sv = Inr (sts', sv')" "sv_inv sv" "costs_set sv" "indexed pre sv"
  shows "later sv sv' \<and> indexed (pre @ sts') sv' \<and>
    (\<forall>j<length sts'. countStepVariants (sts' ! j) = 1 \<and> step_ok sv' (sp_Requirements (ps_Spec s)) (length pre + j) (sts' ! j))"
  using assms
proof (induction sts arbitrary: pre sv sts')
  case Nil
  then show ?case by (auto simp: later_refl)
next
  case (Cons st sts)
  let ?sv0 = "sv\<lparr>sv_stepIndexes := aput (st_ID st) (length pre) (sv_stepIndexes sv)\<rparr>"
  from Cons.prems(1) obtain st1 sv1 sts1 where c: "step_check (length pre) st sv = None"
    and v: "validateStep E s (length pre) st ?sv0 = Inr (st1, sv1)"
    and r: "step_loop E s (Suc (length pre)) sts sv1 = Inr (sts1, sv')" and sts': "sts' = st1 # sts1"
    by (auto split: sum.splits prod.splits)
  from c have one: "countStepVariants st = 1" and new: "\<not> ahas (sv_stepIndexes sv) (st_ID st)" by (auto simp: step_check_def Let_def)
  note l0 = step_insert_later [OF Cons.prems(2) new, of "length pre"]
  then have i0: "sv_inv ?sv0" "costs_set ?sv0" using Cons.prems(3) by (auto simp: later_def costs_set_def)
  note g = step_grown [OF v one i0]
  then have l1: "later ?sv0 sv1" using i0 by (simp add: grown_later)
  then have i1: "sv_inv sv1" "costs_set sv1" using i0 costs_set_later [OF l1] by (simp_all add: later_def)
  have ix: "indexed (pre @ [st1]) sv1" using Cons.prems(4) new g by (auto simp: grown_def intro!: indexed_snoc [of pre sv st])
  from r have "step_loop E s (length (pre @ [st1])) sts sv1 = Inr (sts1, sv')" by simp
  note h = Cons.IH [OF this i1 ix]
  have "step_ok sv' (sp_Requirements (ps_Spec s)) (length pre) st1" using g h step_ok_later by blast
  moreover have "later sv sv'" using later_trans l0 l1 h by blast
  ultimately show ?case using h g by (auto simp: sts' nth_Cons split: nat.splits)
qed

lemma requirements_later:
  assumes "requirement_loop k declared refs sv = Inr sv'" "sv_inv sv"
  shows "later sv sv' \<and> sv_stepIndexes sv' = sv_stepIndexes sv \<and> distinct (map rr_ID refs) \<and> set declared \<inter> rr_ID ` set refs = {} \<and>
    (\<forall>r\<in>set refs. \<exists>q. aget (sv_requirements sv') (rr_ID r) = Some q \<and> rq_Level q = rr_Level r)"
  using assms
proof (induction refs arbitrary: k declared sv)
  case (Cons r refs)
  from Cons.prems(1) obtain q where q: "rr_ID r \<notin> set declared" "requirementRecord sv (rr_ID r) = Inr q" "rq_Level q = rr_Level r"
    "requirement_loop (Suc k) (rr_ID r # declared) refs (link_requirement q sv) = Inr sv'"
    by (auto simp: Let_def split: if_splits sum.splits)
  note g = link_grown [OF q(2)]
  then have l: "later sv (link_requirement q sv)" using Cons.prems(2) by (simp add: grown_later)
  then have "sv_inv (link_requirement q sv)" by (simp add: later_def)
  note h = Cons.IH [OF q(4) this]
  have "aget (sv_requirements sv') (rr_ID r) = Some q" using g h by (auto simp: later_def map_extends_def)
  with h l q show ?case by (auto simp: link_requirement_def intro: later_trans)
qed (simp add: later_refl)

lemma resources_indexed:
  assumes "resource_loop k c rs sv = Inr sv'"
  shows "sv' = sv\<lparr>sv_resources := sv_resources sv'\<rparr> \<and> distinct (map rl_ID rs) \<and> (\<forall>r\<in>set rs. \<not> ahas (sv_resources sv) (rl_ID r)) \<and>
    (\<forall>i. ahas (sv_resources sv') i \<longleftrightarrow> ahas (sv_resources sv) i \<or> i \<in> rl_ID ` set rs) \<and>
    (\<forall>r\<in>set rs. rl_Idempotent r = Some True \<and> 0 < sint (rl_MaxAttempts r) \<and> sint (rl_MaxAttempts r) \<le> 10 \<and> 0 < sint (rl_Requests r) \<and> 0 < rl_Duration r)"
  using assms
proof (induction rs arbitrary: k sv)
  case (Cons r rs)
  let ?sv1 = "sv\<lparr>sv_resources := aput (rl_ID r) r (sv_resources sv)\<rparr>"
  from Cons.prems have c: "resource_check (index_path ''$.spec.resources'' k) c r sv = None" and l: "resource_loop (Suc k) c rs ?sv1 = Inr sv'"
    by simp_all
  from c have "rl_Idempotent r = Some True \<and> 0 < sint (rl_MaxAttempts r) \<and> sint (rl_MaxAttempts r) \<le> 10 \<and> 0 < sint (rl_Requests r) \<and> 0 < rl_Duration r"
    "\<not> ahas (sv_resources sv) (rl_ID r)"
    by (simp_all add: resource_check_def duration_Validate_def not_le)
  with Cons.IH [OF l] show ?case by (auto)
qed simp

lemma finally_lifo: "finally_loop k fs rs = None \<Longrightarrow> length fs = length rs \<Longrightarrow> fs = map rl_ID rs"
  by (induction k fs rs rule: finally_loop.induct) auto

lemma acquire_named: "acquire_loop k rs sv = None \<Longrightarrow> r \<in> set rs \<Longrightarrow> ahas (sv_stepIndexes sv) (referenceRoot (rl_AcquireFrom r))"
  by (induction k rs sv rule: acquire_loop.induct) (auto simp: requireAnyStepReference_def)

end
