(* ===== verification/PackCompile.thy ===== *)
theory PackCompile
  imports PackResolved
begin

text \<open>
  Package \<open>packapi\<close>, the compiler (\<open>pkg/packapi/compile.go\<close> and the pack part of \<open>validate.go\<close>): authored
  scenarios and packs become immutable projections with a digest.  Canonical JSON and SHA-256 are parameters.
\<close>

section \<open>Compiled scenarios\<close>

record compiler_identity =
  ci_Name :: string
  ci_Version :: string
  ci_Canonicalization :: string
  ci_CELEnvironment :: string

definition compilerIdentity :: compiler_identity where
  "compilerIdentity = \<lparr>ci_Name = ''agentapi-doctor-pack-compiler'', ci_Version = ''0.1.0'', ci_Canonicalization = ''RFC8785'',
     ci_CELEnvironment = ''restricted-pure-v1''\<rparr>"

record requirement_link =
  rk_ID :: string
  rk_Level :: requirement_level
  rk_Category :: scenario_class
  rk_SourceDigest :: digest

record fixture_pin =
  fp_Ref :: string
  fp_Digest :: digest

record scenario_ir =
  sir_SchemaVersion :: string
  sir_Kind :: string
  sir_Compiler :: compiler_identity
  sir_Scenario :: pack_scenario
  sir_RequirementLinks :: "requirement_link list"
  sir_FixturePins :: "fixture_pin list"
  sir_CELBindings :: "cel_binding list"
  sir_TemplateBindings :: "template_binding list"

record compiled_scenario =
  cs_Authored :: pack_scenario
  cs_IR :: scenario_ir
  cs_CanonicalJSON :: string
  cs_Digest :: digest

text \<open>The texts of the errors are searched, as the code does; the formatted arguments are not part of them here.\<close>

definition classifyDecodeError :: "go_error \<Rightarrow> compile_error" where
  "classifyDecodeError e =
     CompileError (if contains_text (error_text e) ''JSON Schema validation'' \<or> contains_text (error_text e) ''decode authored contract''
       then StageSchema else StageParse) ''$'' e"

definition link_of :: "requirement_record \<Rightarrow> requirement_link" where
  "link_of r = \<lparr>rk_ID = rq_ID r, rk_Level = rq_Level r, rk_Category = rq_Category r, rk_SourceDigest = rq_SourceDigest r\<rparr>"

definition default_repetition :: "pack_scenario \<Rightarrow> pack_scenario" where
  "default_repetition s =
     (if sp_Count (ps_Spec s) = 0 \<and> sp_Policy (ps_Spec s) = [] then s\<lparr>ps_Spec := (ps_Spec s)\<lparr>sp_Count := 1, sp_Policy := ''all''\<rparr>\<rparr> else s)"

definition scenario_ir_of :: "pack_scenario \<Rightarrow> scenario_validation \<Rightarrow> scenario_ir" where
  "scenario_ir_of s sv = \<lparr>sir_SchemaVersion = ''urn:agentapi-doctor:compiled-scenario:v1'', sir_Kind = ''CompiledScenario'',
     sir_Compiler = compilerIdentity, sir_Scenario = s,
     sir_RequirementLinks = sort_key rk_ID (map (\<lambda>p. link_of (snd p)) (sv_requirements sv)),
     sir_FixturePins = sort_key fp_Ref (map (\<lambda>p. \<lparr>fp_Ref = fst p, fp_Digest = snd p\<rparr>) (sv_fixtures sv)),
     sir_CELBindings = sv_celBindings sv, sir_TemplateBindings = sv_templateBindings sv\<rparr>"

text \<open>\<open>canon\<close> is \<open>CanonicalMarshal\<close> and \<open>sha\<close> is SHA-256.\<close>

definition CompileScenarioYAML ::
  "pack_scenario authoring \<Rightarrow> pack_env \<Rightarrow> (scenario_ir \<Rightarrow> string res) \<Rightarrow> (string \<Rightarrow> byte list) \<Rightarrow> string \<Rightarrow> compile_options \<Rightarrow> compiled_scenario compiled" where
  "CompileScenarioYAML A E canon sha raw options =
     (case decodeAuthoredYAML A raw of
        Inl e \<Rightarrow> Inl (classifyDecodeError e)
      | Inr s0 \<Rightarrow>
          (case validateScenario E (default_repetition s0) options of
             Inl e \<Rightarrow> Inl e
           | Inr (s, sv) \<Rightarrow>
               (case canon (scenario_ir_of s sv) of
                  Inl e \<Rightarrow> Inl (CompileError StageCanonical ''$'' e)
                | Inr canonical \<Rightarrow> Inr \<lparr>cs_Authored = s, cs_IR = scenario_ir_of s sv, cs_CanonicalJSON = canonical, cs_Digest = NewDigest sha canonical\<rparr>)))"

section \<open>Globs\<close>

text \<open>
  The regular expression that \<open>globMatches\<close> builds, as a list of its pieces: a literal rune, \<open>[^/]\<close>,
  \<open>[^/]*\<close>, \<open>.*\<close> and \<open>(?:.*/)?\<close>.  A byte of the pattern is turned into the rune with its number.
\<close>

datatype glob_piece = GlobLit nat | GlobOne | GlobStar | GlobDeep | GlobDirs

fun glob_pieces :: "string \<Rightarrow> glob_piece list" where
  "glob_pieces [] = []"
| "glob_pieces (c # cs) =
     (if c = CHR ''*'' then
        (case cs of
           d # ds \<Rightarrow>
             if d = CHR ''*'' then
               (case ds of
                  e # es \<Rightarrow> if e = CHR ''/'' then GlobDirs # glob_pieces es else GlobDeep # glob_pieces (e # es)
                | [] \<Rightarrow> [GlobDeep])
             else GlobStar # glob_pieces (d # ds)
         | [] \<Rightarrow> [GlobStar])
      else (if c = CHR ''?'' then GlobOne else GlobLit (code c)) # glob_pieces cs)"

text \<open>Anchored matching over the runes of a text; a dot matches any rune but the newline.\<close>

definition slash_rune :: nat where "slash_rune = 47"
definition newline_rune :: nat where "newline_rune = 10"

fun dirs_ends :: "nat list \<Rightarrow> nat list list" where
  "dirs_ends [] = []"
| "dirs_ends (r # rs) = (if r = slash_rune then [rs] else []) @ (if r = newline_rune then [] else dirs_ends rs)"

fun run_ends :: "nat \<Rightarrow> nat list \<Rightarrow> nat list list" where
  "run_ends stop [] = [[]]"
| "run_ends stop (r # rs) = (r # rs) # (if r = stop then [] else run_ends stop rs)"

fun glob_run :: "glob_piece list \<Rightarrow> nat list \<Rightarrow> bool" where
  "glob_run [] rs \<longleftrightarrow> rs = []"
| "glob_run (GlobLit x # ps) rs \<longleftrightarrow> (case rs of [] \<Rightarrow> False | r # rs1 \<Rightarrow> r = x \<and> glob_run ps rs1)"
| "glob_run (GlobOne # ps) rs \<longleftrightarrow> (case rs of [] \<Rightarrow> False | r # rs1 \<Rightarrow> r \<noteq> slash_rune \<and> glob_run ps rs1)"
| "glob_run (GlobStar # ps) rs \<longleftrightarrow> list_ex (glob_run ps) (run_ends slash_rune rs)"
| "glob_run (GlobDeep # ps) rs \<longleftrightarrow> list_ex (glob_run ps) (run_ends newline_rune rs)"
| "glob_run (GlobDirs # ps) rs \<longleftrightarrow> list_ex (glob_run ps) (rs # dirs_ends rs)"

definition globMatches :: "string \<Rightarrow> string \<Rightarrow> bool" where
  "globMatches pattern value = glob_run (glob_pieces pattern) (runes value)"

section \<open>Packs\<close>

record protocol_pack =
  pk_APIVersion :: string
  pk_Kind :: string
  pk_Name :: string
  pk_Version :: string
  pk_MinVersion :: string
  pk_MaxMajor :: i64
  pk_SnapshotRef :: string
  pk_Include :: "string list"
  pk_Suites :: "(string, string list) gomap"
  pk_MaxRequests :: i64
  pk_MaxDuration :: duration
  pk_SigningDigest :: digest

record pack_options =
  po_ProtocolSnapshots :: "(string, digest) gomap"
  po_ScenarioFiles :: "(string, digest) gomap"

record scenario_pin =
  sn_Path :: string
  sn_Digest :: digest

definition PackAPIVersion :: string where "PackAPIVersion = ''urn:agentapi-doctor:pack:v1''"
definition PackKind :: string where "PackKind = ''ProtocolPack''"

text \<open>\<open>strconv.ParseInt\<close> returns the largest number together with a range error, which the code ignores.\<close>

definition minimum_major :: "string \<Rightarrow> int" where
  "minimum_major version = (case ParseInt64 (fst (cut_at CHR ''.'' version)) of Some v \<Rightarrow> v | None \<Rightarrow> 2 ^ 63 - 1)"

definition pack_check :: "protocol_pack \<Rightarrow> compile_error option" where
  "pack_check p = first_err
     [semantic_if (pk_APIVersion p \<noteq> PackAPIVersion \<or> pk_Kind p \<noteq> PackKind) ''$'' ''pack apiVersion/kind mismatch'',
      semantic_if (\<not> artifactNamePattern (pk_Name p)) ''$.metadata.name'' ''invalid pack name'',
      semantic_if (\<not> calverPattern (pk_Version p)) ''$.metadata.version'' ''pack version must be YYYY.MM.patch CalVer'',
      semantic_if (\<not> semverPattern (pk_MinVersion p) \<or> sint (pk_MaxMajor p) \<le> 0) ''$.spec.engine'' ''invalid engine version range'',
      semantic_if (minimum_major (pk_MinVersion p) > sint (pk_MaxMajor p)) ''$.spec.engine.maxMajor'' ''maxMajor is below minVersion major'',
      map_option (fixture_error ''$.spec.protocolSnapshot.ref'') (validateSafeRelativePath (pk_SnapshotRef p) False)]"

definition snapshot_digest :: "protocol_pack \<Rightarrow> pack_options \<Rightarrow> digest compiled" where
  "snapshot_digest p o1 =
     (case aget (po_ProtocolSnapshots o1) (pk_SnapshotRef p) of
        None \<Rightarrow> Inl (fixture_error ''$.spec.protocolSnapshot.ref'' (Err ''protocol snapshot is not supplied''))
      | Some d \<Rightarrow> guard_res (map_option (fixture_error ''$.spec.protocolSnapshot.ref'') (digest_Validate d)) (Inr d))"

text \<open>One include pattern against the supplied files in the order of their paths: whether one matched, and the files selected so far.\<close>

fun candidate_loop ::
  "string \<Rightarrow> string \<Rightarrow> (string \<times> digest) list \<Rightarrow> bool \<times> (string, digest) gomap \<Rightarrow> (bool \<times> (string, digest) gomap) compiled" where
  "candidate_loop fieldPath pattern [] st = Inr st"
| "candidate_loop fieldPath pattern (f # fs) st =
     guard_res (map_option (\<lambda>e. fixture_error fieldPath (Wrap ''candidate scenario path'' e)) (validateSafeRelativePath (fst f) False))
       (if globMatches pattern (fst f)
        then guard_res (map_option (fixture_error fieldPath) (wrap_err ''scenario digest'' (digest_Validate (snd f))))
               (candidate_loop fieldPath pattern fs (True, aput (fst f) (snd f) (snd st)))
        else candidate_loop fieldPath pattern fs st)"

fun include_loop ::
  "nat \<Rightarrow> string list \<Rightarrow> (string, digest) gomap \<Rightarrow> string list \<Rightarrow> (string, digest) gomap \<Rightarrow> (string, digest) gomap compiled" where
  "include_loop index seen files [] selected = Inr selected"
| "include_loop index seen files (pattern # patterns) selected =
     (let fieldPath = index_path ''$.spec.scenarios.include'' index
      in guard_res (first_err [map_option (fixture_error fieldPath) (validateSafeRelativePath pattern True),
             semantic_if (pattern \<in> set seen) fieldPath ''duplicate include pattern''])
           (case candidate_loop fieldPath pattern (sort_key fst files) (False, selected) of
              Inl e \<Rightarrow> Inl e
            | Inr (matched, selected1) \<Rightarrow>
                if \<not> matched then Inl (fixture_error fieldPath (Err ''pattern matched no supplied scenario''))
                else include_loop (Suc index) (pattern # seen) files patterns selected1))"

fun selector_loop :: "string \<Rightarrow> string list \<Rightarrow> string list \<Rightarrow> compile_error option" where
  "selector_loop p seen [] = None"
| "selector_loop p seen (r # rs) = first_err
     [semantic_if (\<not> resourceNamePattern r) p ''invalid requirement selector'',
      semantic_if (r \<in> set seen) p ''duplicate requirement selector'',
      selector_loop p (r # seen) rs]"

definition suite_check :: "string \<times> string list \<Rightarrow> compile_error option" where
  "suite_check s = first_err
     [semantic_if (\<not> resourceNamePattern (fst s) \<or> snd s = []) ''$.spec.conformanceSuites'' ''invalid suite'',
      selector_loop (''$.spec.conformanceSuites.'' @ fst s) [] (snd s)]"

definition pack_rest :: "protocol_pack \<Rightarrow> compile_error option" where
  "pack_rest p = first_err
     ([semantic_if (pk_Suites p = []) ''$.spec.conformanceSuites'' ''at least one suite is required'']
      @ map suite_check (sort_key fst (pk_Suites p))
      @ [semantic_if (sint (pk_MaxRequests p) \<le> 0) ''$.spec.defaultBudget.maxRequests'' ''must be positive'',
         semantic_err ''$.spec.defaultBudget.maxDuration'' (duration_Validate (pk_MaxDuration p)),
         (if pk_SigningDigest p \<noteq> [] then semantic_err ''$.spec.signing.digest'' (digest_Validate (pk_SigningDigest p)) else None)])"

record pack_validation =
  pv_snapshotDigest :: digest
  pv_scenarios :: "scenario_pin list"

definition pins_of :: "(string, digest) gomap \<Rightarrow> scenario_pin list" where
  "pins_of selected = sort_key sn_Path (map (\<lambda>p. \<lparr>sn_Path = fst p, sn_Digest = snd p\<rparr>) selected)"

definition validatePack :: "protocol_pack \<Rightarrow> pack_options \<Rightarrow> pack_validation compiled" where
  "validatePack p o1 =
     guard_res (pack_check p)
       (bind_res (snapshot_digest p o1) (\<lambda>d.
          guard_res (semantic_if (pk_Include p = []) ''$.spec.scenarios.include'' ''at least one scenario include is required'')
            (bind_res (include_loop 0 [] (po_ScenarioFiles o1) (pk_Include p) []) (\<lambda>selected.
               guard_res (pack_rest p) (Inr \<lparr>pv_snapshotDigest = d, pv_scenarios = pins_of selected\<rparr>)))))"

text \<open>The projection of a pack: everything but the expected digest of its signature.\<close>

record pack_ir =
  pir_SchemaVersion :: string
  pir_Kind :: string
  pir_Name :: string
  pir_Version :: string
  pir_MinVersion :: string
  pir_MaxMajor :: i64
  pir_SnapshotRef :: string
  pir_Include :: "string list"
  pir_Suites :: "(string, string list) gomap"
  pir_MaxRequests :: i64
  pir_MaxDuration :: duration
  pir_Compiler :: compiler_identity
  pir_ProtocolSnapshotDigest :: digest
  pir_ScenarioPins :: "scenario_pin list"

record compiled_pack =
  cp_Authored :: protocol_pack
  cp_IR :: pack_ir
  cp_CanonicalJSON :: string
  cp_Digest :: digest

definition pack_ir_of :: "protocol_pack \<Rightarrow> pack_validation \<Rightarrow> pack_ir" where
  "pack_ir_of p v = \<lparr>pir_SchemaVersion = ''urn:agentapi-doctor:compiled-pack:v1'', pir_Kind = ''CompiledProtocolPack'', pir_Name = pk_Name p, pir_Version = pk_Version p, pir_MinVersion = pk_MinVersion p, pir_MaxMajor = pk_MaxMajor p,
     pir_SnapshotRef = pk_SnapshotRef p, pir_Include = pk_Include p, pir_Suites = pk_Suites p, pir_MaxRequests = pk_MaxRequests p,
     pir_MaxDuration = pk_MaxDuration p, pir_Compiler = compilerIdentity, pir_ProtocolSnapshotDigest = pv_snapshotDigest v,
     pir_ScenarioPins = pv_scenarios v\<rparr>"

definition CompileProtocolPackYAML ::
  "protocol_pack authoring \<Rightarrow> (pack_ir \<Rightarrow> string res) \<Rightarrow> (string \<Rightarrow> byte list) \<Rightarrow> string \<Rightarrow> pack_options \<Rightarrow> compiled_pack compiled" where
  "CompileProtocolPackYAML A canon sha raw options =
     (case decodeAuthoredYAML A raw of
        Inl e \<Rightarrow> Inl (classifyDecodeError e)
      | Inr p \<Rightarrow>
          bind_res (validatePack p options) (\<lambda>v.
            (case canon (pack_ir_of p v) of
               Inl e \<Rightarrow> Inl (CompileError StageCanonical ''$'' e)
             | Inr canonical \<Rightarrow>
                 if pk_SigningDigest p \<noteq> [] \<and> pk_SigningDigest p \<noteq> NewDigest sha canonical
                 then Inl (CompileError StageCanonical ''$.spec.signing.digest'' (Err ''declared digest does not match compiled digest''))
                 else Inr \<lparr>cp_Authored = p, cp_IR = pack_ir_of p v, cp_CanonicalJSON = canonical, cp_Digest = NewDigest sha canonical\<rparr>)))"

section \<open>What a compiled scenario guarantees\<close>

lemma default_options_fields: "co_Requirements (default_options o1) = co_Requirements o1" "co_Fixtures (default_options o1) = co_Fixtures o1"
  "co_MaxCELCost (default_options o1) \<noteq> 0"
  by (simp_all add: default_options_def DefaultMaxCELCost_def)

lemma sv_inv_resources: "sv_inv (sv\<lparr>sv_resources := R\<rparr>) = sv_inv sv"
  by (simp add: sv_inv_def)

lemma sorted_bindings_later: "sv_inv sv \<Longrightarrow> later sv (sv\<lparr>sv_templateBindings := sort_key tb_Path (sv_templateBindings sv)\<rparr>)"
  by (simp add: later_def sv_inv_def)

lemma validated_scenario:
  assumes "validateScenario E s options = Inr (s', sv)"
  shows "sv_inv sv \<and> sv_options sv = default_options options \<and> co_MaxCELCost (sv_options sv) \<le> AbsoluteMaxCELCost"
    "indexed (sp_Steps (ps_Spec s')) sv"
    "sp_Requirements (ps_Spec s') = sp_Requirements (ps_Spec s) \<and> sp_Resources (ps_Spec s') = sp_Resources (ps_Spec s)"
    "\<forall>j<length (sp_Steps (ps_Spec s')). countStepVariants (sp_Steps (ps_Spec s') ! j) = 1 \<and>
       step_ok sv (sp_Requirements (ps_Spec s')) j (sp_Steps (ps_Spec s') ! j)"
    "\<forall>r\<in>set (sp_Requirements (ps_Spec s')). \<exists>q. aget (sv_requirements sv) (rr_ID r) = Some q \<and> rq_Level q = rr_Level r"
    "sp_Finally (ps_Spec s') = rev (map rl_ID (sp_Resources (ps_Spec s'))) \<and> distinct (map rl_ID (sp_Resources (ps_Spec s')))"
    "\<forall>i. ahas (sv_resources sv) i \<longleftrightarrow> i \<in> rl_ID ` set (sp_Resources (ps_Spec s'))"
    "\<forall>r\<in>set (sp_Resources (ps_Spec s')). ahas (sv_stepIndexes sv) (referenceRoot (rl_AcquireFrom r))"
proof -
  let ?sv0 = "new_validation options" and ?refs = "sp_Requirements (ps_Spec s)" and ?rs = "sp_Resources (ps_Spec s)"
  let ?final = "\<lambda>sv3. sv3\<lparr>sv_templateBindings := sort_key tb_Path (sv_templateBindings sv3)\<rparr>"
  from assms obtain sv1 sv2 sv3 where cost: "\<not> co_MaxCELCost (sv_options ?sv0) > AbsoluteMaxCELCost"
    and r: "validateRequirements ?refs ?sv0 = Inr sv1" and i: "indexResources ?rs (sp_Classification (ps_Spec s)) sv1 = Inr sv2"
    and st: "validateSteps E s sv2 = Inr (s', sv3)" and f: "validateResourceReferencesAndFinally s' sv3 = None" and sv: "sv = ?final sv3"
    by (auto simp: validateScenario_def Let_def bind_res_Inr split: if_splits)
  have i0: "sv_inv ?sv0" "sv_options ?sv0 = default_options options" "sv_stepIndexes ?sv0 = []" "sv_resources ?sv0 = []"
    by (simp_all add: new_validation_def sv_inv_def)
  from r have "requirement_loop 0 [] ?refs ?sv0 = Inr sv1" by (simp add: validateRequirements_def split: if_splits)
  note l1 = requirements_later [OF this i0(1)]
  from i obtain sv2' where i': "resource_loop 0 (sp_Classification (ps_Spec s)) ?rs sv1 = Inr sv2'" "sv2' = sv2"
    by (auto simp: indexResources_def split: sum.splits if_splits)
  note l2 = resources_indexed [OF i'(1), unfolded i'(2)]
  obtain R where R: "sv2 = sv1\<lparr>sv_resources := R\<rparr>" using l2 by blast
  have e2: "sv_requirements sv2 = sv_requirements sv1" "sv_stepIndexes sv2 = []" "sv_options sv2 = default_options options" "sv_resources sv1 = []"
    using l1 i0 by (simp_all add: R later_def)
  have i2: "sv_inv sv2" using l1 by (simp add: R later_def sv_inv_resources)
  have c2: "costs_set sv2" using e2 default_options_fields by (simp add: costs_set_def)
  from st obtain sts where sts: "step_loop E s 0 (sp_Steps (ps_Spec s)) sv2 = Inr (sts, sv3)" "s' = s\<lparr>ps_Spec := (ps_Spec s)\<lparr>sp_Steps := sts\<rparr>\<rparr>"
    by (auto simp: validateSteps_def split: sum.splits if_splits)
  from sts(1) have loop: "step_loop E s (length ([] :: pack_step list)) (sp_Steps (ps_Spec s)) sv2 = Inr (sts, sv3)" by simp
  have "indexed [] sv2" using e2 by (simp add: indexed_def)
  note l3 = steps_later [OF loop i2 c2 this]
  have l4: "later sv3 sv" using l3 sv sorted_bindings_later [of sv3] by (simp add: later_def)
  have l24: "later sv2 sv" using l3 l4 later_trans by blast
  show "sv_inv sv \<and> sv_options sv = default_options options \<and> co_MaxCELCost (sv_options sv) \<le> AbsoluteMaxCELCost"
    using l24 e2 cost i0 by (simp add: later_def)
  show "indexed (sp_Steps (ps_Spec s')) sv" using l3 sv sts by (simp add: indexed_def)
  show "sp_Requirements (ps_Spec s') = ?refs \<and> sp_Resources (ps_Spec s') = ?rs" using sts by simp
  show "\<forall>j<length (sp_Steps (ps_Spec s')). countStepVariants (sp_Steps (ps_Spec s') ! j) = 1 \<and>
       step_ok sv (sp_Requirements (ps_Spec s')) j (sp_Steps (ps_Spec s') ! j)"
    using l3 l4 sts step_ok_later by auto
  show "\<forall>r\<in>set (sp_Requirements (ps_Spec s')). \<exists>q. aget (sv_requirements sv) (rr_ID r) = Some q \<and> rq_Level q = rr_Level r"
    using l1 l24 e2 sts by (fastforce simp: later_def map_extends_def)
  show "sp_Finally (ps_Spec s') = rev (map rl_ID (sp_Resources (ps_Spec s'))) \<and> distinct (map rl_ID (sp_Resources (ps_Spec s')))"
    using f l2 sts finally_lifo [of 0 "sp_Finally (ps_Spec s')" "rev ?rs"]
    by (simp add: validateResourceReferencesAndFinally_def Let_def rev_map)
  show "\<forall>i. ahas (sv_resources sv) i \<longleftrightarrow> i \<in> rl_ID ` set (sp_Resources (ps_Spec s'))"
    using l2 l24 e2(4) sts by (simp add: later_def)
  show "\<forall>r\<in>set (sp_Resources (ps_Spec s')). ahas (sv_stepIndexes sv) (referenceRoot (rl_AcquireFrom r))"
    using f acquire_named [of 0 "sp_Resources (ps_Spec s')" sv3] sv by (simp add: validateResourceReferencesAndFinally_def Let_def)
qed

lemma compiled_validated:
  assumes "CompileScenarioYAML A E canon sha raw options = Inr c"
  obtains s0 s sv where "decodeAuthoredYAML A raw = Inr s0" "validateScenario E (default_repetition s0) options = Inr (s, sv)"
    "cs_IR c = scenario_ir_of s sv" "canon (cs_IR c) = Inr (cs_CanonicalJSON c)" "cs_Digest c = NewDigest sha (cs_CanonicalJSON c)"
  using assms by (auto simp: CompileScenarioYAML_def split: sum.splits)

lemma ir_scenario [simp]: "sir_Scenario (scenario_ir_of s sv) = s"
  by (simp add: scenario_ir_of_def)

lemma ahas_fst: "ahas m k \<longleftrightarrow> k \<in> fst ` set m"
  using set_akeys [of m] by (auto simp: akeys_def)

lemma distinct_map_sort: "distinct (map f (sort_key g xs)) \<longleftrightarrow> distinct (map f xs)"
  by (metis mset_eq_imp_distinct_iff mset_map mset_sort)

lemma ir_pins: "set (sir_FixturePins (scenario_ir_of s sv)) = (\<lambda>p. \<lparr>fp_Ref = fst p, fp_Digest = snd p\<rparr>) ` set (sv_fixtures sv)"
  "fp_Ref ` set (sir_FixturePins (scenario_ir_of s sv)) = {f. ahas (sv_fixtures sv) f}"
  "map_ok (sv_fixtures sv) \<Longrightarrow> distinct (map fp_Ref (sir_FixturePins (scenario_ir_of s sv)))"
proof -
  show "set (sir_FixturePins (scenario_ir_of s sv)) = (\<lambda>p. \<lparr>fp_Ref = fst p, fp_Digest = snd p\<rparr>) ` set (sv_fixtures sv)"
    "fp_Ref ` set (sir_FixturePins (scenario_ir_of s sv)) = {f. ahas (sv_fixtures sv) f}"
    by (force simp: scenario_ir_of_def ahas_fst image_iff)+
  assume "map_ok (sv_fixtures sv)"
  then have "distinct (map fp_Ref (map (\<lambda>p. \<lparr>fp_Ref = fst p, fp_Digest = snd p\<rparr>) (sv_fixtures sv)))" by (simp add: map_ok_def akeys_def o_def)
  then show "distinct (map fp_Ref (sir_FixturePins (scenario_ir_of s sv)))" by (simp add: scenario_ir_of_def distinct_map_sort)
qed

lemma ir_links: "set (sir_RequirementLinks (scenario_ir_of s sv)) = (\<lambda>p. link_of (snd p)) ` set (sv_requirements sv)"
  by (simp add: scenario_ir_of_def)

text \<open>
  C12. A compiled scenario can be run from its first step to its last.  Its steps have distinct names and one
  operation each; whatever a step refers to is an earlier step, so there is no cycle and nothing is read
  before it exists; a step registers and finalizes declared resources only; every resource is acquired from
  a step; and the cleanup finalizes every resource exactly once, in the reverse of the declared order.
\<close>

theorem compiled_scenario_resolved:
  assumes "CompileScenarioYAML A E canon sha raw options = Inr c"
    and "spec = ps_Spec (sir_Scenario (cs_IR c))"
  shows "distinct (map st_ID (sp_Steps spec)) \<and>
    (\<forall>j<length (sp_Steps spec). countStepVariants (sp_Steps spec ! j) = 1 \<and>
       (\<forall>r\<in>set (step_references (sp_Steps spec ! j)). \<exists>i<j. st_ID (sp_Steps spec ! i) = referenceRoot r) \<and>
       set (step_resources (sp_Steps spec ! j)) \<subseteq> rl_ID ` set (sp_Resources spec)) \<and>
    (\<forall>r\<in>set (sp_Resources spec). \<exists>st\<in>set (sp_Steps spec). st_ID st = referenceRoot (rl_AcquireFrom r)) \<and>
    distinct (map rl_ID (sp_Resources spec)) \<and> sp_Finally spec = rev (map rl_ID (sp_Resources spec))"
proof -
  from assms(1) obtain s0 s sv where v: "validateScenario E (default_repetition s0) options = Inr (s, sv)" "cs_IR c = scenario_ir_of s sv"
    by (rule compiled_validated)
  note f = validated_scenario [OF v(1)]
  from assms(2) v(2) have spec: "spec = ps_Spec s" by simp
  have named: "aget (sv_stepIndexes sv) k = Some i \<Longrightarrow> i < length (sp_Steps spec) \<and> st_ID (sp_Steps spec ! i) = k" for k i
    using f(2) by (simp add: indexed_def spec)
  have "countStepVariants (sp_Steps spec ! j) = 1 \<and>
       (\<forall>r\<in>set (step_references (sp_Steps spec ! j)). \<exists>i<j. st_ID (sp_Steps spec ! i) = referenceRoot r) \<and>
       set (step_resources (sp_Steps spec ! j)) \<subseteq> rl_ID ` set (sp_Resources spec)" if "j < length (sp_Steps spec)" for j
    using f(4,7) that named by (fastforce simp: spec step_ok_def earlier_def)
  moreover have "\<exists>st\<in>set (sp_Steps spec). st_ID st = referenceRoot (rl_AcquireFrom r)" if "r \<in> set (sp_Resources spec)" for r
    using f(8) that named by (metis ahas_def nth_mem not_None_eq spec)
  ultimately show ?thesis using f(6) indexed_distinct [OF f(2)] by (simp add: spec)
qed



section \<open>Globs as languages\<close>

text \<open>The reference: the texts that a piece stands for, and their concatenations.\<close>

fun piece_text :: "glob_piece \<Rightarrow> nat list \<Rightarrow> bool" where
  "piece_text (GlobLit x) u \<longleftrightarrow> u = [x]"
| "piece_text GlobOne u \<longleftrightarrow> (\<exists>r. u = [r] \<and> r \<noteq> slash_rune)"
| "piece_text GlobStar u \<longleftrightarrow> slash_rune \<notin> set u"
| "piece_text GlobDeep u \<longleftrightarrow> newline_rune \<notin> set u"
| "piece_text GlobDirs u \<longleftrightarrow> u = [] \<or> (\<exists>v. u = v @ [slash_rune] \<and> newline_rune \<notin> set v)"

fun glob_text :: "glob_piece list \<Rightarrow> nat list \<Rightarrow> bool" where
  "glob_text [] rs \<longleftrightarrow> rs = []"
| "glob_text (p # ps) rs \<longleftrightarrow> (\<exists>u v. rs = u @ v \<and> piece_text p u \<and> glob_text ps v)"

lemma run_ends_iff: "v \<in> set (run_ends stop rs) \<longleftrightarrow> (\<exists>u. rs = u @ v \<and> stop \<notin> set u)"
proof (induction rs)
  case (Cons r rs)
  then show ?case by (auto simp: Cons_eq_append_conv)
qed auto

lemma dirs_ends_iff: "v \<in> set (dirs_ends rs) \<longleftrightarrow> (\<exists>u. rs = u @ slash_rune # v \<and> newline_rune \<notin> set u)"
proof (induction rs)
  case (Cons r rs)
  then show ?case by (auto simp: Cons_eq_append_conv slash_rune_def newline_rune_def)
qed auto

lemma dirs_split: "glob_text (GlobDirs # ps) rs \<longleftrightarrow>
    glob_text ps rs \<or> (\<exists>u v. rs = (u @ [slash_rune]) @ v \<and> newline_rune \<notin> set u \<and> glob_text ps v)" (is "?l \<longleftrightarrow> ?r")
proof
  assume ?l
  then obtain u v where "rs = u @ v" "u = [] \<or> (\<exists>w. u = w @ [slash_rune] \<and> newline_rune \<notin> set w)" "glob_text ps v"
    by (simp only: glob_text.simps piece_text.simps) blast
  then show ?r by (elim disjE exE conjE) (simp, blast)
next
  assume ?r
  then show ?l
  proof
    assume "glob_text ps rs"
    then have "rs = [] @ rs \<and> piece_text GlobDirs [] \<and> glob_text ps rs" by simp
    then show ?l unfolding glob_text.simps by blast
  next
    assume "\<exists>u v. rs = (u @ [slash_rune]) @ v \<and> newline_rune \<notin> set u \<and> glob_text ps v"
    then obtain u v where "rs = (u @ [slash_rune]) @ v \<and> piece_text GlobDirs (u @ [slash_rune]) \<and> glob_text ps v" by auto
    then show ?l unfolding glob_text.simps by blast
  qed
qed

lemma glob_run_text: "glob_run ps rs \<longleftrightarrow> glob_text ps rs"
proof (induction ps arbitrary: rs)
  case (Cons p ps)
  show ?case
  proof (cases p)
    case GlobDirs
    have "glob_text (GlobDirs # ps) rs \<longleftrightarrow>
        glob_text ps rs \<or> (\<exists>u v. rs = (u @ [slash_rune]) @ v \<and> newline_rune \<notin> set u \<and> glob_text ps v)"
      by (rule dirs_split)
    also have "\<dots> \<longleftrightarrow> glob_run (GlobDirs # ps) rs" by (simp add: dirs_ends_iff Cons list_ex_iff Bex_def) blast
    finally show ?thesis by (simp add: GlobDirs)
  next
    case GlobOne
    have "glob_text (GlobOne # ps) rs \<longleftrightarrow> (\<exists>r v. rs = r # v \<and> r \<noteq> slash_rune \<and> glob_text ps v)" by (simp, metis append_Cons append_Nil)
    then show ?thesis unfolding GlobOne by (auto simp: Cons split: list.splits)
  qed (simp_all add: Cons list_ex_iff run_ends_iff Bex_def split: list.splits, blast+)
qed simp

text \<open>A pattern without wildcards in ASCII matches itself only.\<close>

lemma glob_literal:
  assumes "\<forall>c\<in>set pattern. c \<noteq> CHR ''*'' \<and> c \<noteq> CHR ''?'' \<and> code c < 128" "\<forall>c\<in>set value. code c < 128"
  shows "globMatches pattern value \<longleftrightarrow> value = pattern"
proof -
  have "glob_pieces pattern = map (\<lambda>c. GlobLit (code c)) pattern" using assms(1) by (induction pattern) auto
  moreover have "glob_run (map (\<lambda>c. GlobLit (code c)) p) rs \<longleftrightarrow> rs = map code p" for p rs
    by (induction p arbitrary: rs) (auto split: list.splits)
  moreover have "runes value = map code value" using assms(2) by (simp add: runes_def runes_of_ascii)
  moreover have "inj code" by (simp add: inj_def code_def)
  ultimately show ?thesis by (simp add: globMatches_def inj_map_eq_map)
qed

text \<open>The bytes of other characters are taken for runes, so such a pattern does not match the path that it spells.\<close>

theorem glob_nonascii_literal: "\<not> globMatches [CHR 0xC3, CHR 0xA9] [CHR 0xC3, CHR 0xA9]"
  by (simp add: globMatches_def runes_def decode_rune_def second_ok_def cont_def code_def)

section \<open>What a pack pins\<close>

definition included :: "string list \<Rightarrow> string \<Rightarrow> bool" where
  "included patterns path \<longleftrightarrow> (\<exists>p\<in>set patterns. glob_text (glob_pieces p) (runes path))"

lemma aget_Cons: "aget ((k, d) # m) k' = (if k' = k then Some d else aget m k')"
  by (simp add: aget_def)

lemma aget_absent: "k \<notin> fst ` set m \<Longrightarrow> aget m k = None"
  by (simp add: aget_def map_of_eq_None_iff)

lemma candidates_selected:
  assumes "candidate_loop fieldPath pattern fs (m, selected) = Inr (m', selected')" "distinct (map fst fs)"
  shows "(\<forall>k. aget selected' k = (if globMatches pattern k \<and> k \<in> fst ` set fs then aget fs k else aget selected k)) \<and>
    (m' \<longleftrightarrow> m \<or> (\<exists>f\<in>set fs. globMatches pattern (fst f))) \<and> (map_ok selected \<longrightarrow> map_ok selected') \<and>
    (\<forall>f\<in>set fs. validateSafeRelativePath (fst f) False = None) \<and> (\<forall>f\<in>set fs. globMatches pattern (fst f) \<longrightarrow> digest_Validate (snd f) = None)"
  using assms
proof (induction fs arbitrary: m selected)
  case (Cons f fs)
  obtain k d where f: "f = (k, d)" by (cases f) auto
  show ?case
  proof (cases "globMatches pattern k")
    case True
    with Cons.prems(1) have "candidate_loop fieldPath pattern fs (True, aput k d selected) = Inr (m', selected')"
      "validateSafeRelativePath k False = None" "digest_Validate d = None" by (simp_all add: f)
    with Cons.IH [OF this(1)] Cons.prems(2) True show ?thesis by (auto simp: f aget_Cons aget_absent)
  next
    case False
    with Cons.prems(1) have "candidate_loop fieldPath pattern fs (m, selected) = Inr (m', selected')"
      "validateSafeRelativePath k False = None" by (simp_all add: f)
    with Cons.IH [OF this(1)] Cons.prems(2) False show ?thesis by (auto simp: f aget_Cons aget_absent)
  qed
qed simp

lemma sorted_files:
  assumes "map_ok files"
  shows "aget (sort_key fst files) k = aget files k" "distinct (map fst (sort_key fst files))"
proof -
  show d: "distinct (map fst (sort_key fst files))" using assms by (simp add: distinct_map_sort map_ok_def akeys_def)
  then have "map_ok (sort_key fst files)" by (simp add: map_ok_def akeys_def)
  then have "aget (sort_key fst files) k = Some d \<longleftrightarrow> aget files k = Some d" for d using assms by (simp add: aget_iff)
  then show "aget (sort_key fst files) k = aget files k" by (metis not_None_eq)
qed

lemma includes_selected:
  assumes "include_loop index seen files patterns selected = Inr selected'" "map_ok files"
  shows "(\<forall>k. aget selected' k = (if included patterns k \<and> ahas files k then aget files k else aget selected k)) \<and>
    (map_ok selected \<longrightarrow> map_ok selected') \<and> distinct patterns \<and> set patterns \<inter> set seen = {} \<and>
    (\<forall>p\<in>set patterns. \<exists>k. ahas files k \<and> included [p] k) \<and>
    (\<forall>k d. aget files k = Some d \<and> included patterns k \<longrightarrow> validateSafeRelativePath k False = None \<and> digest_Validate d = None)"
  using assms(1)
proof (induction patterns arbitrary: index seen selected)
  case (Cons pattern patterns)
  let ?p = "index_path ''$.spec.scenarios.include'' index"
  from Cons.prems obtain selected1 where c: "candidate_loop ?p pattern (sort_key fst files) (False, selected) = Inr (True, selected1)"
    and l: "include_loop (Suc index) (pattern # seen) files patterns selected1 = Inr selected'" and new: "pattern \<notin> set seen"
    by (auto simp: Let_def split: sum.splits if_splits)
  note f = sorted_files [OF assms(2)]
  note one = candidates_selected [OF c f(2)]
  note rest = Cons.IH [OF l]
  have inc: "included (pattern # patterns) k \<longleftrightarrow> globMatches pattern k \<or> included patterns k" for k
    by (auto simp: included_def globMatches_def glob_run_text)
  have here: "k \<in> fst ` set (sort_key fst files) \<longleftrightarrow> ahas files k" for k by (simp add: ahas_fst)
  have "\<exists>k. ahas files k \<and> included [pattern] k"
    using one here by (auto simp: included_def globMatches_def glob_run_text)
  moreover have "validateSafeRelativePath k False = None \<and> digest_Validate d = None" if "aget files k = Some d" "globMatches pattern k" for k d
    using one that aget_SomeD [OF that(1)] by auto
  moreover have "aget selected' k = (if included (pattern # patterns) k \<and> ahas files k then aget files k else aget selected k)" for k
    using one rest unfolding here inc f(1) by (auto split: if_splits)
  ultimately show ?case using one rest new unfolding inc by auto
qed (simp add: included_def)

lemma compiled_pack_steps:
  assumes "CompileProtocolPackYAML A canon sha raw o1 = Inr c"
  obtains p d selected where "decodeAuthoredYAML A raw = Inr p" "pack_check p = None" "snapshot_digest p o1 = Inr d" "pk_Include p \<noteq> []"
    "include_loop 0 [] (po_ScenarioFiles o1) (pk_Include p) [] = Inr selected" "pack_rest p = None" "cp_Authored c = p"
    "cp_IR c = pack_ir_of p \<lparr>pv_snapshotDigest = d, pv_scenarios = pins_of selected\<rparr>"
    "canon (cp_IR c) = Inr (cp_CanonicalJSON c)" "cp_Digest c = NewDigest sha (cp_CanonicalJSON c)"
proof -
  from assms obtain p v where p: "decodeAuthoredYAML A raw = Inr p" and v: "validatePack p o1 = Inr v"
    and k: "(case canon (pack_ir_of p v) of Inl e \<Rightarrow> Inl (CompileError StageCanonical ''$'' e)
       | Inr canonical \<Rightarrow> if pk_SigningDigest p \<noteq> [] \<and> pk_SigningDigest p \<noteq> NewDigest sha canonical
          then Inl (CompileError StageCanonical ''$.spec.signing.digest'' (Err ''declared digest does not match compiled digest''))
          else Inr \<lparr>cp_Authored = p, cp_IR = pack_ir_of p v, cp_CanonicalJSON = canonical, cp_Digest = NewDigest sha canonical\<rparr>) = Inr c"
    unfolding CompileProtocolPackYAML_def by (cases "decodeAuthoredYAML A raw") (auto simp: bind_res_Inr)
  from v obtain d selected where w: "pack_check p = None" "snapshot_digest p o1 = Inr d" "pk_Include p \<noteq> []"
    "include_loop 0 [] (po_ScenarioFiles o1) (pk_Include p) [] = Inr selected" "pack_rest p = None"
    "v = \<lparr>pv_snapshotDigest = d, pv_scenarios = pins_of selected\<rparr>"
    by (auto simp: validatePack_def bind_res_Inr)
  from k have "cp_Authored c = p" "cp_IR c = pack_ir_of p v" "canon (cp_IR c) = Inr (cp_CanonicalJSON c)"
    "cp_Digest c = NewDigest sha (cp_CanonicalJSON c)" by (auto split: sum.splits if_splits)
  with p w that show ?thesis by blast
qed

lemma pins_of_set: "map_ok selected \<Longrightarrow> n \<in> set (pins_of selected) \<longleftrightarrow> aget selected (sn_Path n) = Some (sn_Digest n)"
  by (cases n) (force simp: pins_of_def aget_iff)

lemma pins_of_sorted:
  assumes "map_ok selected"
  shows "sorted_wrt (<) (map sn_Path (pins_of selected))"
proof -
  have "distinct (map sn_Path (pins_of selected))" using assms by (simp add: pins_of_def distinct_map_sort o_def map_ok_def akeys_def)
  moreover have "sorted (map sn_Path (pins_of selected))" by (simp add: pins_of_def)
  ultimately show ?thesis by (simp add: strict_sorted_iff)
qed


lemma first_err_skip: "\<forall>x\<in>set xs. x = None \<Longrightarrow> first_err (xs @ ys) = first_err ys"
  by (induction xs) auto

text \<open>
  C17. The digest of a compiled pack can be written into the pack.  Let a pack compile, and let another document
  say the same with a digest in its signature.  If it is the digest of the first compilation, the second
  one gives the same projection, canonical text and digest; a well-formed other digest is refused as a
  mismatch, and a malformed one as a semantic error.
\<close>

theorem pack_signature_roundtrip:
  assumes "CompileProtocolPackYAML A canon sha raw o1 = Inr c" "decodeAuthoredYAML A raw' = Inr ((cp_Authored c)\<lparr>pk_SigningDigest := D\<rparr>)"
    and "D \<noteq> []" "\<forall>x. length (sha x) = 32"
  shows "CompileProtocolPackYAML A canon sha raw' o1 =
    (if D = cp_Digest c then Inr (c\<lparr>cp_Authored := (cp_Authored c)\<lparr>pk_SigningDigest := D\<rparr>\<rparr>)
     else (case digest_Validate D of
         None \<Rightarrow> Inl (CompileError StageCanonical ''$.spec.signing.digest'' (Err ''declared digest does not match compiled digest''))
       | Some e \<Rightarrow> Inl (semanticError ''$.spec.signing.digest'' (error_text e))))"
proof -
  from assms(1) obtain p d selected where p: "cp_Authored c = p" "pack_check p = None" "snapshot_digest p o1 = Inr d" "pk_Include p \<noteq> []"
    "include_loop 0 [] (po_ScenarioFiles o1) (pk_Include p) [] = Inr selected" "pack_rest p = None"
    "cp_IR c = pack_ir_of p \<lparr>pv_snapshotDigest = d, pv_scenarios = pins_of selected\<rparr>"
    and can: "canon (cp_IR c) = Inr (cp_CanonicalJSON c)" "cp_Digest c = NewDigest sha (cp_CanonicalJSON c)"
    by (rule compiled_pack_steps)
  let ?p = "p\<lparr>pk_SigningDigest := D\<rparr>" and ?v = "\<lparr>pv_snapshotDigest = d, pv_scenarios = pins_of selected\<rparr>"
  have rest: "pack_rest ?p = semantic_err ''$.spec.signing.digest'' (digest_Validate D)"
    using p(6) assms(3) by (auto simp: pack_rest_def semantic_if_def semantic_err_def first_err_skip first_err_Cons split: option.splits)
  have same: "pack_check ?p = None" "snapshot_digest ?p o1 = Inr d" and ir: "pack_ir_of (p\<lparr>pk_SigningDigest := X\<rparr>) ?v = cp_IR c" for X
    using p by (simp_all add: pack_check_def snapshot_digest_def pack_ir_of_def)
  have good: "digest_Validate (cp_Digest c) = None" using NewDigest_pattern assms(4) can(2) by (simp add: digest_Validate_None)
  have v: "validatePack ?p o1 = guard_res (pack_rest ?p) (Inr ?v)" using p(4,5) same by (simp add: validatePack_def semantic_if_def)
  have c: "c = \<lparr>cp_Authored = p, cp_IR = cp_IR c, cp_CanonicalJSON = cp_CanonicalJSON c, cp_Digest = cp_Digest c\<rparr>" using p(1) by simp
  show ?thesis
  proof (cases "digest_Validate D")
    case None
    then have "CompileProtocolPackYAML A canon sha raw' o1 =
        (if D \<noteq> cp_Digest c then Inl (CompileError StageCanonical ''$.spec.signing.digest'' (Err ''declared digest does not match compiled digest''))
         else Inr \<lparr>cp_Authored = ?p, cp_IR = cp_IR c, cp_CanonicalJSON = cp_CanonicalJSON c, cp_Digest = cp_Digest c\<rparr>)"
      using assms(2,3) can by (simp add: CompileProtocolPackYAML_def v rest p(1) ir semantic_err_def)
    then show ?thesis using None by (subst c) (simp add: p(1))
  next
    case (Some e)
    with good have "D \<noteq> cp_Digest c" by auto
    with Some assms(2) show ?thesis by (simp add: CompileProtocolPackYAML_def v rest p(1) semantic_err_def)
  qed
qed

section \<open>A sample\<close>

definition demo_digest :: digest where "demo_digest = ''sha256:'' @ replicate 64 (CHR ''a'')"

text \<open>A document that the parser reads as an empty mapping and that decodes to a given value, one per text.\<close>

definition demo_authoring :: "(string \<Rightarrow> 'a res) \<Rightarrow> 'a authoring" where
  "demo_authoring decode = \<lparr>au_first = (\<lambda>raw. Inr (Node DocumentNode [] [] [] False [Node MappingNode ''!!map'' [] [] False
       [Node ScalarNode ''!!str'' ''document'' [] False [], Node ScalarNode ''!!str'' raw [] False []]])),
     au_second = (\<lambda>_. NoDocument), au_finite = (\<lambda>_. True), au_schema = (\<lambda>_. None),
     au_marshal = (\<lambda>v. case v of JObject [(_, JString s)] \<Rightarrow> Inr s | _ \<Rightarrow> Inl (Err ''unexpected'')),
     au_decode = decode, au_trailing = (\<lambda>_. None)\<rparr>"

definition demo_sha :: "string \<Rightarrow> byte list" where "demo_sha _ = replicate 32 0"

definition empty_step :: "string \<Rightarrow> pack_step" where
  "empty_step i = \<lparr>st_ID = i, st_Invoke = None, st_Capture = None, st_RegisterResource = None, st_ProvideToolResult = None, st_WaitFor = None,
     st_Assert = None, st_Cancel = None, st_Replay = None, st_Finalize = None\<rparr>"

definition demo_template :: string where "demo_template = ''use {{ target.model }}!''"

definition call_step :: pack_step where
  "call_step = (empty_step ''call'')\<lparr>st_Invoke := Some \<lparr>is_Operation = ''chat'', is_Driver = ''raw'', is_Fixture = Some ''f/a.json'',
     is_Request = Some [(''model'', JString demo_template), (''n'', JArray [JNumber ''1'', JNull])]\<rparr>\<rparr>"

definition lease_step :: pack_step where
  "lease_step = (empty_step ''lease'')\<lparr>st_RegisterResource := Some (''session'', ''call.id'')\<rparr>"

definition assert_step :: pack_step where
  "assert_step = (empty_step ''check'')\<lparr>st_Assert := Some
     [\<lparr>pa_Use = [], pa_Expression = ''true'', pa_Equals = [], pa_Role = RoleNormative, pa_ObservedAt = [], pa_Requirement = ''rule.a''\<rparr>]\<rparr>"

definition demo_resource :: resource_lease where
  "demo_resource = \<lparr>rl_ID = ''session'', rl_AcquireFrom = ''call.id'', rl_SideEffectClass = SideEffectReversibleRemote, rl_Operation = ''delete'',
     rl_Idempotent = Some True, rl_MaxAttempts = 2, rl_Requests = 1, rl_Duration = 1\<rparr>"

definition demo_scenario :: pack_scenario where
  "demo_scenario = \<lparr>ps_APIVersion = ScenarioAPIVersion, ps_Kind = ScenarioKind,
     ps_Metadata = \<lparr>sm_ID = ''sample'', sm_Version = ''1.0.0'', sm_Title = ''sample'', sm_Labels = []\<rparr>,
     ps_Spec = \<lparr>sp_Protocol = \<lparr>pb_Family = ''chat'', pb_Snapshot = ''s'', pb_Digest = demo_digest\<rparr>,
       sp_Classification = \<lparr>cf_Type = ClassNormative, cf_Stability = StabilityStable, cf_SideEffects = SideEffectReversibleRemote, cf_Idempotent = Some True\<rparr>,
       sp_Requirements = [\<lparr>rr_ID = ''rule.a'', rr_Level = LevelMust\<rparr>], sp_Requires = \<lparr>cr_All = [''chat''], cr_Any = [], cr_None = []\<rparr>,
       sp_Budgets = \<lparr>sb_Timeout = 5, sb_MaxRequests = 1, sb_MaxInputTokens = 0, sb_MaxOutputTokens = 0, sb_MaxResponseBytes = 0, sb_MaxArtifactBytes = 1\<rparr>,
       sp_Steps = [call_step, lease_step, assert_step], sp_Resources = [demo_resource], sp_Finally = [''session''],
       sp_Count = 0, sp_Policy = [], sp_DataClass = ''synthetic-only''\<rparr>\<rparr>"

definition demo_cel :: cel_lib where
  "demo_cel = \<lparr>cl_NewEnv = None, cl_Compile = (\<lambda>_. Inr \<lparr>ca_isBool = True, ca_checked = Inr OtherExpr, ca_cost = Inr 3, ca_program = (\<lambda>_. None)\<rparr>)\<rparr>"

definition demo_env :: pack_env where "demo_env = \<lparr>pe_cel = demo_cel, pe_canonicalize = Inr\<rparr>"

definition demo_options :: compile_options where
  "demo_options = \<lparr>co_Requirements = [(''rule.a'', \<lparr>rq_ID = ''rule.a'', rq_Level = LevelMust, rq_SourceDigest = demo_digest, rq_Category = ClassNormative\<rparr>)],
     co_Fixtures = [(''f/a.json'', demo_digest)], co_AllowedVariables = None, co_MaxCELCost = 0\<rparr>"

definition demo_compile :: "compiled_scenario compiled" where
  "demo_compile = CompileScenarioYAML (demo_authoring (\<lambda>_. Inr demo_scenario)) demo_env (\<lambda>_. Inr ''ir'') demo_sha ''s'' demo_options"

lemma demo_decode:
  assumes "raw \<noteq> []" "length raw < 100" "utf8_Valid raw"
  shows "decodeAuthoredYAML (demo_authoring decode) raw = (case decode raw of Inl e \<Rightarrow> Inl (Wrap ''decode authored contract'' e) | Inr a \<Rightarrow> Inr a)"
  using assms by (simp add: decodeAuthoredYAML_def demo_authoring_def raw_check_def parse_document_def root_mapping_def node_guard_def
    key_check_def scalar_check_def scalarToJSON_def decode_contract_def MaxAuthoredYAMLBytes_def maxYAMLNodes_def maxYAMLDepth_def
    aput_def split: sum.splits)

text \<open>The parts are evaluated one by one.\<close>

lemma demo_facts: "validateSafeRelativePath ''f/a.json'' False = None" "digest_Validate demo_digest = None"
  "template_variables demo_template = [''target.model'']" "\<not> template_malformed demo_template"
  "sort_key fst [(''model'', JString demo_template), (''n'', JArray [JNumber ''1'', JNull])] =
     [(''model'', JString demo_template), (''n'', JArray [JNumber ''1'', JNull])]"
  "artifactNamePattern ''chat'' \<and> artifactNamePattern ''raw''" "referenceRoot ''call.id'' = ''call''"
  by code_simp+

lemma demo_cel_ok: "compileCEL demo_cel ''true'' 1000 = Inr \<lparr>cc_Source = ''true'', cc_EstimatedCost = 3\<rparr>"
proof -
  have "trim_space ''true'' = ''true''" by (rule trim_visible) (simp_all add: code_def)
  then show ?thesis by (simp add: compileCEL_def demo_cel_def checked_ast_def maxCELSourceBytes_def AbsoluteMaxCELCost_def)
qed

abbreviation demo_binding :: template_binding where
  "demo_binding \<equiv> \<lparr>tb_Path = index_path ''$.spec.steps'' 0 @ ''.invoke.request.model'', tb_Variables = [''target.model'']\<rparr>"

lemma call_step_ok:
  assumes "sv_options sv = default_options demo_options"
  shows "validateStep E s 0 call_step sv = Inr (call_step, sv\<lparr>sv_fixtures := aput ''f/a.json'' demo_digest (sv_fixtures sv),
    sv_templateBindings := sv_templateBindings sv @ [demo_binding]\<rparr>)"
  using assms demo_facts
  by (simp add: validateStep_def call_step_def empty_step_def same_step_def step_invoke_def resolveFixture_def dynamic_fixture_def semantic_if_def
    validateTemplates_def allowed_variables_def default_options_def demo_options_def aget_def)

lemma lease_step_ok:
  assumes "aget (sv_stepIndexes sv) ''call'' = Some 0" "ahas (sv_resources sv) ''session''"
  shows "validateStep E s 1 lease_step sv = Inr (lease_step, sv)"
  using assms demo_facts
  by (simp add: validateStep_def lease_step_def empty_step_def same_step_def step_register_def requirePreviousReference_def semantic_if_def)

lemma assert_step_ok:
  assumes "sv_options sv = default_options demo_options" "sp_Requirements (ps_Spec s) = [\<lparr>rr_ID = ''rule.a'', rr_Level = LevelMust\<rparr>]"
  shows "\<exists>sv1. validateStep demo_env s 2 assert_step sv = Inr (assert_step, sv1) \<and> sv_stepIndexes sv1 = sv_stepIndexes sv"
  using assms demo_facts demo_cel_ok
  by (simp add: validateStep_def assert_step_def empty_step_def step_assert_def validate_pack_assertion_def assertion_check_def
    linkAssertionRequirement_def normative_requirement_def requirementRecord_def canonical_equals_def bind_expression_def
    demo_env_def default_options_def demo_options_def aget_def semantic_if_def DefaultMaxCELCost_def link_requirement_def add_cel_def)

lemma demo_metadata: "metadata_check (default_repetition demo_scenario) = None"
proof -
  have "resourceNamePattern ''sample''" "semverPattern ''1.0.0''" by code_simp+
  moreover have "\<not> blank ''sample''" "\<not> blank ''s''" by (rule trim_visible; simp add: code_def)+
  moreover have "validateRepetition 1 ''all'' = None" by (simp add: validateRepetition_def)
  ultimately show ?thesis using demo_facts(2,6)
    by (simp add: metadata_check_def default_repetition_def demo_scenario_def semantic_if_def semantic_err_def sort_strings_def akeys_def
      validateClassification_def validateScenarioBudget_def byte_size_Validate_def duration_Validate_def)
qed

lemma demo_prefix:
  "semantic_err ''$.spec.requires'' (validateCapabilities (sp_Requires (ps_Spec demo_scenario))) = None"
  "resource_check (index_path ''$.spec.resources'' 0) (sp_Classification (ps_Spec demo_scenario)) demo_resource (new_validation demo_options) = None"
  "\<forall>i\<in>set [''call'', ''lease'', ''check'']. resourceNamePattern i"
  by code_simp+

lemma demo_resources_ok:
  assumes "sv_resources sv = []"
  shows "indexResources [demo_resource] (sp_Classification (ps_Spec demo_scenario)) sv = Inr (sv\<lparr>sv_resources := [(''session'', demo_resource)]\<rparr>)"
proof -
  have "resource_check (index_path ''$.spec.resources'' 0) (sp_Classification (ps_Spec demo_scenario)) demo_resource sv = None"
    using demo_prefix(2) assms by (simp add: resource_check_def new_validation_def)
  then show ?thesis using assms by (simp add: indexResources_def demo_scenario_def demo_resource_def aput_def)
qed

lemma demo_requirements_ok: "\<exists>sv. validateRequirements [\<lparr>rr_ID = ''rule.a'', rr_Level = LevelMust\<rparr>] (new_validation demo_options) = Inr sv \<and>
    sv_options sv = default_options demo_options \<and> sv_resources sv = [] \<and> sv_stepIndexes sv = []"
  using demo_facts(2)
  by (simp add: validateRequirements_def new_validation_def requirementRecord_def link_requirement_def default_options_def demo_options_def aget_def)

definition demo_spec :: scenario_spec where "demo_spec = ps_Spec (default_repetition demo_scenario)"

lemma demo_steps_ok:
  assumes "sv_options sv = default_options demo_options" "sv_stepIndexes sv = []" "sv_resources sv = [(''session'', demo_resource)]"
    and "s = default_repetition demo_scenario"
  shows "\<exists>sv1. validateSteps demo_env s sv = Inr (s, sv1) \<and> ahas (sv_stepIndexes sv1) ''call''"
proof -
  let ?at = "\<lambda>st i sv. sv\<lparr>sv_stepIndexes := aput (st_ID st) i (sv_stepIndexes sv)\<rparr>"
  have ids: "st_ID call_step = ''call''" "st_ID lease_step = ''lease''" "st_ID assert_step = ''check''"
    by (simp_all add: call_step_def lease_step_def assert_step_def empty_step_def)
  have one: "countStepVariants call_step = 1" "countStepVariants lease_step = 1" "countStepVariants assert_step = 1"
    by (simp_all add: call_step_def lease_step_def assert_step_def empty_step_def countStepVariants_def)
  obtain sv1 where s1: "validateStep demo_env s 0 call_step (?at call_step 0 sv) = Inr (call_step, sv1)"
    "sv_options sv1 = default_options demo_options" "sv_stepIndexes sv1 = [(''call'', 0)]" "sv_resources sv1 = sv_resources sv"
    using call_step_ok [of "?at call_step 0 sv"] assms by (simp add: ids aput_def)
  have s2: "validateStep demo_env s 1 lease_step (?at lease_step 1 sv1) = Inr (lease_step, ?at lease_step 1 sv1)"
    using lease_step_ok [of "?at lease_step 1 sv1"] assms s1 by (simp add: ids aput_def aget_def ahas_def)
  have req: "sp_Requirements (ps_Spec s) = [\<lparr>rr_ID = ''rule.a'', rr_Level = LevelMust\<rparr>]" "sp_Steps (ps_Spec s) = [call_step, lease_step, assert_step]"
    by (simp_all add: assms(4) default_repetition_def demo_scenario_def)
  obtain sv3 where s3: "validateStep demo_env s 2 assert_step (?at assert_step 2 (?at lease_step 1 sv1)) = Inr (assert_step, sv3)"
    "sv_stepIndexes sv3 = [(''call'', 0), (''lease'', 1), (''check'', 2)]"
    using assert_step_ok [of "?at assert_step 2 (?at lease_step 1 sv1)" s] s1 req by (auto simp: ids aput_def)
  have "step_loop demo_env s 0 [call_step, lease_step, assert_step] sv = Inr ([call_step, lease_step, assert_step], sv3)"
    using s1 s2 s3 one demo_prefix(3) assms(2) by (simp add: step_check_def semantic_if_def ids ahas_def aget_def aput_def numeral_2_eq_2)
  then show ?thesis using s3(2) req(2) by (simp add: validateSteps_def ahas_def aget_def)
qed

definition demo_canon :: "scenario_ir \<Rightarrow> string res" where "demo_canon _ = Inr ''ir''"

lemma demo_compiles: "\<exists>c. CompileScenarioYAML (demo_authoring (\<lambda>_. Inr demo_scenario)) demo_env demo_canon demo_sha ''s'' demo_options = Inr c \<and>
    sir_Scenario (cs_IR c) = default_repetition demo_scenario"
proof -
  let ?s = "default_repetition demo_scenario"
  have f: "sp_Requirements (ps_Spec ?s) = [\<lparr>rr_ID = ''rule.a'', rr_Level = LevelMust\<rparr>]" "sp_Resources (ps_Spec ?s) = [demo_resource]"
    "sp_Finally (ps_Spec ?s) = [''session'']" "sp_Classification (ps_Spec ?s) = sp_Classification (ps_Spec demo_scenario)"
    "sp_Requires (ps_Spec ?s) = sp_Requires (ps_Spec demo_scenario)"
    by (simp_all add: default_repetition_def demo_scenario_def)
  have d: "decodeAuthoredYAML (demo_authoring (\<lambda>_. Inr demo_scenario)) ''s'' = Inr demo_scenario"
    by (subst demo_decode) (simp_all add: utf8_Valid_ascii code_def)
  obtain sv1 where r: "validateRequirements [\<lparr>rr_ID = ''rule.a'', rr_Level = LevelMust\<rparr>] (new_validation demo_options) = Inr sv1"
    "sv_options sv1 = default_options demo_options" "sv_resources sv1 = []" "sv_stepIndexes sv1 = []" using demo_requirements_ok by blast
  define sv2 where "sv2 = sv1\<lparr>sv_resources := [(''session'', demo_resource)]\<rparr>"
  obtain sv3 where s: "validateSteps demo_env ?s sv2 = Inr (?s, sv3)" "ahas (sv_stepIndexes sv3) ''call''"
    using demo_steps_ok [of sv2 ?s] r by (auto simp: sv2_def)
  have cost: "\<not> co_MaxCELCost (sv_options (new_validation demo_options)) > AbsoluteMaxCELCost" by code_simp
  have fin: "validateResourceReferencesAndFinally ?s sv3 = None"
    using s(2) demo_facts(7) f by (simp add: validateResourceReferencesAndFinally_def requireAnyStepReference_def demo_resource_def semantic_if_def)
  have "validateScenario demo_env ?s demo_options = Inr (?s, sv3\<lparr>sv_templateBindings := sort_key tb_Path (sv_templateBindings sv3)\<rparr>)"
    using demo_metadata demo_prefix(1) cost r demo_resources_ok [OF r(3)] s(1) fin
    by (simp add: validateScenario_def f Let_def flip: sv2_def)
  then show ?thesis by (simp add: CompileScenarioYAML_def d demo_canon_def)
qed

abbreviation demo_run :: "compiled_scenario compiled" where
  "demo_run \<equiv> CompileScenarioYAML (demo_authoring (\<lambda>_. Inr demo_scenario)) demo_env demo_canon demo_sha ''s'' demo_options"

theorem compiled_scenario_resolved_witness:
  "\<exists>c. demo_run = Inr c \<and> (let spec = ps_Spec (sir_Scenario (cs_IR c)) in
     map st_ID (sp_Steps spec) = [''call'', ''lease'', ''check''] \<and> distinct (map st_ID (sp_Steps spec)) \<and>
     (\<exists>i<1. st_ID (sp_Steps spec ! i) = referenceRoot ''call.id'') \<and> sp_Finally spec = rev (map rl_ID (sp_Resources spec)))"
proof -
  obtain c where c: "demo_run = Inr c" "sir_Scenario (cs_IR c) = default_repetition demo_scenario" using demo_compiles by blast
  have st: "sp_Steps (ps_Spec (default_repetition demo_scenario)) = [call_step, lease_step, assert_step]"
    by (simp add: default_repetition_def demo_scenario_def)
  note t = compiled_scenario_resolved [OF c(1) refl, unfolded c(2) st]
  from t have "\<forall>j<length [call_step, lease_step, assert_step].
      \<forall>r\<in>set (step_references ([call_step, lease_step, assert_step] ! j)). \<exists>i<j. st_ID ([call_step, lease_step, assert_step] ! i) = referenceRoot r"
    by blast
  from this [THEN spec, of 1] have "\<exists>i<1. st_ID ([call_step, lease_step, assert_step] ! i) = referenceRoot ''call.id''"
    by (simp add: step_references_def lease_step_def empty_step_def)
  then show ?thesis using c t by (simp add: st Let_def) (simp add: call_step_def lease_step_def assert_step_def empty_step_def)
qed



definition demo_pack :: protocol_pack where
  "demo_pack = \<lparr>pk_APIVersion = PackAPIVersion, pk_Kind = PackKind, pk_Name = ''p'', pk_Version = ''2025.01.0'', pk_MinVersion = ''0.1.0'', pk_MaxMajor = 1,
     pk_SnapshotRef = ''snap.json'', pk_Include = [''**/*.yaml''], pk_Suites = [(''core'', [''rule.a''])], pk_MaxRequests = 1, pk_MaxDuration = 1,
     pk_SigningDigest = []\<rparr>"

definition demo_files :: pack_options where
  "demo_files = \<lparr>po_ProtocolSnapshots = [(''snap.json'', demo_digest)], po_ScenarioFiles = [(''x.txt'', demo_digest), (''a/b.yaml'', demo_digest)]\<rparr>"

definition signed_authoring :: "protocol_pack authoring" where
  "signed_authoring = demo_authoring (\<lambda>raw. Inr (if raw = ''p'' then demo_pack else demo_pack\<lparr>pk_SigningDigest := NewDigest demo_sha ''ir''\<rparr>))"

abbreviation demo_pack_run :: "string \<Rightarrow> compiled_pack compiled" where
  "demo_pack_run raw \<equiv> CompileProtocolPackYAML signed_authoring (\<lambda>_. Inr ''ir'') demo_sha raw demo_files"

lemma demo_globs: "globMatches ''**/*.yaml'' ''a/b.yaml''" "\<not> globMatches ''**/*.yaml'' ''x.txt''"
  by (simp_all add: globMatches_def runes_def decode_rune_def code_def slash_rune_def newline_rune_def)

lemma demo_pack_checks: "pack_check demo_pack = None" "pack_rest demo_pack = None"
  "validateSafeRelativePath ''**/*.yaml'' True = None" "validateSafeRelativePath ''a/b.yaml'' False = None" "validateSafeRelativePath ''x.txt'' False = None"
  "sort_key fst (po_ScenarioFiles demo_files) = [(''a/b.yaml'', demo_digest), (''x.txt'', demo_digest)]"
  by code_simp+

lemma signed_decode: "decodeAuthoredYAML signed_authoring ''p'' = Inr demo_pack"
  "decodeAuthoredYAML signed_authoring ''q'' = Inr (demo_pack\<lparr>pk_SigningDigest := NewDigest demo_sha ''ir''\<rparr>)"
  unfolding signed_authoring_def by (subst demo_decode; simp add: utf8_Valid_ascii code_def)+

lemma demo_pack_compiles: "\<exists>c. demo_pack_run ''p'' = Inr c \<and> cp_Authored c = demo_pack \<and> cp_Digest c = NewDigest demo_sha ''ir''"
proof -
  have l: "include_loop 0 [] (po_ScenarioFiles demo_files) [''**/*.yaml''] [] = Inr [(''a/b.yaml'', demo_digest)]"
    using demo_globs demo_facts(2) demo_pack_checks(3,4,5) by (simp add: demo_pack_checks(6) semantic_if_def aput_def)
  have "\<exists>v. validatePack demo_pack demo_files = Inr v"
    using l demo_pack_checks(1,2) demo_facts(2)
    by (simp add: validatePack_def snapshot_digest_def demo_pack_def demo_files_def aget_def semantic_if_def)
  then show ?thesis by (auto simp: CompileProtocolPackYAML_def signed_decode demo_pack_def)
qed


theorem pack_signature_roundtrip_witness:
  "\<exists>c c'. demo_pack_run ''p'' = Inr c \<and> demo_pack_run ''q'' = Inr c' \<and> cp_IR c' = cp_IR c \<and> pk_SigningDigest (cp_Authored c) = [] \<and>
     pk_SigningDigest (cp_Authored c') = cp_Digest c"
proof -
  obtain c where c: "demo_pack_run ''p'' = Inr c" "cp_Authored c = demo_pack" "cp_Digest c = NewDigest demo_sha ''ir''"
    using demo_pack_compiles by blast
  have d: "decodeAuthoredYAML signed_authoring ''q'' = Inr ((cp_Authored c)\<lparr>pk_SigningDigest := NewDigest demo_sha ''ir''\<rparr>)"
    by (simp add: c(2) signed_decode)
  have "demo_pack_run ''q'' = Inr (c\<lparr>cp_Authored := (cp_Authored c)\<lparr>pk_SigningDigest := NewDigest demo_sha ''ir''\<rparr>\<rparr>)"
    using pack_signature_roundtrip [OF c(1) d] c(3) by (simp add: NewDigest_def demo_sha_def)
  with c show ?thesis by (simp add: demo_pack_def)
qed

end
