(* ===== verification/Spec2Isabelle.thy ===== *)
theory Spec2Isabelle
  imports ResponseMachine BudgetLedger DriverMachine Minimizer Attribution Planner Report Provenance RegistryPurge RegistryDispute
    RateLimit RegistryStore RawDriver PackCompile
begin

text \<open>
  A verification library for agentapi-doctor, a conformance tester of model-serving HTTP interfaces.  It
  models the Go code under \<open>src/\<close> that decides: what a run may do, what it spends, what it concludes about a
  target, what it signs, and what the public registry of results accepts.

  \<^bold>\<open>The program and its models.\<close> Test packs are authored in YAML and compiled to pinned
  scenarios (\<open>pkg/packapi\<close>). A user's request becomes an intent plan, which is resolved against
  observed capabilities (\<open>internal/planner\<close>). The executor (\<open>internal/executor\<close>)
  walks the resolved plan, reserves from a budget ledger (\<open>internal/budget\<close>), and runs each
  scenario through a driver. The built-in driver (\<open>internal/rawdriver\<close>) looks the scenario up,
  records the exchange as evidence (\<open>internal/recorder\<close>), decodes the response, streamed or not,
  into normalized items (\<open>internal/normalizer\<close>) and events of the response state machine
  (\<open>internal/statemachine\<close>), and judges them with oracles (\<open>internal/oracle\<close>); other
  drivers are processes that speak a framed protocol (\<open>pkg/driverprotocol\<close>). Results become
  reports and baselines (\<open>internal/report\<close>), a hash-chained journal and signed envelopes
  (\<open>internal/provenance\<close>); failures are attributed (\<open>internal/attribution\<close>) and
  minimized (\<open>internal/minimizer\<close>). The registry (\<open>internal/registry\<close>,
  \<open>registry/api\<close>) takes in observations, decides ownership, disputes and purges, and is served
  behind a rate limiter.

  \<^item> Foundations.  \<open>Prelude\<close>: Go errors, early-return chains (\<open>first_err\<close>, \<open>guard_res\<close>), maps as association
    lists, 64-bit words, \<open>named_theorems\<close>.  \<open>GoStd\<close>: the fragments of the standard library that the code calls
    (UTF-8, \<open>strings\<close>, \<open>strconv\<close>, times, hexadecimal).  \<open>Machines\<close>: the interfaces as locales, see below.
  \<^item> \<open>SchemaCore\<close>, \<open>SchemaPlan\<close>, \<open>SchemaResult\<close> model \<open>pkg/schema\<close>: digests, identifiers and envelopes; plans and
    the check of their dependency graph; results, findings, evidence and items.
  \<^item> \<open>ResponseMachine\<close> models \<open>internal/statemachine/response.go\<close>.  The code is shown to implement a declarative
    step relation, to keep its invariant without ever panicking, and to reconstruct arguments exactly.
  \<^item> \<open>BudgetLedger\<close> models \<open>internal/budget/ledger.go\<close> on wrapping 64-bit words: reservations and the reserved
    total agree after every history, admission is within every hard limit when no sum wraps (and an example
    shows that this is needed), settlement happens once.
  \<^item> \<open>Planner\<close> models \<open>internal/planner/planner.go\<close>: what an intent plan authorizes and how a resolution decides.
  \<^item> \<open>Executor\<close> models \<open>internal/executor/executor.go\<close>: every valid plan is executed to a result, no reservation
    stays open, and the cases of a run answer the plan.  Runners, clocks, identifiers and the context are a
    record of functions on an environment state.
  \<^item> \<open>RawScenario\<close>, \<open>RawDecoder\<close>, \<open>RawEvaluate\<close>, \<open>RawDriver\<close> model \<open>internal/rawdriver\<close>: \<open>registry.go\<close>, then
    \<open>evaluate.go\<close> in two parts (the stream decoder, and the checks with their combination), then \<open>runner.go\<close>.
    The properties reach from the bytes of a body to the verdict, and from \<open>Run\<close> to what the executor relies
    on: the driver's outcomes are well formed, its failures are accounted for as reported, and a run stays
    within its estimate.
  \<^item> \<open>SseAssembler\<close> and \<open>Recorder\<close> model \<open>internal/recorder\<close>: the incremental assembler gives the events of a
    buffer-free reference for every cut of the stream; evidence is valid and numbered without gaps.
  \<^item> \<open>Normalizer\<close> and \<open>Oracle\<close> model \<open>internal/normalizer\<close> and \<open>internal/oracle\<close>: each oracle's verdict is
    characterised by a declarative predicate, and none blames a target on missing evidence.
  \<^item> \<open>PackAuthoring\<close>, \<open>PackScenario\<close>, \<open>PackValidate\<close>, \<open>PackResolved\<close>, \<open>PackCompile\<close> model \<open>pkg/packapi\<close>, which
    compiles authored test packs: \<open>yaml.go\<close> (the walk over YAML nodes, shown equivalent to reading a tree),
    \<open>types.go\<close>, \<open>template.go\<close> and \<open>cel.go\<close>, the scenario part of \<open>validate.go\<close>, lemmas on what a validated step
    has resolved, and \<open>compile.go\<close> with packs and their include patterns.  A compiled scenario refers to earlier
    steps only, is closed over supplied digests, cleans up in reverse order and its templates expand; a
    compiled pack pins the files that its patterns denote.
  \<^item> \<open>DriverProtocol\<close> and \<open>DriverMachine\<close> model \<open>pkg/driverprotocol\<close>: frames round-trip, the buffered decoder
    equals a line-by-line one, and sessions keep their lifecycle.
  \<^item> \<open>Minimizer\<close>, \<open>Attribution\<close>, \<open>Report\<close>, \<open>Provenance\<close> model the packages of these names: bounded
    delta debugging is safe for any predicate and 1-minimal for a deterministic one; attribution is
    conservative; comparisons are complete; journals are tamper-evident and envelopes are accepted only with
    a threshold of valid, distinct signatures.
  \<^item> \<open>RegistryDomain\<close>, \<open>RegistryPurge\<close>, \<open>RegistryOwnership\<close>, \<open>RegistryDispute\<close> model \<open>internal/registry\<close>;
    \<open>RegistryObservation\<close> models \<open>registry/api/observation.go\<close>; \<open>RegistryStore\<close> models the in-memory store, with
    published objects never replaced and listings complete; \<open>RateLimit\<close> models the request limiter.

  \<^bold>\<open>Interfaces.\<close>  The stateful parts share contracts that are stated once as locales and interpreted on the
  code's definitions in the theory of the component.  \<open>invariant_machine\<close>, \<open>guarded_machine\<close> (a refused request
  changes nothing), \<open>lifecycle_machine\<close> (a rank never decreases) and \<open>journal_machine\<close> (a journal only grows)
  are interpreted on the response machine, the driver session, the ledger, the run journal, ingest, purge,
  ownership, disputes, the scenario registry and the store; \<open>reservation_ledger\<close> is what the executor uses of
  the ledger; \<open>write_once_store\<close> holds for five tables of the registry store and for the scenario registry;
  \<open>conservative_oracle\<close> holds for the three oracles; \<open>scenario_source\<close> is what the raw driver uses of its
  registry.

  \<^bold>\<open>Choices.\<close>  Errors are values with the constant part of their text, and \<open>Wrap\<close> is \<open>%w\<close>.  Go maps are
  association lists with unique keys; where the code iterates over a map in Go's unspecified order the result
  does not depend on it, or the model fixes an order and says so.  Fields of type \<open>int64\<close> and \<open>uint64\<close> are words;
  lengths and counters of slices are \<open>nat\<close> or \<open>int\<close>.  Strings are byte sequences.  Copies of values that the
  code makes against aliasing are the identity; pointers that the registry store shares are addresses in a
  heap.  Mutexes serialise calls, so concurrency is an arbitrary sequence of calls.  \<open>Expected\<close> and \<open>Observed\<close>
  of an oracle outcome inform a reader and no code branches on them; the oracles leave them out, and the
  driver takes their redacted form as a parameter.

  \<^bold>\<open>Parameters.\<close>  Code outside the repository's own packages is an argument: JSON decoding
  and canonical JSON, the YAML parser, the JSON Schema validator and the CEL compiler, SHA-256, Ed25519 and
  base64, URL and media-type parsing, the HTTP exchange, the content-addressed store, redaction, clocks,
  identifiers and contexts. The properties hold for every argument, or name the law that they need
  (canonicalization is idempotent, digests are collision-free, a signature verifies), and a witness
  instantiates it.

  \<^bold>\<open>Termination.\<close>  Loops are structural or have a measure: the length of the input for UTF-8 decoding and for
  the assembler's buffer, the evaluations left for delta debugging.  \<open>DDMin\<close> takes the code's own evaluation
  budget; with \<open>n\<close> elements, \<open>Attempts * (n * (n + 1)^2 + 1)\<close> evaluations are shown to be enough.  Following the
  cursors of a listing takes at most one page more than there are observations, and that much fuel is used
  and shown to suffice.

  \<^bold>\<open>Not modelled.\<close>  Canonical JSON and the text of times are library calls.  Files, sockets and databases
  (\<open>internal/cas\<close>, \<open>internal/runstore\<close>, \<open>internal/transport\<close>, the SQLite store) are parameters of the parts that
  use them.  Confidence intervals (\<open>internal/statistics\<close>) are float64 arithmetic.  The redactor is a set of
  regular expressions.  Renderers, the command line, configuration, the HTTP handlers of the registry, the
  catalogs, the reference servers and the release checks format or wire what is modelled here.  The JSON Schema
  documents of test packs are data for a library.
\<close>

end
